(* ===== verification/Prelude.thy ===== *)
theory Prelude
  imports Main "HOL-Library.Word" "HOL-Library.Signed_Division" "HOL-Library.State_Monad"
begin

text \<open>
  What every component of the model shares: Go's error values and 64-bit integers, the
  early-return idiom of Go over the library's state monad, a small calculus of
  preserved predicates for monadic programs, and the row operations of an SQL table
  kept as a list of records in insertion order.
\<close>

named_theorems run_simps "equations that run a monadic program on a state"
named_theorems keeps_intros "rules that show a program preserves a predicate"

section \<open>Errors\<close>

text \<open>
  A Go function that returns \<open>(T, error)\<close> returns a value of \<open>'a res\<close>:
  \<open>Inl\<close> for a non-nil error. \<open>Wrap m e\<close> is \<open>fmt.Errorf("m: %w", e)\<close>, which
  \<open>errors.Is\<close> looks through; an error built without \<open>%w\<close> is an \<open>ErrMsg\<close>.
\<close>

datatype goerr =
    ErrNoRows
  | ErrDb string
  | ErrMsg string
  | Wrap string goerr

type_synonym 'a res = "goerr + 'a"

fun is_no_rows :: "goerr \<Rightarrow> bool" where
  "is_no_rows ErrNoRows = True"
| "is_no_rows (Wrap _ e) = is_no_rows e"
| "is_no_rows _ = False"

definition succeeded :: "'a res \<Rightarrow> bool" where
  "succeeded r = (case r of Inl _ \<Rightarrow> False | Inr _ \<Rightarrow> True)"

lemma succeeded_simps [simp]: "succeeded (Inr v)" "\<not> succeeded (Inl e)"
  by (simp_all add: succeeded_def)

section \<open>Machine integers\<close>

text \<open>
  Go's \<open>int64\<close> wraps around; PostgreSQL's \<open>BIGINT\<close> raises an error instead. Both
  are kept as \<open>int\<close>: \<open>i64\<close> writes the wrap-around of Go out and \<open>in_i64\<close> is
  the range that a \<open>BIGINT\<close> column accepts. Division and remainder of Go truncate
  towards zero, which are \<open>sdiv\<close> and \<open>smod\<close> of the library.
\<close>

definition i64 :: "int \<Rightarrow> int" where
  "i64 x = (x + 2 ^ 63) mod 2 ^ 64 - 2 ^ 63"

definition in_i64 :: "int \<Rightarrow> bool" where
  "in_i64 x \<longleftrightarrow> - (2 ^ 63) \<le> x \<and> x < 2 ^ 63"

lemma i64_id: "in_i64 x \<Longrightarrow> i64 x = x"
  by (simp add: i64_def in_i64_def)

lemma in_i64_i64 [simp]: "in_i64 (i64 x)"
proof -
  have "0 \<le> (x + 2 ^ 63) mod 2 ^ 64" "(x + 2 ^ 63) mod 2 ^ 64 < (2 ^ 64 :: int)"
    by simp_all
  then show ?thesis by (simp add: i64_def in_i64_def)
qed

lemma i64_idem [simp]: "i64 (i64 x) = i64 x"
  by (simp add: i64_id)

text \<open>The wrap-around written out is the one of 64-bit words.\<close>

lemma i64_word: "i64 x = sint (word_of_int x :: 64 word)"
proof -
  have "sint (word_of_int x :: 64 word) = signed_take_bit 63 x"
    by transfer simp
  also have "\<dots> = take_bit 64 (x + 2 ^ 63) - 2 ^ 63"
    by (simp add: signed_take_bit_eq_take_bit_shift)
  finally show ?thesis
    by (simp add: i64_def take_bit_eq_mod)
qed

lemma i64_below: "in_i64 a \<Longrightarrow> in_i64 b \<Longrightarrow> 2 ^ 63 \<le> a + b \<Longrightarrow> i64 (a + b) = a + b - 2 ^ 64"
proof -
  assume a: "in_i64 a" "in_i64 b" "2 ^ 63 \<le> a + b"
  then have "(a + b + 2 ^ 63 - 2 ^ 64) mod 2 ^ 64 = a + b + 2 ^ 63 - 2 ^ 64"
    by (simp add: in_i64_def)
  moreover have "(a + b + 2 ^ 63) mod 2 ^ 64 = (a + b + 2 ^ 63 - 2 ^ 64) mod (2 ^ 64 :: int)"
    by (metis minus_mod_self2)
  ultimately show ?thesis by (simp add: i64_def)
qed

section \<open>Programs\<close>

text \<open>
  A method is a program of the library's state monad over a state \<open>'s\<close>, with a result
  of type \<open>'a res\<close>. \<open>or_return m w k\<close> is Go's
  \<open>v, err := m; if err != nil { return w(err) }; k(v)\<close>.
\<close>

type_synonym ('s, 'a) go = "('s, 'a res) state"

abbreviation ok :: "'a \<Rightarrow> ('s, 'a) go" where
  "ok v \<equiv> State_Monad.return (Inr v)"

abbreviation fail :: "goerr \<Rightarrow> ('s, 'a) go" where
  "fail e \<equiv> State_Monad.return (Inl e)"

definition or_return ::
  "('s, 'a) go \<Rightarrow> (goerr \<Rightarrow> goerr) \<Rightarrow> ('a \<Rightarrow> ('s, 'b) go) \<Rightarrow> ('s, 'b) go" where
  "or_return m w k =
     State_Monad.bind m (\<lambda>r. case r of Inl e \<Rightarrow> fail (w e) | Inr v \<Rightarrow> k v)"

lemma run_or_return:
  "run_state (or_return m w k) s =
     (case run_state m s of
        (Inl e, s') \<Rightarrow> (Inl (w e), s')
      | (Inr v, s') \<Rightarrow> run_state (k v) s')"
  by (simp add: or_return_def split: prod.splits sum.splits)

lemma run_or_return_Inr [run_simps]:
  "run_state m s = (Inr v, s') \<Longrightarrow> run_state (or_return m w k) s = run_state (k v) s'"
  by (simp add: run_or_return)

lemma run_or_return_Inl [run_simps]:
  "run_state m s = (Inl e, s') \<Longrightarrow> run_state (or_return m w k) s = (Inl (w e), s')"
  by (simp add: run_or_return)

lemma or_return_success:
  assumes "run_state (or_return m w k) s = (Inr v, s')"
  obtains x s1 where "run_state m s = (Inr x, s1)" and "run_state (k x) s1 = (Inr v, s')"
  using assms by (auto simp: run_or_return split: prod.splits sum.splits)

lemma or_return_cases:
  assumes "run_state (or_return m w k) s = (r, s')"
  obtains (returned) e where "run_state m s = (Inl e, s')" and "r = Inl (w e)"
    | (continued) x s1 where "run_state m s = (Inr x, s1)" and "run_state (k x) s1 = (r, s')"
  using assms by (auto simp: run_or_return split: prod.splits sum.splits)

lemma bind_run:
  assumes "run_state (State_Monad.bind m k) s = (r, s')"
  obtains x s1 where "run_state m s = (x, s1)" and "run_state (k x) s1 = (r, s')"
  using assms by (auto split: prod.splits)

lemma run_bind_eq [run_simps]:
  "run_state m s = (v, s') \<Longrightarrow> run_state (State_Monad.bind m k) s = run_state (k v) s'"
  by simp

section \<open>Preserved predicates\<close>

text \<open>
  \<open>keeps P m\<close>: whatever \<open>m\<close> returns, it leaves a state that satisfies \<open>P\<close> if it
  starts in one. The rules follow the shape of a program, so that an invariant of a
  handler follows from the invariants of the statements it issues. With
  \<open>P = (\<lambda>s. f s = c)\<close> the same rules give frame properties.
\<close>

definition keeps :: "('s \<Rightarrow> bool) \<Rightarrow> ('s, 'a) state \<Rightarrow> bool" where
  "keeps P m \<longleftrightarrow> (\<forall>s. P s \<longrightarrow> P (snd (run_state m s)))"

lemma keepsI: "(\<And>s. P s \<Longrightarrow> P (snd (run_state m s))) \<Longrightarrow> keeps P m"
  by (simp add: keeps_def)

lemma keepsD: "keeps P m \<Longrightarrow> P s \<Longrightarrow> P (snd (run_state m s))"
  by (simp add: keeps_def)

lemma keeps_run: "keeps P m \<Longrightarrow> run_state m s = (r, s') \<Longrightarrow> P s \<Longrightarrow> P s'"
  by (metis keepsD snd_conv)

lemma keeps_return [keeps_intros]: "keeps P (State_Monad.return v)"
  by (simp add: keeps_def)

lemma keeps_bind [keeps_intros]:
  "keeps P m \<Longrightarrow> (\<And>v. keeps P (k v)) \<Longrightarrow> keeps P (State_Monad.bind m k)"
  by (force simp: keeps_def split: prod.splits)

lemma keeps_or_return [keeps_intros]:
  "keeps P m \<Longrightarrow> (\<And>v. keeps P (k v)) \<Longrightarrow> keeps P (or_return m w k)"
  by (auto simp: or_return_def intro!: keeps_intros split: sum.splits)

lemma keeps_if [keeps_intros]:
  "(b \<Longrightarrow> keeps P m) \<Longrightarrow> (\<not> b \<Longrightarrow> keeps P n) \<Longrightarrow> keeps P (if b then m else n)"
  by simp

lemma keeps_case_sum [keeps_intros]:
  "(\<And>e. keeps P (f e)) \<Longrightarrow> (\<And>v. keeps P (g v)) \<Longrightarrow>
     keeps P (case r of Inl e \<Rightarrow> f e | Inr v \<Rightarrow> g v)"
  by (simp split: sum.splits)

lemma keeps_case_option [keeps_intros]:
  "keeps P f \<Longrightarrow> (\<And>v. keeps P (g v)) \<Longrightarrow> keeps P (case r of None \<Rightarrow> f | Some v \<Rightarrow> g v)"
  by (simp split: option.splits)

lemma keeps_let [keeps_intros]: "(\<And>v. keeps P (f v)) \<Longrightarrow> keeps P (let v = x in f v)"
  by simp

section \<open>Rows\<close>

text \<open>
  A table is the list of its rows in insertion order. \<open>find\<close> is a query for one row,
  \<open>filter\<close> a query for all, and \<open>set_rows p f\<close> the \<open>UPDATE\<close> of the rows that
  satisfy \<open>p\<close>.
\<close>

definition set_rows :: "('r \<Rightarrow> bool) \<Rightarrow> ('r \<Rightarrow> 'r) \<Rightarrow> 'r list \<Rightarrow> 'r list" where
  "set_rows p f t = map (\<lambda>r. if p r then f r else r) t"

lemma set_rows_Nil [simp]: "set_rows p f [] = []"
  by (simp add: set_rows_def)

lemma set_rows_Cons [simp]:
  "set_rows p f (r # t) = (if p r then f r else r) # set_rows p f t"
  by (simp add: set_rows_def)

lemma set_rows_append [simp]: "set_rows p f (t @ u) = set_rows p f t @ set_rows p f u"
  by (simp add: set_rows_def)

lemma length_set_rows [simp]: "length (set_rows p f t) = length t"
  by (simp add: set_rows_def)

lemma set_rows_none: "\<forall>r \<in> set t. \<not> p r \<Longrightarrow> set_rows p f t = t"
  by (induction t) auto

lemma map_set_rows:
  "(\<And>r. p r \<Longrightarrow> g (f r) = g r) \<Longrightarrow> map g (set_rows p f t) = map g t"
  by (auto simp: set_rows_def)

lemma find_set_rows:
  "(\<And>r. p r \<Longrightarrow> q (f r) = q r) \<Longrightarrow>
     find q (set_rows p f t) = map_option (\<lambda>r. if p r then f r else r) (find q t)"
  by (induction t) auto

lemma find_append: "find p (t @ u) = (case find p t of None \<Rightarrow> find p u | Some r \<Rightarrow> Some r)"
  by (induction t) auto

lemma find_SomeD: "find p t = Some r \<Longrightarrow> r \<in> set t \<and> p r"
  by (auto simp: find_Some_iff)

text \<open>In a table whose key is unique, a row is the one that its key finds.\<close>

lemma find_unique:
  "distinct (map key t) \<Longrightarrow> r \<in> set t \<Longrightarrow> find (\<lambda>x. key x = key r) t = Some r"
  by (induction t) (auto simp: image_iff)

lemma unique_key:
  "distinct (map key t) \<Longrightarrow> r \<in> set t \<Longrightarrow> r' \<in> set t \<Longrightarrow> key r = key r' \<Longrightarrow> r = r'"
  by (metis find_unique option.inject)

lemma sum_list_set_rows:
  fixes g :: "'r \<Rightarrow> int"
  assumes "distinct (map key t)" and "r \<in> set t" and "\<And>x. key (f x) = key x"
  shows "sum_list (map g (set_rows (\<lambda>x. key x = key r) f t)) = sum_list (map g t) - g r + g (f r)"
  using assms
proof (induction t)
  case Nil
  then show ?case by simp
next
  case (Cons x t)
  show ?case
  proof (cases "x = r")
    case True
    with Cons.prems have "set_rows (\<lambda>x. key x = key r) f t = t"
      by (intro set_rows_none) (auto simp: image_iff)
    with True show ?thesis by simp
  next
    case False
    with Cons.prems have "key x \<noteq> key r" and "r \<in> set t"
      by (auto simp: image_iff)
    with Cons show ?thesis by simp
  qed
qed

end
