(* ===== verification/GoStrings.thy ===== *)
theory GoStrings
  imports Prelude "HOL-Library.Sublist"
begin

text \<open>
  The functions of Go's \<open>strings\<close>, \<open>strconv\<close> and \<open>fmt\<close> that the code uses. A Go
  string is a sequence of bytes, which is what a HOL \<open>string\<close> is; \<open>strings.TrimSpace\<close>
  and the case conversions are written out for ASCII, the only characters the code's
  references, codes and phone numbers are made of.
\<close>

section \<open>Characters\<close>

definition is_space :: "char \<Rightarrow> bool" where
  "is_space c \<longleftrightarrow> c \<in> set [CHR 0x09, CHR 0x0A, CHR 0x0B, CHR 0x0C, CHR 0x0D, CHR 0x20]"

definition in_range :: "char \<Rightarrow> char \<Rightarrow> char \<Rightarrow> bool" where
  "in_range lo hi c \<longleftrightarrow> (of_char lo :: nat) \<le> of_char c \<and> (of_char c :: nat) \<le> of_char hi"

definition to_lower_char :: "char \<Rightarrow> char" where
  "to_lower_char c = (if in_range CHR ''A'' CHR ''Z'' c then char_of (of_char c + 32 :: nat) else c)"

definition to_upper_char :: "char \<Rightarrow> char" where
  "to_upper_char c = (if in_range CHR ''a'' CHR ''z'' c then char_of (of_char c - 32 :: nat) else c)"

section \<open>Package strings\<close>

definition ToLower :: "string \<Rightarrow> string" where
  "ToLower s = map to_lower_char s"

definition ToUpper :: "string \<Rightarrow> string" where
  "ToUpper s = map to_upper_char s"

text \<open>\<open>strings.EqualFold\<close>: equal but for the case of letters.\<close>

fun EqualFold :: "string \<Rightarrow> string \<Rightarrow> bool" where
  "EqualFold [] [] = True"
| "EqualFold (a # as) (b # bs) =
     (if a = b then EqualFold as bs
      else if to_lower_char a = to_lower_char b then EqualFold as bs else False)"
| "EqualFold _ _ = False"

lemma EqualFold_ToLower: "EqualFold s t \<longleftrightarrow> ToLower s = ToLower t"
  by (induction s t rule: EqualFold.induct) (auto simp: ToLower_def)

definition trim_left :: "string \<Rightarrow> string" where
  "trim_left s = dropWhile is_space s"

definition TrimSpace :: "string \<Rightarrow> string" where
  "TrimSpace s = rev (trim_left (rev (trim_left s)))"

definition TrimPrefix :: "string \<Rightarrow> string \<Rightarrow> string" where
  "TrimPrefix s p = (if prefix p s then drop (length p) s else s)"

fun Contains :: "string \<Rightarrow> string \<Rightarrow> bool" where
  "Contains [] p \<longleftrightarrow> p = []"
| "Contains (c # s) p \<longleftrightarrow> prefix p (c # s) \<or> Contains s p"

lemma Contains_sublist: "Contains s p \<longleftrightarrow> sublist p s"
  by (induction s p rule: Contains.induct) (auto simp: sublist_Cons_right)

text \<open>\<open>strings.Fields\<close>: the maximal runs of characters that are not spaces.\<close>

function Fields :: "string \<Rightarrow> string list" where
  "Fields s =
     (let t = dropWhile is_space s
      in if t = [] then []
         else takeWhile (\<lambda>c. \<not> is_space c) t # Fields (dropWhile (\<lambda>c. \<not> is_space c) t))"
  by pat_completeness auto
termination
proof (relation "measure length", goal_cases)
  case 1
  show ?case by simp
next
  case (2 s t)
  then have "t \<noteq> []" and "\<not> is_space (hd t)"
    using hd_dropWhile by blast+
  then have "length (dropWhile (\<lambda>c. \<not> is_space c) t) < length t"
    by (cases t) (simp_all add: le_imp_less_Suc length_dropWhile_le)
  also have "length t \<le> length s"
    using 2 by (simp add: length_dropWhile_le)
  finally show ?case by simp
qed

declare Fields.simps [simp del]

fun join_with :: "string \<Rightarrow> string list \<Rightarrow> string" where
  "join_with sep [] = []"
| "join_with sep [x] = x"
| "join_with sep (x # xs) = x @ sep @ join_with sep xs"

section \<open>Numbers as text\<close>

definition digit_char :: "int \<Rightarrow> char" where
  "digit_char d = char_of (48 + d)"

text \<open>The decimal digits of a number that is not negative.\<close>

function show_dec :: "int \<Rightarrow> string" where
  "show_dec n = (if n < 10 then [digit_char n] else show_dec (n div 10) @ [digit_char (n mod 10)])"
  by pat_completeness auto
termination by (relation "measure nat") auto

declare show_dec.simps [simp del]

definition show_int :: "int \<Rightarrow> string" where
  "show_int i = (if i < 0 then CHR ''-'' # show_dec (- i) else show_dec i)"

text \<open>
  \<open>%.2f\<close> of \<open>float64(kobo)/100\<close>. A kobo amount below \<open>2^53\<close> is an exact
  \<open>float64\<close>, and its hundredth printed with two decimals is its decimal text.
\<close>

definition show_kobo :: "int \<Rightarrow> string" where
  "show_kobo k =
     (let a = \<bar>k\<bar>
      in (if k < 0 then ''-'' else []) @ show_dec (a div 100) @ ''.'' @
         [digit_char (a div 10 mod 10), digit_char (a mod 10)])"

text \<open>The non-ASCII characters of the code's messages, in UTF-8.\<close>

definition naira_sign :: string where
  "naira_sign = [CHR 0xE2, CHR 0x82, CHR 0xA6]"

definition em_dash :: string where
  "em_dash = [CHR 0xE2, CHR 0x80, CHR 0x94]"

definition right_arrow :: string where
  "right_arrow = [CHR 0xE2, CHR 0x86, CHR 0x92]"

section \<open>Facts\<close>

lemma TrimSpace_Nil [simp]: "TrimSpace [] = []"
  by (simp add: TrimSpace_def trim_left_def)

lemma set_TrimSpace: "set (TrimSpace s) \<subseteq> set s"
  unfolding TrimSpace_def trim_left_def
  by (metis set_rev set_dropWhileD subsetI)

lemma TrimSpace_no_space: "\<forall>c \<in> set s. \<not> is_space c \<Longrightarrow> TrimSpace s = s"
proof -
  assume a: "\<forall>c \<in> set s. \<not> is_space c"
  have d: "dropWhile is_space t = t" if "\<forall>c \<in> set t. \<not> is_space c" for t
    using that by (cases t) simp_all
  show ?thesis
    using a by (simp add: TrimSpace_def trim_left_def d)
qed

lemma show_dec_nonempty [simp]: "show_dec n \<noteq> []"
  by (subst show_dec.simps) simp

text \<open>Decimal text determines the number: references that end in a time stamp differ with it.\<close>

lemma digit_char_inj:
  assumes "0 \<le> a" "a < 10" "0 \<le> b" "b < 10" "digit_char a = digit_char b"
  shows "a = b"
proof -
  from assms(5) have "(of_char (digit_char a) :: int) = of_char (digit_char b)" by simp
  with assms(1-4) show ?thesis by (simp add: digit_char_def)
qed

lemma show_dec_small: "n < 10 \<Longrightarrow> show_dec n = [digit_char n]"
  by (subst show_dec.simps) simp

lemma show_dec_big: "\<not> n < 10 \<Longrightarrow> show_dec n = show_dec (n div 10) @ [digit_char (n mod 10)]"
  by (subst show_dec.simps) simp

lemma show_dec_inj: "0 \<le> m \<Longrightarrow> 0 \<le> n \<Longrightarrow> show_dec m = show_dec n \<Longrightarrow> m = n"
proof (induction m arbitrary: n rule: show_dec.induct)
  case (1 m)
  consider "m < 10" "n < 10" | "m < 10" "\<not> n < 10" | "\<not> m < 10" "n < 10" | "\<not> m < 10" "\<not> n < 10"
    by blast
  then show ?case
  proof cases
    case 4
    with "1.prems" have "show_dec (m div 10) = show_dec (n div 10)"
      and "digit_char (m mod 10) = digit_char (n mod 10)"
      by (simp_all add: show_dec_big)
    with "1.IH" [of "n div 10"] 4 have "m div 10 = n div 10" and "m mod 10 = n mod 10"
      by (auto intro: digit_char_inj)
    then show ?thesis by (metis div_mult_mod_eq)
  qed (use "1.prems" show_dec_nonempty [THEN not_sym] in
      \<open>auto simp: show_dec_small show_dec_big intro: digit_char_inj\<close>)
qed

end
