(* ===== verification/Models.thy ===== *)
theory Models
  imports GoStrings
begin

text \<open>
  \<open>internal/models\<close>: the rows that the PostgreSQL tables hold, with the struct fields of
  the code (prefixed, since HOL record fields share one name space), its enumerations as
  datatypes with the code's constructors, and the texts under which the enumerations are
  stored. A \<open>uuid.UUID\<close> is its canonical text, a \<open>time.Time\<close> a number of milliseconds
  since the Unix epoch, an \<open>int64\<close> an \<open>int\<close> in the range of \<open>in_i64\<close>.
\<close>

type_synonym uuid = string
type_synonym time = int

section \<open>Users and one-time passwords\<close>

datatype kyc_tier = KYCTierUnverified | KYCTierOne | KYCTierTwo

text \<open>\<open>KYCTier\<close> is an \<open>int\<close> in the code, which compares tiers with \<open><\<close>.\<close>

fun kyc_int :: "kyc_tier \<Rightarrow> int" where
  "kyc_int KYCTierUnverified = 0"
| "kyc_int KYCTierOne = 1"
| "kyc_int KYCTierTwo = 2"

instantiation kyc_tier :: linorder
begin

definition less_eq_kyc_tier :: "kyc_tier \<Rightarrow> kyc_tier \<Rightarrow> bool" where
  "a \<le> b \<longleftrightarrow> kyc_int a \<le> kyc_int b"

definition less_kyc_tier :: "kyc_tier \<Rightarrow> kyc_tier \<Rightarrow> bool" where
  "a < b \<longleftrightarrow> kyc_int a < kyc_int b"

instance
proof
  fix a b :: kyc_tier
  show "a \<le> b \<Longrightarrow> b \<le> a \<Longrightarrow> a = b"
    by (cases a; cases b) (simp_all add: less_eq_kyc_tier_def)
qed (auto simp: less_eq_kyc_tier_def less_kyc_tier_def)

end

record user =
  u_id :: uuid
  u_phone :: string
  u_email :: string
  u_password_hash :: string
  u_first_name :: string
  u_last_name :: string
  u_kyc_tier :: kyc_tier
  u_bvn :: string
  u_nin :: string
  u_is_active :: bool
  u_pin_hash :: string
  u_created_at :: time
  u_updated_at :: time
  u_deleted_at :: "time option"

datatype otp_purpose = OTPPhoneVerify | OTPPINReset | OTPTxAuth

record otp_token =
  o_id :: uuid
  o_phone :: string
  o_hash :: string
  o_purpose :: otp_purpose
  o_expires_at :: time
  o_used :: bool
  o_created_at :: time

section \<open>Wallets and transactions\<close>

datatype wallet_currency = NGN

record wallet =
  w_id :: uuid
  w_user_id :: uuid
  w_balance :: int
  w_ledger_balance :: int
  w_currency :: wallet_currency
  w_daily_spend :: int
  w_daily_limit :: int
  w_created_at :: time
  w_updated_at :: time

datatype tx_status = TxPending | TxProcessing | TxSuccess | TxFailed | TxReversed

datatype tx_type = TxTypeDebit | TxTypeCredit | TxTypeReversal

datatype service_category =
    CategoryAirtime | CategoryData | CategoryElectricity | CategoryCableTV | CategoryBetting
  | CategoryBusTravel | CategoryFlight | CategoryWalletFund | CategoryTransfer

fun category_text :: "service_category \<Rightarrow> string" where
  "category_text CategoryAirtime = ''airtime''"
| "category_text CategoryData = ''data''"
| "category_text CategoryElectricity = ''electricity''"
| "category_text CategoryCableTV = ''cable_tv''"
| "category_text CategoryBetting = ''betting''"
| "category_text CategoryBusTravel = ''bus_travel''"
| "category_text CategoryFlight = ''flight''"
| "category_text CategoryWalletFund = ''wallet_funding''"
| "category_text CategoryTransfer = ''transfer''"

text \<open>An optional UUID pointer is an \<open>option\<close>; the JSON bytes of \<open>Meta\<close> are a string, nil the empty one.\<close>

record transaction =
  t_id :: uuid
  t_user_id :: string
  t_wallet_id :: uuid
  t_reference :: string
  t_external_ref :: string
  t_type :: tx_type
  t_category :: service_category
  t_amount :: int
  t_commission :: int
  t_fee :: int
  t_balance_before :: int
  t_balance_after :: int
  t_status :: tx_status
  t_provider :: string
  t_narration :: string
  t_meta :: string
  t_reversed_tx_id :: "uuid option"
  t_created_at :: time
  t_updated_at :: time

section \<open>Ledger entries, transfers, virtual accounts\<close>

datatype entry_type =
  EntryFunding | EntryTransferOut | EntryTransferIn | EntryVAS | EntryReversal | EntryFee

record entry =
  e_id :: uuid
  e_wallet_id :: uuid
  e_debit :: int
  e_credit :: int
  e_reference :: string
  e_type :: entry_type
  e_description :: string
  e_created_at :: time

text \<open>A row of \<open>transfers\<close>; its status is whatever text the provider sent.\<close>

record transfer =
  x_reference :: string
  x_user_id :: uuid
  x_wallet_id :: uuid
  x_amount :: int
  x_fee :: int
  x_status :: string
  x_bank_code :: string
  x_account_number :: string
  x_account_name :: string
  x_narration :: string
  x_provider :: string
  x_provider_ref :: string
  x_failure_reason :: string

record virtual_account =
  v_user_id :: uuid
  v_account_number :: string
  v_account_name :: string
  v_bank_name :: string
  v_provider :: string
  v_provider_ref :: string
  v_is_active :: bool

section \<open>Loyalty\<close>

datatype loyalty_tier = TierBronze | TierSilver | TierGold | TierPlatinum

record loyalty_account =
  a_id :: uuid
  a_user_id :: uuid
  a_points_balance :: int
  a_lifetime_points :: int
  a_tier :: loyalty_tier
  a_created_at :: time
  a_updated_at :: time

datatype loyalty_tx_type = LoyaltyEarn | LoyaltyRedeem | LoyaltyExpire

text \<open>A row of \<open>loyalty_transactions\<close>; the nullable category of the table is \<open>None\<close> for \<open>NULL\<close>.\<close>

record loyalty_transaction =
  l_id :: uuid
  l_user_id :: uuid
  l_account_id :: uuid
  l_type :: loyalty_tx_type
  l_points :: int
  l_balance_before :: int
  l_balance_after :: int
  l_source_tx_id :: "uuid option"
  l_category :: "string option"
  l_narration :: string
  l_expires_at :: "time option"
  l_created_at :: time

section \<open>Travel bookings and disruptions\<close>

datatype booking_status =
  BookingConfirmed | BookingPending | BookingRescheduled | BookingCancelled | BookingBoarded

text \<open>
  The texts the Go constants stand for, and the labels that the PostgreSQL type
  \<open>booking_status\<close> accepts. They disagree on one constant.
\<close>

fun booking_status_text :: "booking_status \<Rightarrow> string" where
  "booking_status_text BookingConfirmed = ''confirmed''"
| "booking_status_text BookingPending = ''pending''"
| "booking_status_text BookingRescheduled = ''rescheduled''"
| "booking_status_text BookingCancelled = ''canceled''"
| "booking_status_text BookingBoarded = ''boarded''"

definition booking_status_labels :: "string list" where
  "booking_status_labels =
     [''pending'', ''confirmed'', ''rescheduled'', ''cancelled'', ''boarded'']"

datatype travel_mode = TravelBus | TravelFlight

record travel_booking =
  b_id :: uuid
  b_user_id :: uuid
  b_transaction_id :: uuid
  b_mode :: travel_mode
  b_operator_code :: string
  b_operator_name :: string
  b_origin :: string
  b_destination :: string
  b_departure_time :: time
  b_seat_number :: string
  b_vehicle_ref :: string
  b_passenger_name :: string
  b_passenger_phone :: string
  b_ticket_code :: string
  b_status :: booking_status
  b_offline_cache_hash :: string
  b_price_paid :: int
  b_created_at :: time
  b_updated_at :: time

datatype event_status = EventStatusOpen | EventStatusNotified | EventStatusResolved

record dispatcher_event =
  d_id :: uuid
  d_operator_code :: string
  d_event_type :: string
  d_vehicle_ref :: string
  d_origin :: string
  d_destination :: string
  d_departure_time :: time
  d_message :: string
  d_status :: event_status
  d_api_key_hash :: string
  d_created_at :: time
  d_updated_at :: time

datatype disruption_resolution = ResolutionPending | ResolutionRescheduled | ResolutionRefunded

record passenger_disruption =
  p_id :: uuid
  p_event_id :: uuid
  p_booking_id :: uuid
  p_user_id :: uuid
  p_resolution :: disruption_resolution
  p_new_booking_id :: "uuid option"
  p_refund_tx_id :: "uuid option"
  p_notified_at :: "time option"
  p_resolved_at :: "time option"
  p_created_at :: time
  p_updated_at :: time

end
