(* ===== verification/Store.thy ===== *)
theory Store
  imports Models
begin

text \<open>
  The state every service works on: the PostgreSQL tables, and the sources of what the
  code does not determine. Each statement, each \<open>time.Now()\<close> and each \<open>uuid.New()\<close>
  consumes one tick; three functions of the tick say whether the statement is executed
  (a statement that is not is answered with an error and changes nothing), what the
  clock reads and which UUID is drawn. A theorem about every world is a theorem about
  every schedule of failing statements, every clock and every source of UUIDs.

  The schema of \<open>migrations/\<close> is part of the statements: a row that violates a
  \<open>CHECK\<close>, a length, a \<open>BIGINT\<close> range, a unique index or a foreign key makes the
  statement fail as a whole.
\<close>

section \<open>The world\<close>

text \<open>
  A \<open>go\<close> statement starts a goroutine: it is a job that runs later, with the values it
  captured. Points are awarded that way, and SMS alerts are sent.
\<close>

datatype job =
    AwardPointsJob string uuid service_category int
  | VASSuccessAlertJob string transaction string
  | VASRefundAlertJob string transaction
  | TravelSMSJob string string

record world =
  tick :: nat
  sql_ok :: "nat \<Rightarrow> bool"
  uuid_at :: "nat \<Rightarrow> uuid"
  time_at :: "nat \<Rightarrow> time"
  jobs :: "job list"
  users :: "user list"
  wallets :: "wallet list"
  transactions :: "transaction list"
  ledger_entries :: "entry list"
  transfers :: "transfer list"
  virtual_accounts :: "virtual_account list"
  loyalty_accounts :: "loyalty_account list"
  loyalty_transactions :: "loyalty_transaction list"
  bookings :: "travel_booking list"
  events :: "dispatcher_event list"
  disruptions :: "passenger_disruption list"
  otp_tokens :: "otp_token list"

type_synonym 'a program = "(world, 'a) go"

definition reliable :: "world \<Rightarrow> bool" where
  "reliable s \<longleftrightarrow> (\<forall>n. sql_ok s n)"

definition empty_world :: world where
  "empty_world = \<lparr>tick = 0, sql_ok = (\<lambda>_. True), uuid_at = (\<lambda>n. ''uuid-'' @ show_int (int n)),
     time_at = (\<lambda>n. 1700000000000 + int n), jobs = [], users = [], wallets = [],
     transactions = [], ledger_entries = [], transfers = [], virtual_accounts = [],
     loyalty_accounts = [], loyalty_transactions = [], bookings = [], events = [],
     disruptions = [], otp_tokens = []\<rparr>"

text \<open>The next tick, with nothing else changed.\<close>

definition step :: "world \<Rightarrow> world" where
  "step s = s\<lparr>tick := Suc (tick s)\<rparr>"

lemma step_simps [simp]:
  "tick (step s) = Suc (tick s)" "sql_ok (step s) = sql_ok s" "uuid_at (step s) = uuid_at s"
  "time_at (step s) = time_at s" "jobs (step s) = jobs s" "users (step s) = users s"
  "wallets (step s) = wallets s" "transactions (step s) = transactions s"
  "ledger_entries (step s) = ledger_entries s" "transfers (step s) = transfers s"
  "virtual_accounts (step s) = virtual_accounts s"
  "loyalty_accounts (step s) = loyalty_accounts s"
  "loyalty_transactions (step s) = loyalty_transactions s" "bookings (step s) = bookings s"
  "events (step s) = events s" "disruptions (step s) = disruptions s"
  "otp_tokens (step s) = otp_tokens s"
  by (simp_all add: step_def)

lemma reliable_step [simp]: "reliable (step s) = reliable s"
  by (simp add: reliable_def)

section \<open>Clock, UUIDs, goroutines\<close>

definition time_now :: "(world, time) state" where
  "time_now = State (\<lambda>s. (time_at s (tick s), step s))"

definition uuid_new :: "(world, uuid) state" where
  "uuid_new = State (\<lambda>s. (uuid_at s (tick s), step s))"

definition spawn :: "job \<Rightarrow> (world, unit) state" where
  "spawn j = State (\<lambda>s. ((), s\<lparr>jobs := jobs s @ [j]\<rparr>))"

lemma run_time_now [simp, run_simps]: "run_state time_now s = (time_at s (tick s), step s)"
  by (simp add: time_now_def)

lemma run_uuid_new [simp, run_simps]: "run_state uuid_new s = (uuid_at s (tick s), step s)"
  by (simp add: uuid_new_def)

lemma run_spawn [simp, run_simps]: "run_state (spawn j) s = ((), s\<lparr>jobs := jobs s @ [j]\<rparr>)"
  by (simp add: spawn_def)

section \<open>Calls that leave the tables alone\<close>

text \<open>
  A call of an external service is a function of the tick: it may answer differently each
  time. Such a call, and everything built from calls and the clock, is quiet: all it does to
  the world is to let time pass.
\<close>

definition call :: "(nat \<Rightarrow> 'a) \<Rightarrow> (world, 'a) state" where
  "call f = State (\<lambda>s. (f (tick s), step s))"

definition quiet :: "(world, 'a) state \<Rightarrow> bool" where
  "quiet m \<longleftrightarrow> (\<forall>s. \<exists>k. snd (run_state m s) = s\<lparr>tick := tick s + k\<rparr>)"

lemma run_call [simp]: "run_state (call f) s = (f (tick s), step s)"
  by (simp add: call_def)

lemma quietI: "(\<And>s. snd (run_state m s) = s\<lparr>tick := tick s + k\<rparr>) \<Longrightarrow> quiet m"
  by (auto simp: quiet_def)

lemma quiet_call [intro, simp]: "quiet (call f)"
  by (rule quietI [of _ 1]) (simp add: step_def)

lemma quiet_time_now [intro, simp]: "quiet time_now"
  by (rule quietI [of _ 1]) (simp add: step_def)

lemma quiet_uuid_new [intro, simp]: "quiet uuid_new"
  by (rule quietI [of _ 1]) (simp add: step_def)

lemma quiet_return [intro, simp]: "quiet (State_Monad.return v)"
  by (rule quietI [of _ 0]) simp

lemma quiet_bind [intro]:
  assumes m: "quiet m" and k: "\<And>v. quiet (k v)"
  shows "quiet (State_Monad.bind m k)"
  unfolding quiet_def
proof
  fix s
  obtain v s1 where r: "run_state m s = (v, s1)" by (cases "run_state m s")
  with m obtain i where "s1 = s\<lparr>tick := tick s + i\<rparr>" by (metis quiet_def snd_conv)
  moreover obtain j where "snd (run_state (k v) s1) = s1\<lparr>tick := tick s1 + j\<rparr>"
    using k by (metis quiet_def)
  ultimately have "snd (run_state (State_Monad.bind m k) s) = s\<lparr>tick := tick s + (i + j)\<rparr>"
    using r by simp
  then show "\<exists>k'. snd (run_state (State_Monad.bind m k) s) = s\<lparr>tick := tick s + k'\<rparr>" by blast
qed

lemma quiet_or_return [intro]:
  "quiet m \<Longrightarrow> (\<And>v. quiet (k v)) \<Longrightarrow> quiet (or_return m w k)"
  unfolding or_return_def by (intro quiet_bind) (auto split: sum.splits)

lemma quiet_if [intro]: "quiet m \<Longrightarrow> quiet n \<Longrightarrow> quiet (if b then m else n)"
  by simp

lemma quiet_case_sum [intro]:
  "(\<And>e. quiet (f e)) \<Longrightarrow> (\<And>v. quiet (g v)) \<Longrightarrow> quiet (case r of Inl e \<Rightarrow> f e | Inr v \<Rightarrow> g v)"
  by (simp split: sum.splits)

lemma quiet_run:
  assumes "quiet m" and "run_state m s = (v, s')"
  obtains k where "s' = s\<lparr>tick := tick s + k\<rparr>"
  using assms by (metis quiet_def snd_conv)

text \<open>\<open>uuid.New()\<close> does not repeat itself and draws no identifier that is in use.\<close>

definition fresh_uuids :: "world \<Rightarrow> bool" where
  "fresh_uuids s \<longleftrightarrow> inj (uuid_at s) \<and>
     (\<forall>n \<ge> tick s. uuid_at s n \<notin> set (map t_id (transactions s)))"

lemma fresh_uuids_later: "fresh_uuids s \<Longrightarrow> fresh_uuids (s\<lparr>tick := tick s + k\<rparr>)"
  by (simp add: fresh_uuids_def)

lemma fresh_uuids_step [simp]: "fresh_uuids s \<Longrightarrow> fresh_uuids (step s)"
  using fresh_uuids_later [of s 1] by (simp add: step_def)

section \<open>Statements\<close>

text \<open>
  \<open>query_row\<close> is \<open>QueryRow(...).Scan(...)\<close>: the row, or \<open>pgx.ErrNoRows\<close>. \<open>query_all\<close>
  is \<open>Query\<close> with the loop over its rows. \<open>exec\<close> is an \<open>INSERT\<close> or \<open>UPDATE\<close> with
  its effect on the tables, \<open>None\<close> for a constraint violation; the time given to the
  effect is \<open>NOW()\<close>.
\<close>

definition statement :: "(world \<Rightarrow> 'a res \<times> world) \<Rightarrow> 'a program" where
  "statement f = State (\<lambda>s.
     if sql_ok s (tick s) then f (step s) else (Inl (ErrDb ''connection''), step s))"

definition query_row :: "(world \<Rightarrow> 'r option) \<Rightarrow> 'r program" where
  "query_row q = statement (\<lambda>s. (case q s of None \<Rightarrow> Inl ErrNoRows | Some r \<Rightarrow> Inr r, s))"

definition query_all :: "(world \<Rightarrow> 'r) \<Rightarrow> 'r program" where
  "query_all q = statement (\<lambda>s. (Inr (q s), s))"

definition exec :: "(time \<Rightarrow> world \<Rightarrow> world option) \<Rightarrow> unit program" where
  "exec u = statement (\<lambda>s.
     case u (time_at s (tick s)) s of
       None \<Rightarrow> (Inl (ErrDb ''constraint''), s)
     | Some s' \<Rightarrow> (Inr (), s'))"

lemma run_statement:
  "run_state (statement f) s =
     (if sql_ok s (tick s) then f (step s) else (Inl (ErrDb ''connection''), step s))"
  by (simp add: statement_def)

lemma run_query_row:
  "run_state (query_row q) s =
     (if sql_ok s (tick s)
      then (case q (step s) of None \<Rightarrow> Inl ErrNoRows | Some r \<Rightarrow> Inr r)
      else Inl (ErrDb ''connection''), step s)"
  by (simp add: query_row_def run_statement)

lemma run_query_all:
  "run_state (query_all q) s =
     (if sql_ok s (tick s) then Inr (q (step s)) else Inl (ErrDb ''connection''), step s)"
  by (simp add: query_all_def run_statement)

lemma run_exec:
  "run_state (exec u) s =
     (if \<not> sql_ok s (tick s) then (Inl (ErrDb ''connection''), step s)
      else case u (time_at s (Suc (tick s))) (step s) of
             None \<Rightarrow> (Inl (ErrDb ''constraint''), step s)
           | Some s' \<Rightarrow> (Inr (), s'))"
  by (simp add: exec_def run_statement)

lemma exec_success:
  assumes "run_state (exec u) s = (Inr v, s')"
  obtains now where "u now (step s) = Some s'"
  using assms by (auto simp: run_exec split: if_splits option.splits)

lemma exec_error: "run_state (exec u) s = (Inl e, s') \<Longrightarrow> s' = step s"
  by (auto simp: run_exec split: if_splits option.splits)

lemma run_exec_Some:
  "sql_ok s (tick s) \<Longrightarrow> u (time_at s (Suc (tick s))) (step s) = Some s' \<Longrightarrow>
     run_state (exec u) s = (Inr (), s')"
  by (simp add: run_exec)

lemma run_exec_None:
  "u (time_at s (Suc (tick s))) (step s) = None \<Longrightarrow> \<exists>e. run_state (exec u) s = (Inl e, step s)"
  by (simp add: run_exec)

lemma reliableD [simp]: "reliable s \<Longrightarrow> sql_ok s n"
  by (simp add: reliable_def)

section \<open>Transactions of the database\<close>

text \<open>
  Whether a method runs inside a transaction of its caller is the value of \<open>txKey\<close> in its
  context. Rolling back restores the tables; ticks and started goroutines are not undone.
\<close>

datatype ctx = NoTx | InTx

definition rollback :: "world \<Rightarrow> world \<Rightarrow> world" where
  "rollback s0 s = s0\<lparr>tick := tick s, jobs := jobs s\<rparr>"

definition begin_tx :: "unit program" where
  "begin_tx = statement (\<lambda>s. (Inr (), s))"

definition commit_tx :: "unit program" where
  "commit_tx = statement (\<lambda>s. (Inr (), s))"

text \<open>
  \<open>local_tx ctx wb wc body\<close>: begin a transaction unless the context carries one, run the
  body, commit; an error of the body or of the commit rolls back (the deferred
  \<open>tx.Rollback\<close>). \<open>wb\<close> and \<open>wc\<close> wrap the errors of \<open>Begin\<close> and \<open>Commit\<close>.
\<close>

definition local_tx ::
  "ctx \<Rightarrow> (goerr \<Rightarrow> goerr) \<Rightarrow> (goerr \<Rightarrow> goerr) \<Rightarrow> 'a program \<Rightarrow> 'a program" where
  "local_tx c wb wc body =
     (case c of
        InTx \<Rightarrow> body
      | NoTx \<Rightarrow> State (\<lambda>s.
          case run_state begin_tx s of
            (Inl e, s0) \<Rightarrow> (Inl (wb e), s0)
          | (Inr _, s0) \<Rightarrow>
              (case run_state body s0 of
                 (Inl e, s1) \<Rightarrow> (Inl e, rollback s0 s1)
               | (Inr v, s1) \<Rightarrow>
                   (case run_state commit_tx s1 of
                      (Inl e, s2) \<Rightarrow> (Inl (wc e), rollback s0 s2)
                    | (Inr _, s2) \<Rightarrow> (Inr v, s2)))))"

lemma run_begin_tx:
  "run_state begin_tx s =
     (if sql_ok s (tick s) then Inr () else Inl (ErrDb ''connection''), step s)"
  by (simp add: begin_tx_def run_statement)

lemma run_commit_tx:
  "run_state commit_tx s =
     (if sql_ok s (tick s) then Inr () else Inl (ErrDb ''connection''), step s)"
  by (simp add: commit_tx_def run_statement)

lemma local_tx_InTx [simp]: "local_tx InTx wb wc body = body"
  by (simp add: local_tx_def)

lemma rollback_simps [simp]:
  "tick (rollback s0 s) = tick s" "jobs (rollback s0 s) = jobs s"
  "sql_ok (rollback s0 s) = sql_ok s0" "uuid_at (rollback s0 s) = uuid_at s0"
  "time_at (rollback s0 s) = time_at s0" "users (rollback s0 s) = users s0"
  "wallets (rollback s0 s) = wallets s0" "transactions (rollback s0 s) = transactions s0"
  "ledger_entries (rollback s0 s) = ledger_entries s0"
  "transfers (rollback s0 s) = transfers s0"
  "virtual_accounts (rollback s0 s) = virtual_accounts s0"
  "loyalty_accounts (rollback s0 s) = loyalty_accounts s0"
  "loyalty_transactions (rollback s0 s) = loyalty_transactions s0"
  "bookings (rollback s0 s) = bookings s0" "events (rollback s0 s) = events s0"
  "disruptions (rollback s0 s) = disruptions s0" "otp_tokens (rollback s0 s) = otp_tokens s0"
  by (simp_all add: rollback_def)

section \<open>Predicates on the tables\<close>

text \<open>
  \<open>on_tables P\<close>: \<open>P\<close> does not look at ticks and goroutines. Such a predicate is kept by
  every query, and by a transaction whose body keeps it, committed or rolled back.
\<close>

definition on_tables :: "(world \<Rightarrow> bool) \<Rightarrow> bool" where
  "on_tables P \<longleftrightarrow> (\<forall>s n j. P (s\<lparr>tick := n, jobs := j\<rparr>) \<longleftrightarrow> P s)"

lemma on_tables_step: "on_tables P \<Longrightarrow> P (step s) = P s"
proof -
  assume "on_tables P"
  then have "P (s\<lparr>tick := Suc (tick s), jobs := jobs s\<rparr>) = P s"
    by (simp only: on_tables_def)
  then show ?thesis by (simp add: step_def)
qed

lemma on_tables_rollback: "on_tables P \<Longrightarrow> P (rollback s0 s) = P s0"
  by (simp add: on_tables_def rollback_def)

lemma on_tables_spawn: "on_tables P \<Longrightarrow> P (s\<lparr>jobs := j\<rparr>) = P s"
proof -
  assume "on_tables P"
  then have "P (s\<lparr>tick := tick s, jobs := j\<rparr>) = P s"
    by (simp only: on_tables_def)
  then show ?thesis by simp
qed

lemma keeps_time_now [keeps_intros]: "on_tables P \<Longrightarrow> keeps P time_now"
  by (simp add: keeps_def on_tables_step)

lemma keeps_uuid_new [keeps_intros]: "on_tables P \<Longrightarrow> keeps P uuid_new"
  by (simp add: keeps_def on_tables_step)

lemma keeps_spawn [keeps_intros]: "on_tables P \<Longrightarrow> keeps P (spawn j)"
  by (simp add: keeps_def on_tables_spawn)

lemma keeps_query_row [keeps_intros]: "on_tables P \<Longrightarrow> keeps P (query_row q)"
  by (simp add: keeps_def run_query_row on_tables_step)

lemma keeps_query_all [keeps_intros]: "on_tables P \<Longrightarrow> keeps P (query_all q)"
  by (simp add: keeps_def run_query_all on_tables_step)

lemma keeps_call [keeps_intros]: "on_tables P \<Longrightarrow> keeps P (call f)"
  by (simp add: keeps_def on_tables_step)

lemma keeps_quiet: "on_tables P \<Longrightarrow> quiet m \<Longrightarrow> keeps P m"
proof (rule keepsI)
  fix s assume P: "on_tables P" and q: "quiet m" and s: "P s"
  from q obtain k where "snd (run_state m s) = s\<lparr>tick := tick s + k\<rparr>"
    by (auto simp: quiet_def)
  moreover have "P (s\<lparr>tick := tick s + k, jobs := jobs s\<rparr>) = P s"
    using P by (simp only: on_tables_def)
  ultimately show "P (snd (run_state m s))" using s by simp
qed

lemma keeps_exec:
  assumes "on_tables P" and "\<And>t s s'. P s \<Longrightarrow> u t s = Some s' \<Longrightarrow> P s'"
  shows "keeps P (exec u)"
proof (rule keepsI)
  fix s assume "P s"
  with assms(1) have "P (step s)" by (simp add: on_tables_step)
  with assms(2) show "P (snd (run_state (exec u) s))"
    by (auto simp: run_exec split: option.splits)
qed

lemma keeps_local_tx [keeps_intros]:
  assumes "on_tables P" and "keeps P body"
  shows "keeps P (local_tx c wb wc body)"
proof (cases c)
  case NoTx
  have "P (snd (run_state (local_tx NoTx wb wc body) s))" if "P s" for s
  proof -
    from assms that have "P (step s)" by (simp add: on_tables_step)
    moreover from this assms(2) have "P (snd (run_state body (step s)))"
      by (rule keepsD [rotated])
    ultimately show ?thesis
      using assms(1) that
      by (auto simp: local_tx_def run_begin_tx run_commit_tx on_tables_step on_tables_rollback
          split: prod.splits sum.splits)
  qed
  with NoTx show ?thesis by (simp add: keeps_def)
qed (simp add: assms)

text \<open>A transaction of its own either commits its body or leaves the tables as they were.\<close>

lemma local_tx_error_rolls_back:
  assumes "on_tables P" and "run_state (local_tx NoTx wb wc body) s = (Inl e, s')"
  shows "P s' = P s"
  using assms
  by (auto simp: local_tx_def run_begin_tx run_commit_tx on_tables_step on_tables_rollback
      split: prod.splits sum.splits if_splits)

lemma local_tx_commits:
  assumes "run_state (local_tx NoTx wb wc body) s = (Inr v, s')"
  obtains s1 where "run_state body (step s) = (Inr v, s1)" and "s' = step s1"
  using assms
  by (auto simp: local_tx_def run_begin_tx run_commit_tx split: prod.splits sum.splits if_splits)

text \<open>Without failing statements a transaction is its body between two ticks.\<close>

lemma run_local_tx_Inr:
  assumes "run_state body (step s) = (Inr v, s1)" and "sql_ok s (tick s)" and "sql_ok s1 (tick s1)"
  shows "run_state (local_tx NoTx wb wc body) s = (Inr v, step s1)"
  using assms by (simp add: local_tx_def run_begin_tx run_commit_tx)

lemma run_local_tx_Inl:
  assumes "run_state body (step s) = (Inl e, s1)" and "sql_ok s (tick s)"
  shows "run_state (local_tx NoTx wb wc body) s = (Inl e, rollback (step s) s1)"
  using assms by (simp add: local_tx_def run_begin_tx run_commit_tx)

text \<open>In either context a success is a success of the body, up to ticks.\<close>

lemma local_tx_success:
  assumes "run_state (local_tx c wb wc body) s = (Inr v, s')"
  obtains s0 s1 where "s0 = s \<or> s0 = step s" and "run_state body s0 = (Inr v, s1)"
    and "s' = s1 \<or> s' = step s1"
proof (cases c)
  case NoTx
  with assms obtain s1 where "run_state body (step s) = (Inr v, s1)" "s' = step s1"
    by (auto elim!: local_tx_commits)
  with that show ?thesis by blast
next
  case InTx
  with assms that [of s s'] show ?thesis by simp
qed

section \<open>A sample database\<close>

text \<open>
  Two users with their wallets, on which the theorems of the components are applied;
  identifiers are shortened.
\<close>

definition sample_user :: "uuid \<Rightarrow> string \<Rightarrow> string \<Rightarrow> user" where
  "sample_user i phone email = \<lparr>u_id = i, u_phone = phone, u_email = email,
     u_password_hash = ''hash'', u_first_name = ''A'', u_last_name = ''B'',
     u_kyc_tier = KYCTierUnverified, u_bvn = [], u_nin = [], u_is_active = True, u_pin_hash = [],
     u_created_at = 0, u_updated_at = 0, u_deleted_at = None\<rparr>"

definition sample_wallet :: "uuid \<Rightarrow> uuid \<Rightarrow> int \<Rightarrow> wallet" where
  "sample_wallet i u balance = \<lparr>w_id = i, w_user_id = u, w_balance = balance,
     w_ledger_balance = 0, w_currency = NGN, w_daily_spend = 0, w_daily_limit = 5000000,
     w_created_at = 0, w_updated_at = 0\<rparr>"

definition sample_tx :: "uuid \<Rightarrow> uuid \<Rightarrow> uuid \<Rightarrow> string \<Rightarrow> tx_type \<Rightarrow> int \<Rightarrow> tx_status \<Rightarrow> transaction" where
  "sample_tx i u w ref ty amount st = \<lparr>t_id = i, t_user_id = u, t_wallet_id = w,
     t_reference = ref, t_external_ref = [], t_type = ty, t_category = CategoryAirtime,
     t_amount = amount, t_commission = 0, t_fee = 0, t_balance_before = 0, t_balance_after = 0,
     t_status = st, t_provider = ''flutterwave'', t_narration = [], t_meta = [],
     t_reversed_tx_id = None, t_created_at = 0, t_updated_at = 0\<rparr>"

definition sample_world :: world where
  "sample_world = empty_world\<lparr>
     users := [sample_user ''ada'' ''+2348010000001'' ''ada@x.ng'',
               sample_user ''bola'' ''+2348010000002'' ''bola@x.ng''],
     wallets := [sample_wallet ''wa'' ''ada'' 100000, sample_wallet ''wb'' ''bola'' 20000],
     transactions := [sample_tx ''t0'' ''bola'' ''wb'' ''FUND-INIT-1'' TxTypeCredit 70000 TxPending]\<rparr>"

lemma reliable_sample [simp]: "reliable sample_world"
  by (simp add: reliable_def sample_world_def empty_world_def)

end
