(* ===== verification/Contracts.thy ===== *)
theory Contracts
  imports Prelude
begin

text \<open>
  The two contracts that the components rely on when they use each other, as locales.

  \<open>purse\<close> is a store of accounts that is debited under a key and credited under a
  handle: the wallet table (keyed by user, credited by wallet identifier) and the points of the
  loyalty table give one each. Its clients debit, call a provider and credit back.

  \<open>once\<close> is an operation that is safe to retry: it carries a key, and once it has
  succeeded under a key it changes nothing observable for that key again. Reversals,
  funding, payment webhooks and ledger entries all promise it.
\<close>

section \<open>Accounts\<close>

datatype ('k, 'h) money_op = Withdraw 'k int | Deposit 'h int

text \<open>A sequence of operations, with the outcome of each.\<close>

fun run_ops ::
  "('k \<Rightarrow> int \<Rightarrow> ('s, 'a) go) \<Rightarrow> ('h \<Rightarrow> int \<Rightarrow> ('s, 'b) go) \<Rightarrow> ('k, 'h) money_op list \<Rightarrow> 's \<Rightarrow>
     bool list \<times> 's" where
  "run_ops wd dp [] s = ([], s)"
| "run_ops wd dp (Withdraw k n # ops) s =
     (case run_state (wd k n) s of (r, s1) \<Rightarrow>
        (case run_ops wd dp ops s1 of (rs, s') \<Rightarrow> (succeeded r # rs, s')))"
| "run_ops wd dp (Deposit h n # ops) s =
     (case run_state (dp h n) s of (r, s1) \<Rightarrow>
        (case run_ops wd dp ops s1 of (rs, s') \<Rightarrow> (succeeded r # rs, s')))"

text \<open>What the successful operations of a sequence add to the account with key \<open>k\<close> and handle \<open>h\<close>.\<close>

fun net :: "'k \<Rightarrow> 'h \<Rightarrow> ('k, 'h) money_op list \<Rightarrow> bool list \<Rightarrow> int" where
  "net k h (Withdraw k' n # ops) (r # rs) = (if r \<and> k' = k then - n else 0) + net k h ops rs"
| "net k h (Deposit h' n # ops) (r # rs) = (if r \<and> h' = h then n else 0) + net k h ops rs"
| "net k h _ _ = 0"

locale purse =
  fixes inv :: "'s \<Rightarrow> bool"
    and acct :: "'s \<Rightarrow> 'k \<Rightarrow> ('h \<times> int) option"
    and withdraw :: "'k \<Rightarrow> int \<Rightarrow> ('s, 'a) go"
    and deposit :: "'h \<Rightarrow> int \<Rightarrow> ('s, 'b) go"
  assumes withdraw_inv: "keeps inv (withdraw k n)"
    and deposit_inv: "keeps inv (deposit h n)"
    and acct_nonneg: "inv s \<Longrightarrow> acct s k = Some (h, b) \<Longrightarrow> 0 \<le> b"
    and handles: "inv s \<Longrightarrow> acct s k = Some (h, b) \<Longrightarrow> acct s k' = Some (h, b') \<Longrightarrow> k = k'"
    and withdraw_success: "inv s \<Longrightarrow> run_state (withdraw k n) s = (Inr v, s') \<Longrightarrow>
      \<exists>h b. acct s k = Some (h, b) \<and> acct s' = (acct s)(k \<mapsto> (h, b - n))"
    and withdraw_error: "inv s \<Longrightarrow> run_state (withdraw k n) s = (Inl e, s') \<Longrightarrow> acct s' = acct s"
    and deposit_success: "inv s \<Longrightarrow> acct s k = Some (h, b) \<Longrightarrow>
      run_state (deposit h n) s = (Inr w, s') \<Longrightarrow> acct s' = (acct s)(k \<mapsto> (h, b + n))"
    and deposit_stray: "inv s \<Longrightarrow> \<forall>k b. acct s k \<noteq> Some (h, b) \<Longrightarrow>
      run_state (deposit h n) s = (Inr w, s') \<Longrightarrow> acct s' = acct s"
    and deposit_error: "inv s \<Longrightarrow> run_state (deposit h n) s = (Inl e, s') \<Longrightarrow> acct s' = acct s"
begin

text \<open>A debit that is credited back leaves every account as it was.\<close>

lemma refund_restores:
  assumes "inv s" and "run_state (withdraw k n) s = (Inr v, s1)"
    and "inv s2" and "acct s2 = acct s1" and "acct s k = Some (h, b)"
    and "run_state (deposit h n) s2 = (Inr w, s3)"
  shows "acct s3 = acct s"
proof -
  from assms(1,2,5) have s1: "acct s1 = (acct s)(k \<mapsto> (h, b - n))"
    by (auto dest: withdraw_success)
  with assms(4) have "acct s2 k = Some (h, b - n)" by simp
  from deposit_success [OF assms(3) this assms(6)] s1 assms(4,5) show ?thesis
    by (simp add: fun_upd_idem)
qed

text \<open>The books of one account over any sequence of operations, failures included.\<close>

lemma run_ops_balance:
  assumes "inv s" and "acct s k = Some (h, b)" and "run_ops withdraw deposit ops s = (rs, s')"
  shows "inv s' \<and> acct s' k = Some (h, b + net k h ops rs) \<and> 0 \<le> b + net k h ops rs"
  using assms
proof (induction ops arbitrary: s b rs)
  case Nil
  then show ?case by (auto dest: acct_nonneg)
next
  case (Cons op ops)
  show ?case
  proof (cases op)
    case (Withdraw k' n)
    obtain r s1 rs1 where r: "run_state (withdraw k' n) s = (r, s1)"
      and rs1: "run_ops withdraw deposit ops s1 = (rs1, s')" and rs: "rs = succeeded r # rs1"
      using Cons.prems(3) by (auto simp: Withdraw split: prod.splits)
    have "inv s1" using withdraw_inv r Cons.prems(1) by (rule keeps_run)
    moreover have "acct s1 k = Some (h, b + (if succeeded r \<and> k' = k then - n else 0))"
    proof (cases r)
      case (Inl e)
      with r Cons.prems show ?thesis by (auto dest: withdraw_error)
    next
      case (Inr v)
      with r Cons.prems withdraw_success [of s k' n v s1] show ?thesis by auto
    qed
    ultimately show ?thesis
      using Cons.IH [OF _ _ rs1] by (auto simp: Withdraw rs algebra_simps split: if_splits)
  next
    case (Deposit h' n)
    obtain r s1 rs1 where r: "run_state (deposit h' n) s = (r, s1)"
      and rs1: "run_ops withdraw deposit ops s1 = (rs1, s')" and rs: "rs = succeeded r # rs1"
      using Cons.prems(3) by (auto simp: Deposit split: prod.splits)
    have "inv s1" using deposit_inv r Cons.prems(1) by (rule keeps_run)
    moreover have "acct s1 k = Some (h, b + (if succeeded r \<and> h' = h then n else 0))"
    proof (cases r)
      case (Inl e)
      with r Cons.prems show ?thesis by (auto dest: deposit_error)
    next
      case (Inr v)
      show ?thesis
      proof (cases "\<exists>k' b'. acct s k' = Some (h', b')")
        case True
        then obtain k' b' where k': "acct s k' = Some (h', b')" by blast
        with r Inr Cons.prems(1) have "acct s1 = (acct s)(k' \<mapsto> (h', b' + n))"
          by (auto dest: deposit_success)
        with k' Inr Cons.prems handles [of s k h b k' b'] show ?thesis by auto
      next
        case False
        with r Inr Cons.prems have "acct s1 = acct s" by (auto dest: deposit_stray)
        with False Cons.prems show ?thesis by auto
      qed
    qed
    ultimately show ?thesis
      using Cons.IH [OF _ _ rs1] by (auto simp: Deposit rs algebra_simps split: if_splits)
  qed
qed

end

section \<open>Operations that are safe to retry\<close>

text \<open>The state after a sequence of attempts, whatever they return.\<close>

fun attempts :: "('x \<Rightarrow> ('s, 'a) state) \<Rightarrow> 'x list \<Rightarrow> 's \<Rightarrow> 's" where
  "attempts act [] s = s"
| "attempts act (x # xs) s = attempts act xs (snd (run_state (act x) s))"

locale once =
  fixes inv :: "'s \<Rightarrow> bool"
    and obs :: "'s \<Rightarrow> 'o"
    and settled :: "'s \<Rightarrow> 'k \<Rightarrow> bool"
    and key :: "'x \<Rightarrow> 'k"
    and act :: "'x \<Rightarrow> ('s, 'a) go"
  assumes act_inv: "keeps inv (act x)"
    and act_settles: "inv s \<Longrightarrow> run_state (act x) s = (Inr v, s') \<Longrightarrow> settled s' (key x)"
    and act_settled: "inv s \<Longrightarrow> settled s (key x) \<Longrightarrow> run_state (act x) s = (r, s') \<Longrightarrow>
      obs s' = obs s \<and> settled s' (key x)"
    and act_error: "inv s \<Longrightarrow> run_state (act x) s = (Inl e, s') \<Longrightarrow> obs s' = obs s"
begin

lemma attempts_inv: "inv s \<Longrightarrow> inv (attempts act xs s)"
  by (induction xs arbitrary: s) (auto intro: keepsD [OF act_inv])

lemma attempts_settled:
  assumes "inv s" and "settled s k" and "\<forall>x \<in> set xs. key x = k"
  shows "obs (attempts act xs s) = obs s"
  using assms
proof (induction xs arbitrary: s)
  case (Cons x xs)
  obtain r s1 where r: "run_state (act x) s = (r, s1)" by (cases "run_state (act x) s")
  with Cons.prems have "obs s1 = obs s" "settled s1 k" "inv s1"
    using act_settled [of s x r s1] keeps_run [OF act_inv r] by auto
  with Cons r show ?case by simp
qed simp

text \<open>Any number of attempts under one key changes what it changes at the first success, and no more.\<close>

lemma attempts_once:
  assumes "inv s" and "\<forall>x \<in> set xs. key x = k"
  shows "obs (attempts act xs s) = obs s \<or>
    (\<exists>ys x zs v s2. xs = ys @ x # zs \<and> obs (attempts act ys s) = obs s \<and>
       run_state (act x) (attempts act ys s) = (Inr v, s2) \<and> obs (attempts act xs s) = obs s2)"
  using assms
proof (induction xs arbitrary: s)
  case (Cons x xs)
  obtain r s1 where r: "run_state (act x) s = (r, s1)" by (cases "run_state (act x) s")
  have s1: "inv s1" using act_inv r Cons.prems(1) by (rule keeps_run)
  show ?case
  proof (cases r)
    case (Inl e)
    with r Cons.prems have o1: "obs s1 = obs s" by (auto dest: act_error)
    from Cons.IH [OF s1] Cons.prems(2) consider "obs (attempts act xs s1) = obs s1" |
      ys y zs v s2 where "xs = ys @ y # zs" "obs (attempts act ys s1) = obs s1"
        "run_state (act y) (attempts act ys s1) = (Inr v, s2)" "obs (attempts act xs s1) = obs s2"
      by auto
    then show ?thesis
    proof cases
      case 1
      with o1 r show ?thesis by simp
    next
      case 2
      with o1 r show ?thesis
        by (intro disjI2 exI [of _ "x # ys"] exI [of _ y] exI [of _ zs] exI [of _ v] exI [of _ s2])
          simp
    qed
  next
    case (Inr v)
    with r Cons.prems have "settled s1 k" by (auto dest: act_settles)
    with s1 Cons.prems have "obs (attempts act xs s1) = obs s1"
      by (simp add: attempts_settled)
    with r Inr show ?thesis
      by (intro disjI2 exI [of _ "[]"] exI [of _ x] exI [of _ xs] exI [of _ v] exI [of _ s1]) simp
  qed
qed simp

end

end
