(* ===== verification/WalletRepo.thy ===== *)
theory WalletRepo
  imports Store Contracts
begin

text \<open>
  \<open>internal/repository/postgres/wallet_repo.go\<close> on the tables \<open>wallets\<close> and
  \<open>transactions\<close>, with the constraints of their migrations. One definition per method;
  each SQL statement of a method is one \<open>query_row\<close>, \<open>query_all\<close> or \<open>exec\<close>.
\<close>

section \<open>Schema\<close>

definition wallet_row_ok :: "wallet \<Rightarrow> bool" where
  "wallet_row_ok w \<longleftrightarrow>
     0 \<le> w_balance w \<and> 0 \<le> w_ledger_balance w \<and> 0 \<le> w_daily_spend w \<and> 0 < w_daily_limit w \<and>
     in_i64 (w_balance w) \<and> in_i64 (w_ledger_balance w) \<and>
     in_i64 (w_daily_spend w) \<and> in_i64 (w_daily_limit w)"

definition wallets_unique :: "wallet list \<Rightarrow> bool" where
  "wallets_unique t \<longleftrightarrow> distinct (map w_id t) \<and> distinct (map w_user_id t)"

definition tx_row_ok :: "transaction \<Rightarrow> bool" where
  "tx_row_ok t \<longleftrightarrow>
     0 < t_amount t \<and> 0 \<le> t_fee t \<and> in_i64 (t_amount t) \<and> in_i64 (t_fee t) \<and>
     in_i64 (t_commission t) \<and> in_i64 (t_balance_before t) \<and> in_i64 (t_balance_after t) \<and>
     length (t_reference t) \<le> 100 \<and> length (t_external_ref t) \<le> 200 \<and>
     length (t_provider t) \<le> 50"

text \<open>The partial unique index \<open>transactions_external_ref_credit_unique_idx\<close>.\<close>

definition indexed_credit :: "transaction \<Rightarrow> bool" where
  "indexed_credit t \<longleftrightarrow> t_type t = TxTypeCredit \<and> t_external_ref t \<noteq> []"

definition transactions_unique :: "transaction list \<Rightarrow> bool" where
  "transactions_unique t \<longleftrightarrow>
     distinct (map t_id t) \<and> distinct (map t_reference t) \<and>
     distinct (map t_external_ref (filter indexed_credit t))"

definition user_exists :: "uuid \<Rightarrow> world \<Rightarrow> bool" where
  "user_exists u s \<longleftrightarrow> u \<in> set (map u_id (users s))"

definition wallet_exists :: "uuid \<Rightarrow> world \<Rightarrow> bool" where
  "wallet_exists i s \<longleftrightarrow> i \<in> set (map w_id (wallets s))"

definition tx_exists :: "uuid \<Rightarrow> world \<Rightarrow> bool" where
  "tx_exists i s \<longleftrightarrow> i \<in> set (map t_id (transactions s))"

definition insert_wallet :: "wallet \<Rightarrow> world \<Rightarrow> world option" where
  "insert_wallet w s =
     (if wallet_row_ok w \<and> user_exists (w_user_id w) s \<and> wallets_unique (wallets s @ [w])
      then Some (s\<lparr>wallets := wallets s @ [w]\<rparr>) else None)"

definition update_wallets ::
  "(wallet \<Rightarrow> bool) \<Rightarrow> (wallet \<Rightarrow> wallet) \<Rightarrow> world \<Rightarrow> world option" where
  "update_wallets p f s =
     (if list_all (\<lambda>w. p w \<longrightarrow> wallet_row_ok (f w)) (wallets s) \<and>
         wallets_unique (set_rows p f (wallets s))
      then Some (s\<lparr>wallets := set_rows p f (wallets s)\<rparr>) else None)"

definition insert_transaction :: "transaction \<Rightarrow> world \<Rightarrow> world option" where
  "insert_transaction t s =
     (if tx_row_ok t \<and> user_exists (t_user_id t) s \<and> wallet_exists (t_wallet_id t) s \<and>
         (case t_reversed_tx_id t of None \<Rightarrow> True | Some i \<Rightarrow> tx_exists i s) \<and>
         transactions_unique (transactions s @ [t])
      then Some (s\<lparr>transactions := transactions s @ [t]\<rparr>) else None)"

definition update_transactions ::
  "(transaction \<Rightarrow> bool) \<Rightarrow> (transaction \<Rightarrow> transaction) \<Rightarrow> world \<Rightarrow> world option" where
  "update_transactions p f s =
     (if list_all (\<lambda>t. p t \<longrightarrow> tx_row_ok (f t)) (transactions s) \<and>
         transactions_unique (set_rows p f (transactions s))
      then Some (s\<lparr>transactions := set_rows p f (transactions s)\<rparr>) else None)"

text \<open>What the schema promises of the stored rows.\<close>

definition wallet_tables_ok :: "world \<Rightarrow> bool" where
  "wallet_tables_ok s \<longleftrightarrow>
     list_all (\<lambda>w. wallet_row_ok w \<and> user_exists (w_user_id w) s) (wallets s) \<and>
     wallets_unique (wallets s) \<and>
     list_all (\<lambda>t. tx_row_ok t \<and> user_exists (t_user_id t) s \<and> wallet_exists (t_wallet_id t) s)
       (transactions s) \<and>
     transactions_unique (transactions s)"

section \<open>Methods\<close>

definition wallet_of :: "string \<Rightarrow> world \<Rightarrow> wallet option" where
  "wallet_of u s = find (\<lambda>w. w_user_id w = u) (wallets s)"

definition tx_by_ref :: "string \<Rightarrow> world \<Rightarrow> transaction option" where
  "tx_by_ref r s = find (\<lambda>t. t_reference t = r) (transactions s)"

text \<open>\<open>WithinTx\<close>: a closure run inside the context's transaction, or inside one of its own.\<close>

definition WithinTx :: "ctx \<Rightarrow> (ctx \<Rightarrow> 'a program) \<Rightarrow> 'a program" where
  "WithinTx c fn =
     local_tx c (Wrap ''begin context transaction'') (Wrap ''commit context transaction'') (fn InTx)"

text \<open>\<open>Create\<close> of the wallet repository.\<close>

definition CreateWallet :: "wallet \<Rightarrow> unit program" where
  "CreateWallet w = exec (\<lambda>_. insert_wallet w)"

definition FindByUserID :: "string \<Rightarrow> wallet program" where
  "FindByUserID userID = or_return (query_row (wallet_of userID)) (Wrap ''scan wallet'') ok"

text \<open>
  \<open>SELECT id,balance,daily_spend,daily_limit\<close> leaves the other fields of the struct at
  their zero values.
\<close>

definition locked_wallet :: "wallet \<Rightarrow> wallet" where
  "locked_wallet w = \<lparr>w_id = w_id w, w_user_id = [], w_balance = w_balance w,
     w_ledger_balance = 0, w_currency = NGN, w_daily_spend = w_daily_spend w,
     w_daily_limit = w_daily_limit w, w_created_at = 0, w_updated_at = 0\<rparr>"

text \<open>\<open>SET balance=balance-$1, daily_spend=daily_spend+$1, updated_at=NOW()\<close>.\<close>

definition debit_row :: "int \<Rightarrow> time \<Rightarrow> wallet \<Rightarrow> wallet" where
  "debit_row amount now x =
     x\<lparr>w_balance := w_balance x - amount, w_daily_spend := w_daily_spend x + amount,
       w_updated_at := now\<rparr>"

definition DebitWithLock :: "ctx \<Rightarrow> string \<Rightarrow> int \<Rightarrow> wallet program" where
  "DebitWithLock c userID amount =
     local_tx c (\<lambda>e. e) (\<lambda>e. e) (
       or_return (query_row (\<lambda>s. map_option locked_wallet (wallet_of userID s)))
         (Wrap ''lock wallet'') (\<lambda>w.
       if w_balance w < amount then fail (ErrMsg ''insufficient funds'')
       else if w_daily_limit w < i64 (w_daily_spend w + amount)
       then fail (ErrMsg ''daily transaction limit exceeded for your KYC tier'')
       else or_return
         (exec (\<lambda>now. update_wallets (\<lambda>x. w_id x = w_id w)
           (debit_row amount now)))
         (\<lambda>e. e) (\<lambda>_.
       ok (w\<lparr>w_balance := i64 (w_balance w - amount),
             w_daily_spend := i64 (w_daily_spend w + amount)\<rparr>))))"

text \<open>\<open>SET balance=balance+$1, updated_at=NOW()\<close>.\<close>

definition credit_row :: "int \<Rightarrow> time \<Rightarrow> wallet \<Rightarrow> wallet" where
  "credit_row amount now x = x\<lparr>w_balance := w_balance x + amount, w_updated_at := now\<rparr>"

lemma row_simps [simp]:
  "w_id (debit_row n now x) = w_id x" "w_user_id (debit_row n now x) = w_user_id x"
  "w_id (credit_row n now x) = w_id x" "w_user_id (credit_row n now x) = w_user_id x"
  by (simp_all add: debit_row_def credit_row_def)

definition CreditBalance :: "uuid \<Rightarrow> int \<Rightarrow> unit program" where
  "CreditBalance walletID amount =
     exec (\<lambda>now. update_wallets (\<lambda>x. w_id x = walletID) (credit_row amount now))"

definition UpdateDailyLimit :: "string \<Rightarrow> int \<Rightarrow> unit program" where
  "UpdateDailyLimit userID newLimit =
     exec (\<lambda>now. update_wallets (\<lambda>x. w_user_id x = userID)
       (\<lambda>x. x\<lparr>w_daily_limit := newLimit, w_updated_at := now\<rparr>))"

definition InsertTransaction :: "transaction \<Rightarrow> unit program" where
  "InsertTransaction t = exec (\<lambda>_. insert_transaction t)"

definition UpdateTransactionStatus :: "string \<Rightarrow> tx_status \<Rightarrow> string \<Rightarrow> unit program" where
  "UpdateTransactionStatus ref status extRef =
     exec (\<lambda>now. update_transactions (\<lambda>t. t_reference t = ref)
       (\<lambda>t. t\<lparr>t_status := status, t_external_ref := extRef, t_updated_at := now\<rparr>))"

definition UpdateTransactionMeta :: "string \<Rightarrow> string \<Rightarrow> unit program" where
  "UpdateTransactionMeta ref meta =
     exec (\<lambda>now. update_transactions (\<lambda>t. t_reference t = ref)
       (\<lambda>t. t\<lparr>t_meta := meta, t_updated_at := now\<rparr>))"

definition UpdateTransactionBalances :: "string \<Rightarrow> int \<Rightarrow> int \<Rightarrow> unit program" where
  "UpdateTransactionBalances ref before after =
     exec (\<lambda>now. update_transactions (\<lambda>t. t_reference t = ref)
       (\<lambda>t. t\<lparr>t_balance_before := before, t_balance_after := after, t_updated_at := now\<rparr>))"

text \<open>\<open>UPDATE transactions SET status=$1 WHERE reference=$2\<close>, issued twice by the next method.\<close>

definition mark_reversed :: "string \<Rightarrow> unit program" where
  "mark_reversed ref =
     exec (\<lambda>now. update_transactions (\<lambda>t. t_reference t = ref)
       (\<lambda>t. t\<lparr>t_status := TxReversed, t_updated_at := now\<rparr>))"

definition reversal_row :: "transaction \<Rightarrow> transaction \<Rightarrow> world \<Rightarrow> transaction option" where
  "reversal_row original reversal s =
     find (\<lambda>t. t_user_id t = t_user_id original \<and> t_reference t = t_reference reversal)
       (transactions s)"

definition ReverseDebitIfNeeded :: "ctx \<Rightarrow> transaction \<Rightarrow> transaction \<Rightarrow> bool program" where
  "ReverseDebitIfNeeded c original reversal =
     local_tx c (\<lambda>e. e) (\<lambda>e. e) (do {
       existing \<leftarrow> query_row (reversal_row original reversal);
       case existing of
         Inr _ \<Rightarrow> or_return (mark_reversed (t_reference original)) (\<lambda>e. e) (\<lambda>_. ok False)
       | Inl e \<Rightarrow>
           if \<not> is_no_rows e then fail e
           else or_return (InsertTransaction reversal) (\<lambda>e. e) (\<lambda>_.
                or_return (CreditBalance (t_wallet_id original) (t_amount original)) (\<lambda>e. e) (\<lambda>_.
                or_return (mark_reversed (t_reference original)) (\<lambda>e. e) (\<lambda>_.
                ok True)))
     })"

definition FindTransactionByReference :: "string \<Rightarrow> string \<Rightarrow> transaction program" where
  "FindTransactionByReference userID reference =
     or_return
       (if userID = [] then query_row (tx_by_ref reference)
        else query_row (\<lambda>s. find (\<lambda>t. t_user_id t = userID \<and> t_reference t = reference)
                              (transactions s)))
       (Wrap ''find transaction by reference'') ok"

text \<open>
  \<open>ORDER BY created_at DESC LIMIT l OFFSET o\<close>, an error for a negative bound. SQL leaves
  the order of rows with equal time stamps open; the model keeps them in insertion order.
\<close>

definition page_of :: "('r \<Rightarrow> time) \<Rightarrow> int \<Rightarrow> int \<Rightarrow> 'r list \<Rightarrow> 'r list" where
  "page_of created limit offset rows =
     take (nat limit) (drop (nat offset) (sort_key (\<lambda>r. - created r) rows))"

definition ListTransactions :: "string \<Rightarrow> int \<Rightarrow> int \<Rightarrow> (transaction list \<times> int) program" where
  "ListTransactions userID limit offset =
     or_return (query_all (\<lambda>s. int (length (filter (\<lambda>t. t_user_id t = userID) (transactions s)))))
       (\<lambda>e. e) (\<lambda>total.
     or_return
       (if limit < 0 \<or> offset < 0 then statement (\<lambda>s. (Inl (ErrDb ''negative bound''), s))
        else query_all (\<lambda>s. page_of t_created_at limit offset
                              (filter (\<lambda>t. t_user_id t = userID) (transactions s))))
       (\<lambda>e. e) (\<lambda>txs. ok (txs, total)))"

definition CreditWithTransaction :: "ctx \<Rightarrow> uuid \<Rightarrow> transaction \<Rightarrow> unit program" where
  "CreditWithTransaction c walletID t =
     local_tx c (\<lambda>e. e) (\<lambda>e. e) (
       or_return (CreditBalance walletID (t_amount t)) (Wrap ''credit balance'') (\<lambda>_.
       or_return (InsertTransaction t) (Wrap ''insert transaction'') (\<lambda>_. ok ())))"

definition FindCreditByExternalRef :: "string \<Rightarrow> transaction program" where
  "FindCreditByExternalRef externalRef =
     query_row (\<lambda>s. find (\<lambda>t. t_external_ref t = externalRef \<and> t_type t = TxTypeCredit)
                      (transactions s))"

record spend_stats =
  st_count :: int
  st_total :: int
  st_avg :: int
  st_max :: int

text \<open>
  Stored amounts are positive, so \<open>COALESCE(MAX(amount), 0)\<close> is the maximum with 0.
  \<open>AVG(amount)\<close> is a PostgreSQL \<open>numeric\<close>; what the driver makes of it when it scans it
  into an \<open>int64\<close> is the parameter \<open>scan_avg\<close>, a function of the sum and the count.
\<close>

definition CategorySpendStats ::
  "(int \<Rightarrow> int \<Rightarrow> int res) \<Rightarrow> string \<Rightarrow> service_category \<Rightarrow> time \<Rightarrow> spend_stats program" where
  "CategorySpendStats scan_avg userID category since =
     or_return (query_all (\<lambda>s. map t_amount (filter (\<lambda>t.
         t_user_id t = userID \<and> t_category t = category \<and> t_type t = TxTypeDebit \<and>
         t_status t = TxSuccess \<and> since \<le> t_created_at t) (transactions s))))
       (Wrap ''category spend stats'') (\<lambda>amounts.
     case (if amounts = [] then Inr 0
           else if \<not> in_i64 (sum_list amounts) then Inl (ErrDb ''out of range'')
           else scan_avg (sum_list amounts) (int (length amounts))) of
       Inl e \<Rightarrow> fail (Wrap ''category spend stats'' e)
     | Inr avg \<Rightarrow> ok \<lparr>st_count = int (length amounts), st_total = sum_list amounts,
                      st_avg = avg, st_max = foldr max amounts 0\<rparr>)"

section \<open>The schema is kept\<close>

lemma on_tables_wallet_tables_ok [simp, keeps_intros]: "on_tables wallet_tables_ok"
  by (simp add: on_tables_def wallet_tables_ok_def user_exists_def wallet_exists_def)

lemma wallet_tables_ok_update_wallets:
  assumes "wallet_tables_ok s" and "update_wallets p f s = Some s'"
    and "\<And>w. p w \<Longrightarrow> w_id (f w) = w_id w \<and> w_user_id (f w) = w_user_id w"
  shows "wallet_tables_ok s'"
proof -
  from assms(2) have s': "s' = s\<lparr>wallets := set_rows p f (wallets s)\<rparr>"
    and rows: "\<forall>w \<in> set (wallets s). p w \<longrightarrow> wallet_row_ok (f w)"
    and uniq: "wallets_unique (wallets s')"
    by (auto simp: update_wallets_def list_all_iff split: if_splits)
  have "map w_id (wallets s') = map w_id (wallets s)"
    unfolding s' using assms(3) by (simp add: map_set_rows)
  then have refs: "wallet_exists i s' = wallet_exists i s" "user_exists i s' = user_exists i s" for i
    by (simp_all add: wallet_exists_def user_exists_def s')
  have "\<forall>w \<in> set (wallets s'). wallet_row_ok w \<and> user_exists (w_user_id w) s"
    using assms(1,3) rows by (auto simp: s' set_rows_def wallet_tables_ok_def list_all_iff)
  with assms(1) uniq show ?thesis
    by (simp add: wallet_tables_ok_def list_all_iff refs) (simp add: s')
qed

lemma wallet_tables_ok_insert_wallet:
  "wallet_tables_ok s \<Longrightarrow> insert_wallet w s = Some s' \<Longrightarrow> wallet_tables_ok s'"
  by (auto simp: insert_wallet_def wallet_tables_ok_def list_all_iff user_exists_def
      wallet_exists_def split: if_splits)

lemma wallet_tables_ok_insert_transaction:
  "wallet_tables_ok s \<Longrightarrow> insert_transaction t s = Some s' \<Longrightarrow> wallet_tables_ok s'"
  by (auto simp: insert_transaction_def wallet_tables_ok_def list_all_iff user_exists_def
      wallet_exists_def split: if_splits)

lemma wallet_tables_ok_update_transactions:
  assumes "wallet_tables_ok s" and "update_transactions p f s = Some s'"
    and "\<And>t. p t \<Longrightarrow> t_user_id (f t) = t_user_id t \<and> t_wallet_id (f t) = t_wallet_id t"
  shows "wallet_tables_ok s'"
  using assms
  by (auto simp: update_transactions_def wallet_tables_ok_def list_all_iff set_rows_def
      user_exists_def wallet_exists_def split: if_splits)

lemmas wallet_tables_ok_rules =
  wallet_tables_ok_insert_wallet wallet_tables_ok_insert_transaction
  wallet_tables_ok_update_wallets wallet_tables_ok_update_transactions

lemma keeps_ok_CreateWallet [keeps_intros]: "keeps wallet_tables_ok (CreateWallet w)"
  by (auto simp: CreateWallet_def intro!: keeps_exec elim: wallet_tables_ok_insert_wallet)

lemma keeps_ok_CreditBalance [keeps_intros]: "keeps wallet_tables_ok (CreditBalance i n)"
  unfolding CreditBalance_def
  by (rule keeps_exec, simp, erule (1) wallet_tables_ok_update_wallets) simp

lemma keeps_ok_UpdateDailyLimit [keeps_intros]: "keeps wallet_tables_ok (UpdateDailyLimit u n)"
  unfolding UpdateDailyLimit_def
  by (rule keeps_exec, simp, erule (1) wallet_tables_ok_update_wallets) simp

lemma keeps_ok_InsertTransaction [keeps_intros]: "keeps wallet_tables_ok (InsertTransaction t)"
  by (auto simp: InsertTransaction_def intro!: keeps_exec elim: wallet_tables_ok_insert_transaction)

lemma keeps_ok_UpdateTransactionStatus [keeps_intros]:
  "keeps wallet_tables_ok (UpdateTransactionStatus r st e)"
  unfolding UpdateTransactionStatus_def
  by (rule keeps_exec, simp, erule (1) wallet_tables_ok_update_transactions) simp

lemma keeps_ok_UpdateTransactionMeta [keeps_intros]:
  "keeps wallet_tables_ok (UpdateTransactionMeta r m)"
  unfolding UpdateTransactionMeta_def
  by (rule keeps_exec, simp, erule (1) wallet_tables_ok_update_transactions) simp

lemma keeps_ok_UpdateTransactionBalances [keeps_intros]:
  "keeps wallet_tables_ok (UpdateTransactionBalances r b a)"
  unfolding UpdateTransactionBalances_def
  by (rule keeps_exec, simp, erule (1) wallet_tables_ok_update_transactions) simp

lemma keeps_ok_mark_reversed [keeps_intros]: "keeps wallet_tables_ok (mark_reversed r)"
  unfolding mark_reversed_def
  by (rule keeps_exec, simp, erule (1) wallet_tables_ok_update_transactions) simp

lemma keeps_ok_DebitWithLock [keeps_intros]: "keeps wallet_tables_ok (DebitWithLock c u n)"
  unfolding DebitWithLock_def
  by (intro keeps_intros keeps_exec on_tables_wallet_tables_ok)
    (erule (1) wallet_tables_ok_update_wallets, simp)

text \<open>Queries keep every predicate on the tables.\<close>

lemma keeps_FindByUserID [keeps_intros]: "on_tables P \<Longrightarrow> keeps P (FindByUserID u)"
  by (auto simp: FindByUserID_def intro!: keeps_intros)

lemma keeps_FindTransactionByReference [keeps_intros]:
  "on_tables P \<Longrightarrow> keeps P (FindTransactionByReference u r)"
  by (auto simp: FindTransactionByReference_def intro!: keeps_intros)

lemma keeps_FindCreditByExternalRef [keeps_intros]:
  "on_tables P \<Longrightarrow> keeps P (FindCreditByExternalRef r)"
  by (auto simp: FindCreditByExternalRef_def intro!: keeps_intros)

lemma keeps_ListTransactions [keeps_intros]: "on_tables P \<Longrightarrow> keeps P (ListTransactions u l n)"
proof -
  assume P: "on_tables P"
  then have "keeps P (statement (\<lambda>s. (Inl (ErrDb m), s)) :: 'a program)" for m
    by (simp add: keeps_def run_statement on_tables_step)
  with P show ?thesis
    unfolding ListTransactions_def by (intro keeps_intros)
qed

lemma keeps_CategorySpendStats [keeps_intros]:
  "on_tables P \<Longrightarrow> keeps P (CategorySpendStats sc u c d)"
  unfolding CategorySpendStats_def by (intro keeps_intros)

lemma keeps_WithinTx [keeps_intros]:
  "on_tables P \<Longrightarrow> keeps P (fn InTx) \<Longrightarrow> keeps P (WithinTx c fn)"
  unfolding WithinTx_def by (intro keeps_intros)

lemma keeps_ok_ReverseDebitIfNeeded [keeps_intros]:
  "keeps wallet_tables_ok (ReverseDebitIfNeeded c o1 r)"
  unfolding ReverseDebitIfNeeded_def by (intro keeps_intros on_tables_wallet_tables_ok)

lemma keeps_ok_CreditWithTransaction [keeps_intros]:
  "keeps wallet_tables_ok (CreditWithTransaction c i t)"
  unfolding CreditWithTransaction_def by (intro keeps_intros on_tables_wallet_tables_ok)

section \<open>What a method leaves alone\<close>

text \<open>
  The frame of a method is the world without the tables it writes (and without ticks and
  goroutines). Equal frames mean equal remaining tables and the same schedule of failures.
\<close>

definition wallet_frame :: "world \<Rightarrow> world" where
  "wallet_frame s = s\<lparr>tick := 0, jobs := [], wallets := []\<rparr>"

definition tx_frame :: "world \<Rightarrow> world" where
  "tx_frame s = s\<lparr>tick := 0, jobs := [], transactions := []\<rparr>"

definition bank_frame :: "world \<Rightarrow> world" where
  "bank_frame s = s\<lparr>tick := 0, jobs := [], wallets := [], transactions := []\<rparr>"

lemma on_tables_frames [simp, keeps_intros]:
  "on_tables (\<lambda>s. wallet_frame s = c)" "on_tables (\<lambda>s. tx_frame s = c)"
  "on_tables (\<lambda>s. bank_frame s = c)" "on_tables (\<lambda>s. wallets s = cw)"
  "on_tables (\<lambda>s. transactions s = ct)" "on_tables reliable"
  by (simp_all add: on_tables_def wallet_frame_def tx_frame_def bank_frame_def reliable_def)

lemma bank_frame_wallet_frame: "wallet_frame s = wallet_frame s' \<Longrightarrow> bank_frame s = bank_frame s'"
proof -
  assume "wallet_frame s = wallet_frame s'"
  then have "(wallet_frame s)\<lparr>transactions := []\<rparr> = (wallet_frame s')\<lparr>transactions := []\<rparr>"
    by simp
  then show ?thesis by (cases s; cases s') (simp add: wallet_frame_def bank_frame_def)
qed

lemma bank_frame_tx_frame: "tx_frame s = tx_frame s' \<Longrightarrow> bank_frame s = bank_frame s'"
proof -
  assume "tx_frame s = tx_frame s'"
  then have "(tx_frame s)\<lparr>wallets := []\<rparr> = (tx_frame s')\<lparr>wallets := []\<rparr>"
    by simp
  then show ?thesis by (cases s; cases s') (simp add: tx_frame_def bank_frame_def)
qed

lemma wallet_frameD:
  assumes "wallet_frame s' = wallet_frame s"
  shows "transactions s' = transactions s" and "reliable s' = reliable s"
    and "bank_frame s' = bank_frame s"
  using arg_cong [OF assms, of transactions] arg_cong [OF assms, of reliable]
    bank_frame_wallet_frame [OF assms]
  by (simp_all add: wallet_frame_def reliable_def)

lemma tx_frameD:
  assumes "tx_frame s' = tx_frame s"
  shows "wallets s' = wallets s" and "reliable s' = reliable s"
    and "bank_frame s' = bank_frame s"
  using arg_cong [OF assms, of wallets] arg_cong [OF assms, of reliable]
    bank_frame_tx_frame [OF assms]
  by (simp_all add: tx_frame_def reliable_def)

lemma bank_frameD:
  assumes "bank_frame s' = bank_frame s"
  shows "reliable s' = reliable s" and "users s' = users s"
    and "loyalty_accounts s' = loyalty_accounts s"
    and "loyalty_transactions s' = loyalty_transactions s"
    and "bookings s' = bookings s" and "disruptions s' = disruptions s"
    and "events s' = events s"
  using arg_cong [OF assms, of reliable] arg_cong [OF assms, of users]
    arg_cong [OF assms, of loyalty_accounts] arg_cong [OF assms, of loyalty_transactions]
    arg_cong [OF assms, of bookings] arg_cong [OF assms, of disruptions]
    arg_cong [OF assms, of events]
  by (simp_all add: bank_frame_def reliable_def)

lemma frame_steps [simp]:
  "wallet_frame (step s) = wallet_frame s" "tx_frame (step s) = tx_frame s"
  "bank_frame (step s) = bank_frame s"
  by (simp_all add: wallet_frame_def tx_frame_def bank_frame_def step_def)

lemma update_wallets_frame: "update_wallets p f s = Some s' \<Longrightarrow> wallet_frame s' = wallet_frame s"
  by (auto simp: update_wallets_def wallet_frame_def split: if_splits)

lemma insert_wallet_frame: "insert_wallet w s = Some s' \<Longrightarrow> wallet_frame s' = wallet_frame s"
  by (auto simp: insert_wallet_def wallet_frame_def split: if_splits)

lemma update_transactions_frame: "update_transactions p f s = Some s' \<Longrightarrow> tx_frame s' = tx_frame s"
  by (auto simp: update_transactions_def tx_frame_def split: if_splits)

lemma insert_transaction_frame: "insert_transaction t s = Some s' \<Longrightarrow> tx_frame s' = tx_frame s"
  by (auto simp: insert_transaction_def tx_frame_def split: if_splits)

lemma keeps_wallet_frame [keeps_intros]:
  "keeps (\<lambda>s. wallet_frame s = c) (CreateWallet w)"
  "keeps (\<lambda>s. wallet_frame s = c) (CreditBalance i n)"
  "keeps (\<lambda>s. wallet_frame s = c) (UpdateDailyLimit u n)"
  by (auto simp: CreateWallet_def CreditBalance_def UpdateDailyLimit_def intro!: keeps_exec
      dest: update_wallets_frame insert_wallet_frame)

lemma keeps_wallet_frame_DebitWithLock [keeps_intros]:
  "keeps (\<lambda>s. wallet_frame s = c) (DebitWithLock cx u n)"
  unfolding DebitWithLock_def
  by (intro keeps_intros keeps_exec on_tables_frames) (simp add: update_wallets_frame)

lemma keeps_tx_frame [keeps_intros]:
  "keeps (\<lambda>s. tx_frame s = c) (InsertTransaction t)"
  "keeps (\<lambda>s. tx_frame s = c) (UpdateTransactionStatus r st e)"
  "keeps (\<lambda>s. tx_frame s = c) (UpdateTransactionMeta r m)"
  "keeps (\<lambda>s. tx_frame s = c) (UpdateTransactionBalances r b a)"
  "keeps (\<lambda>s. tx_frame s = c) (mark_reversed r)"
  by (auto simp: InsertTransaction_def UpdateTransactionStatus_def UpdateTransactionMeta_def
      UpdateTransactionBalances_def mark_reversed_def intro!: keeps_exec
      dest: update_transactions_frame insert_transaction_frame)

lemma keeps_wallets_tx [keeps_intros]:
  "keeps (\<lambda>s. wallets s = c) (InsertTransaction t)"
  "keeps (\<lambda>s. wallets s = c) (UpdateTransactionStatus r st e)"
  "keeps (\<lambda>s. wallets s = c) (UpdateTransactionMeta r m)"
  "keeps (\<lambda>s. wallets s = c) (UpdateTransactionBalances r b a)"
  "keeps (\<lambda>s. wallets s = c) (mark_reversed r)"
proof -
  have "keeps (\<lambda>s. wallets s = c) n" if "\<And>d. keeps (\<lambda>s. tx_frame s = d) n" for n :: "'a program"
  proof (rule keepsI)
    fix s :: world assume "wallets s = c"
    with tx_frameD(1) [OF keepsD [OF that refl, of s]] show "wallets (snd (run_state n s)) = c"
      by simp
  qed
  then show "keeps (\<lambda>s. wallets s = c) (InsertTransaction t)"
    "keeps (\<lambda>s. wallets s = c) (UpdateTransactionStatus r st e)"
    "keeps (\<lambda>s. wallets s = c) (UpdateTransactionMeta r m)"
    "keeps (\<lambda>s. wallets s = c) (UpdateTransactionBalances r b a)"
    "keeps (\<lambda>s. wallets s = c) (mark_reversed r)"
    by (blast intro: keeps_tx_frame)+
qed

lemma keeps_bank_frameI:
  "(\<And>c. keeps (\<lambda>s. wallet_frame s = c) m) \<Longrightarrow> keeps (\<lambda>s. bank_frame s = d) m"
  "(\<And>c. keeps (\<lambda>s. tx_frame s = c) m) \<Longrightarrow> keeps (\<lambda>s. bank_frame s = d) m"
  unfolding keeps_def by (metis bank_frame_wallet_frame, metis bank_frame_tx_frame)

lemma keeps_bank_frame [keeps_intros]:
  "keeps (\<lambda>s. bank_frame s = c) (CreateWallet w)"
  "keeps (\<lambda>s. bank_frame s = c) (CreditBalance i n)"
  "keeps (\<lambda>s. bank_frame s = c) (UpdateDailyLimit u n)"
  "keeps (\<lambda>s. bank_frame s = c) (DebitWithLock cx u n)"
  "keeps (\<lambda>s. bank_frame s = c) (InsertTransaction t)"
  "keeps (\<lambda>s. bank_frame s = c) (UpdateTransactionStatus r st e)"
  "keeps (\<lambda>s. bank_frame s = c) (UpdateTransactionMeta r m)"
  "keeps (\<lambda>s. bank_frame s = c) (UpdateTransactionBalances r b a)"
  "keeps (\<lambda>s. bank_frame s = c) (mark_reversed r)"
  by (rule keeps_bank_frameI keeps_wallet_frame keeps_wallet_frame_DebitWithLock keeps_tx_frame)+

lemma keeps_bank_frame_ReverseDebitIfNeeded [keeps_intros]:
  "keeps (\<lambda>s. bank_frame s = c) (ReverseDebitIfNeeded cx o1 r)"
  unfolding ReverseDebitIfNeeded_def by (intro keeps_intros on_tables_frames)

section \<open>The accounts the wallets stand for\<close>

text \<open>
  The abstract state of the wallet table: for each user the wallet's identifier and its
  money. The methods refine updates of this map.
\<close>

record account =
  ac_wallet :: uuid
  ac_balance :: int
  ac_spend :: int
  ac_limit :: int

definition account_of :: "wallet \<Rightarrow> account" where
  "account_of w = \<lparr>ac_wallet = w_id w, ac_balance = w_balance w, ac_spend = w_daily_spend w,
     ac_limit = w_daily_limit w\<rparr>"

definition accounts :: "world \<Rightarrow> (uuid \<rightharpoonup> account)" where
  "accounts s u = map_option account_of (wallet_of u s)"

definition debit :: "int \<Rightarrow> account \<Rightarrow> account" where
  "debit n a = a\<lparr>ac_balance := ac_balance a - n, ac_spend := ac_spend a + n\<rparr>"

definition credit :: "int \<Rightarrow> account \<Rightarrow> account" where
  "credit n a = a\<lparr>ac_balance := ac_balance a + n\<rparr>"

definition can_debit :: "int \<Rightarrow> account \<Rightarrow> bool" where
  "can_debit n a \<longleftrightarrow> n \<le> ac_balance a \<and> in_i64 (ac_balance a - n) \<and>
     0 \<le> ac_spend a + n \<and> ac_spend a + n \<le> ac_limit a"

definition can_credit :: "int \<Rightarrow> account \<Rightarrow> bool" where
  "can_credit n a \<longleftrightarrow> 0 \<le> ac_balance a + n \<and> in_i64 (ac_balance a + n)"

lemma account_simps [simp]:
  "ac_wallet (account_of w) = w_id w" "ac_balance (account_of w) = w_balance w"
  "ac_spend (account_of w) = w_daily_spend w" "ac_limit (account_of w) = w_daily_limit w"
  "ac_wallet (debit n a) = ac_wallet a" "ac_balance (debit n a) = ac_balance a - n"
  "ac_spend (debit n a) = ac_spend a + n" "ac_limit (debit n a) = ac_limit a"
  "ac_wallet (credit n a) = ac_wallet a" "ac_balance (credit n a) = ac_balance a + n"
  "ac_spend (credit n a) = ac_spend a" "ac_limit (credit n a) = ac_limit a"
  by (simp_all add: account_of_def debit_def credit_def)

lemma accounts_step [simp]: "accounts (step s) = accounts s" "wallet_of u (step s) = wallet_of u s"
  by (simp_all add: accounts_def wallet_of_def fun_eq_iff)

lemma accounts_jobs [simp]:
  "accounts (s\<lparr>jobs := j\<rparr>) = accounts s" "tx_by_ref r (s\<lparr>jobs := j\<rparr>) = tx_by_ref r s"
  "tx_by_ref r (step s) = tx_by_ref r s"
  by (simp_all add: accounts_def wallet_of_def tx_by_ref_def fun_eq_iff)

lemma accounts_tick [simp]:
  "accounts (s\<lparr>tick := k\<rparr>) = accounts s" "tx_by_ref r (s\<lparr>tick := k\<rparr>) = tx_by_ref r s"
  "wallet_of u (s\<lparr>tick := k\<rparr>) = wallet_of u s" "reversal_row o1 x (s\<lparr>tick := k\<rparr>) = reversal_row o1 x s"
  "wallet_tables_ok (s\<lparr>tick := k\<rparr>) = wallet_tables_ok s" "reliable (s\<lparr>tick := k\<rparr>) = reliable s"
  by (simp_all add: accounts_def wallet_of_def tx_by_ref_def reversal_row_def wallet_tables_ok_def
      user_exists_def wallet_exists_def reliable_def fun_eq_iff)

text \<open>Worlds that differ in ticks and goroutines only.\<close>

definition tables :: "world \<Rightarrow> world" where
  "tables s = s\<lparr>tick := 0, jobs := []\<rparr>"

lemma on_tables_tables [simp]: "on_tables (\<lambda>s. tables s = c)"
  by (simp add: on_tables_def tables_def)

lemma tables_eqD:
  assumes "tables s' = tables s"
  shows "accounts s' = accounts s" and "transactions s' = transactions s"
    and "wallet_tables_ok s' = wallet_tables_ok s" and "tx_by_ref r s' = tx_by_ref r s"
    and "wallets s' = wallets s"
proof -
  have "accounts (tables x) = accounts x" "wallet_tables_ok (tables x) = wallet_tables_ok x"
    "tx_by_ref r (tables x) = tx_by_ref r x" for x
    by (simp_all add: tables_def accounts_def wallet_of_def fun_eq_iff tx_by_ref_def
        wallet_tables_ok_def user_exists_def wallet_exists_def)
  with assms show "accounts s' = accounts s" "wallet_tables_ok s' = wallet_tables_ok s"
    "tx_by_ref r s' = tx_by_ref r s" by metis+
  show "transactions s' = transactions s" "wallets s' = wallets s"
    using arg_cong [OF assms, of transactions] arg_cong [OF assms, of wallets]
    by (simp_all add: tables_def)
qed

lemma keeps_tables_run:
  "(\<And>P. on_tables P \<Longrightarrow> keeps P m) \<Longrightarrow> run_state m s = (r, s') \<Longrightarrow> tables s' = tables s"
  by (rule keeps_run [of "\<lambda>x. tables x = tables s" m s r s']) simp_all

lemma accounts_wallets: "wallets s' = wallets s \<Longrightarrow> accounts s' = accounts s"
  by (simp add: accounts_def wallet_of_def fun_eq_iff)

lemma wallet_ofD: "wallet_of u s = Some w \<Longrightarrow> w \<in> set (wallets s) \<and> w_user_id w = u"
  unfolding wallet_of_def by (drule find_SomeD) simp

lemma wallet_of_row_ok: "wallet_tables_ok s \<Longrightarrow> wallet_of u s = Some w \<Longrightarrow> wallet_row_ok w"
  by (drule wallet_ofD) (simp add: wallet_tables_ok_def list_all_iff)

lemma accounts_SomeE:
  assumes "accounts s u = Some a"
  obtains w where "wallet_of u s = Some w" and "a = account_of w"
  using assms by (auto simp: accounts_def)

lemma accounts_row_ok:
  "wallet_tables_ok s \<Longrightarrow> accounts s u = Some a \<Longrightarrow>
     0 \<le> ac_balance a \<and> 0 \<le> ac_spend a \<and> in_i64 (ac_balance a) \<and> in_i64 (ac_spend a) \<and>
     in_i64 (ac_limit a)"
  by (auto elim!: accounts_SomeE dest!: wallet_of_row_ok simp: wallet_row_ok_def)

lemma accounts_update_one:
  assumes ok: "wallet_tables_ok s" and u: "wallet_of u s = Some w"
    and upd: "update_wallets (\<lambda>x. w_id x = w_id w) f s = Some s'"
    and f: "\<And>x. w_user_id (f x) = w_user_id x" "account_of (f w) = g"
  shows "accounts s' = (accounts s)(u \<mapsto> g)"
proof
  fix v
  let ?h = "\<lambda>x. if w_id x = w_id w then f x else x"
  have "wallets s' = set_rows (\<lambda>x. w_id x = w_id w) f (wallets s)"
    using upd by (auto simp: update_wallets_def split: if_splits)
  then have v: "wallet_of v s' = map_option ?h (wallet_of v s)"
    by (simp add: wallet_of_def find_set_rows f)
  show "accounts s' v = ((accounts s)(u \<mapsto> g)) v"
  proof (cases "v = u")
    case True
    with u v f show ?thesis by (simp add: accounts_def)
  next
    case False
    have "w_id x \<noteq> w_id w" if "wallet_of v s = Some x" for x
      using that False ok wallet_ofD [OF that] wallet_ofD [OF u]
        unique_key [of w_id "wallets s" x w]
      by (auto simp: wallet_tables_ok_def wallets_unique_def)
    with v False show ?thesis by (cases "wallet_of v s") (auto simp: accounts_def)
  qed
qed

text \<open>\<open>DebitWithLock\<close>: what a success says, for every schedule of failures and any amount.\<close>

lemma DebitWithLock_success:
  assumes ok: "wallet_tables_ok s" and run: "run_state (DebitWithLock c u n) s = (Inr w', s')"
  shows "\<exists>a. accounts s u = Some a \<and> can_debit n a \<and> accounts s' = (accounts s)(u \<mapsto> debit n a) \<and>
     w_balance w' = ac_balance a - n \<and> w_daily_spend w' = ac_spend a + n"
proof -
  obtain s0 s1 where "s0 = s \<or> s0 = step s" "s' = s1 \<or> s' = step s1"
    and body: "run_state (DebitWithLock InTx u n) s0 = (Inr w', s1)"
    using run unfolding DebitWithLock_def local_tx_InTx by (rule local_tx_success)
  with ok have s0: "wallet_tables_ok s0" "accounts s0 = accounts s" and s1: "accounts s1 = accounts s'"
    by (auto simp: on_tables_step)
  from body obtain w now s2 where w: "wallet_of u s0 = Some w"
    and guard: "n \<le> w_balance w" "i64 (w_daily_spend w + n) \<le> w_daily_limit w"
    and upd: "update_wallets (\<lambda>x. w_id x = w_id w) (debit_row n now) s2 = Some s1"
    and s2: "s2 = step (step s0)"
    and w': "w' = (locked_wallet w)\<lparr>w_balance := i64 (w_balance w - n),
               w_daily_spend := i64 (w_daily_spend w + n)\<rparr>"
    by (auto simp: DebitWithLock_def run_or_return run_query_row run_exec locked_wallet_def
        split: if_splits option.splits sum.splits prod.splits)
  have ok2: "wallet_tables_ok s2" and w2: "wallet_of u s2 = Some w"
    using s0 w by (simp_all add: s2 on_tables_step)
  have new: "wallet_row_ok (debit_row n now w)"
    using upd wallet_ofD [OF w2] by (auto simp: update_wallets_def list_all_iff split: if_splits)
  then have range: "in_i64 (w_balance w - n)" "in_i64 (w_daily_spend w + n)"
    "0 \<le> w_daily_spend w + n"
    by (simp_all add: wallet_row_ok_def debit_row_def)
  have "accounts s1 = (accounts s2)(u \<mapsto> debit n (account_of w))"
    using ok2 w2 upd by (rule accounts_update_one) (simp_all add: account_of_def debit_def debit_row_def)
  then have "accounts s' = (accounts s)(u \<mapsto> debit n (account_of w))"
    using s0(2) s1 by (simp add: s2)
  moreover have "accounts s u = Some (account_of w)"
    using w s0(2) by (metis accounts_def option.map(2))
  ultimately show ?thesis
    using guard range w' by (auto simp: can_debit_def i64_id)
qed

lemma DebitWithLock_error:
  assumes "run_state (DebitWithLock c u n) s = (Inl e, s')"
  shows "wallets s' = wallets s"
proof (cases c)
  case InTx
  with assms show ?thesis
    by (auto simp: DebitWithLock_def run_or_return run_query_row dest!: exec_error
        split: if_splits option.splits sum.splits prod.splits)
next
  case NoTx
  have "(wallets s' = wallets s) = (wallets s = wallets s)"
    using assms unfolding DebitWithLock_def NoTx
    by (rule local_tx_error_rolls_back [OF on_tables_frames(4)])
  then show ?thesis by simp
qed

text \<open>With reliable statements the guards decide.\<close>

lemma update_wallets_one:
  assumes "wallet_tables_ok s" and "wallet_of u s = Some w" and "wallet_row_ok (f w)"
    and "\<And>x. w_id (f x) = w_id x \<and> w_user_id (f x) = w_user_id x"
  shows "update_wallets (\<lambda>x. w_id x = w_id w) f s =
     Some (s\<lparr>wallets := set_rows (\<lambda>x. w_id x = w_id w) f (wallets s)\<rparr>)"
proof -
  have "x = w" if "x \<in> set (wallets s)" "w_id x = w_id w" for x
    using that assms(1) wallet_ofD [OF assms(2)] unique_key [of w_id "wallets s" x w]
    by (auto simp: wallet_tables_ok_def wallets_unique_def)
  with assms show ?thesis
    by (auto simp: update_wallets_def list_all_iff wallet_tables_ok_def wallets_unique_def
        map_set_rows)
qed

text \<open>\<open>CreditBalance\<close> adds to the wallet with the given identifier.\<close>

lemma CreditBalance_success:
  assumes ok: "wallet_tables_ok s" and a: "accounts s u = Some a"
    and run: "run_state (CreditBalance (ac_wallet a) n) s = (Inr v, s')"
  shows "accounts s' = (accounts s)(u \<mapsto> credit n a) \<and> can_credit n a"
proof -
  obtain w where w: "wallet_of u s = Some w" and aw: "a = account_of w"
    using a by (rule accounts_SomeE)
  from run obtain now where upd: "update_wallets (\<lambda>x. w_id x = w_id w) (credit_row n now) (step s) = Some s'"
    by (auto simp: CreditBalance_def aw elim!: exec_success)
  have "accounts s' = (accounts (step s))(u \<mapsto> credit n a)"
    using ok w upd by (intro accounts_update_one [OF _ _ upd])
      (simp_all add: on_tables_step account_of_def credit_def credit_row_def aw)
  moreover have "can_credit n a"
    using upd wallet_ofD [OF w]
    by (auto simp: update_wallets_def list_all_iff can_credit_def aw wallet_row_ok_def
        credit_row_def split: if_splits)
  ultimately show ?thesis by simp
qed

lemma CreditBalance_error:
  "run_state (CreditBalance i n) s = (Inl e, s') \<Longrightarrow> wallets s' = wallets s"
  by (auto simp: CreditBalance_def dest!: exec_error)

text \<open>The transaction log.\<close>

lemma InsertTransaction_success:
  "run_state (InsertTransaction t) s = (Inr v, s') \<Longrightarrow>
     transactions s' = transactions s @ [t] \<and> tx_row_ok t"
  by (auto simp: InsertTransaction_def insert_transaction_def elim!: exec_success split: if_splits)

lemma InsertTransaction_error:
  "run_state (InsertTransaction t) s = (Inl e, s') \<Longrightarrow> transactions s' = transactions s"
  by (auto simp: InsertTransaction_def dest!: exec_error)

text \<open>Crediting a wallet and recording it, as the closures of the services do in a transaction.\<close>

lemma credit_insert_success:
  assumes ok: "wallet_tables_ok s" and a: "accounts s u = Some a"
    and run: "run_state (or_return (CreditBalance (ac_wallet a) n) w1 (\<lambda>_.
      or_return (InsertTransaction t) w2 (\<lambda>_. ok v))) s = (Inr v', s')"
  shows "v' = v \<and> accounts s' = (accounts s)(u \<mapsto> credit n a) \<and> can_credit n a \<and>
    transactions s' = transactions s @ [t] \<and> tx_row_ok t"
proof -
  from run obtain x y s1 where s1: "run_state (CreditBalance (ac_wallet a) n) s = (Inr x, s1)"
    and s2: "run_state (InsertTransaction t) s1 = (Inr y, s')" and v: "v' = v"
    by (elim or_return_success) simp
  have "transactions s1 = transactions s"
    using keeps_run [OF keeps_wallet_frame(2) s1 refl] by (rule wallet_frameD)
  moreover have "wallets s' = wallets s1"
    using keeps_run [OF keeps_tx_frame(1) s2 refl] by (rule tx_frameD)
  ultimately show ?thesis
    using CreditBalance_success [OF ok a s1] InsertTransaction_success [OF s2]
      accounts_wallets [of s' s1] v by simp
qed

lemma CreditWithTransaction_success:
  assumes ok: "wallet_tables_ok s" and a: "accounts s u = Some a"
    and run: "run_state (CreditWithTransaction c (ac_wallet a) t) s = (Inr v, s')"
  shows "accounts s' = (accounts s)(u \<mapsto> credit (t_amount t) a) \<and> can_credit (t_amount t) a \<and>
    transactions s' = transactions s @ [t] \<and> tx_row_ok t"
proof -
  obtain s0 s1 where "s0 = s \<or> s0 = step s" and s1: "s' = s1 \<or> s' = step s1"
    and body: "run_state (CreditWithTransaction InTx (ac_wallet a) t) s0 = (Inr v, s1)"
    using run unfolding CreditWithTransaction_def local_tx_InTx by (rule local_tx_success)
  with ok a have s0: "wallet_tables_ok s0" "accounts s0 u = Some a" "accounts s0 = accounts s"
    "transactions s0 = transactions s"
    by (auto simp: on_tables_step)
  from credit_insert_success [OF s0(1,2) body [unfolded CreditWithTransaction_def local_tx_InTx]] s0 s1
  show ?thesis by auto
qed

definition insertable :: "transaction \<Rightarrow> world \<Rightarrow> bool" where
  "insertable t s \<longleftrightarrow> insert_transaction t s \<noteq> None"

lemma insert_transaction_step:
  "insert_transaction t (step s) = map_option step (insert_transaction t s)"
  by (simp add: insert_transaction_def user_exists_def wallet_exists_def tx_exists_def step_def
      split: option.splits)

lemma insertable_step [simp]: "insertable t (step s) = insertable t s"
  by (simp add: insertable_def insert_transaction_step)

lemma InsertTransaction_refused:
  "\<not> insertable t s \<Longrightarrow> \<exists>e. run_state (InsertTransaction t) s = (Inl e, step s)"
  by (auto simp: InsertTransaction_def run_exec insertable_def insert_transaction_step)

lemma UpdateTransactionStatus_success:
  assumes "run_state (UpdateTransactionStatus ref st ext) s = (Inr v, s')"
  obtains now where "transactions s' = set_rows (\<lambda>t. t_reference t = ref)
     (\<lambda>t. t\<lparr>t_status := st, t_external_ref := ext, t_updated_at := now\<rparr>) (transactions s)"
  using assms
  by (auto simp: UpdateTransactionStatus_def update_transactions_def elim!: exec_success
      split: if_splits)

lemma UpdateTransactionStatus_error:
  "run_state (UpdateTransactionStatus ref st ext) s = (Inl e, s') \<Longrightarrow>
     transactions s' = transactions s"
  by (auto simp: UpdateTransactionStatus_def dest!: exec_error)

lemma mark_reversed_success:
  assumes "run_state (mark_reversed ref) s = (Inr v, s')"
  obtains now where "transactions s' = set_rows (\<lambda>t. t_reference t = ref)
     (\<lambda>t. t\<lparr>t_status := TxReversed, t_updated_at := now\<rparr>) (transactions s)"
  using assms
  by (auto simp: mark_reversed_def update_transactions_def elim!: exec_success split: if_splits)

lemma mark_reversed_error:
  "run_state (mark_reversed ref) s = (Inl e, s') \<Longrightarrow> transactions s' = transactions s"
  by (auto simp: mark_reversed_def dest!: exec_error)

section \<open>Reversals\<close>

lemma reversal_row_step [simp]: "reversal_row o1 r (step s) = reversal_row o1 r s"
  by (simp add: reversal_row_def)

lemma mark_reversed_frame:
  assumes run: "run_state (mark_reversed ref) s = (r, s')"
  shows "wallets s' = wallets s" and "map t_reference (transactions s') = map t_reference (transactions s)"
    and "map t_user_id (transactions s') = map t_user_id (transactions s)"
proof -
  show "wallets s' = wallets s"
    using keeps_run [OF keeps_tx_frame(5) run refl] by (rule tx_frameD(1))
  have "map t_reference (transactions s') = map t_reference (transactions s) \<and>
    map t_user_id (transactions s') = map t_user_id (transactions s)"
  proof (cases r)
    case (Inl e)
    with run show ?thesis by (simp add: mark_reversed_error)
  next
    case (Inr v)
    with run obtain now where "transactions s' = set_rows (\<lambda>t. t_reference t = ref)
       (\<lambda>t. t\<lparr>t_status := TxReversed, t_updated_at := now\<rparr>) (transactions s)"
      by (auto elim: mark_reversed_success)
    then show ?thesis by (simp add: map_set_rows)
  qed
  then show "map t_reference (transactions s') = map t_reference (transactions s)"
    and "map t_user_id (transactions s') = map t_user_id (transactions s)" by simp_all
qed

lemma ReverseDebitIfNeeded_existing:
  assumes row: "reversal_row o1 r s = Some t"
    and run: "run_state (ReverseDebitIfNeeded c o1 r) s = (res, s')"
  shows "wallets s' = wallets s \<and> res \<noteq> Inr True \<and>
    map t_reference (transactions s') = map t_reference (transactions s) \<and>
    map t_user_id (transactions s') = map t_user_id (transactions s)"
proof -
  have body: "wallets s2 = wallets s1 \<and> res2 \<noteq> Inr True \<and>
      map t_reference (transactions s2) = map t_reference (transactions s1) \<and>
      map t_user_id (transactions s2) = map t_user_id (transactions s1)"
    if "reversal_row o1 r s1 = Some t" "run_state (ReverseDebitIfNeeded InTx o1 r) s1 = (res2, s2)"
    for s1 res2 s2
  proof (cases "sql_ok s1 (tick s1)")
    case True
    with that have "run_state (or_return (mark_reversed (t_reference o1)) (\<lambda>e. e) (\<lambda>_. ok False))
        (step s1) = (res2, s2)"
      by (simp add: ReverseDebitIfNeeded_def run_query_row)
    then show ?thesis
      by (elim or_return_cases)
        (frule mark_reversed_frame(1), frule mark_reversed_frame(2), drule mark_reversed_frame(3),
          auto)+
  next
    case False
    with that show ?thesis by (auto simp: ReverseDebitIfNeeded_def run_query_row)
  qed
  show ?thesis
  proof (cases "c = NoTx \<and> (\<exists>e. res = Inl e)")
    case True
    then obtain e where res: "res = Inl e" and c: "c = NoTx" by blast
    have P: "P s' = P s" if "on_tables P" for P
      using local_tx_error_rolls_back [OF that run [unfolded ReverseDebitIfNeeded_def c res]] .
    show ?thesis
      using P [OF on_tables_frames(4), of "wallets s"] P [OF on_tables_frames(5), of "transactions s"] res
      by simp
  next
    case False
    have "\<exists>s0 s1. (s0 = s \<or> s0 = step s) \<and> (s' = s1 \<or> s' = step s1) \<and>
        run_state (ReverseDebitIfNeeded InTx o1 r) s0 = (res, s1)"
    proof (cases res)
      case (Inr v)
      from run [unfolded ReverseDebitIfNeeded_def Inr] obtain s0 s1
        where "s0 = s \<or> s0 = step s" "s' = s1 \<or> s' = step s1"
          "run_state (ReverseDebitIfNeeded InTx o1 r) s0 = (Inr v, s1)"
        unfolding ReverseDebitIfNeeded_def local_tx_InTx by (rule local_tx_success)
      with Inr show ?thesis by blast
    next
      case (Inl e)
      with False have "c = InTx" by (cases c) auto
      with run show ?thesis by blast
    qed
    with row show ?thesis by (auto dest!: body [rotated])
  qed
qed

lemma ReverseDebitIfNeeded_new:
  assumes ok: "wallet_tables_ok s" and a: "accounts s u = Some a" and w: "t_wallet_id o1 = ac_wallet a"
    and new: "reversal_row o1 r s = None"
    and run: "run_state (ReverseDebitIfNeeded c o1 r) s = (Inr b, s')"
  shows "b \<and> accounts s' = (accounts s)(u \<mapsto> credit (t_amount o1) a) \<and> can_credit (t_amount o1) a \<and>
    (\<exists>now. transactions s' = set_rows (\<lambda>t. t_reference t = t_reference o1)
       (\<lambda>t. t\<lparr>t_status := TxReversed, t_updated_at := now\<rparr>) (transactions s @ [r]))"
proof -
  obtain s0 s3 where "s0 = s \<or> s0 = step s" "s' = s3 \<or> s' = step s3"
    and body: "run_state (ReverseDebitIfNeeded InTx o1 r) s0 = (Inr b, s3)"
    using run unfolding ReverseDebitIfNeeded_def local_tx_InTx by (rule local_tx_success)
  with ok a new have s0: "wallet_tables_ok s0" "accounts s0 u = Some a" "reversal_row o1 r s0 = None"
    "accounts s0 = accounts s" "transactions s0 = transactions s"
    and s3: "accounts s' = accounts s3" "transactions s' = transactions s3"
    by (auto simp: on_tables_step)
  from body s0(3) have "run_state (or_return (InsertTransaction r) (\<lambda>e. e) (\<lambda>_.
      or_return (CreditBalance (ac_wallet a) (t_amount o1)) (\<lambda>e. e) (\<lambda>_.
      or_return (mark_reversed (t_reference o1)) (\<lambda>e. e) (\<lambda>_. ok True)))) (step s0) = (Inr b, s3)"
    by (simp add: ReverseDebitIfNeeded_def run_query_row w split: if_splits)
  then obtain s1 s2 v v' where b: "b"
    and s1: "run_state (InsertTransaction r) (step s0) = (Inr v, s1)"
    and s2: "run_state (CreditBalance (ac_wallet a) (t_amount o1)) s1 = (Inr v', s2)"
    and mk: "run_state (mark_reversed (t_reference o1)) s2 = (Inr (), s3)"
    by (elim or_return_success) simp
  have f1: "wallets s1 = wallets s0"
    using tx_frameD(1) [OF keeps_run [OF keeps_tx_frame(1) s1 refl]] by simp
  have ok1: "wallet_tables_ok s1"
    using s0(1) by (intro keeps_run [OF keeps_ok_InsertTransaction s1]) (simp add: on_tables_step)
  have "accounts s1 u = Some a" using accounts_wallets [OF f1] s0(2) by simp
  from CreditBalance_success [OF ok1 this s2] have c: "accounts s2 = (accounts s0)(u \<mapsto> credit (t_amount o1) a)"
    "can_credit (t_amount o1) a"
    using accounts_wallets [OF f1] by simp_all
  have t2: "transactions s2 = transactions s @ [r]"
    using wallet_frameD(1) [OF keeps_run [OF keeps_wallet_frame(2) s2 refl]]
      InsertTransaction_success [OF s1] s0(5) by simp
  have "accounts s3 = accounts s2"
    using tx_frameD(1) [OF keeps_run [OF keeps_tx_frame(5) mk refl]] by (rule accounts_wallets)
  moreover obtain now where "transactions s3 = set_rows (\<lambda>t. t_reference t = t_reference o1)
      (\<lambda>t. t\<lparr>t_status := TxReversed, t_updated_at := now\<rparr>) (transactions s2)"
    using mk by (rule mark_reversed_success)
  ultimately show ?thesis
    using c s0(4) s3 b t2 by (intro conjI exI [of _ now]) simp_all
qed

lemma ReverseDebitIfNeeded_error:
  assumes "run_state (ReverseDebitIfNeeded NoTx o1 r) s = (Inl e, s')"
  shows "wallets s' = wallets s \<and> transactions s' = transactions s"
proof
  have "(wallets s' = wallets s) = (wallets s = wallets s)"
    using assms unfolding ReverseDebitIfNeeded_def
    by (rule local_tx_error_rolls_back [OF on_tables_frames(4)])
  then show "wallets s' = wallets s" by simp
  have "(transactions s' = transactions s) = (transactions s = transactions s)"
    using assms unfolding ReverseDebitIfNeeded_def
    by (rule local_tx_error_rolls_back [OF on_tables_frames(5)])
  then show "transactions s' = transactions s" by simp
qed

section \<open>Runs with reliable statements\<close>

text \<open>
  When no statement fails and the constraints hold, a method leads to one state: so many
  ticks later, with its rows changed. These equations let a caller be run forward.
\<close>

lemma transactions_unique_set_rows:
  assumes "\<And>t. p t \<Longrightarrow> t_id (f t) = t_id t \<and> t_reference (f t) = t_reference t \<and>
    t_external_ref (f t) = t_external_ref t \<and> t_type (f t) = t_type t"
  shows "transactions_unique (set_rows p f ts) = transactions_unique ts"
proof -
  have "filter indexed_credit (set_rows p f ts) = set_rows p f (filter indexed_credit ts)"
    using assms by (induction ts) (auto simp: indexed_credit_def)
  then show ?thesis
    using assms by (simp add: transactions_unique_def map_set_rows)
qed

lemma run_CreditBalance:
  assumes ok: "wallet_tables_ok s" and rel: "reliable s" and a: "accounts s u = Some a"
    and can: "can_credit n a"
  shows "run_state (CreditBalance (ac_wallet a) n) s =
    (Inr (), s\<lparr>tick := tick s + 1, wallets := set_rows (\<lambda>x. w_id x = ac_wallet a)
       (credit_row n (time_at s (tick s + 1))) (wallets s)\<rparr>)"
proof -
  obtain w where w: "wallet_of u s = Some w" and aw: "a = account_of w"
    using a by (rule accounts_SomeE)
  have "wallet_row_ok (credit_row n now w)" for now
    using can wallet_of_row_ok [OF ok w]
    by (simp add: aw can_credit_def wallet_row_ok_def credit_row_def)
  then show ?thesis
    using ok w rel
    by (simp add: CreditBalance_def run_exec aw on_tables_step update_wallets_one)
qed

lemma run_InsertTransaction:
  assumes "reliable s" and "insertable t s"
  shows "run_state (InsertTransaction t) s =
    (Inr (), s\<lparr>tick := tick s + 1, transactions := transactions s @ [t]\<rparr>)"
proof -
  from assms(2) have "insert_transaction t s = Some (s\<lparr>transactions := transactions s @ [t]\<rparr>)"
    by (auto simp: insertable_def insert_transaction_def split: if_splits)
  with assms(1) show ?thesis
    by (simp add: InsertTransaction_def run_exec insert_transaction_step)
qed

lemma run_InsertTransaction_refused:
  assumes "\<not> insertable t s"
  obtains e where "run_state (InsertTransaction t) s = (Inl e, s\<lparr>tick := tick s + 1\<rparr>)"
  using InsertTransaction_refused [OF assms] by (auto simp: step_def)

lemma run_mark_reversed:
  assumes "wallet_tables_ok s" and "reliable s"
  shows "\<exists>now. run_state (mark_reversed ref) s =
    (Inr (), s\<lparr>tick := tick s + 1, transactions := set_rows (\<lambda>t. t_reference t = ref)
       (\<lambda>t. t\<lparr>t_status := TxReversed, t_updated_at := now\<rparr>) (transactions s)\<rparr>)"
proof -
  have "update_transactions (\<lambda>t. t_reference t = ref)
      (\<lambda>t. t\<lparr>t_status := TxReversed, t_updated_at := now\<rparr>) (step s) =
    Some ((step s)\<lparr>transactions := set_rows (\<lambda>t. t_reference t = ref)
       (\<lambda>t. t\<lparr>t_status := TxReversed, t_updated_at := now\<rparr>) (transactions s)\<rparr>)" for now
    using assms(1)
    by (auto simp: update_transactions_def wallet_tables_ok_def list_all_iff tx_row_ok_def
        transactions_unique_set_rows)
  with assms(2) show ?thesis
    by (simp add: mark_reversed_def run_exec) (auto simp: step_def)
qed

lemma run_ReverseDebitIfNeeded:
  assumes ok: "wallet_tables_ok s" and rel: "reliable s" and a: "accounts s u = Some a"
    and w: "t_wallet_id o1 = ac_wallet a" and can: "can_credit (t_amount o1) a"
    and new: "reversal_row o1 r s = None" and ins: "insertable r s"
  shows "\<exists>n1 n2. run_state (ReverseDebitIfNeeded NoTx o1 r) s =
    (Inr True, s\<lparr>tick := tick s + 6,
       wallets := set_rows (\<lambda>x. w_id x = ac_wallet a) (credit_row (t_amount o1) n1) (wallets s),
       transactions := set_rows (\<lambda>t. t_reference t = t_reference o1)
         (\<lambda>t. t\<lparr>t_status := TxReversed, t_updated_at := n2\<rparr>) (transactions s @ [r])\<rparr>)"
proof -
  let ?s1 = "step (step s)"
  define s2 where "s2 = ?s1\<lparr>tick := tick ?s1 + 1, transactions := transactions ?s1 @ [r]\<rparr>"
  have s2: "run_state (InsertTransaction r) ?s1 = (Inr (), s2)"
    unfolding s2_def using rel ins by (intro run_InsertTransaction) simp_all
  have "wallet_tables_ok ?s1" using ok by (simp add: on_tables_step)
  from keeps_run [OF keeps_ok_InsertTransaction s2 this] have ok2: "wallet_tables_ok s2" .
  have rel2: "reliable s2" using rel by (simp add: s2_def reliable_def)
  have a2: "accounts s2 u = Some a" using a accounts_wallets [of s2 s] by (simp add: s2_def)
  obtain s3 where s3: "run_state (CreditBalance (ac_wallet a) (t_amount o1)) s2 = (Inr (), s3)"
    and s3_def: "s3 = s2\<lparr>tick := tick s2 + 1, wallets := set_rows (\<lambda>x. w_id x = ac_wallet a)
       (credit_row (t_amount o1) (time_at s2 (tick s2 + 1))) (wallets s2)\<rparr>"
    using run_CreditBalance [OF ok2 rel2 a2 can] by blast
  have ok3: "wallet_tables_ok s3" using keeps_run [OF keeps_ok_CreditBalance s3 ok2] .
  have rel3: "reliable s3" using rel2 by (simp add: s3_def reliable_def)
  obtain now s4 where s4: "run_state (mark_reversed (t_reference o1)) s3 = (Inr (), s4)"
    and s4_def: "s4 = s3\<lparr>tick := tick s3 + 1, transactions := set_rows (\<lambda>t. t_reference t = t_reference o1)
       (\<lambda>t. t\<lparr>t_status := TxReversed, t_updated_at := now\<rparr>) (transactions s3)\<rparr>"
    using run_mark_reversed [OF ok3 rel3] by blast
  have "run_state (ReverseDebitIfNeeded NoTx o1 r) s = (Inr True, step s4)"
    unfolding ReverseDebitIfNeeded_def
  proof (rule run_local_tx_Inr)
    show "sql_ok s (tick s)" "sql_ok s4 (tick s4)"
      using rel rel3 by (simp_all add: s4_def reliable_def)
    show "run_state (do {
       existing \<leftarrow> query_row (reversal_row o1 r);
       case existing of
         Inr _ \<Rightarrow> or_return (mark_reversed (t_reference o1)) (\<lambda>e. e) (\<lambda>_. ok False)
       | Inl e \<Rightarrow>
           if \<not> is_no_rows e then fail e
           else or_return (InsertTransaction r) (\<lambda>e. e) (\<lambda>_.
                or_return (CreditBalance (t_wallet_id o1) (t_amount o1)) (\<lambda>e. e) (\<lambda>_.
                or_return (mark_reversed (t_reference o1)) (\<lambda>e. e) (\<lambda>_.
                ok True)))
     }) (step s) = (Inr True, s4)"
      using rel new s2 s3 s4 by (simp add: run_query_row w run_or_return)
  qed
  then show ?thesis
    by (intro exI [of _ "time_at s2 (tick s2 + 1)"] exI [of _ now])
      (simp add: s4_def s3_def s2_def step_def)
qed

lemma run_DebitWithLock:
  assumes ok: "wallet_tables_ok s" and rel: "reliable s" and a: "accounts s u = Some a"
    and can: "can_debit n a"
  shows "\<exists>w now. run_state (DebitWithLock NoTx u n) s =
    (Inr w, s\<lparr>tick := tick s + 4,
       wallets := set_rows (\<lambda>x. w_id x = ac_wallet a) (debit_row n now) (wallets s)\<rparr>)"
proof -
  obtain w where w: "wallet_of u s = Some w" and aw: "a = account_of w"
    using a by (rule accounts_SomeE)
  have row: "wallet_row_ok w"
    using ok w by (rule wallet_of_row_ok)
  have range: "in_i64 (w_daily_spend w + n)" "in_i64 (w_balance w - n)"
    using can row by (auto simp: aw can_debit_def wallet_row_ok_def in_i64_def)
  have new: "wallet_row_ok (debit_row n now w)" for now
    using can row range by (simp add: aw can_debit_def wallet_row_ok_def debit_row_def)
  let ?s3 = "step (step (step s))"
  have "update_wallets (\<lambda>x. w_id x = w_id w) (debit_row n now) ?s3 =
      Some (?s3\<lparr>wallets := set_rows (\<lambda>x. w_id x = w_id w) (debit_row n now) (wallets s)\<rparr>)" for now
    using update_wallets_one [of ?s3 u w "debit_row n now"] new ok w by (simp add: on_tables_step)
  then show ?thesis
    using can rel w range
    by (auto simp: DebitWithLock_def local_tx_def run_begin_tx run_commit_tx run_or_return
        run_query_row run_exec locked_wallet_def aw can_debit_def i64_id step_def
        intro!: exI [of _ "time_at s (Suc (Suc (Suc (tick s))))"])
qed

section \<open>The wallets are a purse\<close>

definition wallet_purse :: "world \<Rightarrow> uuid \<Rightarrow> (uuid \<times> int) option" where
  "wallet_purse s u = map_option (\<lambda>a. (ac_wallet a, ac_balance a)) (accounts s u)"

lemma wallet_purse_accounts: "accounts s' = accounts s \<Longrightarrow> wallet_purse s' = wallet_purse s"
  by (simp add: wallet_purse_def fun_eq_iff)

lemma CreditBalance_stray:
  assumes "\<forall>u a. accounts s u = Some a \<longrightarrow> ac_wallet a \<noteq> i" and ok: "wallet_tables_ok s"
    and run: "run_state (CreditBalance i n) s = (Inr v, s')"
  shows "accounts s' = accounts s"
proof -
  have "w_id w \<noteq> i" if "w \<in> set (wallets s)" for w
  proof
    assume "w_id w = i"
    have "wallet_of (w_user_id w) s = Some w"
      unfolding wallet_of_def using ok that
      by (intro find_unique) (auto simp: wallet_tables_ok_def wallets_unique_def)
    then have "accounts s (w_user_id w) = Some (account_of w)"
      by (simp add: accounts_def)
    with assms(1) \<open>w_id w = i\<close> show False by force
  qed
  moreover from run obtain now
    where "update_wallets (\<lambda>x. w_id x = i) (credit_row n now) (step s) = Some s'"
    by (auto simp: CreditBalance_def elim!: exec_success)
  ultimately have "wallets s' = wallets s"
    by (auto simp: update_wallets_def set_rows_none split: if_splits)
  then show ?thesis by (rule accounts_wallets)
qed

lemma accounts_handles:
  assumes ok: "wallet_tables_ok s" and "accounts s u = Some a" and "accounts s v = Some b"
    and id: "ac_wallet a = ac_wallet b"
  shows "u = v"
proof -
  obtain x y where x: "wallet_of u s = Some x" "a = account_of x"
    and y: "wallet_of v s = Some y" "b = account_of y"
    using assms(2,3) by (auto elim!: accounts_SomeE)
  with ok id wallet_ofD [OF x(1)] wallet_ofD [OF y(1)] unique_key [of w_id "wallets s" x y]
  have "x = y" by (simp add: wallet_tables_ok_def wallets_unique_def)
  with wallet_ofD [OF x(1)] wallet_ofD [OF y(1)] show ?thesis by simp
qed

interpretation wallet_money: purse wallet_tables_ok wallet_purse "DebitWithLock c" CreditBalance
proof unfold_locales
  fix s :: world and k h :: uuid and b b' :: int and k' :: uuid
  assume ok: "wallet_tables_ok s"
  show "wallet_purse s k = Some (h, b) \<Longrightarrow> 0 \<le> b"
    using accounts_row_ok [OF ok] by (auto simp: wallet_purse_def)
  show "wallet_purse s k = Some (h, b) \<Longrightarrow> wallet_purse s k' = Some (h, b') \<Longrightarrow> k = k'"
    using accounts_handles [OF ok] by (auto simp: wallet_purse_def)
next
  fix s s' :: world and k :: uuid and n :: int and v :: wallet
  assume "wallet_tables_ok s" and "run_state (DebitWithLock c k n) s = (Inr v, s')"
  then show "\<exists>h b. wallet_purse s k = Some (h, b) \<and> wallet_purse s' = (wallet_purse s)(k \<mapsto> (h, b - n))"
    by (drule_tac DebitWithLock_success) (auto simp: wallet_purse_def fun_eq_iff)
next
  fix s s' :: world and k :: uuid and n :: int and e :: goerr
  assume "run_state (DebitWithLock c k n) s = (Inl e, s')"
  then show "wallet_purse s' = wallet_purse s"
    by (intro wallet_purse_accounts accounts_wallets DebitWithLock_error)
next
  fix s s' :: world and k h :: uuid and b n :: int and w :: unit
  assume "wallet_tables_ok s" and "wallet_purse s k = Some (h, b)"
    and "run_state (CreditBalance h n) s = (Inr w, s')"
  then show "wallet_purse s' = (wallet_purse s)(k \<mapsto> (h, b + n))"
    by (auto simp: wallet_purse_def fun_eq_iff dest: CreditBalance_success)
next
  fix s s' :: world and h :: uuid and n :: int and w :: unit
  assume "wallet_tables_ok s" and "\<forall>k b. wallet_purse s k \<noteq> Some (h, b)"
    and "run_state (CreditBalance h n) s = (Inr w, s')"
  then show "wallet_purse s' = wallet_purse s"
    by (intro wallet_purse_accounts CreditBalance_stray [of s h]) (auto simp: wallet_purse_def)
next
  fix s s' :: world and h :: uuid and n :: int and e :: goerr
  assume "run_state (CreditBalance h n) s = (Inl e, s')"
  then show "wallet_purse s' = wallet_purse s"
    by (intro wallet_purse_accounts accounts_wallets CreditBalance_error)
qed (intro keeps_intros)+

section \<open>Properties of the wallet repository\<close>

lemma DebitWithLock_succeeds:
  assumes ok: "wallet_tables_ok s" and rel: "reliable s" and a: "accounts s u = Some a" and can: "can_debit n a"
  shows "succeeded (fst (run_state (DebitWithLock c u n) s))"
proof (cases c)
  case NoTx
  with run_DebitWithLock [OF assms] show ?thesis by auto
next
  case InTx
  obtain w where w: "wallet_of u s = Some w" and aw: "a = account_of w"
    using a by (rule accounts_SomeE)
  have row: "wallet_row_ok w" using ok w by (rule wallet_of_row_ok)
  have range: "in_i64 (w_daily_spend w + n)" "in_i64 (w_balance w - n)"
    using can row by (auto simp: aw can_debit_def wallet_row_ok_def in_i64_def)
  have new: "wallet_row_ok (debit_row n now w)" for now
    using can row range by (simp add: aw can_debit_def wallet_row_ok_def debit_row_def)
  let ?s2 = "step (step s)"
  have "update_wallets (\<lambda>x. w_id x = w_id w) (debit_row n now) ?s2 =
      Some (?s2\<lparr>wallets := set_rows (\<lambda>x. w_id x = w_id w) (debit_row n now) (wallets s)\<rparr>)" for now
    using update_wallets_one [of ?s2 u w "debit_row n now"] new ok w by (simp add: on_tables_step)
  then show ?thesis
    using can rel w range InTx
    by (auto simp: DebitWithLock_def run_or_return run_query_row run_exec locked_wallet_def aw can_debit_def i64_id)
qed

text \<open>
  C12. A debit of any amount that is not negative decides on funds and limit alone and is exact, inside a
  transaction of the caller or in its own: if it succeeds the wallet had the funds and the daily
  allowance, its balance is lower and its daily spend higher by the amount, the returned wallet says
  so and nobody else's account changed; if it fails no account changed, and, unless a statement
  failed, there is no wallet, or its balance is below the amount, or the day's spending would exceed the
  limit.
\<close>

theorem debit_exact:
  assumes "wallet_tables_ok s"
  shows "case run_state (DebitWithLock c u n) s of
      (Inr w, s') \<Rightarrow> \<exists>a. accounts s u = Some a \<and> n \<le> ac_balance a \<and> ac_spend a + n \<le> ac_limit a \<and>
        accounts s' = (accounts s)(u \<mapsto> debit n a) \<and>
        w_balance w = ac_balance a - n \<and> w_daily_spend w = ac_spend a + n
    | (Inl e, s') \<Rightarrow> accounts s' = accounts s \<and>
        (reliable s \<and> 0 \<le> n \<longrightarrow>
           (case accounts s u of None \<Rightarrow> True | Some a \<Rightarrow> ac_balance a < n \<or> ac_limit a < ac_spend a + n))"
proof (cases "run_state (DebitWithLock c u n) s")
  case (Pair r s')
  show ?thesis
  proof (cases r)
    case (Inl e)
    have "ac_balance a < n \<or> ac_limit a < ac_spend a + n" if "reliable s" "0 \<le> n" "accounts s u = Some a" for a
    proof (rule ccontr)
      assume "\<not> ?thesis"
      with accounts_row_ok [OF assms that(3)] that(2) have "can_debit n a"
        by (auto simp: can_debit_def in_i64_def)
      from DebitWithLock_succeeds [OF assms that(1,3) this, of c] Pair Inl show False by simp
    qed
    with Pair Inl DebitWithLock_error [of c u n s] show ?thesis
      by (auto intro: accounts_wallets split: option.split)
  next
    case (Inr w)
    with Pair DebitWithLock_success [OF assms, of c u n] show ?thesis by (auto simp: can_debit_def)
  qed
qed

lemma sample_tables_ok: "wallet_tables_ok sample_world"
  by code_simp

lemma sample_debit:
  "\<exists>w s'. run_state (DebitWithLock NoTx ''ada'' 30000) sample_world = (Inr w, s')"
proof -
  have "case fst (run_state (DebitWithLock NoTx ''ada'' 30000) sample_world) of
      Inr w \<Rightarrow> True | Inl e \<Rightarrow> False"
    by code_simp
  then show ?thesis
    by (cases "run_state (DebitWithLock NoTx ''ada'' 30000) sample_world")
      (auto split: sum.splits)
qed

lemma debit_exact_witness:
  "map_option ac_balance (accounts (snd (run_state (DebitWithLock NoTx ''ada'' 30000) sample_world)) ''ada'')
     = Some 70000"
proof -
  have "map_option ac_balance (accounts sample_world ''ada'') = Some 100000"
    by code_simp
  with debit_exact [OF sample_tables_ok, where c = NoTx and u = "''ada''" and n = 30000] sample_debit show ?thesis
    by auto
qed

text \<open>
  With reliable statements a debit succeeds exactly when the balance and the daily limit
  of the user's tier allow it (and the new row fits the columns).
\<close>

theorem debit_decided:
  assumes "wallet_tables_ok s" and "reliable s"
  shows "succeeded (fst (run_state (DebitWithLock NoTx u n) s)) \<longleftrightarrow>
    (\<exists>a. accounts s u = Some a \<and> can_debit n a)"
proof
  assume "succeeded (fst (run_state (DebitWithLock NoTx u n) s))"
  then show "\<exists>a. accounts s u = Some a \<and> can_debit n a"
    using DebitWithLock_success [OF assms(1), of NoTx u n]
    by (cases "run_state (DebitWithLock NoTx u n) s") (auto simp: succeeded_def split: sum.splits)
next
  assume "\<exists>a. accounts s u = Some a \<and> can_debit n a"
  then show "succeeded (fst (run_state (DebitWithLock NoTx u n) s))"
    using run_DebitWithLock [OF assms, of u _ n] by fastforce
qed

lemma debit_decided_witness:
  "\<not> succeeded (fst (run_state (DebitWithLock NoTx ''ada'' 100001) sample_world))"
proof -
  have "map_option (can_debit 100001) (accounts sample_world ''ada'') = Some False"
    by code_simp
  with debit_decided [OF sample_tables_ok reliable_sample, where u = "''ada''" and n = 100001]
  show ?thesis by auto
qed

text \<open>
  C11. Over any sequence of debits and credits, by anybody and with any of them failing, a
  wallet's balance is its opening balance plus what the successful operations say, and it
  is never negative.
\<close>

theorem wallet_books_balance:
  assumes "wallet_tables_ok s" and "wallet_purse s u = Some (i, b)"
    and "run_ops (DebitWithLock c) CreditBalance ops s = (rs, s')"
  shows "wallet_purse s' u = Some (i, b + net u i ops rs) \<and> 0 \<le> b + net u i ops rs"
  using wallet_money.run_ops_balance [OF assms] by simp

lemma wallet_books_balance_witness:
  "wallet_purse (snd (run_ops (DebitWithLock NoTx) CreditBalance
     [Withdraw ''ada'' 30000, Withdraw ''ada'' 80000, Deposit ''wa'' 500] sample_world)) ''ada''
   = Some (''wa'', 70500)"
proof -
  let ?ops = "[Withdraw ''ada'' 30000, Withdraw ''ada'' 80000, Deposit ''wa'' 500]"
  have b: "wallet_purse sample_world ''ada'' = Some (''wa'', 100000)"
    by code_simp
  have rs: "fst (run_ops (DebitWithLock NoTx) CreditBalance ?ops sample_world) = [True, False, True]"
    by code_simp
  obtain rs s' where run: "run_ops (DebitWithLock NoTx) CreditBalance ?ops sample_world = (rs, s')"
    by (cases "run_ops (DebitWithLock NoTx) CreditBalance ?ops sample_world")
  with wallet_books_balance [OF sample_tables_ok b run] rs show ?thesis by simp
qed

text \<open>
  A reversal credits a debit back at most once: it either leaves every account alone, or the
  reversal row did not exist before, exists now, and exactly the original amount came
  back to the wallet that was debited.
\<close>

theorem reversal_credits_once:
  assumes "wallet_tables_ok s" and "accounts s u = Some a" and "t_wallet_id o1 = ac_wallet a"
  shows "case run_state (ReverseDebitIfNeeded NoTx o1 r) s of (res, s') \<Rightarrow>
    (accounts s' = accounts s \<and> res \<noteq> Inr True) \<or>
    (res = Inr True \<and> reversal_row o1 r s = None \<and> r \<notin> set (transactions s) \<and>
     accounts s' = (accounts s)(u \<mapsto> credit (t_amount o1) a) \<and>
     (\<exists>t. t_id t = t_id r \<and> t_amount t = t_amount r \<and> t \<in> set (transactions s')))"
proof (cases "run_state (ReverseDebitIfNeeded NoTx o1 r) s")
  case (Pair res s')
  show ?thesis
  proof (cases "reversal_row o1 r s")
    case (Some t)
    from ReverseDebitIfNeeded_existing [OF this Pair] Pair show ?thesis
      by (simp add: accounts_wallets [of s' s])
  next
    case None
    show ?thesis
    proof (cases res)
      case (Inl e)
      with ReverseDebitIfNeeded_error [of o1 r s e s'] Pair show ?thesis
        by (simp add: accounts_wallets [of s' s])
    next
      case (Inr b)
      note new = ReverseDebitIfNeeded_new [OF assms None Pair [unfolded Inr]]
      then obtain now where t: "transactions s' = set_rows (\<lambda>t. t_reference t = t_reference o1)
          (\<lambda>t. t\<lparr>t_status := TxReversed, t_updated_at := now\<rparr>) (transactions s @ [r])"
        by blast
      have "wallet_tables_ok s'"
        using keeps_ok_ReverseDebitIfNeeded Pair assms(1) by (rule keeps_run)
      then have "distinct (map t_id (transactions s'))"
        by (simp add: wallet_tables_ok_def transactions_unique_def)
      moreover have "map t_id (transactions s') = map t_id (transactions s @ [r])"
        unfolding t by (rule map_set_rows) simp
      ultimately have "distinct (map t_id (transactions s @ [r]))" by metis
      then have "r \<notin> set (transactions s)" by auto
      moreover have "\<exists>t. t_id t = t_id r \<and> t_amount t = t_amount r \<and> t \<in> set (transactions s')"
        by (auto simp: t intro: exI [of _ "r\<lparr>t_status := TxReversed, t_updated_at := now\<rparr>"])
      ultimately show ?thesis
        using new None Pair Inr by simp
    qed
  qed
qed

lemma reversal_credits_once_witness:
  "map_option ac_balance (accounts (snd (run_state (ReverseDebitIfNeeded NoTx
       (sample_tx ''t1'' ''ada'' ''wa'' ''FB-1'' TxTypeDebit 5000 TxProcessing)
       (sample_tx ''t2'' ''ada'' ''wa'' ''REV_FB-1'' TxTypeReversal 5000 TxSuccess)) sample_world)) ''ada'')
     = Some 105000"
proof -
  let ?o = "sample_tx ''t1'' ''ada'' ''wa'' ''FB-1'' TxTypeDebit 5000 TxProcessing"
  let ?r = "sample_tx ''t2'' ''ada'' ''wa'' ''REV_FB-1'' TxTypeReversal 5000 TxSuccess"
  let ?a = "\<lparr>ac_wallet = ''wa'', ac_balance = 100000, ac_spend = 0, ac_limit = 5000000\<rparr>"
  have "accounts sample_world ''ada'' = Some ?a" by code_simp
  moreover have "t_wallet_id ?o = ac_wallet ?a" by (simp add: sample_tx_def)
  moreover have "fst (run_state (ReverseDebitIfNeeded NoTx ?o ?r) sample_world) = Inr True"
    by code_simp
  moreover have "t_amount ?o = 5000" by (simp add: sample_tx_def)
  ultimately show ?thesis
    using reversal_credits_once [OF sample_tables_ok, of "''ada''" ?a ?o ?r]
    by (cases "run_state (ReverseDebitIfNeeded NoTx ?o ?r) sample_world") auto
qed

end
