(* ===== verification/UserRepo.thy ===== *)
theory UserRepo
  imports WalletRepo
begin

text \<open>
  \<open>internal/repository/postgres/user_repo.go\<close> and \<open>otp_repo.go\<close> on the tables
  \<open>users\<close> and \<open>otp_tokens\<close>. \<open>nullableString\<close> stores an empty string as \<open>NULL\<close> and
  \<open>scanUser\<close> reads \<open>NULL\<close> as the empty string, so the rows keep the empty string; a
  \<open>NULL\<close> matches no e-mail and is exempt from the unique index.
\<close>

section \<open>Users\<close>

definition user_row_ok :: "user \<Rightarrow> bool" where
  "user_row_ok u \<longleftrightarrow>
     length (u_phone u) \<le> 20 \<and> length (u_email u) \<le> 255 \<and>
     length (u_first_name u) \<le> 100 \<and> length (u_last_name u) \<le> 100"

definition live :: "user \<Rightarrow> bool" where
  "live u \<longleftrightarrow> u_deleted_at u = None"

definition users_unique :: "user list \<Rightarrow> bool" where
  "users_unique t \<longleftrightarrow>
     distinct (map u_id t) \<and> distinct (map u_phone (filter live t)) \<and>
     distinct (map u_email (filter (\<lambda>u. live u \<and> u_email u \<noteq> []) t))"

definition insert_user :: "user \<Rightarrow> world \<Rightarrow> world option" where
  "insert_user u s =
     (if user_row_ok u \<and> users_unique (users s @ [u])
      then Some (s\<lparr>users := users s @ [u]\<rparr>) else None)"

definition update_users :: "(user \<Rightarrow> bool) \<Rightarrow> (user \<Rightarrow> user) \<Rightarrow> world \<Rightarrow> world option" where
  "update_users p f s =
     (if list_all (\<lambda>u. p u \<longrightarrow> user_row_ok (f u)) (users s) \<and>
         users_unique (set_rows p f (users s))
      then Some (s\<lparr>users := set_rows p f (users s)\<rparr>) else None)"

text \<open>\<open>Create\<close> of the user repository; \<open>deleted_at\<close> is not among its columns.\<close>

definition CreateUser :: "user \<Rightarrow> unit program" where
  "CreateUser u = exec (\<lambda>_. insert_user (u\<lparr>u_deleted_at := None\<rparr>))"

definition FindByID :: "string \<Rightarrow> user program" where
  "FindByID i = or_return (query_row (\<lambda>s. find (\<lambda>u. u_id u = i \<and> live u) (users s)))
     (Wrap ''scan user'') ok"

definition FindByPhone :: "string \<Rightarrow> user program" where
  "FindByPhone phone = or_return (query_row (\<lambda>s. find (\<lambda>u. u_phone u = phone \<and> live u) (users s)))
     (Wrap ''scan user'') ok"

definition FindByEmail :: "string \<Rightarrow> user program" where
  "FindByEmail email =
     or_return (query_row (\<lambda>s. find (\<lambda>u. u_email u = email \<and> u_email u \<noteq> [] \<and> live u) (users s)))
       (Wrap ''scan user'') ok"

definition set_user :: "uuid \<Rightarrow> (time \<Rightarrow> user \<Rightarrow> user) \<Rightarrow> unit program" where
  "set_user i f = exec (\<lambda>now. update_users (\<lambda>u. u_id u = i)
     (\<lambda>u. (f now u)\<lparr>u_updated_at := now\<rparr>))"

definition UpdateUserProfile :: "uuid \<Rightarrow> string \<Rightarrow> string \<Rightarrow> string \<Rightarrow> unit program" where
  "UpdateUserProfile i firstName lastName email =
     set_user i (\<lambda>_ u. u\<lparr>u_first_name := firstName, u_last_name := lastName, u_email := email\<rparr>)"

definition UpdateKYCTier :: "uuid \<Rightarrow> kyc_tier \<Rightarrow> unit program" where
  "UpdateKYCTier i tier = set_user i (\<lambda>_ u. u\<lparr>u_kyc_tier := tier\<rparr>)"

definition UpdatePIN :: "uuid \<Rightarrow> string \<Rightarrow> unit program" where
  "UpdatePIN i pinHash = set_user i (\<lambda>_ u. u\<lparr>u_pin_hash := pinHash\<rparr>)"

definition UpdateBVN :: "uuid \<Rightarrow> string \<Rightarrow> unit program" where
  "UpdateBVN i bvn = set_user i (\<lambda>_ u. u\<lparr>u_bvn := bvn\<rparr>)"

definition UpdateNIN :: "uuid \<Rightarrow> string \<Rightarrow> unit program" where
  "UpdateNIN i nin = set_user i (\<lambda>_ u. u\<lparr>u_nin := nin\<rparr>)"

lemma keeps_user_queries [keeps_intros]:
  "on_tables P \<Longrightarrow> keeps P (FindByID i)"
  "on_tables P \<Longrightarrow> keeps P (FindByPhone i)"
  "on_tables P \<Longrightarrow> keeps P (FindByEmail i)"
  by (auto simp: FindByID_def FindByPhone_def FindByEmail_def intro!: keeps_intros)

text \<open>Users are never removed, so the foreign keys of the wallet tables stay satisfied.\<close>

lemma wallet_tables_ok_users:
  assumes "wallet_tables_ok s" and "set (map u_id (users s)) \<subseteq> set (map u_id us)"
  shows "wallet_tables_ok (s\<lparr>users := us\<rparr>)"
  using assms
  unfolding wallet_tables_ok_def list_all_iff user_exists_def wallet_exists_def by auto

lemma keeps_ok_CreateUser [keeps_intros]: "keeps wallet_tables_ok (CreateUser u)"
  unfolding CreateUser_def
  by (rule keeps_exec, simp)
    (auto simp: insert_user_def split: if_splits intro!: wallet_tables_ok_users)

lemma keeps_ok_set_user:
  assumes "\<And>t u. u_id (f t u) = u_id u"
  shows "keeps wallet_tables_ok (set_user i f)"
  unfolding set_user_def
  by (rule keeps_exec, simp)
    (auto simp: update_users_def set_rows_def assms split: if_splits intro!: wallet_tables_ok_users)

lemma keeps_ok_user_updates [keeps_intros]:
  "keeps wallet_tables_ok (UpdateUserProfile i a b c)"
  "keeps wallet_tables_ok (UpdateKYCTier i t)" "keeps wallet_tables_ok (UpdatePIN i a)"
  "keeps wallet_tables_ok (UpdateBVN i a)" "keeps wallet_tables_ok (UpdateNIN i a)"
  by (auto simp: UpdateUserProfile_def UpdateKYCTier_def UpdatePIN_def UpdateBVN_def UpdateNIN_def
      intro!: keeps_ok_set_user)

section \<open>One-time passwords\<close>

definition otp_row_ok :: "otp_token \<Rightarrow> bool" where
  "otp_row_ok t \<longleftrightarrow> length (o_phone t) \<le> 20"

definition insert_otp :: "otp_token \<Rightarrow> world \<Rightarrow> world option" where
  "insert_otp t s =
     (if otp_row_ok t \<and> distinct (map o_id (otp_tokens s @ [t]))
      then Some (s\<lparr>otp_tokens := otp_tokens s @ [t]\<rparr>) else None)"

definition same_slot :: "string \<Rightarrow> otp_purpose \<Rightarrow> otp_token \<Rightarrow> bool" where
  "same_slot phone purpose t \<longleftrightarrow> o_phone t = phone \<and> o_purpose t = purpose"

definition CreateOTP :: "otp_token \<Rightarrow> unit program" where
  "CreateOTP otp = local_tx NoTx (\<lambda>e. e) (\<lambda>e. e) (
     or_return (exec (\<lambda>_ s. Some (s\<lparr>otp_tokens :=
         set_rows (\<lambda>t. same_slot (o_phone otp) (o_purpose otp) t \<and> \<not> o_used t)
           (\<lambda>t. t\<lparr>o_used := True\<rparr>) (otp_tokens s)\<rparr>))) (\<lambda>e. e) (\<lambda>_.
     or_return (exec (\<lambda>_. insert_otp (otp\<lparr>o_used := False\<rparr>))) (\<lambda>e. e) (\<lambda>_.
     ok ())))"

text \<open>\<open>ORDER BY created_at DESC LIMIT 1\<close> over the tokens that are valid at \<open>now\<close>.\<close>

definition otp_valid :: "string \<Rightarrow> otp_purpose \<Rightarrow> time \<Rightarrow> otp_token \<Rightarrow> bool" where
  "otp_valid phone purpose now t \<longleftrightarrow>
     same_slot phone purpose t \<and> \<not> o_used t \<and> now < o_expires_at t"

definition FindValid :: "string \<Rightarrow> otp_purpose \<Rightarrow> otp_token program" where
  "FindValid phone purpose =
     or_return
       (statement (\<lambda>s. (case page_of o_created_at 1 0
                              (filter (otp_valid phone purpose (time_at s (tick s))) (otp_tokens s)) of
                          [] \<Rightarrow> Inl ErrNoRows
                        | t # _ \<Rightarrow> Inr t, s)))
       (Wrap ''no valid OTP found'') ok"

definition MarkUsed :: "uuid \<Rightarrow> unit program" where
  "MarkUsed i = exec (\<lambda>_ s. Some (s\<lparr>otp_tokens :=
     set_rows (\<lambda>t. o_id t = i) (\<lambda>t. t\<lparr>o_used := True\<rparr>) (otp_tokens s)\<rparr>))"

definition PruneExpired :: "unit program" where
  "PruneExpired = do {
     now \<leftarrow> time_now;
     exec (\<lambda>_ s. Some (s\<lparr>otp_tokens :=
       filter (\<lambda>t. \<not> o_expires_at t < now - 24 * 60 * 60 * 1000) (otp_tokens s)\<rparr>))
   }"

text \<open>
  What \<open>Create\<close> is there for: at most one unused token per phone number and purpose.
\<close>

definition otp_tables_ok :: "world \<Rightarrow> bool" where
  "otp_tables_ok s \<longleftrightarrow>
     distinct (map o_id (otp_tokens s)) \<and>
     distinct (map (\<lambda>t. (o_phone t, o_purpose t)) (filter (\<lambda>t. \<not> o_used t) (otp_tokens s)))"

lemma on_tables_otp [simp, keeps_intros]: "on_tables otp_tables_ok"
  by (simp add: on_tables_def otp_tables_ok_def)

lemma filter_set_rows_used:
  "filter (\<lambda>t. \<not> o_used t) (set_rows (\<lambda>t. p t \<and> \<not> o_used t) (\<lambda>t. t\<lparr>o_used := True\<rparr>) ts) =
     filter (\<lambda>t. \<not> p t) (filter (\<lambda>t. \<not> o_used t) ts)"
  by (induction ts) auto

lemma filter_set_rows_mark:
  "filter (\<lambda>t. \<not> o_used t) (set_rows p (\<lambda>t. t\<lparr>o_used := True\<rparr>) ts) =
     filter (\<lambda>t. \<not> p t) (filter (\<lambda>t. \<not> o_used t) ts)"
  by (induction ts) auto

lemma distinct_map_filter_more: "distinct (map f xs) \<Longrightarrow> distinct (map f (filter p xs))"
  by (simp add: distinct_map_filter)

lemma filter_swap: "filter q (filter p xs) = filter p (filter q xs)"
  by (simp add: conj_commute)

lemma CreateOTP_success:
  assumes "run_state (CreateOTP otp) s = (Inr v, s')"
  shows "otp_tokens s' = set_rows (\<lambda>t. same_slot (o_phone otp) (o_purpose otp) t \<and> \<not> o_used t)
           (\<lambda>t. t\<lparr>o_used := True\<rparr>) (otp_tokens s) @ [otp\<lparr>o_used := False\<rparr>]"
    and "distinct (map o_id (otp_tokens s'))"
  using assms unfolding CreateOTP_def
  by (elim local_tx_commits; elim or_return_success;
      auto simp: insert_otp_def elim!: exec_success split: if_splits)+

lemma keeps_otp_CreateOTP [keeps_intros]: "keeps otp_tables_ok (CreateOTP otp)"
proof (rule keepsI)
  fix s assume ok: "otp_tables_ok s"
  obtain r s' where run: "run_state (CreateOTP otp) s = (r, s')" by (cases "run_state (CreateOTP otp) s")
  show "otp_tables_ok (snd (run_state (CreateOTP otp) s))"
  proof (cases r)
    case (Inl e)
    with run have "otp_tables_ok s' = otp_tables_ok s"
      unfolding CreateOTP_def by (intro local_tx_error_rolls_back [OF on_tables_otp]) simp
    with ok run show ?thesis by simp
  next
    case (Inr v)
    note new = CreateOTP_success [OF run [unfolded Inr]]
    let ?old = "filter (\<lambda>t. \<not> same_slot (o_phone otp) (o_purpose otp) t)
      (filter (\<lambda>t. \<not> o_used t) (otp_tokens s))"
    have "filter (\<lambda>t. \<not> o_used t) (otp_tokens s') = ?old @ [otp\<lparr>o_used := False\<rparr>]"
      by (simp add: new(1) filter_set_rows_used del: filter_filter)
    moreover have "distinct (map (\<lambda>t. (o_phone t, o_purpose t)) ?old)"
      using ok by (rule_tac distinct_map_filter_more) (simp add: otp_tables_ok_def)
    ultimately show ?thesis
      using run new(2) by (auto simp: otp_tables_ok_def same_slot_def)
  qed
qed

lemma keeps_otp_MarkUsed [keeps_intros]: "keeps otp_tables_ok (MarkUsed i)"
  unfolding MarkUsed_def
  by (rule keeps_exec, simp)
    (auto simp: otp_tables_ok_def filter_set_rows_mark map_set_rows distinct_map_filter_more
      simp del: filter_filter)

lemma keeps_otp_PruneExpired [keeps_intros]: "keeps otp_tables_ok PruneExpired"
proof -
  have "keeps otp_tables_ok (exec (\<lambda>_ s. Some (s\<lparr>otp_tokens := filter p (otp_tokens s)\<rparr>)))" for p
    by (rule keeps_exec, simp)
      (auto simp: otp_tables_ok_def distinct_map_filter_more filter_swap [of _ p]
        simp del: filter_filter)
  then show ?thesis
    unfolding PruneExpired_def by (intro keeps_intros) simp_all
qed

text \<open>A token that is found is the only unused one of its phone number and purpose.\<close>

lemma FindValid_success:
  assumes "run_state (FindValid phone purpose) s = (Inr t, s')"
  shows "s' = step s \<and> t \<in> set (otp_tokens s) \<and>
    otp_valid phone purpose (time_at s (Suc (tick s))) t"
proof -
  from assms have s': "s' = step s" and "case page_of o_created_at 1 0
      (filter (otp_valid phone purpose (time_at s (Suc (tick s)))) (otp_tokens s)) of
        [] \<Rightarrow> False | x # _ \<Rightarrow> x = t"
    by (auto simp: FindValid_def run_or_return run_statement split: if_splits list.splits)
  then have "t \<in> set (page_of o_created_at 1 0
      (filter (otp_valid phone purpose (time_at s (Suc (tick s)))) (otp_tokens s)))"
    by (auto split: list.splits)
  then have "t \<in> set (filter (otp_valid phone purpose (time_at s (Suc (tick s)))) (otp_tokens s))"
    unfolding page_of_def by (metis in_set_takeD in_set_dropD set_sort)
  with s' show ?thesis by simp
qed

lemma keeps_FindValid [keeps_intros]: "on_tables P \<Longrightarrow> keeps P (FindValid a b)"
proof -
  assume P: "on_tables P"
  then have "keeps P (statement (\<lambda>s. (f s, s)))" for f :: "world \<Rightarrow> otp_token res"
    by (simp add: keeps_def run_statement on_tables_step)
  then show ?thesis unfolding FindValid_def by (intro keeps_intros)
qed

lemma MarkUsed_success:
  "run_state (MarkUsed i) s = (Inr v, s') \<Longrightarrow>
     otp_tokens s' = set_rows (\<lambda>t. o_id t = i) (\<lambda>t. t\<lparr>o_used := True\<rparr>) (otp_tokens s)"
  by (auto simp: MarkUsed_def elim!: exec_success)

end
