(* ===== verification/WalletService.thy ===== *)
theory WalletService
  imports UserRepo Complex_Main
begin

text \<open>
  \<open>internal/services/wallet/wallet_service.go\<close> and the request checks of
  \<open>internal/handlers/wallet/wallet_handler.go\<close>: balance, history, funding and the
  settlement of funding webhooks. A goroutine started for the loyalty service is a job.
\<close>

section \<open>Balance and history\<close>

text \<open>
  \<open>koboToNGN\<close> is the exact quotient; the code's \<open>float64\<close> is the nearest binary
  fraction to it.
\<close>

definition koboToNGN :: "int \<Rightarrow> rat" where
  "koboToNGN kobo = of_int kobo / 100"

record balance_response =
  br_wallet_id :: uuid
  br_balance :: rat
  br_daily_spent :: rat
  br_daily_limit :: rat
  br_daily_remaining :: rat
  br_currency :: wallet_currency
  br_kyc_tier :: int

definition daily_remaining :: "wallet \<Rightarrow> int" where
  "daily_remaining w =
     (let remaining = i64 (w_daily_limit w - w_daily_spend w)
      in if remaining < 0 then 0 else remaining)"

definition GetBalance :: "string \<Rightarrow> balance_response program" where
  "GetBalance userID =
     or_return (FindByUserID userID) (\<lambda>_. ErrMsg ''wallet not found'') (\<lambda>wallet.
     or_return (FindByID userID) (\<lambda>e. e) (\<lambda>user.
     ok \<lparr>br_wallet_id = w_id wallet, br_balance = koboToNGN (w_balance wallet),
         br_daily_spent = koboToNGN (w_daily_spend wallet),
         br_daily_limit = koboToNGN (w_daily_limit wallet),
         br_daily_remaining = koboToNGN (daily_remaining wallet),
         br_currency = w_currency wallet, br_kyc_tier = kyc_int (u_kyc_tier user)\<rparr>))"

record transaction_list_response =
  tl_transactions :: "transaction list"
  tl_total :: int
  tl_page :: int
  tl_limit :: int
  tl_total_pages :: int

definition GetTransactions :: "string \<Rightarrow> int \<Rightarrow> int \<Rightarrow> transaction_list_response program" where
  "GetTransactions userID page limit =
     (let page = (if page < 1 then 1 else page);
          limit = (if limit < 1 \<or> 100 < limit then 20 else limit);
          offset = i64 ((page - 1) * limit)
      in or_return (ListTransactions userID limit offset) (\<lambda>e. e) (\<lambda>(txs, total).
           ok \<lparr>tl_transactions = txs, tl_total = total, tl_page = page, tl_limit = limit,
               tl_total_pages = i64 (i64 (total + limit) - 1) sdiv limit\<rparr>))"

section \<open>Funding\<close>

record fund_wallet_request =
  fr_amount :: int
  fr_payment_ref :: string
  fr_provider :: string

text \<open>The \<open>binding\<close> tags that \<open>ShouldBindJSON\<close> enforces before the service is called.\<close>

definition fund_request_bound :: "fund_wallet_request \<Rightarrow> bool" where
  "fund_request_bound req \<longleftrightarrow>
     10000 \<le> fr_amount req \<and> fr_payment_ref req \<noteq> [] \<and> fr_provider req \<noteq> []"

definition funding_ref :: "string \<Rightarrow> (world, string) state" where
  "funding_ref tag = do {
     u \<leftarrow> uuid_new;
     now \<leftarrow> time_now;
     State_Monad.return (tag @ take 8 u @ ''-'' @ show_int now)
   }"

definition funding_tx ::
  "wallet \<Rightarrow> string \<Rightarrow> string \<Rightarrow> int \<Rightarrow> int \<Rightarrow> tx_status \<Rightarrow> string \<Rightarrow> string \<Rightarrow> (world, transaction) state" where
  "funding_tx wallet ref extRef amount after status provider narration = do {
     i \<leftarrow> uuid_new;
     created \<leftarrow> time_now;
     updated \<leftarrow> time_now;
     State_Monad.return \<lparr>t_id = i, t_user_id = w_user_id wallet, t_wallet_id = w_id wallet,
       t_reference = ref, t_external_ref = extRef, t_type = TxTypeCredit,
       t_category = CategoryWalletFund, t_amount = amount, t_commission = 0, t_fee = 0,
       t_balance_before = w_balance wallet, t_balance_after = after, t_status = status,
       t_provider = provider, t_narration = narration, t_meta = [], t_reversed_tx_id = None,
       t_created_at = created, t_updated_at = updated\<rparr>
   }"

definition award_async :: "bool \<Rightarrow> string \<Rightarrow> uuid \<Rightarrow> service_category \<Rightarrow> int \<Rightarrow> (world, unit) state" where
  "award_async has_loyalty userID txID category amount =
     (if has_loyalty then spawn (AwardPointsJob userID txID category amount)
      else State_Monad.return ())"

text \<open>The closure that \<open>FundWallet\<close> runs in a transaction.\<close>

definition fund_closure :: "string \<Rightarrow> fund_wallet_request \<Rightarrow> transaction program" where
  "fund_closure userID req =
     or_return (FindByUserID userID) (\<lambda>_. ErrMsg ''wallet not found'') (\<lambda>wallet. do {
       ref \<leftarrow> funding_ref ''FUND-'';
       t \<leftarrow> funding_tx wallet ref (fr_payment_ref req) (fr_amount req)
              (i64 (w_balance wallet + fr_amount req)) TxSuccess (fr_provider req)
              (''Wallet funded via '' @ fr_provider req);
       or_return (CreditBalance (w_id wallet) (fr_amount req)) (Wrap ''credit balance'') (\<lambda>_.
       or_return (InsertTransaction t) (Wrap ''insert ledger transaction'') (\<lambda>_.
       ok t))
     })"

definition FundWallet :: "bool \<Rightarrow> string \<Rightarrow> fund_wallet_request \<Rightarrow> transaction program" where
  "FundWallet has_loyalty userID req = do {
     existing \<leftarrow> FindCreditByExternalRef (fr_payment_ref req);
     case existing of
       Inr t \<Rightarrow> ok t
     | Inl _ \<Rightarrow>
         or_return
           (WithinTx NoTx (\<lambda>txCtx. fund_closure userID req))
           (\<lambda>e. e) (\<lambda>t. do {
         award_async has_loyalty userID (t_id t) CategoryWalletFund (fr_amount req);
         ok t
       })
   }"

text \<open>\<open>POST /wallet/fund\<close>: the handler binds the request and calls the service for the caller.\<close>

definition FundWalletHandler :: "bool \<Rightarrow> string \<Rightarrow> fund_wallet_request \<Rightarrow> transaction program" where
  "FundWalletHandler has_loyalty userID req =
     (if \<not> fund_request_bound req then fail (ErrMsg ''bad request'')
      else FundWallet has_loyalty userID req)"

section \<open>Initialised funding and its webhook\<close>

definition checkout_url :: "string \<Rightarrow> string \<Rightarrow> string" where
  "checkout_url provider ref =
     (if provider = ''flutterwave'' then ''https://checkout.flutterwave.com/v3/hosted/pay/'' @ ref
      else if provider = ''monnify'' then ''https://sandbox.monnify.com/v1/checkout/pay/'' @ ref
      else if provider = ''opay'' then ''https://www.opayweb.com/payment/'' @ ref
      else ''https://checkout.flipbills.com/fallback/'' @ ref)"

definition InitializeFunding :: "string \<Rightarrow> int \<Rightarrow> string \<Rightarrow> (string \<times> string) program" where
  "InitializeFunding userID amount provider =
     or_return (FindByUserID userID) (\<lambda>_. ErrMsg ''wallet not found'') (\<lambda>wallet. do {
       ref \<leftarrow> funding_ref ''FUND-INIT-'';
       t \<leftarrow> funding_tx wallet ref [] amount (w_balance wallet) TxPending provider
              (''Wallet funding initialized via '' @ provider);
       or_return (InsertTransaction t) (Wrap ''failed to log pending funding record'') (\<lambda>_.
       ok (ref, checkout_url provider ref))
     })"

text \<open>
  The body of \<open>ProcessFundingWebhook\<close> in the two halves it consists of: reading the
  transaction and the wallet (plain \<open>SELECT\<close>s, no row lock) with the checks, \<open>None\<close>
  when there is nothing left to do, and writing.
\<close>

definition settle_read :: "string \<Rightarrow> int \<Rightarrow> (transaction \<times> wallet) option program" where
  "settle_read reference incomingAmountKobo =
     or_return (FindTransactionByReference [] reference)
       (Wrap (''transaction not found for ref '' @ reference)) (\<lambda>t.
     if t_status t = TxSuccess then ok None
     else if t_status t \<noteq> TxPending
     then fail (ErrMsg ''transaction cannot be settled; unexpected status'')
     else if t_amount t \<noteq> incomingAmountKobo then fail (ErrMsg ''amount mismatch'')
     else or_return (FindByUserID (t_user_id t))
       (Wrap (''wallet not found for user '' @ t_user_id t)) (\<lambda>wallet.
     ok (Some (t, wallet))))"

definition settle_write ::
  "bool \<Rightarrow> string \<Rightarrow> string \<Rightarrow> int \<Rightarrow> transaction \<Rightarrow> wallet \<Rightarrow> unit program" where
  "settle_write has_loyalty reference externalRef incomingAmountKobo t wallet =
     or_return (CreditBalance (w_id wallet) incomingAmountKobo)
       (Wrap ''failed to credit wallet balance'') (\<lambda>_.
     or_return (UpdateTransactionBalances reference (w_balance wallet)
                  (i64 (w_balance wallet + incomingAmountKobo)))
       (Wrap ''failed to update transaction balances'') (\<lambda>_.
     or_return (UpdateTransactionStatus reference TxSuccess externalRef)
       (Wrap ''failed to update transaction status to success'') (\<lambda>_. do {
       award_async has_loyalty (t_user_id t) (t_id t) CategoryWalletFund incomingAmountKobo;
       ok ()
     })))"

definition ProcessFundingWebhook :: "bool \<Rightarrow> string \<Rightarrow> string \<Rightarrow> int \<Rightarrow> unit program" where
  "ProcessFundingWebhook has_loyalty reference externalRef incomingAmountKobo =
     WithinTx NoTx (\<lambda>txCtx.
       or_return (settle_read reference incomingAmountKobo) (\<lambda>e. e) (\<lambda>found.
       case found of
         None \<Rightarrow> ok ()
       | Some (t, wallet) \<Rightarrow>
           settle_write has_loyalty reference externalRef incomingAmountKobo t wallet))"

section \<open>The schema is kept\<close>

lemma keeps_funding_parts [keeps_intros]:
  "on_tables P \<Longrightarrow> keeps P (funding_ref tag)"
  "on_tables P \<Longrightarrow> keeps P (funding_tx w r x n a st pr na)"
  "on_tables P \<Longrightarrow> keeps P (award_async b u i c n)"
  by (auto simp: funding_ref_def funding_tx_def award_async_def intro!: keeps_intros)

lemma keeps_GetBalance [keeps_intros]: "on_tables P \<Longrightarrow> keeps P (GetBalance u)"
  unfolding GetBalance_def by (intro keeps_intros)

lemma keeps_GetTransactions [keeps_intros]: "on_tables P \<Longrightarrow> keeps P (GetTransactions u p l)"
  unfolding GetTransactions_def Let_def case_prod_unfold by (intro keeps_intros)

lemma keeps_ok_fund_closure [keeps_intros]: "keeps wallet_tables_ok (fund_closure u req)"
  unfolding fund_closure_def by (intro keeps_intros on_tables_wallet_tables_ok)

lemma keeps_ok_FundWallet [keeps_intros]: "keeps wallet_tables_ok (FundWallet b u req)"
  unfolding FundWallet_def by (intro keeps_intros on_tables_wallet_tables_ok)

lemma keeps_ok_FundWalletHandler [keeps_intros]: "keeps wallet_tables_ok (FundWalletHandler b u req)"
  unfolding FundWalletHandler_def by (intro keeps_intros)

lemma keeps_ok_InitializeFunding [keeps_intros]: "keeps wallet_tables_ok (InitializeFunding u n p)"
  unfolding InitializeFunding_def by (intro keeps_intros on_tables_wallet_tables_ok)

lemma keeps_settle_read [keeps_intros]: "on_tables P \<Longrightarrow> keeps P (settle_read r n)"
  unfolding settle_read_def by (intro keeps_intros)

lemma keeps_ok_settle_write [keeps_intros]: "keeps wallet_tables_ok (settle_write b r x n t w)"
  unfolding settle_write_def by (intro keeps_intros on_tables_wallet_tables_ok)

lemma keeps_ok_ProcessFundingWebhook [keeps_intros]:
  "keeps wallet_tables_ok (ProcessFundingWebhook b r x n)"
  unfolding ProcessFundingWebhook_def case_prod_unfold
  by (intro keeps_intros on_tables_wallet_tables_ok)

section \<open>What a call does to the accounts\<close>

lemma FindByUserID_success:
  "run_state (FindByUserID u) s = (Inr w, s') \<Longrightarrow> s' = step s \<and> wallet_of u s = Some w"
  by (auto simp: FindByUserID_def run_or_return run_query_row split: if_splits option.splits)

lemma FindByUserID_state: "snd (run_state (FindByUserID u) s) = step s"
  by (auto simp: FindByUserID_def run_or_return run_query_row split: option.splits)

lemma run_funding_ref:
  obtains r where "run_state (funding_ref tag) s = (tag @ r, step (step s))"
  by (simp add: funding_ref_def)

lemma run_funding_tx:
  obtains x where "run_state (funding_tx w ref ext n after st pr na) s = (x, step (step (step s)))"
    and "t_user_id x = w_user_id w" "t_wallet_id x = w_id w" "t_reference x = ref"
      "t_external_ref x = ext" "t_type x = TxTypeCredit" "t_amount x = n"
      "t_balance_before x = w_balance w" "t_balance_after x = after" "t_status x = st"
  by (simp add: funding_tx_def)

lemma fund_closure_success:
  assumes ok: "wallet_tables_ok s" and run: "run_state (fund_closure u req) s = (Inr t, s')"
  shows "\<exists>a. accounts s u = Some a \<and> accounts s' = (accounts s)(u \<mapsto> credit (fr_amount req) a) \<and>
    transactions s' = transactions s @ [t] \<and> t_external_ref t = fr_payment_ref req \<and>
    t_type t = TxTypeCredit \<and> t_amount t = fr_amount req \<and> t_user_id t = u \<and>
    t_status t = TxSuccess \<and> t_balance_before t = ac_balance a \<and>
    t_balance_after t = ac_balance a + fr_amount req"
proof -
  from run obtain w s1 where "run_state (FindByUserID u) s = (Inr w, s1)"
    and rest: "run_state (do {
       ref \<leftarrow> funding_ref ''FUND-'';
       t \<leftarrow> funding_tx w ref (fr_payment_ref req) (fr_amount req)
              (i64 (w_balance w + fr_amount req)) TxSuccess (fr_provider req)
              (''Wallet funded via '' @ fr_provider req);
       or_return (CreditBalance (w_id w) (fr_amount req)) (Wrap ''credit balance'') (\<lambda>_.
       or_return (InsertTransaction t) (Wrap ''insert ledger transaction'') (\<lambda>_. ok t))
     }) s1 = (Inr t, s')"
    unfolding fund_closure_def by (rule or_return_success)
  then have w: "wallet_of u s = Some w" and s1: "s1 = step s"
    by (simp_all add: FindByUserID_success)
  let ?a = "account_of w" and ?n = "fr_amount req"
  obtain ref where ref: "run_state (funding_ref ''FUND-'') s1 = (''FUND-'' @ ref, step (step s1))"
    by (rule run_funding_ref)
  obtain x where x: "run_state (funding_tx w (''FUND-'' @ ref) (fr_payment_ref req) ?n
      (i64 (w_balance w + ?n)) TxSuccess (fr_provider req) (''Wallet funded via '' @ fr_provider req))
      (step (step s1)) = (x, step (step (step (step (step s1)))))"
    "t_user_id x = w_user_id w" "t_external_ref x = fr_payment_ref req" "t_type x = TxTypeCredit"
    "t_amount x = ?n" "t_balance_before x = w_balance w"
    "t_balance_after x = i64 (w_balance w + ?n)" "t_status x = TxSuccess"
    by (rule run_funding_tx)
  define s2 where "s2 = step (step (step (step (step s1))))"
  have s2: "wallet_tables_ok s2" "accounts s2 = accounts s" "transactions s2 = transactions s"
    using ok by (simp_all add: s2_def s1 on_tables_step)
  have run2: "run_state (or_return (CreditBalance (ac_wallet ?a) ?n)
       (Wrap ''credit balance'') (\<lambda>_. or_return (InsertTransaction x)
       (Wrap ''insert ledger transaction'') (\<lambda>_. ok x))) s2 = (Inr t, s')"
    using rest by (simp only: run_bind_eq [OF ref] run_bind_eq [OF x(1)] s2_def account_simps)
  have a: "accounts s u = Some ?a" using w by (simp add: accounts_def)
  with s2 have "accounts s2 u = Some ?a" by simp
  from credit_insert_success [OF s2(1) this run2] s2 x wallet_ofD [OF w] a show ?thesis
    by (auto simp: can_credit_def i64_id)
qed

lemma WithinTx_success:
  assumes "run_state (WithinTx c fn) s = (Inr v, s')"
  obtains s0 s1 where "s0 = s \<or> s0 = step s" and "run_state (fn InTx) s0 = (Inr v, s1)"
    and "s' = s1 \<or> s' = step s1"
  using assms unfolding WithinTx_def by (rule local_tx_success)

lemma WithinTx_error:
  "on_tables P \<Longrightarrow> run_state (WithinTx NoTx fn) s = (Inl e, s') \<Longrightarrow> P s' = P s"
  unfolding WithinTx_def by (rule local_tx_error_rolls_back)

definition funded_by :: "string \<Rightarrow> world \<Rightarrow> bool" where
  "funded_by r s \<longleftrightarrow> (\<exists>t \<in> set (transactions s). t_external_ref t = r \<and> t_type t = TxTypeCredit)"

lemma FundWallet_cases:
  assumes ok: "wallet_tables_ok s" and run: "run_state (FundWallet b u req) s = (r, s')"
  shows "(accounts s' = accounts s \<and> transactions s' = transactions s \<and>
      (\<forall>t. r = Inr t \<longrightarrow> t \<in> set (transactions s) \<and> t_external_ref t = fr_payment_ref req \<and>
        t_type t = TxTypeCredit)) \<or>
    (\<exists>t a. r = Inr t \<and> accounts s u = Some a \<and>
      accounts s' = (accounts s)(u \<mapsto> credit (fr_amount req) a) \<and>
      transactions s' = transactions s @ [t] \<and> t_external_ref t = fr_payment_ref req \<and>
      t_type t = TxTypeCredit \<and> t_amount t = fr_amount req \<and> t_user_id t = u \<and>
      t_balance_before t = ac_balance a \<and> t_balance_after t = ac_balance a + fr_amount req \<and>
      (fr_payment_ref req \<noteq> [] \<longrightarrow> \<not> funded_by (fr_payment_ref req) s))"
proof -
  obtain f s1 where f: "run_state (FindCreditByExternalRef (fr_payment_ref req)) s = (f, s1)"
    by (cases "run_state (FindCreditByExternalRef (fr_payment_ref req)) s")
  then have s1: "s1 = step s" by (auto simp: FindCreditByExternalRef_def run_query_row)
  show ?thesis
  proof (cases f)
    case (Inr t)
    with f run have "r = Inr t" "s' = step s" "t \<in> set (transactions s)"
      "t_external_ref t = fr_payment_ref req" "t_type t = TxTypeCredit"
      by (auto simp: FundWallet_def FindCreditByExternalRef_def run_query_row
          split: if_splits option.splits dest: find_SomeD)
    then show ?thesis by simp
  next
    case (Inl e)
    with f s1 run have "run_state (or_return (WithinTx NoTx (\<lambda>txCtx. fund_closure u req))
        (\<lambda>e. e) (\<lambda>t. do { award_async b u (t_id t) CategoryWalletFund (fr_amount req); ok t }))
        (step s) = (r, s')"
      by (simp add: FundWallet_def)
    then show ?thesis
    proof (cases rule: or_return_cases)
      case (returned e')
      have "wallets s' = wallets s" "transactions s' = transactions s"
        using WithinTx_error [OF on_tables_frames(4) returned(1), of "wallets s"]
          WithinTx_error [OF on_tables_frames(5) returned(1), of "transactions s"] by simp_all
      with returned show ?thesis by (simp add: accounts_wallets [of s' s])
    next
      case (continued t s2)
      then obtain s0 s3 where "s0 = step s \<or> s0 = step (step s)" "s2 = s3 \<or> s2 = step s3"
        and body: "run_state (fund_closure u req) s0 = (Inr t, s3)"
        by (elim WithinTx_success)
      with ok have s0: "wallet_tables_ok s0" "accounts s0 = accounts s"
        "transactions s0 = transactions s" and s3: "accounts s2 = accounts s3"
        "transactions s2 = transactions s3"
        by (auto simp: on_tables_step)
      from continued(2) have s': "accounts s' = accounts s2" "transactions s' = transactions s2"
        and r: "r = Inr t"
        by (auto simp: award_async_def accounts_def wallet_of_def fun_eq_iff split: if_splits)
      have ok3: "wallet_tables_ok s3"
        using keeps_ok_fund_closure body s0(1) by (rule keeps_run)
      have "\<not> funded_by (fr_payment_ref req) s" if "fr_payment_ref req \<noteq> []"
        using ok3 fund_closure_success [OF s0(1) body] s0(3) that
        by (force simp: wallet_tables_ok_def transactions_unique_def funded_by_def indexed_credit_def)
      with fund_closure_success [OF s0(1) body] s0 s3 s' r show ?thesis by fastforce
    qed
  qed
qed

text \<open>Funding is safe to retry: the key of an attempt is its payment reference.\<close>

lemma FundWalletHandler_cases:
  assumes ok: "wallet_tables_ok s" and run: "run_state (FundWalletHandler b u req) s = (r, s')"
  shows "(accounts s' = accounts s \<and>
      (\<forall>x. funded_by x s \<longrightarrow> funded_by x s') \<and>
      (\<forall>t. r = Inr t \<longrightarrow> funded_by (fr_payment_ref req) s')) \<or>
    (\<not> funded_by (fr_payment_ref req) s \<and> funded_by (fr_payment_ref req) s' \<and>
      (\<exists>t a. r = Inr t \<and> accounts s u = Some a \<and>
        accounts s' = (accounts s)(u \<mapsto> credit (fr_amount req) a)))"
proof (cases "fund_request_bound req")
  case True
  with run have "run_state (FundWallet b u req) s = (r, s')"
    by (simp add: FundWalletHandler_def)
  from FundWallet_cases [OF ok this] True show ?thesis
    by (auto simp: funded_by_def fund_request_bound_def)
next
  case False
  with run show ?thesis by (auto simp: FundWalletHandler_def)
qed

interpretation funding: once wallet_tables_ok accounts "\<lambda>s r. funded_by r s"
  "\<lambda>(u, req). fr_payment_ref req" "\<lambda>(u, req). FundWalletHandler b u req"
proof unfold_locales
  show "keeps wallet_tables_ok (case x of (u, req) \<Rightarrow> FundWalletHandler b u req)" for x
    by (cases x) (simp add: keeps_ok_FundWalletHandler)
qed (auto dest!: FundWalletHandler_cases split: prod.splits)

section \<open>Settling a webhook\<close>

lemma tx_by_ref_set_rows:
  assumes "transactions s' = set_rows (\<lambda>t. t_reference t = r) f (transactions s)"
    and "\<And>t. t_reference (f t) = t_reference t"
  shows "tx_by_ref r s' = map_option f (tx_by_ref r s)"
proof -
  have "tx_by_ref r s' = map_option (\<lambda>t. if t_reference t = r then f t else t) (tx_by_ref r s)"
    using assms by (simp add: tx_by_ref_def find_set_rows)
  then show ?thesis
    by (cases "tx_by_ref r s") (auto simp: tx_by_ref_def dest: find_SomeD)
qed

lemma UpdateTransactionBalances_success:
  assumes "run_state (UpdateTransactionBalances ref b a) s = (Inr v, s')"
  obtains now where "transactions s' = set_rows (\<lambda>t. t_reference t = ref)
     (\<lambda>t. t\<lparr>t_balance_before := b, t_balance_after := a, t_updated_at := now\<rparr>) (transactions s)"
  using assms
  by (auto simp: UpdateTransactionBalances_def update_transactions_def elim!: exec_success
      split: if_splits)

definition settled_tx :: "world \<Rightarrow> string \<Rightarrow> bool" where
  "settled_tx s r \<longleftrightarrow> (\<exists>t. tx_by_ref r s = Some t \<and> t_status t = TxSuccess)"

lemma tx_by_ref_transactions: "transactions s' = transactions s \<Longrightarrow> tx_by_ref r s' = tx_by_ref r s"
  by (simp add: tx_by_ref_def)

lemma FindTransactionByReference_success:
  "run_state (FindTransactionByReference [] r) s = (Inr t, s') \<Longrightarrow>
     s' = step s \<and> tx_by_ref r s = Some t"
  by (auto simp: FindTransactionByReference_def run_or_return run_query_row
      split: if_splits option.splits)

lemma settle_read_success:
  assumes "run_state (settle_read r n) s = (Inr v, s')"
  shows "case v of
      None \<Rightarrow> s' = step s \<and> settled_tx s r
    | Some (t, w) \<Rightarrow> s' = step (step s) \<and> tx_by_ref r s = Some t \<and> t_status t = TxPending \<and>
        t_amount t = n \<and> wallet_of (t_user_id t) s = Some w"
proof -
  from assms obtain t s1 where "run_state (FindTransactionByReference [] r) s = (Inr t, s1)"
    and rest: "run_state (if t_status t = TxSuccess then ok None
     else if t_status t \<noteq> TxPending
     then fail (ErrMsg ''transaction cannot be settled; unexpected status'')
     else if t_amount t \<noteq> n then fail (ErrMsg ''amount mismatch'')
     else or_return (FindByUserID (t_user_id t))
       (Wrap (''wallet not found for user '' @ t_user_id t)) (\<lambda>wallet. ok (Some (t, wallet)))) s1
     = (Inr v, s')"
    unfolding settle_read_def by (rule or_return_success)
  then have s1: "s1 = step s" and t: "tx_by_ref r s = Some t"
    by (simp_all add: FindTransactionByReference_success)
  show ?thesis
  proof (cases "t_status t = TxSuccess")
    case True
    with rest s1 t show ?thesis by (auto simp: settled_tx_def)
  next
    case False
    with rest have g: "t_status t = TxPending" "t_amount t = n"
      and "run_state (or_return (FindByUserID (t_user_id t))
        (Wrap (''wallet not found for user '' @ t_user_id t)) (\<lambda>wallet. ok (Some (t, wallet)))) s1
        = (Inr v, s')"
      by (simp_all split: if_splits)
    from this(3) obtain w s2 where "run_state (FindByUserID (t_user_id t)) s1 = (Inr w, s2)"
      and "v = Some (t, w)" "s' = s2"
      by (elim or_return_success) simp
    with FindByUserID_success [OF this(1)] g s1 t show ?thesis by simp
  qed
qed

text \<open>
  The writing half, from any state: it credits the wallet and marks the row, without
  looking at the row's status again.
\<close>

lemma settle_write_rows:
  assumes run: "run_state (settle_write b r x n t w) s = (Inr v, s')"
  obtains now s1 v1 where "run_state (CreditBalance (w_id w) n) s = (Inr v1, s1)"
    and "wallets s' = wallets s1"
    and "transactions s' = set_rows (\<lambda>t. t_reference t = r)
      (\<lambda>t. t\<lparr>t_balance_before := w_balance w, t_balance_after := i64 (w_balance w + n),
        t_status := TxSuccess, t_external_ref := x, t_updated_at := now\<rparr>) (transactions s)"
proof -
  from run obtain v1 v2 v3 s1 s2 s3
    where s1: "run_state (CreditBalance (w_id w) n) s = (Inr v1, s1)"
      and s2: "run_state (UpdateTransactionBalances r (w_balance w) (i64 (w_balance w + n))) s1 = (Inr v2, s2)"
      and s3: "run_state (UpdateTransactionStatus r TxSuccess x) s2 = (Inr v3, s3)"
      and s': "s' = (if b then s3\<lparr>jobs := jobs s3 @ [AwardPointsJob (t_user_id t) (t_id t) CategoryWalletFund n]\<rparr> else s3)"
    unfolding settle_write_def by (elim or_return_success) (cases b; simp add: award_async_def)
  have "wallets s' = wallets s1"
    using tx_frameD(1) [OF keeps_run [OF keeps_tx_frame(4) s2 refl]]
      tx_frameD(1) [OF keeps_run [OF keeps_tx_frame(2) s3 refl]] s' by simp
  moreover have "transactions s1 = transactions s"
    using keeps_run [OF keeps_wallet_frame(2) s1 refl] by (rule wallet_frameD)
  moreover obtain n1 where "transactions s2 = set_rows (\<lambda>t. t_reference t = r)
     (\<lambda>t. t\<lparr>t_balance_before := w_balance w, t_balance_after := i64 (w_balance w + n), t_updated_at := n1\<rparr>)
     (transactions s1)"
    using s2 by (rule UpdateTransactionBalances_success)
  moreover obtain n2 where "transactions s3 = set_rows (\<lambda>t. t_reference t = r)
     (\<lambda>t. t\<lparr>t_status := TxSuccess, t_external_ref := x, t_updated_at := n2\<rparr>) (transactions s2)"
    using s3 by (rule UpdateTransactionStatus_success)
  ultimately show thesis
    using s' by (intro that [OF s1, where now = n2]) (simp_all add: set_rows_def)
qed

lemma settle_write_success:
  assumes ok: "wallet_tables_ok s" and w: "accounts s u = Some a" "w_id w = ac_wallet a"
    and row: "tx_by_ref r s = Some t0"
    and run: "run_state (settle_write b r x n t w) s = (Inr v, s')"
  shows "accounts s' = (accounts s)(u \<mapsto> credit n a)"
    and "\<exists>t'. tx_by_ref r s' = Some t' \<and> t_status t' = TxSuccess \<and> t_external_ref t' = x \<and>
      t_amount t' = t_amount t0 \<and> t_user_id t' = t_user_id t0 \<and>
      t_balance_before t' = w_balance w \<and> t_balance_after t' = i64 (w_balance w + n)"
proof -
  from run obtain now s1 v1 where s1: "run_state (CreditBalance (ac_wallet a) n) s = (Inr v1, s1)"
    "wallets s' = wallets s1"
    and rows: "transactions s' = set_rows (\<lambda>t. t_reference t = r)
      (\<lambda>t. t\<lparr>t_balance_before := w_balance w, t_balance_after := i64 (w_balance w + n),
        t_status := TxSuccess, t_external_ref := x, t_updated_at := now\<rparr>) (transactions s)"
    by (rule settle_write_rows) (use w(2) in auto)
  show "accounts s' = (accounts s)(u \<mapsto> credit n a)"
    using CreditBalance_success [OF ok w(1) s1(1)] accounts_wallets [OF s1(2)] by simp
  from rows row show "\<exists>t'. tx_by_ref r s' = Some t' \<and> t_status t' = TxSuccess \<and> t_external_ref t' = x \<and>
      t_amount t' = t_amount t0 \<and> t_user_id t' = t_user_id t0 \<and>
      t_balance_before t' = w_balance w \<and> t_balance_after t' = i64 (w_balance w + n)"
    by (simp add: tx_by_ref_set_rows)
qed

text \<open>A settled row keeps its reference, owner and amount.\<close>

definition settles :: "(transaction \<Rightarrow> transaction) \<Rightarrow> bool" where
  "settles g \<longleftrightarrow> (\<forall>t. t_reference (g t) = t_reference t \<and> t_user_id (g t) = t_user_id t \<and>
     t_amount (g t) = t_amount t \<and> t_status (g t) = TxSuccess)"

lemma ProcessFundingWebhook_cases:
  assumes ok: "wallet_tables_ok s" and run: "run_state (ProcessFundingWebhook b r x n) s = (res, s')"
  shows "(accounts s' = accounts s \<and> transactions s' = transactions s \<and>
      (res = Inr () \<longrightarrow> settled_tx s r)) \<or>
    (res = Inr () \<and> settled_tx s' r \<and> (\<exists>t a. tx_by_ref r s = Some t \<and> t_status t = TxPending \<and>
       t_amount t = n \<and> accounts s (t_user_id t) = Some a \<and>
       accounts s' = (accounts s)(t_user_id t \<mapsto> credit n a)) \<and>
     (\<exists>g. transactions s' = set_rows (\<lambda>t. t_reference t = r) g (transactions s) \<and> settles g))"
proof (cases res)
  case (Inl e)
  have "wallets s' = wallets s" "transactions s' = transactions s"
    using WithinTx_error [OF on_tables_frames(4) run [unfolded Inl ProcessFundingWebhook_def], of "wallets s"]
      WithinTx_error [OF on_tables_frames(5) run [unfolded Inl ProcessFundingWebhook_def], of "transactions s"]
    by simp_all
  with Inl show ?thesis by (simp add: accounts_wallets [of s' s])
next
  case (Inr v)
  from run [unfolded Inr ProcessFundingWebhook_def] obtain s0 s1
    where "s0 = s \<or> s0 = step s" and "s' = s1 \<or> s' = step s1"
      and body: "run_state (or_return (settle_read r n) (\<lambda>e. e) (\<lambda>found. case found of
         None \<Rightarrow> ok () | Some (t, w) \<Rightarrow> settle_write b r x n t w)) s0 = (Inr v, s1)"
    by (rule WithinTx_success)
  with ok have s0: "wallet_tables_ok s0" "accounts s0 = accounts s" "transactions s0 = transactions s"
    "tx_by_ref r s0 = tx_by_ref r s" "settled_tx s0 r = settled_tx s r"
    and s1: "accounts s' = accounts s1" "transactions s' = transactions s1"
      "settled_tx s' r = settled_tx s1 r"
    by (auto simp: on_tables_step settled_tx_def)
  from body obtain found s2 where read: "run_state (settle_read r n) s0 = (Inr found, s2)"
    and rest: "run_state (case found of None \<Rightarrow> ok () | Some (t, w) \<Rightarrow> settle_write b r x n t w) s2
      = (Inr v, s1)"
    by (rule or_return_success)
  show ?thesis
  proof (cases found)
    case None
    with settle_read_success [OF read] rest s0 s1 Inr show ?thesis by auto
  next
    case (Some tw)
    then obtain t w where found: "found = Some (t, w)" by (cases tw) simp
    with settle_read_success [OF read] have s2: "s2 = step (step s0)"
      and t: "tx_by_ref r s0 = Some t" "t_status t = TxPending" "t_amount t = n"
      and w: "wallet_of (t_user_id t) s0 = Some w" by simp_all
    have ok2: "wallet_tables_ok s2" and a: "accounts s2 (t_user_id t) = Some (account_of w)"
      and t2: "tx_by_ref r s2 = Some t"
      using s0(1) w t by (simp_all add: s2 on_tables_step) (simp add: accounts_def)
    from rest found have writes: "run_state (settle_write b r x n t w) s2 = (Inr v, s1)" by simp
    note w2 = settle_write_success [OF ok2 a _ t2 this]
    obtain g where "transactions s1 = set_rows (\<lambda>t. t_reference t = r) g (transactions s2)" "settles g"
      using writes by (rule settle_write_rows) (auto simp: settles_def)
    with s0 s1 s2 have g: "\<exists>g. transactions s' = set_rows (\<lambda>t. t_reference t = r) g (transactions s) \<and> settles g"
      by auto
    have "accounts s' = (accounts s)(t_user_id t \<mapsto> credit n (account_of w))"
      and "accounts s (t_user_id t) = Some (account_of w)" and "settled_tx s' r"
      using w2 s0 s1 a s2 by (auto simp: settled_tx_def)
    with t s0 Inr g show ?thesis
      by (intro disjI2 conjI exI [of _ t] exI [of _ "account_of w"]) simp_all
  qed
qed

lemma ProcessFundingWebhook_once:
  assumes "wallet_tables_ok s" and "run_state (ProcessFundingWebhook b r x n) s = (res, s')"
  shows "(accounts s' = accounts s \<and> transactions s' = transactions s \<and>
      (settled_tx s r \<longrightarrow> settled_tx s' r) \<and> (res = Inr () \<longrightarrow> settled_tx s' r)) \<or>
    (\<not> settled_tx s r \<and> settled_tx s' r \<and> res = Inr ())"
  using ProcessFundingWebhook_cases [OF assms] tx_by_ref_transactions [of s' s r]
  by (auto simp: settled_tx_def)

interpretation settlement: once wallet_tables_ok "\<lambda>s. (accounts s, transactions s)" settled_tx
  "\<lambda>(r, x, n). r" "\<lambda>(r, x, n). ProcessFundingWebhook b r x n"
proof unfold_locales
  show "keeps wallet_tables_ok (case x of (r, x, n) \<Rightarrow> ProcessFundingWebhook b r x n)" for x
    by (cases x) (simp add: keeps_ok_ProcessFundingWebhook)
qed (auto dest: ProcessFundingWebhook_once split: prod.splits)

section \<open>Properties of the wallet service\<close>

text \<open>
  C4. Funding is idempotent in the payment reference: any number of requests that carry the
  same reference, by any users and under any failures, credit one wallet once, with the amount
  of one of the requests, or credit nobody.
\<close>

theorem funding_credits_once:
  assumes "wallet_tables_ok s" and "\<forall>(u, req) \<in> set xs. fr_payment_ref req = r"
  shows "let s' = attempts (\<lambda>(u, req). FundWalletHandler b u req) xs s
    in accounts s' = accounts s \<or>
       (\<exists>(u, req) \<in> set xs. \<exists>a. accounts s u = Some a \<and>
          accounts s' = (accounts s)(u \<mapsto> credit (fr_amount req) a))"
proof -
  let ?act = "\<lambda>(u, req). FundWalletHandler b u req"
  have "\<forall>x \<in> set xs. (case x of (u, req) \<Rightarrow> fr_payment_ref req) = r"
    using assms(2) by auto
  from funding.attempts_once [OF assms(1) this, of b]
  consider "accounts (attempts ?act xs s) = accounts s" |
    ys x zs v s2 where "xs = ys @ x # zs" "accounts (attempts ?act ys s) = accounts s"
      "run_state (?act x) (attempts ?act ys s) = (Inr v, s2)"
      "accounts (attempts ?act xs s) = accounts s2"
    by auto
  then show ?thesis
  proof cases
    case 2
    obtain u req where x: "x = (u, req)" by (cases x)
    have "wallet_tables_ok (attempts ?act ys s)"
      using assms(1) by (rule funding.attempts_inv)
    from FundWalletHandler_cases [OF this 2(3) [unfolded x prod.case]] 2 x show ?thesis
      by (auto simp: Let_def)
  qed (simp add: Let_def)
qed

definition sample_funding :: "int \<Rightarrow> fund_wallet_request" where
  "sample_funding n = \<lparr>fr_amount = n, fr_payment_ref = ''PSTK-1'', fr_provider = ''paystack''\<rparr>"

lemma funding_credits_once_witness:
  "accounts (attempts (\<lambda>(u, req). FundWalletHandler True u req)
     [(''ada'', sample_funding 10000), (''ada'', sample_funding 10000), (''bola'', sample_funding 10000)]
     sample_world) ''bola'' = accounts sample_world ''bola''"
proof -
  let ?xs = "[(''ada'', sample_funding 10000), (''ada'', sample_funding 10000),
     (''bola'', sample_funding 10000)]"
  let ?s = "attempts (\<lambda>(u, req). FundWalletHandler True u req) ?xs sample_world"
  have ref: "\<forall>(u, req) \<in> set ?xs. fr_payment_ref req = ''PSTK-1''"
    by (simp add: sample_funding_def)
  have ada: "map_option ac_balance (accounts ?s ''ada'') = Some 110000"
    "map_option ac_balance (accounts sample_world ''ada'') = Some 100000"
    by code_simp+
  from funding_credits_once [OF sample_tables_ok ref, of True] ada show ?thesis
    by (auto simp: Let_def)
qed

text \<open>
  A funding request either leaves the wallets and the transaction log as they were or adds
  the credit and its log row together; the row records the balance before and after exactly,
  and a payment reference that had credited somebody credits nobody again.
\<close>

theorem funding_atomic:
  assumes "wallet_tables_ok s"
  shows "case run_state (FundWalletHandler b u req) s of (r, s') \<Rightarrow>
    (accounts s' = accounts s \<and> transactions s' = transactions s) \<or>
    (\<exists>t a. r = Inr t \<and> accounts s u = Some a \<and> \<not> funded_by (fr_payment_ref req) s \<and>
       accounts s' = (accounts s)(u \<mapsto> credit (fr_amount req) a) \<and>
       transactions s' = transactions s @ [t] \<and> t_amount t = fr_amount req \<and> t_user_id t = u \<and>
       t_balance_before t = ac_balance a \<and>
       t_balance_after t = ac_balance (credit (fr_amount req) a))"
proof (cases "run_state (FundWalletHandler b u req) s")
  case (Pair r s')
  show ?thesis
  proof (cases "fund_request_bound req")
    case True
    with Pair have "run_state (FundWallet b u req) s = (r, s')"
      by (simp add: FundWalletHandler_def)
    from FundWallet_cases [OF assms this] True Pair show ?thesis
      by (auto simp: fund_request_bound_def)
  next
    case False
    with Pair show ?thesis by (auto simp: FundWalletHandler_def)
  qed
qed

lemma funding_atomic_witness:
  "length (transactions (snd (run_state (FundWalletHandler True ''ada'' (sample_funding 10000))
     sample_world))) = 2"
proof -
  have "map_option ac_balance (accounts (snd (run_state (FundWalletHandler True ''ada'' (sample_funding 10000))
     sample_world)) ''ada'') \<noteq> map_option ac_balance (accounts sample_world ''ada'')"
    by code_simp
  moreover have "length (transactions sample_world) = 1" by code_simp
  ultimately show ?thesis
    using funding_atomic [OF sample_tables_ok, where b = True and u = "''ada''" and req = "sample_funding 10000"]
    by (auto split: prod.splits)
qed

text \<open>
  Webhook deliveries for one reference that run one after another settle it at most
  once: the accounts are unchanged, or the wallet of the user who initialised the funding is
  credited once with the amount that was recorded then, which the gateway confirmed.
\<close>

theorem webhook_settles_once:
  assumes "wallet_tables_ok s" and "\<forall>(r', x, n) \<in> set xs. r' = r"
  shows "let s' = attempts (\<lambda>(r, x, n). ProcessFundingWebhook b r x n) xs s
    in accounts s' = accounts s \<or>
       (settled_tx s' r \<and> (\<exists>t a. tx_by_ref r s = Some t \<and> t_status t = TxPending \<and>
          accounts s (t_user_id t) = Some a \<and> t_amount t \<in> (\<lambda>(r, x, n). n) ` set xs \<and>
          accounts s' = (accounts s)(t_user_id t \<mapsto> credit (t_amount t) a)))"
proof -
  let ?act = "\<lambda>(r, x, n). ProcessFundingWebhook b r x n"
  let ?s' = "attempts ?act xs s"
  have "\<forall>x \<in> set xs. (case x of (r, x, n) \<Rightarrow> r) = r"
    using assms(2) by auto
  from settlement.attempts_once [OF assms(1) this, of b]
  consider "accounts ?s' = accounts s" |
    ys z zs v s2 where "xs = ys @ z # zs" "accounts (attempts ?act ys s) = accounts s"
      "transactions (attempts ?act ys s) = transactions s"
      "run_state (?act z) (attempts ?act ys s) = (Inr v, s2)"
      "accounts ?s' = accounts s2" "transactions ?s' = transactions s2"
    by auto
  then show ?thesis
  proof cases
    case 2
    obtain x n where z: "z = (r, x, n)" using 2(1) assms(2) by (cases z) auto
    let ?s1 = "attempts ?act ys s"
    have "wallet_tables_ok ?s1"
      using assms(1) by (rule settlement.attempts_inv)
    from ProcessFundingWebhook_cases [OF this 2(4) [unfolded z prod.case]]
    consider "accounts s2 = accounts ?s1" |
      t a where "settled_tx s2 r" "tx_by_ref r ?s1 = Some t" "t_status t = TxPending" "t_amount t = n"
        "accounts ?s1 (t_user_id t) = Some a"
        "accounts s2 = (accounts ?s1)(t_user_id t \<mapsto> credit n a)"
      by blast
    then show ?thesis
    proof cases
      case 1
      with 2 show ?thesis by (simp add: Let_def)
    next
      case new: 2
      have "settled_tx ?s' r" and "tx_by_ref r s = Some t"
        using new(1,2) tx_by_ref_transactions [OF 2(6)] tx_by_ref_transactions [OF 2(3)]
        by (simp_all add: settled_tx_def)
      moreover have "n \<in> (\<lambda>(r, x, n). n) ` set xs"
        using 2(1) z by force
      ultimately show ?thesis
        using new 2 by (auto simp: Let_def)
    qed
  qed (simp add: Let_def)
qed

lemma webhook_settles_once_witness:
  "map_option ac_balance (accounts (attempts (\<lambda>(r, x, n). ProcessFundingWebhook True r x n)
     [(''FUND-INIT-1'', ''FLW-1'', 60000), (''FUND-INIT-1'', ''FLW-1'', 70000),
      (''FUND-INIT-1'', ''FLW-1'', 70000)] sample_world) ''bola'') = Some 90000"
proof -
  let ?xs = "[(''FUND-INIT-1'', ''FLW-1'', 60000), (''FUND-INIT-1'', ''FLW-1'', 70000),
      (''FUND-INIT-1'', ''FLW-1'', 70000)]"
  let ?s = "attempts (\<lambda>(r, x, n). ProcessFundingWebhook True r x n) ?xs sample_world"
  have ref: "\<forall>(r', x, n) \<in> set ?xs. r' = ''FUND-INIT-1''"
    by simp
  have tx: "tx_by_ref ''FUND-INIT-1'' sample_world =
      Some (sample_tx ''t0'' ''bola'' ''wb'' ''FUND-INIT-1'' TxTypeCredit 70000 TxPending)"
    by code_simp
  have "map_option ac_balance (accounts sample_world ''bola'') = Some 20000"
    by code_simp
  moreover have "accounts ?s ''bola'' \<noteq> accounts sample_world ''bola''"
    by code_simp
  ultimately show ?thesis
    using webhook_settles_once [OF sample_tables_ok ref, of True] tx
    by (auto simp: Let_def sample_tx_def)
qed

text \<open>
  Two deliveries at once: \<open>READ COMMITTED\<close> transactions whose \<open>SELECT\<close>s both run before
  either writes. The second writer waits for the first to commit and then goes on.
\<close>

definition racing_webhooks ::
  "bool \<Rightarrow> string \<Rightarrow> string \<Rightarrow> string \<Rightarrow> int \<Rightarrow> unit program" where
  "racing_webhooks has_loyalty reference ext1 ext2 amount =
     or_return (settle_read reference amount) (\<lambda>e. e) (\<lambda>found1.
     or_return (settle_read reference amount) (\<lambda>e. e) (\<lambda>found2.
     case (found1, found2) of
       (Some (t1, w1), Some (t2, w2)) \<Rightarrow>
         or_return (settle_write has_loyalty reference ext1 amount t1 w1) (\<lambda>e. e) (\<lambda>_.
         settle_write has_loyalty reference ext2 amount t2 w2)
     | _ \<Rightarrow> fail (ErrMsg ''not racing'')))"

text \<open>
  C13. The check that a funding is still pending takes no row lock: two concurrent webhook
  deliveries that both read before either writes both succeed, and the wallet is credited
  twice for one payment.
\<close>

theorem webhook_race_credits_twice:
  assumes "wallet_tables_ok s" and "succeeded (fst (run_state (racing_webhooks b r x1 x2 n) s))"
  shows "\<exists>t a. tx_by_ref r s = Some t \<and> t_status t = TxPending \<and> t_amount t = n \<and>
    accounts s (t_user_id t) = Some a \<and>
    accounts (snd (run_state (racing_webhooks b r x1 x2 n) s)) =
      (accounts s)(t_user_id t \<mapsto> credit n (credit n a))"
proof -
  obtain s4 where run: "run_state (racing_webhooks b r x1 x2 n) s = (Inr (), s4)"
    using assms(2) by (cases "run_state (racing_webhooks b r x1 x2 n) s")
      (auto simp: succeeded_def split: sum.splits)
  then obtain f1 f2 s1 s2 where r1: "run_state (settle_read r n) s = (Inr f1, s1)"
    and r2: "run_state (settle_read r n) s1 = (Inr f2, s2)"
    and rest: "run_state (case (f1, f2) of (Some (t1, w1), Some (t2, w2)) \<Rightarrow>
         or_return (settle_write b r x1 n t1 w1) (\<lambda>e. e) (\<lambda>_. settle_write b r x2 n t2 w2)
       | _ \<Rightarrow> fail (ErrMsg ''not racing'')) s2 = (Inr (), s4)"
    unfolding racing_webhooks_def by (elim or_return_success) blast
  then obtain t1 w1 t2 w2 where f: "f1 = Some (t1, w1)" "f2 = Some (t2, w2)"
    by (auto split: option.splits prod.splits)
  from settle_read_success [OF r1] f have s1: "s1 = step (step s)" and t1: "tx_by_ref r s = Some t1"
    "t_status t1 = TxPending" "t_amount t1 = n" "wallet_of (t_user_id t1) s = Some w1" by simp_all
  from settle_read_success [OF r2] f s1 have s2: "s2 = step (step s1)" and t2: "t2 = t1" "w2 = w1"
    using t1 by auto
  let ?a = "account_of w1" and ?u = "t_user_id t1"
  have ok2: "wallet_tables_ok s2" and a2: "accounts s2 = accounts s" and x2: "tx_by_ref r s2 = Some t1"
    using assms(1) t1 by (simp_all add: s1 s2 on_tables_step)
  have a: "accounts s ?u = Some ?a" using t1 by (simp add: accounts_def)
  from rest f t2 obtain v s3 where w: "run_state (settle_write b r x1 n t1 w1) s2 = (Inr v, s3)"
    and w': "run_state (settle_write b r x2 n t1 w1) s3 = (Inr (), s4)"
    by (auto elim: or_return_success)
  have a2u: "accounts s2 ?u = Some ?a" using a a2 by simp
  note one = settle_write_success [OF ok2 a2u _ x2 w]
  then obtain t' where t': "tx_by_ref r s3 = Some t'" by auto
  have ok3: "wallet_tables_ok s3" using keeps_ok_settle_write w ok2 by (rule keeps_run)
  have "accounts s3 ?u = Some (credit n ?a)" using one(1) by simp
  from settle_write_success(1) [OF ok3 this _ t' w'] one(1) a2
  have "accounts s4 = (accounts s)(?u \<mapsto> credit n (credit n ?a))" by simp
  with t1 a run show ?thesis by auto
qed

lemma webhook_race_credits_twice_witness:
  "map_option ac_balance (accounts (snd (run_state
     (racing_webhooks True ''FUND-INIT-1'' ''FLW-1'' ''FLW-1'' 70000) sample_world)) ''bola'')
   = Some 160000"
proof -
  have "succeeded (fst (run_state (racing_webhooks True ''FUND-INIT-1'' ''FLW-1'' ''FLW-1'' 70000)
      sample_world))"
    by code_simp
  moreover have "tx_by_ref ''FUND-INIT-1'' sample_world =
      Some (sample_tx ''t0'' ''bola'' ''wb'' ''FUND-INIT-1'' TxTypeCredit 70000 TxPending)"
    "map_option ac_balance (accounts sample_world ''bola'') = Some 20000"
    by code_simp+
  ultimately show ?thesis
    using webhook_race_credits_twice [OF sample_tables_ok,
      where b = True and r = "''FUND-INIT-1''" and ?x1.0 = "''FLW-1''" and ?x2.0 = "''FLW-1''" and n = 70000]
    by (auto simp: sample_tx_def)
qed

section \<open>Pages\<close>

lemma concat_pages:
  "concat (map (\<lambda>p. take l (drop (p * l) xs)) [0..<m]) = take (m * l) xs"
proof (induction m)
  case (Suc m)
  have "take (Suc m * l) xs = take (m * l) xs @ take l (drop (m * l) xs)"
    by (metis add.commute mult_Suc take_add)
  with Suc show ?case by simp
qed simp

lemma upto_from_1: "[1..int k] = map (\<lambda>i. int i + 1) [0..<k]"
proof (induction k)
  case (Suc k)
  then show ?case using upto_rec2 [of 1 "int (Suc k)"] by simp
qed simp

lemma run_ListTransactions:
  assumes "reliable s" and "0 \<le> l" and "0 \<le> off"
  shows "run_state (ListTransactions u l off) s =
    (Inr (page_of t_created_at l off (filter (\<lambda>t. t_user_id t = u) (transactions s)),
          int (length (filter (\<lambda>t. t_user_id t = u) (transactions s)))), step (step s))"
  using assms by (simp add: ListTransactions_def run_or_return run_query_all)

definition page_txs :: "string \<Rightarrow> int \<Rightarrow> world \<Rightarrow> int \<Rightarrow> transaction list" where
  "page_txs u limit s page =
     (case fst (run_state (GetTransactions u page limit) s) of
        Inr r \<Rightarrow> tl_transactions r | Inl e \<Rightarrow> [])"

definition total_pages :: "string \<Rightarrow> int \<Rightarrow> world \<Rightarrow> int" where
  "total_pages u limit s =
     (case fst (run_state (GetTransactions u 1 limit) s) of
        Inr r \<Rightarrow> tl_total_pages r | Inl e \<Rightarrow> 0)"

text \<open>
  C11. Reading the pages 1 to \<open>total_pages\<close> of a user's history one after another gives each of
  the user's transactions exactly once, newest first, and nothing else.
\<close>

theorem pages_partition_history:
  assumes "reliable s" and "1 \<le> l" and "l \<le> 100" and "int (length (transactions s)) < 2 ^ 40"
  shows "concat (map (page_txs u l s) [1..total_pages u l s]) =
    sort_key (\<lambda>t. - t_created_at t) (filter (\<lambda>t. t_user_id t = u) (transactions s))"
proof -
  let ?mine = "filter (\<lambda>t. t_user_id t = u) (transactions s)"
  let ?sorted = "sort_key (\<lambda>t. - t_created_at t) ?mine"
  let ?n = "int (length ?mine)"
  have n: "?n < 2 ^ 40"
    using assms(4) length_filter_le [of "\<lambda>t. t_user_id t = u" "transactions s"] by linarith
  define m where "m = (?n + l - 1) div l"
  have m: "0 \<le> m" "m \<le> ?n + l - 1" "?n \<le> m * l"
  proof -
    show "0 \<le> m" using assms(2) by (simp add: m_def pos_imp_zdiv_nonneg_iff)
    show "m \<le> ?n + l - 1"
      using assms(2) zdiv_mono2 [of "?n + l - 1" 1 l] by (simp add: m_def)
    have "?n + l - 1 = l * m + (?n + l - 1) mod l" by (simp add: m_def)
    moreover have "0 \<le> (?n + l - 1) mod l" "(?n + l - 1) mod l < l" using assms(2) by simp_all
    ultimately show "?n \<le> m * l" by (simp add: mult.commute)
  qed
  have "i64 (i64 (?n + l) - 1) = ?n + l - 1"
    using n assms(2,3) by (simp add: i64_id in_i64_def)
  moreover have "(?n + l - 1) sdiv l = m"
    using assms(2) by (simp add: signed_divide_int_def m_def sgn_if)
  ultimately have total: "total_pages u l s = m"
    using run_ListTransactions [OF assms(1), of l 0 u] assms(2,3)
    unfolding total_pages_def GetTransactions_def Let_def
    by (simp add: run_or_return i64_id in_i64_def)
  have page: "page_txs u l s (int k + 1) = take (nat l) (drop (k * nat l) ?sorted)"
    if "k < nat m" for k
  proof -
    have "int k * l \<le> (2 ^ 40 + 100) * 100"
      using that m n assms(2,3) by (intro mult_mono) auto
    moreover have "0 \<le> int k * l" using assms(2) by simp
    ultimately have off: "i64 (int k * l) = int k * l" "0 \<le> int k * l"
      by (auto intro!: i64_id simp: in_i64_def)
    have "nat (int k * l) = k * nat l"
      by (simp add: nat_mult_distrib)
    with off run_ListTransactions [OF assms(1) _ off(2), of l u] assms(2,3) show ?thesis
      unfolding page_txs_def GetTransactions_def Let_def
      by (simp add: run_or_return page_of_def)
  qed
  have "concat (map (page_txs u l s) [1..m]) =
      concat (map (\<lambda>k. take (nat l) (drop (k * nat l) ?sorted)) [0..<nat m])"
  proof -
    have "map (page_txs u l s) [1..m] = map (\<lambda>k. page_txs u l s (int k + 1)) [0..<nat m]"
      using upto_from_1 [of "nat m"] m(1) by simp
    also have "\<dots> = map (\<lambda>k. take (nat l) (drop (k * nat l) ?sorted)) [0..<nat m]"
      using page by (intro map_cong) auto
    finally show ?thesis by simp
  qed
  also have "\<dots> = take (nat m * nat l) ?sorted" by (rule concat_pages)
  also have "\<dots> = ?sorted"
  proof -
    have "?n \<le> int (nat m * nat l)" using m assms(2) by simp
    then have "length ?mine \<le> nat m * nat l" by (simp only: of_nat_le_iff)
    then show ?thesis by simp
  qed
  finally show ?thesis by (simp add: total)
qed

lemma pages_partition_history_witness:
  "concat (map (page_txs ''bola'' 1 sample_world) [1..total_pages ''bola'' 1 sample_world]) =
     [sample_tx ''t0'' ''bola'' ''wb'' ''FUND-INIT-1'' TxTypeCredit 70000 TxPending]"
proof -
  have "transactions sample_world =
      [sample_tx ''t0'' ''bola'' ''wb'' ''FUND-INIT-1'' TxTypeCredit 70000 TxPending]"
    by (simp add: sample_world_def)
  with pages_partition_history [OF reliable_sample, of 1 "''bola''"] show ?thesis
    by (simp add: sample_tx_def)
qed

end
