(* ===== verification/Reconciliation.thy ===== *)
theory Reconciliation
  imports WalletService
begin

text \<open>
  \<open>internal/services/reconciliation/engine.go\<close>: a payment that was debited is tried with a
  primary aggregator; when that fails the debit is reversed, taken again and tried with a
  fallback. A \<open>BillerCallFn\<close> is a program that returns the external reference and, as
  its second component, what the closure assigned to the variables it captured.
\<close>

section \<open>The engine\<close>

definition reversal_for :: "transaction \<Rightarrow> (world, transaction) state" where
  "reversal_for original = do {
     i \<leftarrow> uuid_new;
     created \<leftarrow> time_now;
     updated \<leftarrow> time_now;
     State_Monad.return \<lparr>t_id = i, t_user_id = t_user_id original, t_wallet_id = t_wallet_id original,
       t_reference = ''REV_'' @ t_reference original, t_external_ref = [],
       t_type = TxTypeReversal, t_category = t_category original, t_amount = t_amount original,
       t_commission = 0, t_fee = 0, t_balance_before = 0, t_balance_after = 0,
       t_status = TxSuccess, t_provider = [],
       t_narration = ''Auto-reversal for failed tx: '' @ t_reference original, t_meta = [],
       t_reversed_tx_id = Some (t_id original), t_created_at = created, t_updated_at = updated\<rparr>
   }"

definition reverseDebit :: "transaction \<Rightarrow> unit program" where
  "reverseDebit original = do {
     reversal \<leftarrow> reversal_for original;
     or_return (ReverseDebitIfNeeded NoTx original reversal) (\<lambda>e. e) (\<lambda>created. ok ())
   }"

definition fallback_tx :: "transaction \<Rightarrow> (world, transaction) state" where
  "fallback_tx t = do {
     i \<leftarrow> uuid_new;
     created \<leftarrow> time_now;
     updated \<leftarrow> time_now;
     State_Monad.return \<lparr>t_id = i, t_user_id = t_user_id t, t_wallet_id = t_wallet_id t,
       t_reference = t_reference t @ ''_FB'', t_external_ref = [], t_type = TxTypeDebit,
       t_category = t_category t, t_amount = t_amount t, t_commission = 0, t_fee = t_fee t,
       t_balance_before = 0, t_balance_after = 0, t_status = TxProcessing,
       t_provider = ''fallback'', t_narration = t_narration t @ '' (fallback attempt)'',
       t_meta = [], t_reversed_tx_id = None, t_created_at = created, t_updated_at = updated\<rparr>
   }"

definition reversal_failed_msg :: goerr where
  "reversal_failed_msg = ErrMsg (''payment failed and reversal also failed '' @ em_dash @ '' support notified'')"

definition refunded_msg :: goerr where
  "refunded_msg = ErrMsg (''payment failed '' @ em_dash @ '' your wallet has been refunded'')"

definition all_failed_msg :: goerr where
  "all_failed_msg = ErrMsg (''payment failed on all aggregators '' @ em_dash @ '' wallet refunded'')"

text \<open>The part after the first reversal: debit again and try the fallback aggregator.\<close>

definition try_fallback :: "transaction \<Rightarrow> (string \<times> 'x) program \<Rightarrow> (string \<times> 'x) program" where
  "try_fallback t fallbackCall = do {
     fb \<leftarrow> fallback_tx t;
     or_return (DebitWithLock NoTx (t_user_id t) (t_amount t)) (Wrap ''fallback re-debit failed'') (\<lambda>_. do {
       _ \<leftarrow> InsertTransaction fb;
       r \<leftarrow> fallbackCall;
       case r of
         Inl _ \<Rightarrow> do {
           _ \<leftarrow> reverseDebit fb;
           fail all_failed_msg
         }
       | Inr (extRef, x) \<Rightarrow> do {
           _ \<leftarrow> UpdateTransactionStatus (t_reference fb) TxSuccess extRef;
           ok (extRef, x)
         }
     })
   }"

definition ExecuteWithFallback ::
  "transaction \<Rightarrow> (string \<times> 'x) program \<Rightarrow> (string \<times> 'x) program option \<Rightarrow> (string \<times> 'x) program" where
  "ExecuteWithFallback t primaryCall fallbackCall = do {
     r \<leftarrow> primaryCall;
     case r of
       Inr (extRef, x) \<Rightarrow> do {
         _ \<leftarrow> UpdateTransactionStatus (t_reference t) TxSuccess extRef;
         ok (extRef, x)
       }
     | Inl _ \<Rightarrow> do {
         reversed \<leftarrow> reverseDebit t;
         case reversed of
           Inl _ \<Rightarrow> fail reversal_failed_msg
         | Inr _ \<Rightarrow>
             (case fallbackCall of
                None \<Rightarrow> fail refunded_msg
              | Some f \<Rightarrow> try_fallback t f)
       }
   }"

section \<open>The schema is kept\<close>

lemma keeps_engine_rows [keeps_intros]:
  "on_tables P \<Longrightarrow> keeps P (reversal_for t)" "on_tables P \<Longrightarrow> keeps P (fallback_tx t)"
  by (auto simp: reversal_for_def fallback_tx_def intro!: keeps_intros)

lemma keeps_ok_reverseDebit [keeps_intros]: "keeps wallet_tables_ok (reverseDebit t)"
  unfolding reverseDebit_def by (intro keeps_intros on_tables_wallet_tables_ok)

lemma keeps_ok_try_fallback:
  "keeps wallet_tables_ok f \<Longrightarrow> keeps wallet_tables_ok (try_fallback t f)"
  unfolding try_fallback_def case_prod_unfold
  by (intro keeps_intros on_tables_wallet_tables_ok) simp_all

lemma keeps_ok_ExecuteWithFallback:
  assumes "quiet p" and "\<And>g. f = Some g \<Longrightarrow> quiet g"
  shows "keeps wallet_tables_ok (ExecuteWithFallback t p f)"
proof (cases f)
  case None
  show ?thesis
    unfolding ExecuteWithFallback_def case_prod_unfold None option.case
    by (intro keeps_intros on_tables_wallet_tables_ok keeps_quiet [OF _ assms(1)])
next
  case (Some g)
  show ?thesis
    unfolding ExecuteWithFallback_def case_prod_unfold Some option.case
    by (intro keeps_intros on_tables_wallet_tables_ok keeps_quiet [OF _ assms(1)]
        keeps_ok_try_fallback keeps_quiet [OF _ assms(2) [OF Some]])
qed

section \<open>What a run does to the accounts\<close>

definition refs :: "world \<Rightarrow> string list" where
  "refs s = map t_reference (transactions s)"

lemma refs_simps [simp]:
  "refs (step s) = refs s" "refs (s\<lparr>tick := k\<rparr>) = refs s" "refs (s\<lparr>wallets := w\<rparr>) = refs s"
  by (simp_all add: refs_def)

lemma reversal_row_free: "t_reference r \<notin> set (refs s) \<Longrightarrow> reversal_row o1 r s = None"
  by (auto simp: reversal_row_def refs_def find_None_iff) (metis image_eqI)

lemma run_reversal_for:
  obtains r where "run_state (reversal_for t) s = (r, s\<lparr>tick := tick s + 3\<rparr>)"
    and "t_id r = uuid_at s (tick s)" "t_user_id r = t_user_id t" "t_wallet_id r = t_wallet_id t"
      "t_reference r = ''REV_'' @ t_reference t" "t_external_ref r = []" "t_type r = TxTypeReversal"
      "t_amount r = t_amount t" "t_commission r = 0" "t_fee r = 0" "t_balance_before r = 0"
      "t_balance_after r = 0" "t_provider r = []" "t_reversed_tx_id r = Some (t_id t)"
  by (simp add: reversal_for_def step_def)

lemma run_fallback_tx:
  obtains r where "run_state (fallback_tx t) s = (r, s\<lparr>tick := tick s + 3\<rparr>)"
    and "t_id r = uuid_at s (tick s)" "t_user_id r = t_user_id t" "t_wallet_id r = t_wallet_id t"
      "t_reference r = t_reference t @ ''_FB''" "t_external_ref r = []" "t_type r = TxTypeDebit"
      "t_amount r = t_amount t" "t_commission r = 0" "t_fee r = t_fee t" "t_balance_before r = 0"
      "t_balance_after r = 0" "t_provider r = ''fallback''" "t_reversed_tx_id r = None"
  by (simp add: fallback_tx_def step_def)

lemma reverseDebit_cases:
  assumes ok: "wallet_tables_ok s" and a: "accounts s u = Some a" and w: "t_wallet_id t = ac_wallet a"
    and new: "''REV_'' @ t_reference t \<notin> set (refs s)"
    and run: "run_state (reverseDebit t) s = (res, s')"
  shows "(\<exists>e. res = Inl e \<and> accounts s' = accounts s \<and> refs s' = refs s) \<or>
    (res = Inr () \<and> accounts s' = (accounts s)(u \<mapsto> credit (t_amount t) a) \<and>
     refs s' = refs s @ [''REV_'' @ t_reference t])"
proof -
  let ?s1 = "s\<lparr>tick := tick s + 3\<rparr>"
  obtain r where r: "run_state (reversal_for t) s = (r, ?s1)" and ref: "t_reference r = ''REV_'' @ t_reference t"
    by (rule run_reversal_for)
  from run have "run_state (or_return (ReverseDebitIfNeeded NoTx t r) (\<lambda>e. e) (\<lambda>created. ok ())) ?s1 = (res, s')"
    unfolding reverseDebit_def run_bind_eq [OF r] .
  then show ?thesis
  proof (cases rule: or_return_cases)
    case (returned e)
    from ReverseDebitIfNeeded_error [OF this(1)] returned show ?thesis
      using accounts_wallets [of s' s] by (simp add: refs_def)
  next
    case (continued b s2)
    have ok1: "wallet_tables_ok ?s1" and a1: "accounts ?s1 u = Some a"
      using ok a by simp_all
    have "reversal_row t r ?s1 = None" using new ref by (intro reversal_row_free) simp
    from ReverseDebitIfNeeded_new [OF ok1 a1 w this continued(1)]
    have "accounts s2 = (accounts s)(u \<mapsto> credit (t_amount t) a)"
      and "\<exists>now. transactions s2 = set_rows (\<lambda>x. t_reference x = t_reference t)
         (\<lambda>t. t\<lparr>t_status := TxReversed, t_updated_at := now\<rparr>) (transactions s @ [r])"
      by simp_all
    then show ?thesis
      using continued(2) ref by (auto simp: refs_def map_set_rows)
  qed
qed

lemma wallet_purse_credit_debit:
  "accounts s' = (accounts s)(u \<mapsto> x) \<Longrightarrow>
     wallet_purse s' = (wallet_purse s)(u \<mapsto> (ac_wallet x, ac_balance x))"
  by (simp add: wallet_purse_def fun_eq_iff)

lemma wallet_purse_same: "accounts s u = Some a \<Longrightarrow> wallet_purse s = (wallet_purse s)(u \<mapsto> (ac_wallet a, ac_balance a))"
  by (simp add: wallet_purse_def fun_upd_idem)

lemma quiet_run_simps:
  assumes "quiet m" and "run_state m s = (v, s')"
  shows "accounts s' = accounts s" and "refs s' = refs s" and "wallet_tables_ok s' = wallet_tables_ok s"
    and "transactions s' = transactions s"
proof -
  obtain k where "s' = s\<lparr>tick := tick s + k\<rparr>"
    using assms by (rule quiet_run)
  then show "accounts s' = accounts s" and "refs s' = refs s"
    and "wallet_tables_ok s' = wallet_tables_ok s" and "transactions s' = transactions s"
    by simp_all
qed

lemma try_fallback_cases:
  assumes ok: "wallet_tables_ok s" and a: "accounts s u = Some a"
    and t: "t_user_id t = u" "t_wallet_id t = ac_wallet a" and q: "quiet f"
    and new: "''REV_'' @ t_reference t @ ''_FB'' \<notin> set (refs s)"
    and run: "run_state (try_fallback t f) s = (res, s')"
  shows "if succeeded res then accounts s' = (accounts s)(u \<mapsto> debit (t_amount t) a)
    else accounts s' = accounts s \<or> accounts s' = (accounts s)(u \<mapsto> debit (t_amount t) a) \<or>
         accounts s' = (accounts s)(u \<mapsto> credit (t_amount t) (debit (t_amount t) a))"
proof -
  let ?n = "t_amount t" and ?s1 = "s\<lparr>tick := tick s + 3\<rparr>"
  obtain fb where fb: "run_state (fallback_tx t) s = (fb, ?s1)" "t_reference fb = t_reference t @ ''_FB''"
    "t_wallet_id fb = t_wallet_id t" "t_amount fb = ?n"
    by (rule run_fallback_tx)
  from run have "run_state (or_return (DebitWithLock NoTx u ?n) (Wrap ''fallback re-debit failed'') (\<lambda>_. do {
       _ \<leftarrow> InsertTransaction fb;
       r \<leftarrow> f;
       case r of
         Inl _ \<Rightarrow> do { _ \<leftarrow> reverseDebit fb; fail all_failed_msg }
       | Inr (extRef, x) \<Rightarrow> do {
           _ \<leftarrow> UpdateTransactionStatus (t_reference fb) TxSuccess extRef;
           ok (extRef, x) }
     })) ?s1 = (res, s')"
    unfolding try_fallback_def run_bind_eq [OF fb(1)] t .
  then show ?thesis
  proof (cases rule: or_return_cases)
    case (returned e)
    with DebitWithLock_error [OF this(1)] accounts_wallets [of s' s] show ?thesis by simp
  next
    case (continued w s2)
    have ok1: "wallet_tables_ok ?s1" using ok by simp
    from DebitWithLock_success [OF ok1 continued(1)] a
    have a2: "accounts s2 = (accounts s)(u \<mapsto> debit ?n a)" by auto
    have ok2: "wallet_tables_ok s2" using keeps_ok_DebitWithLock continued(1) ok1 by (rule keeps_run)
    have t2: "refs s2 = refs s"
      using wallet_frameD(1) [OF keeps_run [OF keeps_wallet_frame_DebitWithLock continued(1) refl]]
      by (simp add: refs_def)
    obtain ins s3 where s3: "run_state (InsertTransaction fb) s2 = (ins, s3)"
      by (cases "run_state (InsertTransaction fb) s2")
    obtain r s4 where s4: "run_state f s3 = (r, s4)" by (cases "run_state f s3")
    have a3: "accounts s3 = accounts s2"
      using tx_frameD(1) [OF keeps_run [OF keeps_tx_frame(1) s3 refl]] by (rule accounts_wallets)
    have ok3: "wallet_tables_ok s3" using keeps_ok_InsertTransaction s3 ok2 by (rule keeps_run)
    have t3: "set (refs s3) \<subseteq> insert (t_reference fb) (set (refs s))"
    proof (cases ins)
      case (Inl e)
      with InsertTransaction_error s3 t2 show ?thesis by (auto simp: refs_def)
    next
      case (Inr v)
      with InsertTransaction_success s3 t2 show ?thesis by (auto simp: refs_def)
    qed
    note s4s = quiet_run_simps [OF q s4]
    from continued(2) s3 s4 have rest: "run_state (case r of
         Inl _ \<Rightarrow> do { _ \<leftarrow> reverseDebit fb; fail all_failed_msg }
       | Inr (extRef, x) \<Rightarrow> do {
           _ \<leftarrow> UpdateTransactionStatus (t_reference fb) TxSuccess extRef;
           ok (extRef, x) }) s4 = (res, s')"
      by simp
    show ?thesis
    proof (cases r)
      case (Inr ex)
      obtain x y where ex: "ex = (x, y)" by (cases ex)
      obtain up s5 where "run_state (UpdateTransactionStatus (t_reference fb) TxSuccess x) s4 = (up, s5)"
        by (cases "run_state (UpdateTransactionStatus (t_reference fb) TxSuccess x) s4")
      with rest Inr ex tx_frameD(1) [OF keeps_run [OF keeps_tx_frame(2) this refl]]
      show ?thesis using accounts_wallets [of s5 s4] s4s a2 a3 by auto
    next
      case (Inl e)
      obtain up s5 where s5: "run_state (reverseDebit fb) s4 = (up, s5)"
        by (cases "run_state (reverseDebit fb) s4")
      have "accounts s4 u = Some (debit ?n a)" "wallet_tables_ok s4"
        "t_wallet_id fb = ac_wallet (debit ?n a)" "''REV_'' @ t_reference fb \<notin> set (refs s4)"
        using s4s a2 a3 ok3 t(2) fb t3 new by auto
      from reverseDebit_cases [OF this(2,1,3,4) s5] rest Inl s5 a2 a3 s4s fb show ?thesis
        by auto
    qed
  qed
qed

lemma engine_accounts:
  assumes "wallet_tables_ok s" and "accounts s u = Some a" and "t_user_id t = u"
    and "t_wallet_id t = ac_wallet a" and "quiet p" and "\<forall>g. f = Some g \<longrightarrow> quiet g"
    and "''REV_'' @ t_reference t \<notin> set (refs s)"
    and "''REV_'' @ t_reference t @ ''_FB'' \<notin> set (refs s)"
    and run: "run_state (ExecuteWithFallback t p f) s = (res, s')"
  shows "(accounts s' = accounts s \<or> accounts s' = (accounts s)(u \<mapsto> debit (t_amount t) (credit (t_amount t) a))) \<or>
    (\<not> succeeded res \<and> (accounts s' = (accounts s)(u \<mapsto> credit (t_amount t) a) \<or>
       accounts s' = (accounts s)(u \<mapsto> credit (t_amount t) (debit (t_amount t) (credit (t_amount t) a)))))"
proof -
  let ?n = "t_amount t"
  obtain r s1 where s1: "run_state p s = (r, s1)" by (cases "run_state p s")
  note q = quiet_run_simps [OF assms(5) s1]
  show ?thesis
  proof (cases r)
    case (Inr ex)
    obtain x y where ex: "ex = (x, y)" by (cases ex)
    obtain up s2 where s2: "run_state (UpdateTransactionStatus (t_reference t) TxSuccess x) s1 = (up, s2)"
      by (cases "run_state (UpdateTransactionStatus (t_reference t) TxSuccess x) s1")
    with run s1 Inr ex have "s' = s2" by (simp add: ExecuteWithFallback_def)
    with tx_frameD(1) [OF keeps_run [OF keeps_tx_frame(2) s2 refl]] accounts_wallets [of s2 s1] q
    show ?thesis by simp
  next
    case (Inl e)
    obtain rv s2 where s2: "run_state (reverseDebit t) s1 = (rv, s2)" by (cases "run_state (reverseDebit t) s1")
    have ok1: "wallet_tables_ok s1" and a1: "accounts s1 u = Some a"
      and new: "''REV_'' @ t_reference t \<notin> set (refs s1)"
      using assms q by auto
    from reverseDebit_cases [OF ok1 a1 assms(4) new s2]
    consider e' where "rv = Inl e'" "accounts s2 = accounts s" |
      "rv = Inr ()" "accounts s2 = (accounts s)(u \<mapsto> credit ?n a)"
        "refs s2 = refs s @ [''REV_'' @ t_reference t]"
      using q by auto
    then show ?thesis
    proof cases
      case 1
      with run s1 s2 Inl show ?thesis by (simp add: ExecuteWithFallback_def)
    next
      case 2
      show ?thesis
      proof (cases f)
        case None
        with run s1 s2 2 Inl have "s' = s2" "\<not> succeeded res"
          by (auto simp: ExecuteWithFallback_def)
        with 2 show ?thesis by simp
      next
        case (Some g)
        with run s1 s2 2 Inl have g: "run_state (try_fallback t g) s2 = (res, s')"
          by (simp add: ExecuteWithFallback_def)
        have "wallet_tables_ok s2" using keeps_ok_reverseDebit s2 ok1 by (rule keeps_run)
        moreover have "accounts s2 u = Some (credit ?n a)" using 2 by simp
        moreover have "t_wallet_id t = ac_wallet (credit ?n a)" using assms(4) by simp
        moreover have "quiet g" using assms(6) Some by simp
        moreover have "''REV_'' @ t_reference t @ ''_FB'' \<notin> set (refs s2)"
          using 2 assms(8) by auto
        ultimately have "if succeeded res then accounts s' = (accounts s2)(u \<mapsto> debit ?n (credit ?n a))
            else accounts s' = accounts s2 \<or> accounts s' = (accounts s2)(u \<mapsto> debit ?n (credit ?n a)) \<or>
              accounts s' = (accounts s2)(u \<mapsto> credit ?n (debit ?n (credit ?n a)))"
          using g assms(3) by (intro try_fallback_cases) simp_all
        with 2 show ?thesis by (auto split: if_splits)
      qed
    qed
  qed
qed

lemma engine_cases:
  assumes "wallet_tables_ok s" and "accounts s u = Some a" and "t_user_id t = u"
    and "t_wallet_id t = ac_wallet a" and "quiet p" and "\<forall>g. f = Some g \<longrightarrow> quiet g"
    and "''REV_'' @ t_reference t \<notin> set (refs s)"
    and "''REV_'' @ t_reference t @ ''_FB'' \<notin> set (refs s)"
    and run: "run_state (ExecuteWithFallback t p f) s = (res, s')"
  shows "wallet_purse s' = wallet_purse s \<or>
    (\<not> succeeded res \<and> wallet_purse s' = (wallet_purse s)(u \<mapsto> (ac_wallet a, ac_balance a + t_amount t)))"
  using engine_accounts [OF assms] wallet_purse_accounts [of s' s] wallet_purse_credit_debit [of s' s u]
    wallet_purse_same [OF assms(2)]
  by auto

text \<open>
  Whatever statements fail, whatever the aggregators answer: a payment whose debit has not
  been reversed yet ends with the wallet as the debit left it or with exactly the debited
  amount back in it, and when the engine reports success the customer has paid exactly once.
\<close>

theorem payment_never_doubled:
  assumes "wallet_tables_ok s" and "accounts s u = Some a" and "t_user_id t = u"
    and "t_wallet_id t = ac_wallet a" and "quiet p" and "\<forall>g. f = Some g \<longrightarrow> quiet g"
    and "''REV_'' @ t_reference t \<notin> set (refs s)"
    and "''REV_'' @ t_reference t @ ''_FB'' \<notin> set (refs s)"
  shows "case run_state (ExecuteWithFallback t p f) s of (res, s') \<Rightarrow>
    wallet_purse s' = wallet_purse s \<or>
    (\<not> succeeded res \<and> wallet_purse s' = (wallet_purse s)(u \<mapsto> (ac_wallet a, ac_balance a + t_amount t)))"
  using engine_cases [OF assms]
  by (cases "run_state (ExecuteWithFallback t p f) s") simp

text \<open>A debited payment of ada, and aggregators that fail or answer.\<close>

definition paid_world :: world where
  "paid_world = sample_world\<lparr>
     wallets := [(sample_wallet ''wa'' ''ada'' 70000)\<lparr>w_daily_spend := 30000\<rparr>, sample_wallet ''wb'' ''bola'' 20000],
     transactions := [sample_tx ''t1'' ''ada'' ''wa'' ''FB-ada-1'' TxTypeDebit 30000 TxProcessing]\<rparr>"

definition paid_tx :: transaction where
  "paid_tx = sample_tx ''t1'' ''ada'' ''wa'' ''FB-ada-1'' TxTypeDebit 30000 TxProcessing"

definition failing_call :: "(string \<times> unit) program" where
  "failing_call = call (\<lambda>_. Inl (ErrMsg ''timeout''))"

definition answering_call :: "(string \<times> unit) program" where
  "answering_call = call (\<lambda>_. Inr (''EXT'', ()))"

lemma quiet_samples [simp]: "quiet failing_call" "quiet answering_call"
  by (simp_all add: failing_call_def answering_call_def)

lemma paid_world_facts:
  "wallet_tables_ok paid_world" "reliable paid_world"
  "accounts paid_world ''ada'' = Some \<lparr>ac_wallet = ''wa'', ac_balance = 70000, ac_spend = 30000, ac_limit = 5000000\<rparr>"
  by code_simp (simp add: reliable_def paid_world_def sample_world_def empty_world_def, code_simp)

lemma paid_tx_simps [simp]:
  "t_id paid_tx = ''t1''" "t_user_id paid_tx = ''ada''" "t_wallet_id paid_tx = ''wa''"
  "t_amount paid_tx = 30000" "t_reference paid_tx = ''FB-ada-1''"
  by (simp_all add: paid_tx_def sample_tx_def)

lemma payment_never_doubled_witness:
  "wallet_purse (snd (run_state (ExecuteWithFallback paid_tx failing_call (Some answering_call)) paid_world))
     = wallet_purse paid_world"
proof -
  let ?a = "\<lparr>ac_wallet = ''wa'', ac_balance = 70000, ac_spend = 30000, ac_limit = 5000000\<rparr>"
  have r: "refs paid_world = [''FB-ada-1'']" by code_simp
  have ok: "succeeded (fst (run_state (ExecuteWithFallback paid_tx failing_call (Some answering_call)) paid_world))"
    by code_simp
  have "case run_state (ExecuteWithFallback paid_tx failing_call (Some answering_call)) paid_world of (res, s') \<Rightarrow>
    wallet_purse s' = wallet_purse paid_world \<or>
    (\<not> succeeded res \<and> wallet_purse s' =
       (wallet_purse paid_world)(''ada'' \<mapsto> (ac_wallet ?a, ac_balance ?a + t_amount paid_tx)))"
    by (rule payment_never_doubled [OF paid_world_facts(1,3)]) (simp_all add: r)
  with ok show ?thesis by (auto split: prod.splits)
qed

text \<open>
  A refund gives the money back but not the daily allowance: whatever the outcome, the
  engine leaves the user's daily spend where the debit put it, or raises it by the amount once
  more when the fallback debited the wallet again.
\<close>

theorem refund_keeps_daily_spend:
  assumes "wallet_tables_ok s" and "accounts s u = Some a" and "t_user_id t = u"
    and "t_wallet_id t = ac_wallet a" and "quiet p" and "\<forall>g. f = Some g \<longrightarrow> quiet g"
    and "''REV_'' @ t_reference t \<notin> set (refs s)"
    and "''REV_'' @ t_reference t @ ''_FB'' \<notin> set (refs s)"
  shows "\<exists>b. accounts (snd (run_state (ExecuteWithFallback t p f) s)) u = Some b \<and>
    (ac_spend b = ac_spend a \<or> ac_spend b = ac_spend a + t_amount t)"
  using engine_accounts [OF assms, of "fst (run_state (ExecuteWithFallback t p f) s)"
      "snd (run_state (ExecuteWithFallback t p f) s)"] assms(2)
  by auto

lemma refund_keeps_daily_spend_witness:
  "map_option (\<lambda>a. (ac_balance a, 30000 \<le> ac_spend a))
     (accounts (snd (run_state (ExecuteWithFallback paid_tx failing_call None) paid_world)) ''ada'')
   = Some (100000, True)"
proof -
  let ?a = "\<lparr>ac_wallet = ''wa'', ac_balance = 70000, ac_spend = 30000, ac_limit = 5000000\<rparr>"
  have r: "refs paid_world = [''FB-ada-1'']" by code_simp
  have "map_option ac_balance (accounts (snd (run_state (ExecuteWithFallback paid_tx failing_call None) paid_world)) ''ada'')
      = Some 100000"
    by code_simp
  moreover have "\<exists>b. accounts (snd (run_state (ExecuteWithFallback paid_tx failing_call None) paid_world)) ''ada'' = Some b \<and>
    (ac_spend b = ac_spend ?a \<or> ac_spend b = ac_spend ?a + t_amount paid_tx)"
    by (rule refund_keeps_daily_spend [OF paid_world_facts(1,3)]) (simp_all add: r)
  ultimately show ?thesis by auto
qed

section \<open>Refunds, when statements do not fail\<close>

definition healthy :: "world \<Rightarrow> bool" where
  "healthy s \<longleftrightarrow> wallet_tables_ok s \<and> reliable s \<and> fresh_uuids s"

lemma insertable_row:
  assumes "wallet_tables_ok s" and "accounts s u = Some a" and "t_user_id r = u"
    and "t_wallet_id r = ac_wallet a" and "tx_row_ok r" and "t_id r \<notin> set (map t_id (transactions s))"
    and "t_reference r \<notin> set (refs s)" and "t_type r \<noteq> TxTypeCredit"
    and "\<forall>i. t_reversed_tx_id r = Some i \<longrightarrow> tx_exists i s"
  shows "insertable r s"
proof -
  obtain w where w: "w \<in> set (wallets s)" "w_user_id w = u" "w_id w = ac_wallet a"
    using assms(2) by (auto elim!: accounts_SomeE dest: wallet_ofD)
  then have "user_exists u s" "wallet_exists (ac_wallet a) s"
    using assms(1) by (auto simp: wallet_tables_ok_def list_all_iff wallet_exists_def)
      (metis image_eqI)
  with assms show ?thesis
    by (auto simp: insertable_def insert_transaction_def wallet_tables_ok_def
        transactions_unique_def indexed_credit_def refs_def split: option.splits)
qed

lemma fresh_after_insert:
  assumes "fresh_uuids s" and "ids = map t_id (transactions s) @ [uuid_at s (tick s)]"
    and "map t_id (transactions s') = ids" and "uuid_at s' = uuid_at s" and "tick s < tick s'"
  shows "fresh_uuids s'"
  using assms unfolding fresh_uuids_def
  by (auto simp: inj_eq)

definition sound_payment :: "transaction \<Rightarrow> bool" where
  "sound_payment t \<longleftrightarrow> 0 < t_amount t \<and> in_i64 (t_amount t) \<and> 0 \<le> t_fee t \<and> in_i64 (t_fee t) \<and>
     length (t_reference t) \<le> 93"

lemma reverseDebit_runs:
  assumes h: "healthy s" and a: "accounts s u = Some a" and t: "t_user_id t = u" "t_wallet_id t = ac_wallet a"
    and ex: "tx_exists (t_id t) s" and new: "''REV_'' @ t_reference t \<notin> set (refs s)"
    and amt: "0 < t_amount t" "in_i64 (t_amount t)" "length (t_reference t) \<le> 96"
    and can: "can_credit (t_amount t) a"
  shows "\<exists>s'. run_state (reverseDebit t) s = (Inr (), s') \<and> healthy s' \<and>
    (\<forall>i. tx_exists i s \<longrightarrow> tx_exists i s')"
proof -
  let ?s1 = "s\<lparr>tick := tick s + 3\<rparr>"
  obtain r where r: "run_state (reversal_for t) s = (r, ?s1)"
    "t_id r = uuid_at s (tick s)" "t_user_id r = t_user_id t" "t_wallet_id r = t_wallet_id t"
    "t_reference r = ''REV_'' @ t_reference t" "t_external_ref r = []" "t_type r = TxTypeReversal"
    "t_amount r = t_amount t" "t_commission r = 0" "t_fee r = 0" "t_balance_before r = 0"
    "t_balance_after r = 0" "t_provider r = []" "t_reversed_tx_id r = Some (t_id t)"
    by (rule run_reversal_for)
  have ok1: "wallet_tables_ok ?s1" and rel1: "reliable ?s1" and a1: "accounts ?s1 u = Some a"
    using h a by (simp_all add: healthy_def)
  have "insertable r ?s1"
  proof (rule insertable_row [OF ok1 a1])
    show "tx_row_ok r" using amt r by (simp add: tx_row_ok_def in_i64_def)
    show "t_id r \<notin> set (map t_id (transactions ?s1))"
      using h r(2) by (auto simp: healthy_def fresh_uuids_def)
    show "\<forall>i. t_reversed_tx_id r = Some i \<longrightarrow> tx_exists i ?s1"
      using ex r by (simp add: tx_exists_def)
  qed (use t r new in simp_all)
  moreover have "reversal_row t r ?s1 = None" using new r by (intro reversal_row_free) simp
  ultimately obtain n1 n2 where run: "run_state (ReverseDebitIfNeeded NoTx t r) ?s1 =
    (Inr True, ?s1\<lparr>tick := tick ?s1 + 6,
       wallets := set_rows (\<lambda>x. w_id x = ac_wallet a) (credit_row (t_amount t) n1) (wallets ?s1),
       transactions := set_rows (\<lambda>x. t_reference x = t_reference t)
         (\<lambda>t. t\<lparr>t_status := TxReversed, t_updated_at := n2\<rparr>) (transactions ?s1 @ [r])\<rparr>)" (is "_ = (_, ?s')")
    using run_ReverseDebitIfNeeded [OF ok1 rel1 a1 t(2) can] by blast
  have run': "run_state (reverseDebit t) s = (Inr (), ?s')"
    unfolding reverseDebit_def run_bind_eq [OF r(1)] run_or_return_Inr [OF run] by simp
  have ok': "wallet_tables_ok ?s'"
    using keeps_ok_reverseDebit run' by (rule keeps_run) (use h in \<open>simp add: healthy_def\<close>)
  have ids: "map t_id (transactions ?s') = map t_id (transactions s) @ [uuid_at s (tick s)]"
    using r(2) by (simp add: map_set_rows)
  have "fresh_uuids ?s'"
    using fresh_after_insert [OF _ refl ids] h by (simp add: healthy_def)
  moreover have "reliable ?s'" using h by (simp add: healthy_def reliable_def)
  moreover have "tx_exists i ?s'" if "tx_exists i s" for i
    using that unfolding tx_exists_def ids by simp
  ultimately show ?thesis using run' ok' unfolding healthy_def by blast
qed

lemma reverseDebit_refunds:
  assumes "healthy s" and "accounts s u = Some a" and "t_user_id t = u" and "t_wallet_id t = ac_wallet a"
    and "tx_exists (t_id t) s" and "''REV_'' @ t_reference t \<notin> set (refs s)"
    and "0 < t_amount t" "in_i64 (t_amount t)" "length (t_reference t) \<le> 96" "can_credit (t_amount t) a"
  obtains s' where "run_state (reverseDebit t) s = (Inr (), s')" and "healthy s'"
    and "accounts s' = (accounts s)(u \<mapsto> credit (t_amount t) a)"
    and "refs s' = refs s @ [''REV_'' @ t_reference t]"
proof -
  obtain s' where s': "run_state (reverseDebit t) s = (Inr (), s')" "healthy s'"
    using reverseDebit_runs [OF assms] by blast
  have "wallet_tables_ok s" using assms(1) by (simp add: healthy_def)
  from reverseDebit_cases [OF this assms(2,4,6) s'(1)] s' that show ?thesis by auto
qed

lemma healthy_quiet: "quiet m \<Longrightarrow> run_state m s = (v, s') \<Longrightarrow> healthy s \<Longrightarrow> healthy s'"
  by (erule (1) quiet_run) (simp add: healthy_def fresh_uuids_later)

lemma try_fallback_refunds:
  assumes h: "healthy s" and a: "accounts s u = Some a" and t: "t_user_id t = u" "t_wallet_id t = ac_wallet a"
    and q: "quiet f" and new: "t_reference t @ ''_FB'' \<notin> set (refs s)"
      "''REV_'' @ t_reference t @ ''_FB'' \<notin> set (refs s)"
    and sound: "sound_payment t"
    and run: "run_state (try_fallback t f) s = (Inl e, s')"
  shows "wallet_purse s' = wallet_purse s"
proof -
  let ?n = "t_amount t" and ?s1 = "s\<lparr>tick := tick s + 3\<rparr>"
  obtain fb where fb: "run_state (fallback_tx t) s = (fb, ?s1)"
    "t_id fb = uuid_at s (tick s)" "t_user_id fb = t_user_id t" "t_wallet_id fb = t_wallet_id t"
    "t_reference fb = t_reference t @ ''_FB''" "t_external_ref fb = []" "t_type fb = TxTypeDebit"
    "t_amount fb = ?n" "t_commission fb = 0" "t_fee fb = t_fee t" "t_balance_before fb = 0"
    "t_balance_after fb = 0" "t_provider fb = ''fallback''" "t_reversed_tx_id fb = None"
    by (rule run_fallback_tx)
  have ok1: "wallet_tables_ok ?s1" "reliable ?s1" "accounts ?s1 u = Some a"
    using h a by (simp_all add: healthy_def)
  have run1: "run_state (or_return (DebitWithLock NoTx u ?n) (Wrap ''fallback re-debit failed'') (\<lambda>_. do {
       _ \<leftarrow> InsertTransaction fb;
       r \<leftarrow> f;
       case r of
         Inl _ \<Rightarrow> do { _ \<leftarrow> reverseDebit fb; fail all_failed_msg }
       | Inr (extRef, x) \<Rightarrow> do {
           _ \<leftarrow> UpdateTransactionStatus (t_reference fb) TxSuccess extRef;
           ok (extRef, x) }
     })) ?s1 = (Inl e, s')"
    using run unfolding try_fallback_def run_bind_eq [OF fb(1)] t .
  show ?thesis
  proof (cases "can_debit ?n a")
    case False
    with DebitWithLock_success [OF ok1(1), of NoTx u ?n] ok1(3) run1
    have "\<exists>e s2. run_state (DebitWithLock NoTx u ?n) ?s1 = (Inl e, s2) \<and> s' = s2"
      by (auto simp: run_or_return split: prod.splits sum.splits)
    with DebitWithLock_error [of NoTx u ?n ?s1] accounts_wallets [of s' s] show ?thesis
      by (auto intro: wallet_purse_accounts)
  next
    case True
    obtain w now where debit: "run_state (DebitWithLock NoTx u ?n) ?s1 = (Inr w, ?s1\<lparr>tick := tick ?s1 + 4,
       wallets := set_rows (\<lambda>x. w_id x = ac_wallet a) (debit_row ?n now) (wallets ?s1)\<rparr>)" (is "_ = (_, ?s2)")
      using run_DebitWithLock [OF ok1 True] by blast
    have ok2: "wallet_tables_ok ?s2" using keeps_ok_DebitWithLock debit ok1(1) by (rule keeps_run)
    have a2: "accounts ?s2 = (accounts s)(u \<mapsto> debit ?n a)"
      using DebitWithLock_success [OF ok1(1) debit] a by auto
    have ins: "insertable fb ?s2"
    proof (rule insertable_row [OF ok2])
      show "accounts ?s2 u = Some (debit ?n a)" using a2 by simp
      show "tx_row_ok fb" using sound fb by (simp add: sound_payment_def tx_row_ok_def in_i64_def)
      show "t_id fb \<notin> set (map t_id (transactions ?s2))"
        using h fb(2) by (auto simp: healthy_def fresh_uuids_def)
    qed (use t fb new in \<open>simp_all add: refs_def\<close>)
    have rel2: "reliable ?s2" using h by (simp add: healthy_def reliable_def)
    define s3 where "s3 = ?s2\<lparr>tick := tick ?s2 + 1, transactions := transactions ?s2 @ [fb]\<rparr>"
    have s3: "run_state (InsertTransaction fb) ?s2 = (Inr (), s3)"
      unfolding s3_def by (rule run_InsertTransaction [OF rel2 ins])
    have "fresh_uuids s3"
      using h fb(2) by (intro fresh_after_insert [of s _ s3]) (simp_all add: s3_def healthy_def)
    moreover have "wallet_tables_ok s3" using keeps_ok_InsertTransaction s3 ok2 by (rule keeps_run)
    moreover have "reliable s3" using rel2 by (simp add: s3_def reliable_def)
    ultimately have h3: "healthy s3" by (simp add: healthy_def)
    have a3: "accounts s3 = (accounts s)(u \<mapsto> debit ?n a)"
      using a2 accounts_wallets [of s3 ?s2] by (simp add: s3_def)
    obtain r s4 where s4: "run_state f s3 = (r, s4)" by (cases "run_state f s3")
    note q4 = quiet_run_simps [OF q s4]
    from run1 debit s3 s4 have rest: "run_state (case r of
         Inl _ \<Rightarrow> do { _ \<leftarrow> reverseDebit fb; fail all_failed_msg }
       | Inr (extRef, x) \<Rightarrow> do {
           _ \<leftarrow> UpdateTransactionStatus (t_reference fb) TxSuccess extRef;
           ok (extRef, x) }) s4 = (Inl e, s')"
      by (simp add: run_or_return)
    then obtain e' where r: "r = Inl e'"
      by (cases r) (auto split: prod.splits)
    obtain s5 where s5: "run_state (reverseDebit fb) s4 = (Inr (), s5)"
      "accounts s5 = (accounts s4)(u \<mapsto> credit (t_amount fb) (debit ?n a))"
    proof (rule reverseDebit_refunds [of s4 u "debit ?n a" fb])
      show "healthy s4" using q s4 h3 by (rule healthy_quiet)
      show "tx_exists (t_id fb) s4" using q4 by (simp add: tx_exists_def s3_def)
      show "''REV_'' @ t_reference fb \<notin> set (refs s4)"
        using q4 new fb(5) by (simp add: s3_def refs_def)
      show "can_credit (t_amount fb) (debit ?n a)"
        using fb accounts_row_ok [OF _ a] h by (simp add: can_credit_def healthy_def)
    qed (use q4 a3 t fb sound in \<open>auto simp: sound_payment_def\<close>)
    from rest r s5 have "s' = s5" by simp
    with s5 q4 a3 fb have "accounts s' = (accounts s)(u \<mapsto> credit ?n (debit ?n a))" by simp
    from wallet_purse_credit_debit [OF this] wallet_purse_same [OF a] show ?thesis by simp
  qed
qed

lemma engine_refunds:
  assumes "healthy s" and "accounts s u = Some a" and "t_user_id t = u"
    and "t_wallet_id t = ac_wallet a" and "quiet p" and "\<forall>g. f = Some g \<longrightarrow> quiet g"
    and "tx_exists (t_id t) s" and "sound_payment t" and "can_credit (t_amount t) a"
    and "''REV_'' @ t_reference t \<notin> set (refs s)" and "t_reference t @ ''_FB'' \<notin> set (refs s)"
    and "''REV_'' @ t_reference t @ ''_FB'' \<notin> set (refs s)"
    and run: "run_state (ExecuteWithFallback t p f) s = (res, s')"
  shows "wallet_purse s' = (if succeeded res then wallet_purse s
      else (wallet_purse s)(u \<mapsto> (ac_wallet a, ac_balance a + t_amount t)))"
proof -
  let ?n = "t_amount t"
  obtain r s1 where s1: "run_state p s = (r, s1)" by (cases "run_state p s")
  note q = quiet_run_simps [OF assms(5) s1]
  have h1: "healthy s1" using assms(5) s1 assms(1) by (rule healthy_quiet)
  show ?thesis
  proof (cases r)
    case (Inr ex)
    obtain x y where ex: "ex = (x, y)" by (cases ex)
    obtain up s2 where s2: "run_state (UpdateTransactionStatus (t_reference t) TxSuccess x) s1 = (up, s2)"
      by (cases "run_state (UpdateTransactionStatus (t_reference t) TxSuccess x) s1")
    with run s1 Inr ex have "s' = s2" "res = Inr (x, y)" by (auto simp: ExecuteWithFallback_def)
    with tx_frameD(1) [OF keeps_run [OF keeps_tx_frame(2) s2 refl]] accounts_wallets [of s2 s1] q run
    show ?thesis by (auto intro: wallet_purse_accounts)
  next
    case (Inl e)
    obtain s2 where s2: "run_state (reverseDebit t) s1 = (Inr (), s2)" "healthy s2"
      "accounts s2 = (accounts s1)(u \<mapsto> credit ?n a)" "refs s2 = refs s1 @ [''REV_'' @ t_reference t]"
    proof (rule reverseDebit_refunds [OF h1, of u a t])
      show "tx_exists (t_id t) s1" using assms(7) q(4) by (simp add: tx_exists_def)
      show "0 < t_amount t" "in_i64 (t_amount t)" "length (t_reference t) \<le> 96"
        using assms(8) by (simp_all add: sound_payment_def)
      show "''REV_'' @ t_reference t \<notin> set (refs s1)" using assms(10) q(2) by simp
    qed (simp_all add: assms(2-4,9) q)
    have p2: "wallet_purse s2 = (wallet_purse s)(u \<mapsto> (ac_wallet a, ac_balance a + ?n))"
      using s2(3) q(1) wallet_purse_credit_debit [of s2 s u "credit ?n a"] by simp
    show ?thesis
    proof (cases f)
      case None
      with run s1 s2 Inl have "s' = s2" "\<not> succeeded res" by (auto simp: ExecuteWithFallback_def)
      with run p2 show ?thesis by simp
    next
      case (Some g)
      with run s1 s2 Inl have g: "run_state (try_fallback t g) s2 = (res, s')"
        by (simp add: ExecuteWithFallback_def)
      have pre: "wallet_tables_ok s2" "accounts s2 u = Some (credit ?n a)"
        "t_wallet_id t = ac_wallet (credit ?n a)" "quiet g"
        "''REV_'' @ t_reference t @ ''_FB'' \<notin> set (refs s2)"
        "t_reference t @ ''_FB'' \<notin> set (refs s2)"
        using assms s2 q Some by (auto simp: healthy_def)
      show ?thesis
      proof (cases res)
        case (Inr v)
        from try_fallback_cases [OF pre(1,2) assms(3) pre(3-5) g] Inr
        have "accounts s' = (accounts s2)(u \<mapsto> debit ?n (credit ?n a))" by simp
        then have "accounts s' = (accounts s)(u \<mapsto> debit ?n (credit ?n a))" using s2(3) q(1) by simp
        from wallet_purse_credit_debit [OF this] wallet_purse_same [OF assms(2)] Inr run
        show ?thesis by simp
      next
        case (Inl e')
        from try_fallback_refunds [OF s2(2) pre(2) assms(3) pre(3,4,6,5) assms(8) g [unfolded Inl]] p2 run Inl
        show ?thesis by simp
      qed
    qed
  qed
qed

text \<open>
  When no statement fails, a failed payment is always refunded in full: if the engine reports an
  error the debited amount is back in the wallet, whether there is a fallback, whether it could
  be debited again and whether it answered.
\<close>

theorem failed_payment_refunded:
  assumes "healthy s" and "accounts s u = Some a" and "t_user_id t = u"
    and "t_wallet_id t = ac_wallet a" and "quiet p" and "\<forall>g. f = Some g \<longrightarrow> quiet g"
    and "tx_exists (t_id t) s" and "sound_payment t" and "can_credit (t_amount t) a"
    and "''REV_'' @ t_reference t \<notin> set (refs s)" and "t_reference t @ ''_FB'' \<notin> set (refs s)"
    and "''REV_'' @ t_reference t @ ''_FB'' \<notin> set (refs s)"
  shows "case run_state (ExecuteWithFallback t p f) s of (res, s') \<Rightarrow>
    wallet_purse s' = (if succeeded res then wallet_purse s
      else (wallet_purse s)(u \<mapsto> (ac_wallet a, ac_balance a + t_amount t)))"
  using engine_refunds [OF assms]
  by (cases "run_state (ExecuteWithFallback t p f) s") simp

lemma paid_world_healthy: "healthy paid_world"
proof -
  have "inj (uuid_at paid_world)"
    by (auto simp: inj_def paid_world_def sample_world_def empty_world_def show_int_def
        dest: show_dec_inj [OF of_nat_0_le_iff of_nat_0_le_iff])
  moreover have "transactions paid_world = [paid_tx]" "uuid_at paid_world n = ''uuid-'' @ show_int (int n)" for n
    by (simp_all add: paid_world_def paid_tx_def sample_world_def empty_world_def)
  ultimately show ?thesis
    using paid_world_facts(1,2) by (auto simp: healthy_def fresh_uuids_def)
qed

lemma failed_payment_refunded_witness:
  "wallet_purse (snd (run_state (ExecuteWithFallback paid_tx failing_call (Some failing_call)) paid_world)) ''ada''
     = Some (''wa'', 100000)"
proof -
  let ?a = "\<lparr>ac_wallet = ''wa'', ac_balance = 70000, ac_spend = 30000, ac_limit = 5000000\<rparr>"
  have r: "refs paid_world = [''FB-ada-1'']" by code_simp
  have no: "\<not> succeeded (fst (run_state (ExecuteWithFallback paid_tx failing_call (Some failing_call)) paid_world))"
    by code_simp
  have "transactions paid_world = [paid_tx]" by (simp add: paid_world_def paid_tx_def)
  then have ex: "tx_exists (t_id paid_tx) paid_world" by (simp add: tx_exists_def)
  have sound: "sound_payment paid_tx" "can_credit (t_amount paid_tx) ?a" by code_simp+
  have "case run_state (ExecuteWithFallback paid_tx failing_call (Some failing_call)) paid_world of (res, s') \<Rightarrow>
    wallet_purse s' = (if succeeded res then wallet_purse paid_world
      else (wallet_purse paid_world)(''ada'' \<mapsto> (ac_wallet ?a, ac_balance ?a + t_amount paid_tx)))"
    by (rule failed_payment_refunded [OF paid_world_healthy paid_world_facts(3) _ _ _ _ ex sound])
      (simp_all add: r)
  with no show ?thesis by (auto split: prod.splits)
qed

section \<open>A refund that is announced and not made\<close>

lemma ReverseDebitIfNeeded_refused:
  assumes "reliable s" and "reversal_row o1 r s = None" and "\<not> insertable r s"
  shows "\<exists>e s'. run_state (ReverseDebitIfNeeded NoTx o1 r) s = (Inl e, s')"
proof -
  have "\<not> insertable r (step (step s))" using assms(3) by simp
  then obtain e where "run_state (InsertTransaction r) (step (step s)) = (Inl e, step (step (step s)))"
    using InsertTransaction_refused by blast
  then show ?thesis
    using assms(1,2)
    by (simp add: ReverseDebitIfNeeded_def local_tx_def run_begin_tx run_query_row run_or_return)
qed

text \<open>
  The fallback attempt is stored under the reference with \<open>_FB\<close> appended and the result of
  that insert is ignored. When that reference is already taken (a client may have used it)
  and both aggregators fail, the second debit is never reversed: the engine says the wallet
  was refunded although the money is gone, with no statement having failed for lack of a database.
\<close>

theorem taken_fallback_reference_loses_refund:
  assumes "healthy s" and "accounts s u = Some a" and "t_user_id t = u"
    and "t_wallet_id t = ac_wallet a" and "tx_exists (t_id t) s" and "sound_payment t"
    and "can_credit (t_amount t) a" and "can_debit (t_amount t) (credit (t_amount t) a)"
    and "''REV_'' @ t_reference t \<notin> set (refs s)" and "''REV_'' @ t_reference t @ ''_FB'' \<notin> set (refs s)"
    and "t_reference t @ ''_FB'' \<in> set (refs s)"
    and "quiet p" and "quiet g" and "\<forall>s. \<not> succeeded (fst (run_state p s))"
    and "\<forall>s. \<not> succeeded (fst (run_state g s))"
  shows "case run_state (ExecuteWithFallback t p (Some g)) s of (res, s') \<Rightarrow>
    res = Inl all_failed_msg \<and> wallet_purse s' = wallet_purse s"
proof -
  let ?n = "t_amount t" and ?c = "credit (t_amount t) a"
  obtain res s' where run: "run_state (ExecuteWithFallback t p (Some g)) s = (res, s')"
    by (cases "run_state (ExecuteWithFallback t p (Some g)) s")
  obtain e s1 where s1: "run_state p s = (Inl e, s1)"
    using assms(14) by (metis prod.collapse succeeded_simps(1) sum.exhaust)
  note q = quiet_run_simps [OF assms(12) s1]
  have h1: "healthy s1" using assms(12) s1 assms(1) by (rule healthy_quiet)
  obtain s2 where s2: "run_state (reverseDebit t) s1 = (Inr (), s2)" "healthy s2"
    "accounts s2 = (accounts s1)(u \<mapsto> ?c)" "refs s2 = refs s1 @ [''REV_'' @ t_reference t]"
  proof (rule reverseDebit_refunds [OF h1, of u a t])
    show "tx_exists (t_id t) s1" using assms(5) q(4) by (simp add: tx_exists_def)
    show "0 < t_amount t" "in_i64 (t_amount t)" "length (t_reference t) \<le> 96"
      using assms(6) by (simp_all add: sound_payment_def)
    show "''REV_'' @ t_reference t \<notin> set (refs s1)" using assms(9) q(2) by simp
  qed (simp_all add: assms(2-4,7) q)
  let ?s3 = "s2\<lparr>tick := tick s2 + 3\<rparr>"
  obtain fb where fb: "run_state (fallback_tx t) s2 = (fb, ?s3)" "t_id fb = uuid_at s2 (tick s2)"
    "t_user_id fb = t_user_id t" "t_wallet_id fb = t_wallet_id t"
    "t_reference fb = t_reference t @ ''_FB''" "t_amount fb = ?n"
    by (rule run_fallback_tx)
  have ok3: "wallet_tables_ok ?s3" "reliable ?s3" "accounts ?s3 u = Some ?c"
    using s2 by (simp_all add: healthy_def)
  obtain w now where debit: "run_state (DebitWithLock NoTx u ?n) ?s3 = (Inr w, ?s3\<lparr>tick := tick ?s3 + 4,
     wallets := set_rows (\<lambda>x. w_id x = ac_wallet ?c) (debit_row ?n now) (wallets ?s3)\<rparr>)" (is "_ = (_, ?s4)")
    using run_DebitWithLock [OF ok3 assms(8)] by blast
  have ok4: "wallet_tables_ok ?s4" using keeps_ok_DebitWithLock debit ok3(1) by (rule keeps_run)
  have a4: "accounts ?s4 = (accounts s)(u \<mapsto> debit ?n ?c)"
    using DebitWithLock_success [OF ok3(1) debit] s2(3) q(1) by auto
  have "\<not> insertable fb ?s4"
    using assms(11) q(2) s2(4) fb(5)
    by (auto simp: insertable_def insert_transaction_def transactions_unique_def refs_def)
  then obtain e2 where s5: "run_state (InsertTransaction fb) ?s4 = (Inl e2, ?s4\<lparr>tick := tick ?s4 + 1\<rparr>)"
    (is "_ = (_, ?s5)") by (rule run_InsertTransaction_refused)
  obtain e3 s6 where s6: "run_state g ?s5 = (Inl e3, s6)"
    using assms(15) by (metis prod.collapse succeeded_simps(1) sum.exhaust)
  note q6 = quiet_run_simps [OF assms(13) s6]
  have "wallet_tables_ok ?s5" using keeps_ok_InsertTransaction s5 ok4 by (rule keeps_run)
  moreover have "reliable ?s5" "fresh_uuids ?s5"
    using s2(2) by (simp_all add: healthy_def reliable_def fresh_uuids_def)
  ultimately have "healthy ?s5" unfolding healthy_def by blast
  with assms(13) s6 have h6: "healthy s6" by (rule healthy_quiet)
  obtain r where r: "run_state (reversal_for fb) s6 = (r, s6\<lparr>tick := tick s6 + 3\<rparr>)" (is "_ = (_, ?s7)")
    "t_reference r = ''REV_'' @ t_reference fb" "t_reversed_tx_id r = Some (t_id fb)"
    by (rule run_reversal_for)
  have "\<not> tx_exists (t_id fb) ?s7"
    using q6(4) s2(2) fb(2) by (simp add: tx_exists_def healthy_def fresh_uuids_def)
  then have "\<not> insertable r ?s7"
    using r(3) by (simp add: insertable_def insert_transaction_def)
  moreover have "reversal_row fb r ?s7 = None"
    using q6(2) r(2) fb(5) assms(10) s2(4) q(2) by (intro reversal_row_free) simp
  moreover have "reliable ?s7" using h6 by (simp add: healthy_def)
  ultimately obtain e4 s8 where s8: "run_state (ReverseDebitIfNeeded NoTx fb r) ?s7 = (Inl e4, s8)"
    using ReverseDebitIfNeeded_refused by blast
  have s8': "run_state (reverseDebit fb) s6 = (Inl e4, s8)"
    unfolding reverseDebit_def run_bind_eq [OF r(1)] run_or_return_Inl [OF s8] ..
  have "res = Inl all_failed_msg \<and> s' = s8"
    using run s1 s2(1) fb(1) debit s5 s6 s8' assms(3)
    by (simp add: ExecuteWithFallback_def try_fallback_def run_or_return)
  moreover have "accounts s8 = accounts s6"
    using ReverseDebitIfNeeded_error [OF s8] accounts_wallets [of s8 s6] by simp
  moreover have "accounts s6 = (accounts s)(u \<mapsto> debit ?n ?c)"
    by (rule trans [OF q6(1) trans [OF accounts_wallets a4]]) simp
  ultimately have "res = Inl all_failed_msg" "accounts s' = (accounts s)(u \<mapsto> debit ?n ?c)"
    by simp_all
  with wallet_purse_credit_debit [OF this(2)] wallet_purse_same [OF assms(2)] run show ?thesis
    by simp
qed

definition taken_world :: world where
  "taken_world = paid_world\<lparr>transactions := [paid_tx,
     sample_tx ''t2'' ''ada'' ''wa'' ''FB-ada-1_FB'' TxTypeDebit 500 TxSuccess]\<rparr>"

lemma taken_world_facts:
  "healthy taken_world"
  "accounts taken_world ''ada'' = Some \<lparr>ac_wallet = ''wa'', ac_balance = 70000, ac_spend = 30000, ac_limit = 5000000\<rparr>"
proof -
  have "wallet_tables_ok taken_world" by code_simp
  moreover have "reliable taken_world" using paid_world_facts(2)
    by (simp add: taken_world_def reliable_def)
  moreover have "fresh_uuids taken_world"
    using paid_world_healthy
    by (simp add: healthy_def fresh_uuids_def taken_world_def paid_world_def sample_world_def
        empty_world_def sample_tx_def)
  ultimately show "healthy taken_world" by (simp add: healthy_def)
  show "accounts taken_world ''ada'' = Some \<lparr>ac_wallet = ''wa'', ac_balance = 70000, ac_spend = 30000,
      ac_limit = 5000000\<rparr>"
    by code_simp
qed

lemma taken_fallback_reference_loses_refund_witness:
  "fst (run_state (ExecuteWithFallback paid_tx failing_call (Some failing_call)) taken_world) = Inl all_failed_msg \<and>
   wallet_purse (snd (run_state (ExecuteWithFallback paid_tx failing_call (Some failing_call)) taken_world)) ''ada''
     = Some (''wa'', 70000)"
proof -
  let ?a = "\<lparr>ac_wallet = ''wa'', ac_balance = 70000, ac_spend = 30000, ac_limit = 5000000\<rparr>"
  have r: "refs taken_world = [''FB-ada-1'', ''FB-ada-1_FB'']" by code_simp
  have "tx_exists (t_id paid_tx) taken_world" by (simp add: tx_exists_def taken_world_def)
  moreover have "sound_payment paid_tx" "can_credit (t_amount paid_tx) ?a"
    "can_debit (t_amount paid_tx) (credit (t_amount paid_tx) ?a)" by code_simp+
  moreover have "wallet_purse taken_world ''ada'' = Some (''wa'', 70000)" by code_simp
  ultimately show ?thesis
    using taken_fallback_reference_loses_refund [OF taken_world_facts, of paid_tx failing_call failing_call] r
    by (auto simp: failing_call_def split: prod.splits)
qed

end
