(* ===== verification/Utilities.thy ===== *)
theory Utilities
  imports Reconciliation "HOL-Library.AList"
begin

text \<open>
  \<open>internal/services/utilities/utility_service.go\<close> and \<open>provider.go\<close>: airtime, data,
  electricity and betting payments. The aggregators (\<open>BillProvider\<close>) are functions of the tick.
  A \<open>map[string]interface{}\<close> of meta data holds strings only and is an association list;
  its JSON text is a parameter, as is the receipt that \<open>buildReceiptEnvelope\<close> encodes.
\<close>

section \<open>Providers and requests\<close>

type_synonym meta = "(string \<times> string) list"

record bill_purchase_params =
  bp_category :: service_category
  bp_reference :: string
  bp_customer_id :: string
  bp_amount :: int
  bp_meta :: meta

record unified_bill_response =
  ub_external_reference :: string
  ub_recharge_token :: string
  ub_status :: string
  ub_raw_message :: string

record bill_provider =
  PurchaseBill :: "nat \<Rightarrow> bill_purchase_params \<Rightarrow> unified_bill_response res"
  CheckBillStatus :: "nat \<Rightarrow> string \<Rightarrow> unified_bill_response res"

record airtime_request =
  ar_phone :: string
  ar_amount :: int
  ar_network :: string
  ar_pin :: string
  ar_client_reference :: string

record data_request =
  dr_phone :: string
  dr_plan_code :: string
  dr_biller_code :: string
  dr_network :: string
  dr_amount :: int
  dr_pin :: string
  dr_client_reference :: string

record electricity_request =
  er_meter_number :: string
  er_disco :: string
  er_amount :: int
  er_meter_type :: string
  er_pin :: string
  er_client_reference :: string

record betting_fund_request =
  bf_customer_id :: string
  bf_platform :: string
  bf_amount :: int
  bf_risk_confirmed :: bool
  bf_biometric_verified :: bool
  bf_pin :: string
  bf_client_reference :: string

text \<open>
  The service's dependencies: the two aggregators (\<open>nil\<close> is \<open>None\<close>), whether SMS is
  configured, the JSON encoders, and how many times the ticker of
  \<open>confirmProviderDelivery\<close> fires before the context is done.
\<close>

record vas_service =
  vs_bills :: "bill_provider option"
  vs_fallback_bills :: "bill_provider option"
  vs_sms :: bool
  vs_marshal :: "meta \<Rightarrow> string"
  vs_receipt :: "meta \<Rightarrow> string \<Rightarrow> string \<Rightarrow> time \<Rightarrow> string"
  vs_polls :: nat

section \<open>References\<close>

definition reference_char :: "char \<Rightarrow> bool" where
  "reference_char r \<longleftrightarrow> in_range CHR ''a'' CHR ''z'' r \<or> in_range CHR ''A'' CHR ''Z'' r \<or>
     in_range CHR ''0'' CHR ''9'' r \<or> r = CHR ''-'' \<or> r = CHR ''_''"

text \<open>The loop over the runes; a rune that is not ASCII is dropped with all its bytes.\<close>

fun normalize_loop :: "string \<Rightarrow> string \<Rightarrow> string" where
  "normalize_loop [] b = b"
| "normalize_loop (r # rs) b =
     (let b = (if reference_char r then b @ [r] else b)
      in if 60 \<le> length b then b else normalize_loop rs b)"

definition normalizeReference :: "string \<Rightarrow> (world, string) state" where
  "normalizeReference ref =
     (let b = normalize_loop (TrimSpace ref) []
      in if b = [] then do { u \<leftarrow> uuid_new; State_Monad.return (take 8 u) }
         else State_Monad.return b)"

definition vasReference :: "string \<Rightarrow> string \<Rightarrow> (world, string \<times> bool) state" where
  "vasReference userID clientReference =
     (let clientReference = TrimSpace clientReference
      in if clientReference = []
         then do {
           u \<leftarrow> uuid_new;
           now \<leftarrow> time_now;
           State_Monad.return (''FB-'' @ take 8 u @ ''-'' @ show_int now, False)
         }
         else do {
           n \<leftarrow> normalizeReference clientReference;
           State_Monad.return (''FB-'' @ (if 8 < length userID then take 8 userID else userID) @ ''-'' @ n, True)
         })"

section \<open>Meta data\<close>

definition stringFromMeta :: "meta \<Rightarrow> string \<Rightarrow> string" where
  "stringFromMeta m key = (case map_of m key of None \<Rightarrow> [] | Some v \<Rightarrow> v)"

definition customerIDFromMeta :: "service_category \<Rightarrow> meta \<Rightarrow> string" where
  "customerIDFromMeta category m =
     (if category = CategoryAirtime \<or> category = CategoryData then stringFromMeta m ''phone''
      else if category = CategoryElectricity then stringFromMeta m ''meter_number''
      else if category = CategoryBetting then stringFromMeta m ''customer_id''
      else [])"

section \<open>Calling an aggregator\<close>

definition check_status :: "bill_provider \<Rightarrow> string \<Rightarrow> (world, unified_bill_response option) state" where
  "check_status provider reference = do {
     r \<leftarrow> call (\<lambda>n. CheckBillStatus provider n reference);
     State_Monad.return (case r of Inl _ \<Rightarrow> None
       | Inr st \<Rightarrow> if ub_status st = ''success'' then Some st else None)
   }"

text \<open>One round of status checks, under our reference and then under the provider's.\<close>

definition check_delivery ::
  "bill_provider \<Rightarrow> string \<Rightarrow> string \<Rightarrow> (world, unified_bill_response option) state" where
  "check_delivery provider reference externalRef = do {
     found \<leftarrow> check_status provider reference;
     case found of
       Some st \<Rightarrow> State_Monad.return (Some st)
     | None \<Rightarrow>
         if externalRef \<noteq> [] \<and> externalRef \<noteq> reference then check_status provider externalRef
         else State_Monad.return None
   }"

text \<open>The ticker loop, with the number of ticks before the context is done.\<close>

fun poll_delivery ::
  "nat \<Rightarrow> bill_provider \<Rightarrow> string \<Rightarrow> string \<Rightarrow> unified_bill_response program" where
  "poll_delivery 0 provider reference externalRef =
     fail (Wrap ''bill delivery not confirmed through provider'' (ErrMsg ''context deadline exceeded''))"
| "poll_delivery (Suc n) provider reference externalRef = do {
     found \<leftarrow> check_delivery provider reference externalRef;
     case found of
       Some st \<Rightarrow> ok st
     | None \<Rightarrow> poll_delivery n provider reference externalRef
   }"

definition confirmProviderDelivery ::
  "nat \<Rightarrow> bill_provider \<Rightarrow> string \<Rightarrow> string \<Rightarrow> unified_bill_response program" where
  "confirmProviderDelivery polls provider reference externalRef = do {
     found \<leftarrow> check_delivery provider reference externalRef;
     case found of
       Some st \<Rightarrow> ok st
     | None \<Rightarrow> poll_delivery polls provider reference externalRef
   }"

definition buildReceiptEnvelope :: "vas_service \<Rightarrow> meta \<Rightarrow> string \<Rightarrow> string \<Rightarrow> (world, string) state" where
  "buildReceiptEnvelope s base purchaseRaw statusRaw = do {
     now \<leftarrow> time_now;
     State_Monad.return (vs_receipt s base purchaseRaw statusRaw now)
   }"

text \<open>
  The closures given to the engine; the second component is what they assign to
  \<open>billReceiptMeta\<close> and \<open>billToken\<close>.
\<close>

definition primary_call ::
  "vas_service \<Rightarrow> bill_provider \<Rightarrow> string \<Rightarrow> service_category \<Rightarrow> int \<Rightarrow> meta \<Rightarrow>
     (string \<times> string \<times> string) program" where
  "primary_call s bills ref category amount m =
     or_return (call (\<lambda>n. PurchaseBill bills n \<lparr>bp_category = category, bp_reference = ref,
                 bp_customer_id = customerIDFromMeta category m, bp_amount = amount, bp_meta = m\<rparr>))
       (\<lambda>e. e) (\<lambda>resp.
     or_return (confirmProviderDelivery (vs_polls s) bills ref (ub_external_reference resp))
       (\<lambda>e. e) (\<lambda>st. do {
       receipt \<leftarrow> buildReceiptEnvelope s m (ub_raw_message resp) (ub_raw_message st);
       ok (ub_external_reference resp, receipt, ub_recharge_token st)
     }))"

definition buildFallbackCall ::
  "vas_service \<Rightarrow> string \<Rightarrow> service_category \<Rightarrow> int \<Rightarrow> meta \<Rightarrow>
     (string \<times> string \<times> string) program option" where
  "buildFallbackCall s ref category amount m =
     (case vs_fallback_bills s of
        None \<Rightarrow> None
      | Some bills \<Rightarrow> Some (
          or_return (call (\<lambda>n. PurchaseBill bills n \<lparr>bp_category = category,
                      bp_reference = ref @ ''_FB'', bp_customer_id = customerIDFromMeta category m,
                      bp_amount = amount, bp_meta = m\<rparr>))
            (\<lambda>e. e) (\<lambda>resp. do {
            status \<leftarrow> call (\<lambda>n. CheckBillStatus bills n (ref @ ''_FB''));
            case status of
              Inl _ \<Rightarrow> ok (ub_external_reference resp, [], [])
            | Inr st \<Rightarrow> do {
                receipt \<leftarrow> buildReceiptEnvelope s m (ub_raw_message resp) (ub_raw_message st);
                ok (ub_external_reference resp, receipt, ub_recharge_token st)
              }
          })))"

section \<open>A payment\<close>

definition vas_tx ::
  "wallet \<Rightarrow> string \<Rightarrow> service_category \<Rightarrow> int \<Rightarrow> string \<Rightarrow> string \<Rightarrow> (world, transaction) state" where
  "vas_tx wallet ref category amount narration metaBytes = do {
     i \<leftarrow> uuid_new;
     created \<leftarrow> time_now;
     updated \<leftarrow> time_now;
     State_Monad.return \<lparr>t_id = i, t_user_id = w_user_id wallet, t_wallet_id = w_id wallet,
       t_reference = ref, t_external_ref = [], t_type = TxTypeDebit, t_category = category,
       t_amount = amount, t_commission = 0, t_fee = 0, t_balance_before = w_balance wallet,
       t_balance_after = i64 (w_balance wallet - amount), t_status = TxProcessing,
       t_provider = ''flutterwave'', t_narration = narration, t_meta = metaBytes,
       t_reversed_tx_id = None, t_created_at = created, t_updated_at = updated\<rparr>
   }"

definition alert :: "vas_service \<Rightarrow> job \<Rightarrow> (world, unit) state" where
  "alert s j = (if vs_sms s then spawn j else State_Monad.return ())"

text \<open>The idempotency check: \<open>Some\<close> the stored transaction of a reference used before.\<close>

definition find_replayed :: "string \<Rightarrow> string \<Rightarrow> bool \<Rightarrow> transaction option program" where
  "find_replayed userID ref idempotent =
     (if \<not> idempotent then ok None
      else do {
        existing \<leftarrow> FindTransactionByReference userID ref;
        case existing of
          Inr t \<Rightarrow> ok (Some t)
        | Inl e \<Rightarrow> if is_no_rows e then ok None else fail e
      })"

text \<open>The refund when the transaction cannot be stored after the debit.\<close>

definition insert_failed ::
  "string \<Rightarrow> string \<Rightarrow> bool \<Rightarrow> uuid \<Rightarrow> int \<Rightarrow> goerr \<Rightarrow> transaction program" where
  "insert_failed userID ref idempotent walletID amount e = do {
     _ \<leftarrow> CreditBalance walletID amount;
     if idempotent then do {
       existing \<leftarrow> FindTransactionByReference userID ref;
       case existing of
         Inr t \<Rightarrow> ok t
       | Inl _ \<Rightarrow> fail (Wrap ''create transaction'' e)
     } else fail (Wrap ''create transaction'' e)
   }"

text \<open>What follows the engine's answer.\<close>

definition finish_vas ::
  "vas_service \<Rightarrow> string \<Rightarrow> service_category \<Rightarrow> int \<Rightarrow> transaction \<Rightarrow>
     (string \<times> string \<times> string) res \<Rightarrow> transaction program" where
  "finish_vas s userID category amount t result =
     (case result of
        Inl e \<Rightarrow> do {
          alert s (VASRefundAlertJob userID t);
          fail e
        }
      | Inr (extRef, billReceiptMeta, billToken) \<Rightarrow> do {
          now \<leftarrow> time_now;
          let t = t\<lparr>t_external_ref := extRef, t_status := TxSuccess, t_updated_at := now\<rparr>;
          t \<leftarrow> (if billReceiptMeta \<noteq> [] then do {
                 r \<leftarrow> UpdateTransactionMeta (t_reference t) billReceiptMeta;
                 State_Monad.return (case r of Inl _ \<Rightarrow> t | Inr _ \<Rightarrow> t\<lparr>t_meta := billReceiptMeta\<rparr>)
               } else State_Monad.return t);
          spawn (AwardPointsJob userID (t_id t) category amount);
          alert s (VASSuccessAlertJob userID t billToken);
          ok t
        })"

text \<open>The payment proper: debit the wallet, store the transaction, let the engine pay.\<close>

definition vas_payment ::
  "vas_service \<Rightarrow> bill_provider \<Rightarrow> string \<Rightarrow> string \<Rightarrow> bool \<Rightarrow> service_category \<Rightarrow> int \<Rightarrow> string \<Rightarrow> meta \<Rightarrow>
     transaction program" where
  "vas_payment s bills userID ref idempotent category amount narration m =
     or_return (FindByUserID userID) (Wrap ''wallet not found'') (\<lambda>wallet.
     or_return (DebitWithLock NoTx userID amount) (\<lambda>e. e) (\<lambda>_. do {
       t \<leftarrow> vas_tx wallet ref category amount narration (vs_marshal s m);
       inserted \<leftarrow> InsertTransaction t;
       case inserted of
         Inl e \<Rightarrow> insert_failed userID ref idempotent (w_id wallet) amount e
       | Inr _ \<Rightarrow> do {
           result \<leftarrow> ExecuteWithFallback t (primary_call s bills ref category amount m)
                      (buildFallbackCall s ref category amount m);
           finish_vas s userID category amount t result
         }
     }))"

definition executeVAS ::
  "vas_service \<Rightarrow> string \<Rightarrow> service_category \<Rightarrow> int \<Rightarrow> string \<Rightarrow> meta \<Rightarrow> string \<Rightarrow> transaction program" where
  "executeVAS s userID category amount narration m clientReference =
     (case vs_bills s of
        None \<Rightarrow> fail (ErrMsg ''bill payment provider is not configured'')
      | Some bills \<Rightarrow> do {
          (ref, idempotent) \<leftarrow> vasReference userID clientReference;
          or_return (find_replayed userID ref idempotent) (\<lambda>e. e) (\<lambda>replayed.
          case replayed of
            Some t \<Rightarrow> ok t
          | None \<Rightarrow> vas_payment s bills userID ref idempotent category amount narration
              (if idempotent then AList.update ''client_reference'' (TrimSpace clientReference) m else m))
        })"

section \<open>The services\<close>

text \<open>\<open>validateTransactionPIN\<close> returns \<open>nil\<close>: its body is commented out.\<close>

definition validateTransactionPIN :: "string \<Rightarrow> string \<Rightarrow> unit program" where
  "validateTransactionPIN userID pin = ok ()"

definition PurchaseAirtime :: "vas_service \<Rightarrow> string \<Rightarrow> airtime_request \<Rightarrow> transaction program" where
  "PurchaseAirtime s userID req =
     or_return (validateTransactionPIN userID (ar_pin req)) (\<lambda>e. e) (\<lambda>_.
     executeVAS s userID CategoryAirtime (ar_amount req)
       (''Airtime '' @ ar_network req @ '' '' @ em_dash @ '' '' @ ar_phone req)
       [(''phone'', ar_phone req), (''network'', ar_network req)] (ar_client_reference req))"

definition PurchaseData :: "vas_service \<Rightarrow> string \<Rightarrow> data_request \<Rightarrow> transaction program" where
  "PurchaseData s userID req =
     or_return (validateTransactionPIN userID (dr_pin req)) (\<lambda>e. e) (\<lambda>_.
     executeVAS s userID CategoryData (dr_amount req)
       (''Data '' @ dr_plan_code req @ '' '' @ em_dash @ '' '' @ dr_phone req)
       [(''phone'', dr_phone req), (''network'', dr_network req), (''plan_code'', dr_plan_code req),
        (''item_code'', dr_plan_code req), (''biller_code'', dr_biller_code req)]
       (dr_client_reference req))"

definition PayElectricity :: "vas_service \<Rightarrow> string \<Rightarrow> electricity_request \<Rightarrow> transaction program" where
  "PayElectricity s userID req =
     or_return (validateTransactionPIN userID (er_pin req)) (\<lambda>e. e) (\<lambda>_.
     executeVAS s userID CategoryElectricity (er_amount req)
       (''Electricity '' @ er_disco req @ '' '' @ em_dash @ '' '' @ er_meter_number req)
       [(''meter_number'', er_meter_number req), (''disco'', er_disco req),
        (''meter_type'', er_meter_type req)] (er_client_reference req))"

definition requiresBettingRiskChallenge :: "int \<Rightarrow> spend_stats option \<Rightarrow> bool" where
  "requiresBettingRiskChallenge amount stats =
     (let highValueBettingTopUp = 5000000
      in case stats of
           None \<Rightarrow> highValueBettingTopUp \<le> amount
         | Some st \<Rightarrow>
             if st_count st = 0 then highValueBettingTopUp \<le> amount
             else if st_count st < 3
             then highValueBettingTopUp \<le> amount \<and> i64 (st_max st * 2) \<le> amount
             else if 0 < st_avg st \<and> i64 (st_avg st * 3) \<le> amount then True
             else if 0 < st_max st \<and> i64 (st_max st * 2) \<le> amount then True
             else False)"

definition enforceBettingRiskGuard ::
  "(int \<Rightarrow> int \<Rightarrow> int res) \<Rightarrow> string \<Rightarrow> betting_fund_request \<Rightarrow> unit program" where
  "enforceBettingRiskGuard scan_avg userID req = do {
     now \<leftarrow> time_now;
     or_return (CategorySpendStats scan_avg userID CategoryBetting (now - 7 * 24 * 60 * 60 * 1000))
       (\<lambda>e. e) (\<lambda>stats.
     if \<not> requiresBettingRiskChallenge (bf_amount req) (Some stats) then ok ()
     else if \<not> bf_risk_confirmed req \<or> \<not> bf_biometric_verified req \<or> bf_pin req = []
     then fail (ErrMsg ''extra confirmation required for unusual betting top-up'')
     else ok ())
   }"

definition FundBettingWallet ::
  "(int \<Rightarrow> int \<Rightarrow> int res) \<Rightarrow> vas_service \<Rightarrow> string \<Rightarrow> betting_fund_request \<Rightarrow> transaction program" where
  "FundBettingWallet scan_avg s userID req =
     or_return (enforceBettingRiskGuard scan_avg userID req) (\<lambda>e. e) (\<lambda>_.
     or_return (validateTransactionPIN userID (bf_pin req)) (\<lambda>e. e) (\<lambda>_.
     executeVAS s userID CategoryBetting (bf_amount req)
       (''Betting top-up '' @ bf_platform req @ '' '' @ em_dash @ '' '' @ bf_customer_id req)
       [(''customer_id'', bf_customer_id req), (''platform'', bf_platform req)]
       (bf_client_reference req)))"

definition GetTransaction :: "string \<Rightarrow> string \<Rightarrow> transaction program" where
  "GetTransaction userID reference = FindTransactionByReference userID reference"

section \<open>References: shape and collisions\<close>

lemma normalize_loop_eq:
  "length b < 60 \<Longrightarrow> normalize_loop rs b = b @ take (60 - length b) (filter reference_char rs)"
proof (induction rs arbitrary: b)
  case (Cons r rs)
  show ?case
  proof (cases "reference_char r \<and> 60 \<le> length (b @ [r])")
    case True
    with Cons.prems have "60 - length b = 1" by auto
    with True show ?thesis by simp
  next
    case False
    with Cons.prems Cons.IH [of b] Cons.IH [of "b @ [r]"] show ?thesis
      by (auto simp: take_Cons' diff_Suc split: nat.splits)
  qed
qed simp

definition ref_chars :: "string \<Rightarrow> string" where
  "ref_chars c = take 60 (filter reference_char c)"

lemma space_not_reference: "is_space c \<Longrightarrow> \<not> reference_char c"
  by (auto simp: is_space_def reference_char_def in_range_def)

lemma filter_dropWhile_space: "filter reference_char (dropWhile is_space c) = filter reference_char c"
  by (induction c) (auto dest: space_not_reference)

lemma filter_TrimSpace: "filter reference_char (TrimSpace c) = filter reference_char c"
  unfolding TrimSpace_def trim_left_def
  by (metis filter_dropWhile_space rev_filter rev_rev_ident)

lemma normalize_TrimSpace: "normalize_loop (TrimSpace (TrimSpace c)) [] = ref_chars c"
  by (simp add: normalize_loop_eq filter_TrimSpace ref_chars_def)

definition vas_key :: "string \<Rightarrow> string \<Rightarrow> string" where
  "vas_key userID c = ''FB-'' @ take 8 userID @ ''-'' @ ref_chars c"

lemma ref_chars_trim: "ref_chars c \<noteq> [] \<Longrightarrow> TrimSpace c \<noteq> []"
  by (metis filter.simps(1) filter_TrimSpace ref_chars_def take_Nil)

lemma run_vasReference:
  assumes "ref_chars c \<noteq> []"
  shows "run_state (vasReference u c) s = ((vas_key u c, True), s)"
  using assms ref_chars_trim [OF assms]
  by (simp add: vasReference_def normalizeReference_def normalize_TrimSpace vas_key_def Let_def)

lemma length_vas_key: "length (vas_key u c) \<le> 72"
  by (simp add: vas_key_def ref_chars_def)

text \<open>
  The reference of an idempotent payment is decided by the first eight characters of the
  user's identifier and the first sixty letters, digits, hyphens and underscores of the
  client's reference: two payments share one exactly when these agree, so that references
  that differ only in other characters, or after the sixtieth, are one payment.
\<close>

theorem idempotency_key_decides:
  assumes "ref_chars c \<noteq> []" and "ref_chars d \<noteq> []" and "8 \<le> length u" and "8 \<le> length v"
  shows "fst (run_state (vasReference u c) s) = fst (run_state (vasReference v d) s') \<longleftrightarrow>
    take 8 u = take 8 v \<and> ref_chars c = ref_chars d"
  using assms by (simp add: run_vasReference vas_key_def)

lemma quiet_vasReference: "quiet (vasReference u c)"
  unfolding vasReference_def normalizeReference_def Let_def
  by (intro quiet_if quiet_bind quiet_uuid_new quiet_time_now quiet_return)

section \<open>The schema is kept\<close>

lemma quiet_case_option [intro]:
  "quiet f \<Longrightarrow> (\<And>v. quiet (g v)) \<Longrightarrow> quiet (case r of None \<Rightarrow> f | Some v \<Rightarrow> g v)"
  by (simp split: option.splits)

lemma quiet_check_delivery [intro]: "quiet (check_delivery p r x)"
  unfolding check_delivery_def check_status_def by (intro quiet_bind quiet_case_option quiet_if) auto

lemma quiet_poll_delivery [intro]: "quiet (poll_delivery n p r x)"
  by (induction n) (auto intro!: quiet_bind quiet_case_option)

lemma quiet_primary_call [intro]: "quiet (primary_call s b r c n m)"
  unfolding primary_call_def confirmProviderDelivery_def buildReceiptEnvelope_def
  by (intro quiet_or_return quiet_bind quiet_case_option quiet_call quiet_time_now quiet_return
      quiet_check_delivery quiet_poll_delivery)

lemma quiet_buildFallbackCall: "buildFallbackCall s r c n m = Some f \<Longrightarrow> quiet f"
  unfolding buildFallbackCall_def buildReceiptEnvelope_def
  by (auto split: option.splits
      intro!: quiet_or_return quiet_bind quiet_case_sum quiet_call quiet_time_now quiet_return)

lemma keeps_vas_parts [keeps_intros]:
  "on_tables P \<Longrightarrow> keeps P (vasReference u c)" "on_tables P \<Longrightarrow> keeps P (vas_tx w r ca n na me)"
  "on_tables P \<Longrightarrow> keeps P (alert s j)" "on_tables P \<Longrightarrow> keeps P (find_replayed u r b)"
  by (auto simp: vasReference_def normalizeReference_def vas_tx_def alert_def find_replayed_def Let_def
      intro!: keeps_intros)

lemma keeps_ok_insert_failed [keeps_intros]: "keeps wallet_tables_ok (insert_failed u r b i n e)"
  unfolding insert_failed_def by (intro keeps_intros on_tables_wallet_tables_ok)

lemma keeps_ok_finish_vas [keeps_intros]: "keeps wallet_tables_ok (finish_vas s u c n t r)"
  unfolding finish_vas_def case_prod_unfold Let_def by (intro keeps_intros on_tables_wallet_tables_ok)

lemma keeps_ok_engine [keeps_intros]:
  "keeps wallet_tables_ok
     (ExecuteWithFallback t (primary_call s b r c n m) (buildFallbackCall s r c n m))"
  by (rule keeps_ok_ExecuteWithFallback) (auto dest: quiet_buildFallbackCall)

lemma keeps_ok_executeVAS [keeps_intros]: "keeps wallet_tables_ok (executeVAS s u c n na m r)"
proof (cases "vs_bills s")
  case (Some b)
  show ?thesis
    unfolding executeVAS_def vas_payment_def case_prod_unfold Let_def Some option.case
    by (intro keeps_intros on_tables_wallet_tables_ok)
qed (simp add: executeVAS_def keeps_return)

lemma keeps_validateTransactionPIN [keeps_intros]: "keeps P (validateTransactionPIN u p)"
  unfolding validateTransactionPIN_def by (intro keeps_intros)

lemma keeps_enforceBettingRiskGuard [keeps_intros]:
  "on_tables P \<Longrightarrow> keeps P (enforceBettingRiskGuard sc u q)"
  unfolding enforceBettingRiskGuard_def by (intro keeps_intros)

lemma keeps_ok_services [keeps_intros]:
  "keeps wallet_tables_ok (PurchaseAirtime s u aq)" "keeps wallet_tables_ok (PurchaseData s u dq)"
  "keeps wallet_tables_ok (PayElectricity s u eq)" "keeps wallet_tables_ok (FundBettingWallet sc s u bq)"
  unfolding PurchaseAirtime_def PurchaseData_def PayElectricity_def FundBettingWallet_def
  by (intro keeps_intros on_tables_wallet_tables_ok)+

section \<open>What a payment does to the accounts\<close>

lemma find_replayed_run:
  assumes "run_state (find_replayed u k b) s = (r, s')"
  shows "accounts s' = accounts s" and "transactions s' = transactions s"
    and "wallet_tables_ok s' = wallet_tables_ok s"
  using tables_eqD [OF keeps_tables_run [OF keeps_vas_parts(4) assms]] by simp_all

lemma finish_vas_run:
  assumes "run_state (finish_vas s u c n t r) w = (res, w')"
  shows "accounts w' = accounts w" and "succeeded res = succeeded r"
proof -
  have "keeps (\<lambda>x. wallets x = wallets w) (finish_vas s u c n t r)"
    unfolding finish_vas_def case_prod_unfold Let_def
    by (intro keeps_intros on_tables_frames)
  from keeps_run [OF this assms] show "accounts w' = accounts w"
    by (simp add: accounts_wallets [of w' w])
  show "succeeded res = succeeded r"
    using assms
    by (cases r) (auto simp: finish_vas_def alert_def Let_def split: prod.splits if_splits sum.splits)
qed

lemma vas_tx_run:
  obtains t where "run_state (vas_tx w ref c n na me) s = (t, s\<lparr>tick := tick s + 3\<rparr>)"
    and "t_id t = uuid_at s (tick s)" "t_user_id t = w_user_id w" "t_wallet_id t = w_id w"
      "t_reference t = ref" "t_external_ref t = []" "t_type t = TxTypeDebit" "t_amount t = n"
      "t_commission t = 0" "t_fee t = 0" "t_balance_before t = w_balance w"
      "t_balance_after t = i64 (w_balance w - n)" "t_provider t = ''flutterwave''"
      "t_reversed_tx_id t = None"
  by (simp add: vas_tx_def step_def)

lemma purse_debit: "accounts s' = (accounts s)(u \<mapsto> debit n a) \<Longrightarrow>
    wallet_purse s' = (wallet_purse s)(u \<mapsto> (ac_wallet a, ac_balance a - n))"
  by (simp add: wallet_purse_def fun_eq_iff)

lemma insert_failed_run:
  assumes ok: "wallet_tables_ok s" and a: "accounts s u = Some a"
    and run: "run_state (insert_failed x r b (ac_wallet a) n e) s = (res, s')"
  shows "accounts s' = accounts s \<or> accounts s' = (accounts s)(u \<mapsto> credit n a)"
proof -
  obtain c s1 where c: "run_state (CreditBalance (ac_wallet a) n) s = (c, s1)"
    by (cases "run_state (CreditBalance (ac_wallet a) n) s")
  have "tables s' = tables s1"
  proof (cases b)
    case True
    obtain f s2 where f: "run_state (FindTransactionByReference x r) s1 = (f, s2)"
      by (cases "run_state (FindTransactionByReference x r) s1")
    have "tables s2 = tables s1"
      by (rule keeps_tables_run [OF keeps_FindTransactionByReference f])
    with run c f True show ?thesis by (auto simp: insert_failed_def split: sum.splits)
  next
    case False
    with run c show ?thesis by (simp add: insert_failed_def)
  qed
  then have "accounts s' = accounts s1" by (rule tables_eqD)
  moreover have "accounts s1 = accounts s \<or> accounts s1 = (accounts s)(u \<mapsto> credit n a)"
  proof (cases c)
    case (Inl e')
    with CreditBalance_error c accounts_wallets show ?thesis by blast
  next
    case (Inr v)
    with CreditBalance_success [OF ok a] c show ?thesis by blast
  qed
  ultimately show ?thesis by simp
qed

lemma vas_payment_cases:
  assumes ok: "wallet_tables_ok w" and "''REV_'' @ k \<notin> set (refs w)"
    and "''REV_'' @ k @ ''_FB'' \<notin> set (refs w)"
    and run: "run_state (vas_payment s bills u k b cat n na m) w = (res, w')"
  shows "wallet_purse w' = wallet_purse w \<or>
    (\<exists>i a. wallet_purse w u = Some (i, a) \<and> n \<le> a \<and> wallet_purse w' = (wallet_purse w)(u \<mapsto> (i, a - n)))"
  using run unfolding vas_payment_def
proof (cases rule: or_return_cases)
  case (returned e)
  have "tables w' = tables w" by (rule keeps_tables_run [OF keeps_FindByUserID returned(1)])
  then show ?thesis by (auto intro: wallet_purse_accounts tables_eqD)
next
  case (continued wal w1)
  note fnd = FindByUserID_success [OF continued(1)]
  let ?a0 = "account_of wal"
  have ok1: "wallet_tables_ok w1" and a1: "accounts w1 = accounts w" and r1: "refs w1 = refs w"
    using ok fnd by (simp_all add: on_tables_step)
  have a: "accounts w u = Some ?a0" using fnd by (simp add: accounts_def)
  from continued(2) show ?thesis
  proof (cases rule: or_return_cases)
    case (returned e)
    with DebitWithLock_error [OF this(1)] accounts_wallets [of w' w1] a1 show ?thesis
      by (auto intro: wallet_purse_accounts)
  next
    case (continued wl w2)
    have d: "n \<le> ac_balance ?a0" and a2: "accounts w2 = (accounts w)(u \<mapsto> debit n ?a0)"
      using DebitWithLock_success [OF ok1 continued(1)] a a1 by (auto simp: can_debit_def)
    have ok2: "wallet_tables_ok w2" using keeps_ok_DebitWithLock continued(1) ok1 by (rule keeps_run)
    have r2: "refs w2 = refs w"
      using wallet_frameD(1) [OF keeps_run [OF keeps_wallet_frame_DebitWithLock continued(1) refl]] r1
      by (simp add: refs_def)
    obtain t where t: "run_state (vas_tx wal k cat n na (vs_marshal s m)) w2 = (t, w2\<lparr>tick := tick w2 + 3\<rparr>)"
      "t_user_id t = w_user_id wal" "t_wallet_id t = w_id wal" "t_reference t = k" "t_amount t = n"
      by (rule vas_tx_run)
    let ?w3 = "w2\<lparr>tick := tick w2 + 3\<rparr>"
    have tu: "t_user_id t = u" using t(2) wallet_ofD [of u w wal] fnd by simp
    obtain ins w4 where ins: "run_state (InsertTransaction t) ?w3 = (ins, w4)"
      by (cases "run_state (InsertTransaction t) ?w3")
    have ok4: "wallet_tables_ok w4"
      using ok2 by (intro keeps_run [OF keeps_ok_InsertTransaction ins]) simp
    have "wallets w4 = wallets w2"
      using tx_frameD(1) [OF keeps_run [OF keeps_tx_frame(1) ins refl]] by simp
    then have a4: "accounts w4 = (accounts w)(u \<mapsto> debit n ?a0)"
      using accounts_wallets [of w4 w2] a2 by simp
    have a4u: "accounts w4 u = Some (debit n ?a0)" using a4 by simp
    have rest: "run_state (case ins of
         Inl e \<Rightarrow> insert_failed u k b (w_id wal) n e
       | Inr _ \<Rightarrow> do {
           result \<leftarrow> ExecuteWithFallback t (primary_call s bills k cat n m) (buildFallbackCall s k cat n m);
           finish_vas s u cat n t result }) w4 = (res, w')"
      using continued(2) ins t(1) by (simp only: run_bind_eq)
    have same: "wallet_purse w' = wallet_purse w" if "accounts w' = (accounts w)(u \<mapsto> credit n (debit n ?a0))"
      using wallet_purse_credit_debit [OF that] wallet_purse_same [OF a] by simp
    have less: ?thesis if "wallet_purse w' = (wallet_purse w)(u \<mapsto> (w_id wal, w_balance wal - n))"
      using that d a by (auto simp: wallet_purse_def)
    show ?thesis
    proof (cases ins)
      case (Inl e)
      have "run_state (insert_failed u k b (ac_wallet (debit n ?a0)) n e) w4 = (res, w')"
        using rest Inl by simp
      from insert_failed_run [OF ok4 a4u this] a4
      consider "accounts w' = (accounts w)(u \<mapsto> debit n ?a0)" |
        "accounts w' = (accounts w)(u \<mapsto> credit n (debit n ?a0))" by auto
      then show ?thesis
        using same less purse_debit [of w' w u n ?a0] by cases auto
    next
      case (Inr v)
      have r4: "refs w4 = refs w @ [k]"
        using InsertTransaction_success [OF ins [unfolded Inr]] r2 t(4) by (simp add: refs_def)
      obtain er w5 where er: "run_state (ExecuteWithFallback t (primary_call s bills k cat n m)
          (buildFallbackCall s k cat n m)) w4 = (er, w5)"
        by (cases "run_state (ExecuteWithFallback t (primary_call s bills k cat n m)
          (buildFallbackCall s k cat n m)) w4")
      have tw: "t_wallet_id t = ac_wallet (debit n ?a0)" using t(3) by simp
      have q: "\<forall>g. buildFallbackCall s k cat n m = Some g \<longrightarrow> quiet g"
        using quiet_buildFallbackCall by blast
      have free: "''REV_'' @ t_reference t \<notin> set (refs w4)"
        "''REV_'' @ t_reference t @ ''_FB'' \<notin> set (refs w4)"
        using assms(2,3) by (auto simp: r4 t(4) dest: arg_cong [of _ _ length])
      have eng: "wallet_purse w5 = wallet_purse w4 \<or>
          wallet_purse w5 = (wallet_purse w4)(u \<mapsto> (w_id wal, w_balance wal))"
        using engine_cases [OF ok4 a4u tu tw quiet_primary_call q free er] t(5) by auto
      have "accounts w' = accounts w5"
        using rest Inr er finish_vas_run(1) by (auto simp: split: prod.splits)
      then have w': "wallet_purse w' = wallet_purse w5" by (rule wallet_purse_accounts)
      have w4: "wallet_purse w4 = (wallet_purse w)(u \<mapsto> (w_id wal, w_balance wal - n))"
        using purse_debit [OF a4] by simp
      from eng show ?thesis
      proof
        assume "wallet_purse w5 = wallet_purse w4"
        with w' w4 less show ?thesis by simp
      next
        assume "wallet_purse w5 = (wallet_purse w4)(u \<mapsto> (w_id wal, w_balance wal))"
        with w' w4 wallet_purse_same [OF a] show ?thesis by simp
      qed
    qed
  qed
qed

text \<open>
  C1. One payment, whatever the service, the amount, the aggregators and the client's reference, and under
  any failures of the database, changes at most the caller's wallet, and that one by at most one debit of
  the amount: it never charges twice (however the fallback goes) and never leaves the customer with more.
  The reference under which it is stored, \<open>k\<close>, is made from the client's or, if there is none, drawn;
  the one condition, besides the constraints of the schema, is that no stored transaction has a reference
  that the reversals of this payment would take.
\<close>

theorem payment_charges_at_most_once:
  assumes "wallet_tables_ok w" and "fst (run_state (vasReference u c) w) = (k, b)"
    and "''REV_'' @ k \<notin> set (refs w)" and "''REV_'' @ k @ ''_FB'' \<notin> set (refs w)"
  shows "case run_state (executeVAS s u cat n na m c) w of (res, w') \<Rightarrow>
    wallet_purse w' = wallet_purse w \<or>
    (\<exists>i b. wallet_purse w u = Some (i, b) \<and> n \<le> b \<and> wallet_purse w' = (wallet_purse w)(u \<mapsto> (i, b - n)))"
proof -
  obtain res w' where run: "run_state (executeVAS s u cat n na m c) w = (res, w')"
    by (cases "run_state (executeVAS s u cat n na m c) w")
  obtain w0 where key: "run_state (vasReference u c) w = ((k, b), w0)"
    using assms(2) by (cases "run_state (vasReference u c) w") simp
  from quiet_run [OF quiet_vasReference key] obtain i where w0: "w0 = w\<lparr>tick := tick w + i\<rparr>" .
  have ok0: "wallet_tables_ok w0" "refs w0 = refs w" "wallet_purse w0 = wallet_purse w"
    using assms(1) by (auto simp: w0 refs_def accounts_def wallet_of_def intro!: wallet_purse_accounts)
  show ?thesis
  proof (cases "vs_bills s")
    case None
    with run show ?thesis by (simp add: executeVAS_def)
  next
    case (Some bills)
    let ?m = "if b then AList.update ''client_reference'' (TrimSpace c) m else m"
    from run have "run_state (or_return (find_replayed u k b) (\<lambda>e. e) (\<lambda>replayed.
        case replayed of Some t \<Rightarrow> ok t | None \<Rightarrow> vas_payment s bills u k b cat n na ?m)) w0 = (res, w')"
      by (simp add: executeVAS_def Some key)
    then show ?thesis
    proof (cases rule: or_return_cases)
      case (returned e)
      with find_replayed_run [OF this(1)] run ok0 show ?thesis
        by (auto dest: wallet_purse_accounts)
    next
      case (continued rep w1)
      note r1 = find_replayed_run [OF continued(1)]
      have purse1: "wallet_purse w1 = wallet_purse w" using wallet_purse_accounts [OF r1(1)] ok0 by simp
      show ?thesis
      proof (cases rep)
        case (Some t)
        with continued(2) purse1 run show ?thesis by simp
      next
        case None
        have "wallet_tables_ok w1" "refs w1 = refs w" using r1 ok0 by (simp_all add: refs_def)
        with None continued(2) vas_payment_cases [of w1 k s bills u b cat n na ?m res w'] assms(3,4) run purse1
        show ?thesis by simp
      qed
    qed
  qed
qed

definition sample_bills :: "string \<Rightarrow> bill_provider" where
  "sample_bills st = \<lparr>
     PurchaseBill = (\<lambda>n p. Inr \<lparr>ub_external_reference = ''FLW'', ub_recharge_token = ''tok'',
       ub_status = st, ub_raw_message = []\<rparr>),
     CheckBillStatus = (\<lambda>n r. Inr \<lparr>ub_external_reference = ''FLW'', ub_recharge_token = ''tok'',
       ub_status = st, ub_raw_message = []\<rparr>)\<rparr>"

definition sample_vas :: "string \<Rightarrow> string option \<Rightarrow> vas_service" where
  "sample_vas st fb = \<lparr>vs_bills = Some (sample_bills st), vs_fallback_bills = map_option sample_bills fb,
     vs_sms = True, vs_marshal = (\<lambda>m. ''{}''), vs_receipt = (\<lambda>m p q t. ''{}''), vs_polls = 0\<rparr>"

lemma sample_refs: "refs sample_world = [''FUND-INIT-1'']"
  by code_simp

lemma payment_charges_at_most_once_witness:
  "wallet_purse (snd (run_state (executeVAS (sample_vas ''success'' None) ''ada'' CategoryAirtime
     5000 ''Airtime'' [] ''1'') sample_world)) ''ada'' = Some (''wa'', 95000)"
proof -
  let ?x = "executeVAS (sample_vas ''success'' None) ''ada'' CategoryAirtime 5000 ''Airtime'' [] ''1''"
  have "fst (run_state (vasReference ''ada'' ''1'') sample_world) = (''FB-ada-1'', True)"
    "''REV_'' @ ''FB-ada-1'' \<notin> set (refs sample_world)" "''REV_'' @ ''FB-ada-1'' @ ''_FB'' \<notin> set (refs sample_world)"
    by code_simp+
  note once = payment_charges_at_most_once [OF sample_tables_ok this,
    where s = "sample_vas ''success'' None" and cat = CategoryAirtime and n = 5000
      and na = "''Airtime''" and m = "[]"]
  have "wallet_purse sample_world ''ada'' = Some (''wa'', 100000)"
    "map_option snd (wallet_purse (snd (run_state ?x sample_world)) ''ada'') \<noteq> Some 100000"
    by code_simp+
  with once show ?thesis by (auto split: prod.splits)
qed

text \<open>
  A retry under a client reference that was used before is not charged: the call returns the
  stored transaction, whatever its status, or an error, and no wallet and no transaction changes.
\<close>

theorem replay_is_free:
  assumes "ref_chars c \<noteq> []" and "u \<noteq> []" and "vs_bills s \<noteq> None"
    and "find (\<lambda>t. t_user_id t = u \<and> t_reference t = vas_key u c) (transactions w) = Some t"
  shows "case run_state (executeVAS s u cat n na m c) w of (res, w') \<Rightarrow>
    accounts w' = accounts w \<and> transactions w' = transactions w \<and> (\<forall>x. res = Inr x \<longrightarrow> x = t)"
proof -
  from assms(3) obtain b where b: "vs_bills s = Some b" by blast
  have rep: "run_state (find_replayed u (vas_key u c) True) w =
      (if sql_ok w (tick w) then (Inr (Some t), step w)
       else (Inl (Wrap ''find transaction by reference'' (ErrDb ''connection'')), step w))"
    using assms(2,4)
    by (simp add: find_replayed_def FindTransactionByReference_def run_or_return run_query_row)
  show ?thesis
    by (simp add: executeVAS_def b run_vasReference [OF assms(1)] run_or_return rep)
qed

lemma replay_is_free_witness:
  "transactions (snd (run_state (executeVAS (sample_vas ''success'' None) ''ada'' CategoryAirtime 5000 ''A'' [] ''1'') paid_world))
     = transactions paid_world"
proof -
  have "find (\<lambda>t. t_user_id t = ''ada'' \<and> t_reference t = vas_key ''ada'' ''1'') (transactions paid_world) = Some paid_tx"
    by code_simp
  with replay_is_free [where c = "''1''" and u = "''ada''" and s = "sample_vas ''success'' None"
      and w = paid_world and cat = CategoryAirtime and n = 5000 and na = "''A''" and m = "[]"]
  show ?thesis by (auto simp: ref_chars_def sample_vas_def reference_char_def in_range_def split: prod.splits)
qed

section \<open>References that were used\<close>

text \<open>The user has a transaction under the reference. No step of a payment ever takes that away.\<close>

definition recorded :: "string \<Rightarrow> string \<Rightarrow> world \<Rightarrow> bool" where
  "recorded u k s \<longleftrightarrow> (u, k) \<in> set (map (\<lambda>t. (t_user_id t, t_reference t)) (transactions s))"

lemma on_tables_recorded [simp, keeps_intros]: "on_tables (recorded u k)"
  by (simp add: on_tables_def recorded_def)

lemma keeps_recorded_update:
  assumes "\<And>now t. t_user_id (f now t) = t_user_id t \<and> t_reference (f now t) = t_reference t"
  shows "keeps (recorded u k) (exec (\<lambda>now. update_transactions p (f now)))"
proof (rule keeps_exec [OF on_tables_recorded])
  fix now s s' assume s: "recorded u k s" "update_transactions p (f now) s = Some s'"
  have "map (\<lambda>t. (t_user_id t, t_reference t)) (set_rows p (f now) (transactions s)) =
      map (\<lambda>t. (t_user_id t, t_reference t)) (transactions s)"
    by (rule map_set_rows) (simp add: assms)
  moreover have "transactions s' = set_rows p (f now) (transactions s)"
    using s(2) by (auto simp: update_transactions_def split: if_splits)
  ultimately show "recorded u k s'" using s(1) by (simp only: recorded_def)
qed

lemma keeps_recorded_wallets: "(\<And>c. keeps (\<lambda>s. wallet_frame s = c) m) \<Longrightarrow> keeps (recorded u k) m"
  unfolding keeps_def recorded_def by (metis wallet_frameD(1))

lemma keeps_recorded [keeps_intros]:
  "keeps (recorded u k) (CreditBalance i n)" "keeps (recorded u k) (DebitWithLock cx v n)"
  "keeps (recorded u k) (InsertTransaction t)" "keeps (recorded u k) (UpdateTransactionStatus r st e)"
  "keeps (recorded u k) (UpdateTransactionMeta r me)" "keeps (recorded u k) (mark_reversed r)"
proof -
  show "keeps (recorded u k) (CreditBalance i n)" "keeps (recorded u k) (DebitWithLock cx v n)"
    by (rule keeps_recorded_wallets, rule keeps_intros)+
  show "keeps (recorded u k) (InsertTransaction t)"
    unfolding InsertTransaction_def
    by (rule keeps_exec [OF on_tables_recorded]) (auto simp: insert_transaction_def recorded_def split: if_splits)
  show "keeps (recorded u k) (UpdateTransactionStatus r st e)"
    "keeps (recorded u k) (UpdateTransactionMeta r me)" "keeps (recorded u k) (mark_reversed r)"
    unfolding UpdateTransactionStatus_def UpdateTransactionMeta_def mark_reversed_def
    by (rule keeps_recorded_update, simp)+
qed









section \<open>Payments with reliable statements\<close>

lemma ref_absent:
  assumes "k \<notin> set (refs w)"
  shows "tx_by_ref k w = None" and "find (\<lambda>t. t_user_id t = u \<and> t_reference t = k) (transactions w) = None"
  using assms by (auto simp: tx_by_ref_def find_None_iff refs_def)

lemma find_replayed_new:
  assumes "reliable w" and "k \<notin> set (refs w)"
  shows "run_state (find_replayed u k b) w = (Inr None, if b then step w else w)"
  using assms ref_absent [OF assms(2)]
  by (simp add: find_replayed_def FindTransactionByReference_def run_or_return run_query_row)

lemma FindByUserID_run:
  "reliable w \<Longrightarrow> wallet_of u w = Some wal \<Longrightarrow> run_state (FindByUserID u) w = (Inr wal, step w)"
  by (simp add: FindByUserID_def run_or_return run_query_row)

lemma vas_payment_healthy:
  assumes h: "healthy w" and a: "accounts w u = Some a" and n: "0 < n" "in_i64 n"
    and k: "length k \<le> 93" "k \<notin> set (refs w)" "k @ ''_FB'' \<notin> set (refs w)"
      "''REV_'' @ k \<notin> set (refs w)" "''REV_'' @ k @ ''_FB'' \<notin> set (refs w)"
    and run: "run_state (vas_payment s bills u k b cat n na m) w = (res, w')"
  shows "wallet_purse w' = (if succeeded res then (wallet_purse w)(u \<mapsto> (ac_wallet a, ac_balance a - n))
      else wallet_purse w)"
proof -
  obtain wal where wal: "wallet_of u w = Some wal" and aw: "a = account_of wal"
    using a by (rule accounts_SomeE)
  have rel: "reliable w" and ok: "wallet_tables_ok w" using h by (simp_all add: healthy_def)
  let ?w1 = "step w"
  have ok1: "wallet_tables_ok ?w1" "reliable ?w1" "accounts ?w1 u = Some a"
    using rel ok a by (simp_all add: on_tables_step)
  have run1: "run_state (or_return (DebitWithLock NoTx u n) (\<lambda>e. e) (\<lambda>_. do {
       t \<leftarrow> vas_tx wal k cat n na (vs_marshal s m);
       inserted \<leftarrow> InsertTransaction t;
       case inserted of
         Inl e \<Rightarrow> insert_failed u k b (w_id wal) n e
       | Inr _ \<Rightarrow> do {
           result \<leftarrow> ExecuteWithFallback t (primary_call s bills k cat n m) (buildFallbackCall s k cat n m);
           finish_vas s u cat n t result } })) ?w1 = (res, w')"
    using run unfolding vas_payment_def run_or_return_Inr [OF FindByUserID_run [OF rel wal]] .
  show ?thesis
  proof (cases "can_debit n a")
    case False
    with DebitWithLock_success [OF ok1(1), of NoTx u n] ok1(3) run1
    have "\<exists>e. run_state (DebitWithLock NoTx u n) ?w1 = (Inl e, w') \<and> \<not> succeeded res"
      by (auto simp: run_or_return split: prod.splits sum.splits)
    with DebitWithLock_error [of NoTx u n ?w1] accounts_wallets [of w' w] show ?thesis
      by (auto intro: wallet_purse_accounts)
  next
    case True
    obtain wl now where debit: "run_state (DebitWithLock NoTx u n) ?w1 = (Inr wl, ?w1\<lparr>tick := tick ?w1 + 4,
       wallets := set_rows (\<lambda>x. w_id x = ac_wallet a) (debit_row n now) (wallets ?w1)\<rparr>)" (is "_ = (_, ?w2')")
      using run_DebitWithLock [OF ok1 True] by blast
    define w2 where "w2 = ?w2'"
    note debit = debit [folded w2_def]
    have ok2: "wallet_tables_ok w2" using keeps_ok_DebitWithLock debit ok1(1) by (rule keeps_run)
    have a2: "accounts w2 = (accounts w)(u \<mapsto> debit n a)"
      using DebitWithLock_success [OF ok1(1) debit] a by auto
    have w2: "transactions w2 = transactions w" "reliable w2" "fresh_uuids w2"
      using h by (simp_all add: w2_def healthy_def reliable_def fresh_uuids_def)
    let ?w3 = "w2\<lparr>tick := tick w2 + 3\<rparr>"
    obtain t where t: "run_state (vas_tx wal k cat n na (vs_marshal s m)) w2 = (t, ?w3)"
      "t_id t = uuid_at w2 (tick w2)" "t_user_id t = w_user_id wal" "t_wallet_id t = w_id wal"
      "t_reference t = k" "t_external_ref t = []" "t_type t = TxTypeDebit" "t_amount t = n"
      "t_commission t = 0" "t_fee t = 0" "t_balance_before t = w_balance wal"
      "t_balance_after t = i64 (w_balance wal - n)" "t_provider t = ''flutterwave''"
      "t_reversed_tx_id t = None"
      by (rule vas_tx_run)
    have tu: "t_user_id t = u" using t(3) wallet_ofD [OF wal] by simp
    have ok3: "wallet_tables_ok ?w3" using ok2 by simp
    have a3: "accounts ?w3 u = Some (debit n a)" using a2 by simp
    have ins: "insertable t ?w3"
    proof (rule insertable_row [OF ok3 a3])
      show "tx_row_ok t"
        using t n k(1) wallet_of_row_ok [OF ok wal] by (simp add: tx_row_ok_def wallet_row_ok_def in_i64_def [of 0])
      show "t_id t \<notin> set (map t_id (transactions ?w3))"
        using w2 t(2) by (auto simp: fresh_uuids_def)
      show "t_reference t \<notin> set (refs ?w3)" using w2(1) k(2) t(5) by (simp add: refs_def)
    qed (use t tu aw in simp_all)
    define w4 where "w4 = ?w3\<lparr>tick := tick ?w3 + 1, transactions := transactions ?w3 @ [t]\<rparr>"
    have w4: "run_state (InsertTransaction t) ?w3 = (Inr (), w4)"
      unfolding w4_def using w2(2) ins by (intro run_InsertTransaction) simp_all
    have a4: "accounts w4 = (accounts w)(u \<mapsto> debit n a)"
      using a2 accounts_wallets [of w4 w2] by (simp add: w4_def)
    have h4: "healthy w4"
      unfolding healthy_def
    proof (intro conjI)
      show "wallet_tables_ok w4" using keeps_ok_InsertTransaction w4 ok3 by (rule keeps_run)
      show "reliable w4" using w2(2) by (simp add: w4_def reliable_def)
      show "fresh_uuids w4"
        using w2(3) t(2) by (intro fresh_after_insert [of w2 _ w4]) (simp_all add: w4_def)
    qed
    have r4: "refs w4 = refs w @ [k]" using w2(1) t(5) by (simp add: w4_def refs_def)
    obtain er w5 where er: "run_state (ExecuteWithFallback t (primary_call s bills k cat n m)
        (buildFallbackCall s k cat n m)) w4 = (er, w5)"
      by (cases "run_state (ExecuteWithFallback t (primary_call s bills k cat n m)
        (buildFallbackCall s k cat n m)) w4")
    have fin: "run_state (finish_vas s u cat n t er) w5 = (res, w')"
      using run1 debit t(1) w4 er by (simp add: run_or_return)
    have "wallet_purse w5 = (if succeeded er then wallet_purse w4
        else (wallet_purse w4)(u \<mapsto> (ac_wallet (debit n a), ac_balance (debit n a) + t_amount t)))"
    proof (rule engine_refunds [OF h4 _ tu _ quiet_primary_call _ _ _ _ _ _ _ er])
      show "accounts w4 u = Some (debit n a)" using a4 by simp
      show "t_wallet_id t = ac_wallet (debit n a)" using t(4) aw by simp
      show "\<forall>g. buildFallbackCall s k cat n m = Some g \<longrightarrow> quiet g" using quiet_buildFallbackCall by blast
      show "tx_exists (t_id t) w4" by (simp add: tx_exists_def w4_def)
      show "sound_payment t" using t n k(1) by (simp add: sound_payment_def in_i64_def)
      show "can_credit (t_amount t) (debit n a)"
        using t(8) accounts_row_ok [OF ok a] by (simp add: can_credit_def)
      show "''REV_'' @ t_reference t \<notin> set (refs w4)" "t_reference t @ ''_FB'' \<notin> set (refs w4)"
        "''REV_'' @ t_reference t @ ''_FB'' \<notin> set (refs w4)"
        using k by (auto simp: r4 t(5) dest: arg_cong [of _ _ length])
    qed
    then have w5: "wallet_purse w5 = (if succeeded er then wallet_purse w4
        else (wallet_purse w4)(u \<mapsto> (ac_wallet a, ac_balance a)))"
      using t(8) by simp
    have "wallet_purse w' = wallet_purse w5" and "succeeded res = succeeded er"
      using finish_vas_run [OF fin] by (auto intro: wallet_purse_accounts)
    with w5 purse_debit [OF a4] wallet_purse_same [OF a] show ?thesis by auto
  qed
qed

text \<open>
  C2. When no statement fails, identifiers are drawn afresh, the amount is positive and the reference of
  the payment, with the three made from it (of its reversal, of the fallback attempt and of that
  one's reversal), is new, a payment is all or nothing: if the call returns a transaction the
  payer's wallet has paid exactly the amount, if it returns an error the balance is what it was, and no
  other wallet changes. References of clients are never longer than 93 characters; a taken reference of
  the fallback does lose money (\<open>taken_fallback_reference_loses_refund\<close>).
\<close>

theorem payment_all_or_nothing:
  assumes "healthy w" and "accounts w u = Some a" and "0 < n" and "in_i64 n"
    and "fst (run_state (vasReference u c) w) = (k, b)" and "length k \<le> 93"
    and "k \<notin> set (refs w)" and "k @ ''_FB'' \<notin> set (refs w)"
    and "''REV_'' @ k \<notin> set (refs w)" and "''REV_'' @ k @ ''_FB'' \<notin> set (refs w)"
    and "vs_bills s \<noteq> None"
  shows "case run_state (executeVAS s u cat n na m c) w of (res, w') \<Rightarrow>
    wallet_purse w' = (if succeeded res then (wallet_purse w)(u \<mapsto> (ac_wallet a, ac_balance a - n))
      else wallet_purse w)"
proof -
  from assms(11) obtain bills where bills: "vs_bills s = Some bills" by blast
  let ?m = "if b then AList.update ''client_reference'' (TrimSpace c) m else m"
  obtain res w' where run: "run_state (executeVAS s u cat n na m c) w = (res, w')"
    by (cases "run_state (executeVAS s u cat n na m c) w")
  obtain w0 where key: "run_state (vasReference u c) w = ((k, b), w0)"
    using assms(5) by (cases "run_state (vasReference u c) w") simp
  from quiet_run [OF quiet_vasReference key] obtain i where w0: "w0 = w\<lparr>tick := tick w + i\<rparr>" .
  let ?w1 = "if b then step w0 else w0"
  have "reliable w0" "k \<notin> set (refs w0)" using assms(1,7) by (simp_all add: w0 healthy_def reliable_def refs_def)
  note replay = find_replayed_new [OF this, of u b]
  have pay: "run_state (vas_payment s bills u k b cat n na ?m) ?w1 = (res, w')"
    using run replay by (simp add: executeVAS_def bills key run_or_return)
  have w1: "?w1 = w\<lparr>tick := tick w + (if b then Suc i else i)\<rparr>" by (simp add: w0 step_def)
  have "healthy ?w1" unfolding w1 using assms(1) by (simp add: healthy_def reliable_def fresh_uuids_later)
  moreover have same: "accounts ?w1 = accounts w" "refs ?w1 = refs w"
    unfolding w1 by (simp_all add: accounts_def wallet_of_def refs_def fun_eq_iff)
  ultimately have "wallet_purse w' = (if succeeded res
      then (wallet_purse ?w1)(u \<mapsto> (ac_wallet a, ac_balance a - n)) else wallet_purse ?w1)"
    using assms pay by (intro vas_payment_healthy) simp_all
  moreover have "wallet_purse ?w1 = wallet_purse w" by (rule wallet_purse_accounts) (rule same)
  ultimately show ?thesis using run by simp
qed

lemma sample_healthy: "healthy sample_world"
  using paid_world_healthy sample_tables_ok reliable_sample
  by (simp add: healthy_def fresh_uuids_def paid_world_def sample_world_def empty_world_def sample_tx_def)

lemma payment_all_or_nothing_witness:
  "wallet_purse (snd (run_state (executeVAS (sample_vas ''pending'' None) ''ada'' CategoryAirtime
     5000 ''Airtime'' [] ''1'') sample_world)) ''ada'' = Some (''wa'', 100000)"
proof -
  let ?x = "executeVAS (sample_vas ''pending'' None) ''ada'' CategoryAirtime 5000 ''Airtime'' [] ''1''"
  let ?a = "\<lparr>ac_wallet = ''wa'', ac_balance = 100000, ac_spend = 0, ac_limit = 5000000\<rparr>"
  have a: "accounts sample_world ''ada'' = Some ?a" by code_simp
  have f: "\<not> succeeded (fst (run_state ?x sample_world))" "wallet_purse sample_world ''ada'' = Some (''wa'', 100000)"
    by code_simp+
  have k: "fst (run_state (vasReference ''ada'' ''1'') sample_world) = (''FB-ada-1'', True)" "length ''FB-ada-1'' \<le> 93"
    "''FB-ada-1'' \<notin> set (refs sample_world)" "''FB-ada-1'' @ ''_FB'' \<notin> set (refs sample_world)"
    "''REV_'' @ ''FB-ada-1'' \<notin> set (refs sample_world)" "''REV_'' @ ''FB-ada-1'' @ ''_FB'' \<notin> set (refs sample_world)"
    by code_simp+
  have "(0::int) < 5000" "in_i64 5000" "vs_bills (sample_vas ''pending'' None) \<noteq> None"
    by (simp_all add: in_i64_def sample_vas_def)
  from payment_all_or_nothing [OF sample_healthy a this(1,2) k this(3),
      where cat = CategoryAirtime and na = "''Airtime''" and m = "[]"] f
  show ?thesis by (auto split: prod.splits)
qed

section \<open>Findings\<close>

text \<open>
  \<open>BettingFundRequest.Amount\<close> has no lower bound: a negative top-up passes the debit's checks,
  is refused by the table's \<open>CHECK (amount > 0)\<close> and is refunded, which restores the balance but
  not the daily spend. The call ends in an error and has lowered the user's daily spend
  by the amount, so that the daily limit can be spent again.
\<close>

theorem negative_amount_resets_daily_spend:
  assumes "healthy w" and "accounts w u = Some a" and "n < 0" and "can_debit n a"
    and "ref_chars c \<noteq> []" and "vas_key u c \<notin> set (refs w)" and "vs_bills s \<noteq> None"
  shows "case run_state (executeVAS s u cat n na m c) w of (res, w') \<Rightarrow>
    \<not> succeeded res \<and> accounts w' = (accounts w)(u \<mapsto> a\<lparr>ac_spend := ac_spend a + n\<rparr>)"
proof -
  let ?k = "vas_key u c" and ?m = "AList.update ''client_reference'' (TrimSpace c) m"
  from assms(7) obtain bills where b: "vs_bills s = Some bills" by blast
  obtain res w' where run: "run_state (executeVAS s u cat n na m c) w = (res, w')"
    by (cases "run_state (executeVAS s u cat n na m c) w")
  obtain wal where wal: "wallet_of u w = Some wal" and aw: "a = account_of wal"
    using assms(2) by (rule accounts_SomeE)
  have rel: "reliable w" and ok: "wallet_tables_ok w" using assms(1) by (simp_all add: healthy_def)
  let ?w1 = "step (step w)"
  have ok1: "wallet_tables_ok ?w1" "reliable ?w1" "accounts ?w1 u = Some a"
    using rel ok assms(2) by (simp_all add: on_tables_step)
  have wal1: "wallet_of u (step w) = Some wal" "reliable (step w)" using wal rel by simp_all
  obtain wl now where debit: "run_state (DebitWithLock NoTx u n) ?w1 = (Inr wl, ?w1\<lparr>tick := tick ?w1 + 4,
     wallets := set_rows (\<lambda>x. w_id x = ac_wallet a) (debit_row n now) (wallets ?w1)\<rparr>)" (is "_ = (_, ?w2')")
    using run_DebitWithLock [OF ok1 assms(4)] by blast
  define w2 where "w2 = ?w2'"
  note debit = debit [folded w2_def]
  have ok2: "wallet_tables_ok w2" using keeps_ok_DebitWithLock debit ok1(1) by (rule keeps_run)
  have a2: "accounts w2 = (accounts w)(u \<mapsto> debit n a)"
    using DebitWithLock_success [OF ok1(1) debit] assms(2) by auto
  have w2: "refs w2 = refs w" "reliable w2"
    using rel by (simp_all add: w2_def refs_def reliable_def)
  obtain t where t: "run_state (vas_tx wal ?k cat n na (vs_marshal s ?m)) w2 = (t, w2\<lparr>tick := tick w2 + 3\<rparr>)"
    "t_amount t = n"
    by (rule vas_tx_run)
  let ?w3 = "w2\<lparr>tick := tick w2 + 3\<rparr>"
  have "\<not> insertable t ?w3"
    using t(2) assms(3) by (simp add: insertable_def insert_transaction_def tx_row_ok_def)
  define w4 where "w4 = ?w3\<lparr>tick := tick ?w3 + 1\<rparr>"
  obtain e where ins: "run_state (InsertTransaction t) ?w3 = (Inl e, w4)"
    unfolding w4_def using \<open>\<not> insertable t ?w3\<close> by (rule run_InsertTransaction_refused)
  have c: "can_credit n (debit n a)" and a4: "accounts w4 u = Some (debit n a)"
    using accounts_row_ok [OF ok assms(2)] a2 by (simp_all add: can_credit_def w4_def)
  have ok4: "wallet_tables_ok w4" "reliable w4" using ok2 w2(2) by (simp_all add: w4_def)
  obtain w5 where w5: "run_state (CreditBalance (ac_wallet (debit n a)) n) w4 = (Inr (), w5)"
    and refs5: "refs w5 = refs w" "reliable w5"
    using run_CreditBalance [OF ok4 a4 c] w2 by (auto simp: refs_def reliable_def w4_def)
  have a5: "accounts w5 = (accounts w)(u \<mapsto> credit n (debit n a))"
    using CreditBalance_success [OF ok4(1) a4 w5] a2 by (simp add: w4_def)
  have "?k \<notin> set (refs w5)" using assms(6) refs5(1) by simp
  note miss = ref_absent [OF this]
  have "run_state (vas_payment s bills u ?k True cat n na ?m) (step w) =
      (Inl (Wrap ''create transaction'' e), step w5)"
    using FindByUserID_run [OF wal1(2,1)] debit t(1) ins w5 miss refs5(2) aw
    by (cases "u = []") (simp_all add: vas_payment_def run_or_return insert_failed_def FindTransactionByReference_def run_query_row)
  with run find_replayed_new [OF rel assms(6), of u True]
  have "res = Inl (Wrap ''create transaction'' e)" "w' = step w5"
    by (auto simp: executeVAS_def b run_vasReference [OF assms(5)] run_or_return)
  with run a5 show ?thesis
    by (simp add: credit_def debit_def)
qed

definition spent_world :: world where
  "spent_world = sample_world\<lparr>
     wallets := [(sample_wallet ''wa'' ''ada'' 70000)\<lparr>w_daily_spend := 30000\<rparr>, sample_wallet ''wb'' ''bola'' 20000]\<rparr>"

lemma spent_world_facts:
  "healthy spent_world"
  "accounts spent_world ''ada'' = Some \<lparr>ac_wallet = ''wa'', ac_balance = 70000, ac_spend = 30000, ac_limit = 5000000\<rparr>"
  "refs spent_world = [''FUND-INIT-1'']"
proof -
  have "wallet_tables_ok spent_world" by code_simp
  then show "healthy spent_world"
    using sample_healthy by (simp add: healthy_def reliable_def fresh_uuids_def spent_world_def)
qed (code_simp+)

lemma negative_amount_resets_daily_spend_witness:
  "map_option (\<lambda>a. (ac_balance a, ac_spend a)) (accounts (snd (run_state (executeVAS (sample_vas ''success'' None)
     ''ada'' CategoryBetting (- 30000) ''Betting'' [] ''1'') spent_world)) ''ada'') = Some (70000, 0)"
proof -
  let ?a = "\<lparr>ac_wallet = ''wa'', ac_balance = 70000, ac_spend = 30000, ac_limit = 5000000\<rparr>"
  have "can_debit (- 30000) ?a" "ref_chars ''1'' \<noteq> []" "vas_key ''ada'' ''1'' \<notin> set (refs spent_world)"
    "vs_bills (sample_vas ''success'' None) \<noteq> None" "(- 30000 :: int) < 0"
    by (code_simp, code_simp, code_simp, simp_all add: sample_vas_def)
  from negative_amount_resets_daily_spend [OF spent_world_facts(1,2) this(5,1-4), where cat = CategoryBetting
      and na = "''Betting''" and m = "[]"]
  show ?thesis by (auto split: prod.splits)
qed

lemma check_status_success:
  "run_state (check_status p r) w = (Some st, w') \<Longrightarrow> CheckBillStatus p (tick w) r = Inr st \<and> ub_status st = ''success''"
  by (auto simp: check_status_def split: sum.splits if_splits)

lemma check_delivery_success:
  "run_state (check_delivery p r x) w = (Some st, w') \<Longrightarrow>
     \<exists>k y. CheckBillStatus p k y = Inr st \<and> ub_status st = ''success''"
  unfolding check_delivery_def
  by (erule bind_run) (auto dest: check_status_success split: option.splits if_splits)

lemma poll_delivery_success:
  "run_state (poll_delivery n p r x) w = (Inr st, w') \<Longrightarrow>
     \<exists>k y. CheckBillStatus p k y = Inr st \<and> ub_status st = ''success''"
proof (induction n arbitrary: w)
  case (Suc n)
  from Suc.prems obtain f w1 where "run_state (check_delivery p r x) w = (f, w1)"
    and "run_state (case f of Some st \<Rightarrow> ok st | None \<Rightarrow> poll_delivery n p r x) w1 = (Inr st, w')"
    unfolding poll_delivery.simps by (rule bind_run)
  then consider "run_state (poll_delivery n p r x) w1 = (Inr st, w')" |
    "run_state (check_delivery p r x) w = (Some st, w1)"
    by (cases f) auto
  then show ?case by cases (rule Suc.IH, assumption, rule check_delivery_success, assumption)
qed simp

lemma confirmProviderDelivery_success:
  assumes "run_state (confirmProviderDelivery n p r x) w = (Inr st, w')"
  shows "\<exists>k y. CheckBillStatus p k y = Inr st \<and> ub_status st = ''success''"
proof -
  from assms obtain f w1 where "run_state (check_delivery p r x) w = (f, w1)"
    and "run_state (case f of Some st \<Rightarrow> ok st | None \<Rightarrow> poll_delivery n p r x) w1 = (Inr st, w')"
    unfolding confirmProviderDelivery_def by (rule bind_run)
  then consider "run_state (poll_delivery n p r x) w1 = (Inr st, w')" |
    "run_state (check_delivery p r x) w = (Some st, w1)"
    by (cases f) auto
  then show ?thesis by cases (rule poll_delivery_success, assumption, rule check_delivery_success, assumption)
qed

text \<open>
  The primary call succeeds only after the aggregator has reported the status \<open>success\<close>; the
  fallback's delivery is not confirmed: once it accepts the purchase the call succeeds whatever
  status it reports, \<open>failed\<close> included.
\<close>

theorem fallback_status_is_ignored:
  assumes "vs_fallback_bills s = Some fb" and "\<forall>n p. succeeded (PurchaseBill fb n p)"
  shows "(\<exists>f. buildFallbackCall s ref cat n m = Some f \<and> (\<forall>w. succeeded (fst (run_state f w)))) \<and>
    (succeeded (fst (run_state (primary_call s bills ref cat n m) w)) \<longrightarrow>
      (\<exists>k r st. CheckBillStatus bills k r = Inr st \<and> ub_status st = ''success''))"
proof
  show "\<exists>f. buildFallbackCall s ref cat n m = Some f \<and> (\<forall>w. succeeded (fst (run_state f w)))"
    using assms by (auto simp: buildFallbackCall_def buildReceiptEnvelope_def run_or_return succeeded_def
        split: sum.splits prod.splits)
  show "succeeded (fst (run_state (primary_call s bills ref cat n m) w)) \<longrightarrow>
      (\<exists>k r st. CheckBillStatus bills k r = Inr st \<and> ub_status st = ''success'')"
  proof
    assume "succeeded (fst (run_state (primary_call s bills ref cat n m) w))"
    then obtain v w' where "run_state (primary_call s bills ref cat n m) w = (Inr v, w')"
      by (cases "run_state (primary_call s bills ref cat n m) w") (auto simp: succeeded_def split: sum.splits)
    then show "\<exists>k r st. CheckBillStatus bills k r = Inr st \<and> ub_status st = ''success''"
      unfolding primary_call_def
      by (elim or_return_success) (blast dest: confirmProviderDelivery_success)
  qed
qed

lemma fallback_status_is_ignored_witness:
  "\<exists>f. buildFallbackCall (sample_vas ''pending'' (Some ''failed'')) ''FB-1'' CategoryAirtime 5000 [] = Some f \<and>
     succeeded (fst (run_state f sample_world))"
proof -
  have "vs_fallback_bills (sample_vas ''pending'' (Some ''failed'')) = Some (sample_bills ''failed'')"
    "\<forall>n p. succeeded (PurchaseBill (sample_bills ''failed'') n p)"
    by (simp_all add: sample_vas_def sample_bills_def)
  from fallback_status_is_ignored [OF this, where ref = "''FB-1''" and cat = CategoryAirtime and n = 5000
      and m = "[]"]
  show ?thesis by blast
qed

section \<open>The betting guard\<close>

text \<open>
  The risk guard is monotone: for stored statistics that are not negative and small enough
  not to wrap, a top-up at least as large as one that is challenged is challenged too, and
  nothing that is not positive ever is once the user has topped up before.
\<close>

theorem betting_guard_monotone:
  assumes "0 \<le> st_avg st" and "0 \<le> st_max st" and "st_avg st * 3 < 2 ^ 63" and "st_max st * 2 < 2 ^ 63"
    and "n \<le> n'" and "requiresBettingRiskChallenge n (Some st)"
  shows "requiresBettingRiskChallenge n' (Some st) \<and> 0 < n"
proof -
  have "i64 (st_avg st * 3) = st_avg st * 3" "i64 (st_max st * 2) = st_max st * 2"
    using assms(1-4) by (auto intro!: i64_id simp: in_i64_def)
  with assms(2,5,6) show ?thesis
    by (auto simp: requiresBettingRiskChallenge_def Let_def split: if_splits)
qed

lemma betting_guard_monotone_witness:
  "requiresBettingRiskChallenge 400000 (Some \<lparr>st_count = 4, st_total = 400000, st_avg = 100000, st_max = 200000\<rparr>)"
proof -
  let ?st = "\<lparr>st_count = 4, st_total = 400000, st_avg = 100000, st_max = 200000\<rparr> :: spend_stats"
  have "requiresBettingRiskChallenge 300000 (Some ?st)" by code_simp
  with betting_guard_monotone [of ?st 300000 400000] show ?thesis by simp
qed


end
