(* ===== verification/Ledger.thy ===== *)
theory Ledger
  imports WalletRepo
begin

text \<open>
  \<open>internal/ledger/ledger.go\<close>: the double-entry ledger that bank transfers are paid from. A
  wallet has no stored balance here, it is the sum of its entries. Every entry carries a
  reference and the table admits one entry per reference. Identifiers are taken to be
  well-formed UUIDs.
\<close>

section \<open>The table\<close>

definition entry_row_ok :: "entry \<Rightarrow> bool" where
  "entry_row_ok e \<longleftrightarrow>
     in_i64 (e_debit e) \<and> in_i64 (e_credit e) \<and> 0 \<le> e_debit e \<and> 0 \<le> e_credit e \<and>
     (0 < e_debit e \<and> e_credit e = 0 \<or> 0 < e_credit e \<and> e_debit e = 0) \<and>
     length (e_reference e) \<le> 120"

definition entry_refs :: "world \<Rightarrow> string list" where
  "entry_refs s = map e_reference (ledger_entries s)"

text \<open>
  \<open>INSERT ... ON CONFLICT (reference) DO NOTHING\<close>: the checks of the row come first, then
  the reference, then the primary key and the foreign key.
\<close>

definition insert_entry :: "entry \<Rightarrow> world \<Rightarrow> world option" where
  "insert_entry e s =
     (if \<not> entry_row_ok e then None
      else if e_reference e \<in> set (entry_refs s) then Some s
      else if wallet_exists (e_wallet_id e) s \<and> e_id e \<notin> set (map e_id (ledger_entries s))
      then Some (s\<lparr>ledger_entries := ledger_entries s @ [e]\<rparr>) else None)"

definition ledger_balance :: "uuid \<Rightarrow> world \<Rightarrow> int" where
  "ledger_balance w s =
     (let rows = filter (\<lambda>e. e_wallet_id e = w) (ledger_entries s)
      in sum_list (map e_credit rows) - sum_list (map e_debit rows))"

section \<open>The service\<close>

text \<open>A sum that does not fit is an error of \<open>Scan\<close>.\<close>

definition sum_entries :: "uuid \<Rightarrow> int program" where
  "sum_entries w = statement (\<lambda>s.
     (if in_i64 (ledger_balance w s) then Inr (ledger_balance w s) else Inl (ErrDb ''scan''), s))"

definition Balance :: "uuid \<Rightarrow> int program" where
  "Balance walletID = or_return (sum_entries walletID) (Wrap ''ledger.Balance'') ok"

definition insert_ledger :: "entry \<Rightarrow> unit program" where
  "insert_ledger e =
     or_return (exec (\<lambda>now. insert_entry (e\<lparr>e_created_at := now\<rparr>))) (Wrap ''ledger.insert'') (\<lambda>_. ok ())"

definition Credit :: "uuid \<Rightarrow> int \<Rightarrow> string \<Rightarrow> entry_type \<Rightarrow> string \<Rightarrow> unit program" where
  "Credit walletID amountKobo ref t desc = do {
     i \<leftarrow> uuid_new;
     insert_ledger \<lparr>e_id = i, e_wallet_id = walletID, e_debit = 0, e_credit = amountKobo,
       e_reference = ref, e_type = t, e_description = desc, e_created_at = 0\<rparr>
   }"

definition Debit :: "uuid \<Rightarrow> int \<Rightarrow> string \<Rightarrow> entry_type \<Rightarrow> string \<Rightarrow> unit program" where
  "Debit walletID amountKobo ref t desc =
     or_return (Balance walletID) (\<lambda>e. e) (\<lambda>balance.
     if balance < amountKobo
     then fail (ErrMsg (''ledger.Debit: insufficient balance (have '' @ show_int balance @
                '' kobo, need '' @ show_int amountKobo @ '' kobo)''))
     else do {
       i \<leftarrow> uuid_new;
       insert_ledger \<lparr>e_id = i, e_wallet_id = walletID, e_debit = amountKobo, e_credit = 0,
         e_reference = ref, e_type = t, e_description = desc, e_created_at = 0\<rparr>
     })"

text \<open>
  The balance query of \<open>DebitAtomic\<close> asks for row locks on an aggregate (\<open>SELECT SUM ...
  FOR UPDATE\<close>). Whether the database accepts that is the parameter \<open>locks\<close>; PostgreSQL
  does not: it answers \<open>FOR UPDATE is not allowed with aggregate functions\<close>.
\<close>

definition locked_sum :: "bool \<Rightarrow> uuid \<Rightarrow> int program" where
  "locked_sum locks w =
     (if locks then sum_entries w
      else statement (\<lambda>s. (Inl (ErrDb ''FOR UPDATE is not allowed with aggregate functions''), s)))"

definition DebitAtomic ::
  "bool \<Rightarrow> uuid \<Rightarrow> int \<Rightarrow> string \<Rightarrow> entry_type \<Rightarrow> string \<Rightarrow> unit program" where
  "DebitAtomic locks walletID amountKobo ref t desc =
     local_tx NoTx (Wrap ''ledger.DebitAtomic: begin tx'') (\<lambda>e. e) (
       or_return (locked_sum locks walletID) (Wrap ''ledger.DebitAtomic: balance check'') (\<lambda>balance.
       if balance < amountKobo then fail (ErrMsg ''ledger.DebitAtomic: insufficient balance'')
       else do {
         i \<leftarrow> uuid_new;
         or_return (exec (\<lambda>now. insert_entry \<lparr>e_id = i, e_wallet_id = walletID, e_debit = amountKobo,
             e_credit = 0, e_reference = ref, e_type = t, e_description = desc, e_created_at = now\<rparr>))
           (Wrap ''ledger.DebitAtomic: insert'') (\<lambda>_. ok ())
       }))"

definition GetEntries :: "uuid \<Rightarrow> int \<Rightarrow> int \<Rightarrow> entry list program" where
  "GetEntries walletID limit offset =
     or_return
       (if limit < 0 \<or> offset < 0 then statement (\<lambda>s. (Inl (ErrDb ''negative bound''), s))
        else query_all (\<lambda>s. page_of e_created_at limit offset
                              (filter (\<lambda>e. e_wallet_id e = walletID) (ledger_entries s))))
       (Wrap ''ledger.GetEntries'') ok"

section \<open>Frames\<close>

text \<open>\<open>posts m\<close>: all that \<open>m\<close> does to the world is to let time pass and change the ledger.\<close>

definition posts :: "(world, 'a) state \<Rightarrow> bool" where
  "posts m \<longleftrightarrow> (\<forall>s. \<exists>k es. snd (run_state m s) = s\<lparr>tick := tick s + k, ledger_entries := es\<rparr>)"

lemma posts_run:
  assumes "posts m" and "run_state m s = (v, s')"
  obtains k where "s' = s\<lparr>tick := tick s + k, ledger_entries := ledger_entries s'\<rparr>"
proof -
  from assms obtain k es where "s' = s\<lparr>tick := tick s + k, ledger_entries := es\<rparr>"
    by (metis posts_def snd_conv)
  with that [of k] show thesis by simp
qed

lemma posts_quiet: "quiet m \<Longrightarrow> posts m"
proof (unfold posts_def, rule allI)
  fix s assume "quiet m"
  then obtain k where "snd (run_state m s) = s\<lparr>tick := tick s + k\<rparr>" by (auto simp: quiet_def)
  then show "\<exists>k es. snd (run_state m s) = s\<lparr>tick := tick s + k, ledger_entries := es\<rparr>"
    by (intro exI [of _ k] exI [of _ "ledger_entries s"]) simp
qed

lemma posts_bind:
  assumes "posts m" and "\<And>v. posts (f v)"
  shows "posts (State_Monad.bind m f)"
  unfolding posts_def
proof
  fix s
  obtain v s1 where r: "run_state m s = (v, s1)" by (cases "run_state m s")
  with assms(1) obtain i es where "s1 = s\<lparr>tick := tick s + i, ledger_entries := es\<rparr>"
    by (metis posts_def snd_conv)
  moreover obtain j es' where "snd (run_state (f v) s1) = s1\<lparr>tick := tick s1 + j, ledger_entries := es'\<rparr>"
    using assms(2) by (metis posts_def)
  ultimately show "\<exists>k es. snd (run_state (State_Monad.bind m f) s) = s\<lparr>tick := tick s + k, ledger_entries := es\<rparr>"
    using r by (intro exI [of _ "i + j"] exI [of _ es']) simp
qed

lemma posts_or_return: "posts m \<Longrightarrow> (\<And>v. posts (f v)) \<Longrightarrow> posts (or_return m w f)"
  unfolding or_return_def by (intro posts_bind) (auto split: sum.splits intro: posts_quiet)

lemma posts_if: "posts m \<Longrightarrow> posts n \<Longrightarrow> posts (if b then m else n)"
  by simp

lemma posts_sum_entries: "posts (sum_entries w)"
  unfolding posts_def sum_entries_def
proof
  fix s
  show "\<exists>k es. snd (run_state (statement (\<lambda>s. (if in_i64 (ledger_balance w s) then Inr (ledger_balance w s)
      else Inl (ErrDb ''scan''), s))) s) = s\<lparr>tick := tick s + k, ledger_entries := es\<rparr>"
    by (intro exI [of _ 1] exI [of _ "ledger_entries s"]) (simp add: run_statement step_def)
qed

lemma posts_locked_sum: "posts (locked_sum locks w)"
proof (cases locks)
  case False
  have "quiet (statement (\<lambda>s. (Inl (ErrDb ''FOR UPDATE is not allowed with aggregate functions''), s)) :: int program)"
    by (rule quietI [of _ 1]) (simp add: run_statement step_def)
  with False show ?thesis by (simp add: locked_sum_def posts_quiet)
qed (simp add: locked_sum_def posts_sum_entries)

lemma posts_exec_entry: "posts (exec (\<lambda>now. insert_entry (f now)))"
  unfolding posts_def
proof
  fix s
  show "\<exists>k es. snd (run_state (exec (\<lambda>now. insert_entry (f now))) s) = s\<lparr>tick := tick s + k, ledger_entries := es\<rparr>"
    by (intro exI [of _ 1] exI [of _ "ledger_entries (snd (run_state (exec (\<lambda>now. insert_entry (f now))) s))"])
      (auto simp: run_exec insert_entry_def step_def split: option.splits)
qed

lemma posts_local_tx:
  assumes "posts m"
  shows "posts (local_tx NoTx wb wc m)"
  unfolding posts_def
proof
  fix s
  obtain v s1 where r: "run_state m (step s) = (v, s1)" by (cases "run_state m (step s)")
  with assms obtain k es where s1: "s1 = (step s)\<lparr>tick := tick (step s) + k, ledger_entries := es\<rparr>"
    by (metis posts_def snd_conv)
  let ?s' = "snd (run_state (local_tx NoTx wb wc m) s)"
  have "?s' = s\<lparr>tick := tick ?s', ledger_entries := ledger_entries ?s'\<rparr> \<and> tick s \<le> tick ?s'"
    using r s1 by (auto simp: local_tx_def run_begin_tx run_commit_tx rollback_def step_def split: sum.splits)
  then show "\<exists>k es. ?s' = s\<lparr>tick := tick s + k, ledger_entries := es\<rparr>"
    by (metis le_add_diff_inverse)
qed

lemmas posts_intros = posts_bind posts_or_return posts_if posts_local_tx posts_sum_entries
  posts_locked_sum posts_exec_entry

lemma posts_insert_ledger: "posts (insert_ledger e)"
  unfolding insert_ledger_def by (intro posts_intros) (auto intro: posts_quiet)

lemma posts_Credit: "posts (Credit w n ref t d)"
  unfolding Credit_def by (intro posts_bind posts_insert_ledger) (auto intro: posts_quiet)

lemma posts_Debit: "posts (Debit w n ref t d)"
  unfolding Debit_def Balance_def
  by (intro posts_intros posts_insert_ledger) (auto intro: posts_quiet)

lemma posts_DebitAtomic: "posts (DebitAtomic locks w n ref t d)"
  unfolding DebitAtomic_def by (intro posts_intros) (auto intro: posts_quiet)

section \<open>What one call does to the table\<close>

text \<open>A posting is any of the three calls that write.\<close>

datatype posting_kind = Crediting | Debiting | DebitingAtomically

record posting =
  p_kind :: posting_kind
  p_wallet :: uuid
  p_amount :: int
  p_ref :: string
  p_type :: entry_type
  p_desc :: string

definition post :: "bool \<Rightarrow> posting \<Rightarrow> unit program" where
  "post locks p =
     (case p_kind p of
        Crediting \<Rightarrow> Credit (p_wallet p) (p_amount p) (p_ref p) (p_type p) (p_desc p)
      | Debiting \<Rightarrow> Debit (p_wallet p) (p_amount p) (p_ref p) (p_type p) (p_desc p)
      | DebitingAtomically \<Rightarrow> DebitAtomic locks (p_wallet p) (p_amount p) (p_ref p) (p_type p) (p_desc p))"

text \<open>\<open>e\<close> is an entry that the posting may write.\<close>

definition entry_of :: "posting \<Rightarrow> entry \<Rightarrow> bool" where
  "entry_of p e \<longleftrightarrow> e_wallet_id e = p_wallet p \<and> e_reference e = p_ref p \<and> 0 < p_amount p \<and>
     e_credit e - e_debit e = (if p_kind p = Crediting then p_amount p else - p_amount p)"

text \<open>The table before and after: nothing, or one new entry under an unused reference.\<close>

inductive appends :: "(entry \<Rightarrow> bool) \<Rightarrow> world \<Rightarrow> world \<Rightarrow> bool" for P s s' where
  nothing: "ledger_entries s' = ledger_entries s \<Longrightarrow> appends P s s'"
| entry: "ledger_entries s' = ledger_entries s @ [e] \<Longrightarrow> P e \<Longrightarrow> entry_row_ok e \<Longrightarrow>
    e_reference e \<notin> set (entry_refs s) \<Longrightarrow> e_id e \<notin> set (map e_id (ledger_entries s)) \<Longrightarrow>
    appends P s s'"

inductive_cases appendsE: "appends P s s'"

lemma appends_weaken:
  "appends P t t' \<Longrightarrow> ledger_entries t = ledger_entries s \<Longrightarrow> ledger_entries t' = ledger_entries s' \<Longrightarrow>
     (\<And>e. P e \<Longrightarrow> Q e) \<Longrightarrow> appends Q s s'"
  by (cases rule: appends.cases, assumption) (metis appends.nothing, metis appends.entry entry_refs_def)

lemma entry_refs_cong: "ledger_entries t = ledger_entries s \<Longrightarrow> entry_refs t = entry_refs s"
  by (simp add: entry_refs_def)

lemma ledger_balance_cong: "ledger_entries t = ledger_entries s \<Longrightarrow> ledger_balance w t = ledger_balance w s"
  by (simp add: ledger_balance_def)

lemma exec_entry_cases:
  assumes "run_state (exec (\<lambda>now. insert_entry (f now))) s = (r, s')"
    and "\<And>now. e_reference (f now) = ref"
  shows "(succeeded r \<or> ledger_entries s' = ledger_entries s) \<and>
    (succeeded r \<longrightarrow> ref \<in> set (entry_refs s')) \<and> appends (\<lambda>e. \<exists>now. e = f now) s s'"
  using assms
  by (auto simp: run_exec insert_entry_def entry_refs_def split: if_splits option.splits
      intro: appends.intros)

lemma sum_entries_run:
  "run_state (sum_entries w) s = (r, s') \<Longrightarrow>
     s' = step s \<and> (\<forall>b. r = Inr b \<longrightarrow> b = ledger_balance w s)"
  by (auto simp: sum_entries_def run_statement ledger_balance_def split: if_splits)

lemma Balance_run:
  "run_state (Balance w) s = (r, s') \<Longrightarrow>
     s' = step s \<and> (\<forall>b. r = Inr b \<longrightarrow> b = ledger_balance w s)"
  by (auto simp: Balance_def run_or_return sum_entries_def run_statement ledger_balance_def
      split: if_splits)

lemma insert_ledger_cases:
  assumes "run_state (insert_ledger e) s = (r, s')"
  shows "(succeeded r \<or> ledger_entries s' = ledger_entries s) \<and>
    (succeeded r \<longrightarrow> e_reference e \<in> set (entry_refs s')) \<and>
    appends (\<lambda>x. \<exists>now. x = e\<lparr>e_created_at := now\<rparr>) s s'"
proof -
  obtain r1 where "run_state (exec (\<lambda>now. insert_entry (e\<lparr>e_created_at := now\<rparr>))) s = (r1, s')"
    and "succeeded r1 = succeeded r"
    using assms unfolding insert_ledger_def by (cases rule: or_return_cases) auto
  with exec_entry_cases [OF this(1), of "e_reference e"] show ?thesis by simp
qed


lemma Credit_cases:
  assumes "run_state (Credit w n ref t d) s = (r, s')"
  shows "(succeeded r \<or> ledger_entries s' = ledger_entries s) \<and>
    (succeeded r \<longrightarrow> ref \<in> set (entry_refs s')) \<and>
    appends (\<lambda>e. e_wallet_id e = w \<and> e_reference e = ref \<and> e_credit e = n \<and> e_debit e = 0) s s'"
proof -
  from assms have "run_state (insert_ledger \<lparr>e_id = uuid_at s (tick s), e_wallet_id = w, e_debit = 0,
      e_credit = n, e_reference = ref, e_type = t, e_description = d, e_created_at = 0\<rparr>) (step s) = (r, s')"
    by (simp add: Credit_def)
  from insert_ledger_cases [OF this] show ?thesis
    by (auto elim!: appends_weaken)
qed

lemma Debit_cases:
  assumes "run_state (Debit w n ref t d) s = (r, s')"
  shows "(succeeded r \<or> ledger_entries s' = ledger_entries s) \<and>
    (succeeded r \<longrightarrow> ref \<in> set (entry_refs s')) \<and>
    appends (\<lambda>e. e_wallet_id e = w \<and> e_reference e = ref \<and> e_credit e = 0 \<and> e_debit e = n \<and>
      n \<le> ledger_balance w s) s s'"
  using assms unfolding Debit_def
proof (cases rule: or_return_cases)
  case (returned e)
  then show ?thesis by (auto dest!: Balance_run intro: appends.nothing)
next
  case (continued b s1)
  then have s1: "s1 = step s" "b = ledger_balance w s" by (auto dest: Balance_run)
  show ?thesis
  proof (cases "b < n")
    case True
    with continued s1 show ?thesis by (auto intro: appends.nothing)
  next
    case False
    with continued s1 have "run_state (insert_ledger \<lparr>e_id = uuid_at s (tick (step s)), e_wallet_id = w,
        e_debit = n, e_credit = 0, e_reference = ref, e_type = t, e_description = d, e_created_at = 0\<rparr>)
        (step (step s)) = (r, s')"
      by simp
    from insert_ledger_cases [OF this] False s1 show ?thesis
      by (auto elim!: appends_weaken)
  qed
qed

lemma DebitAtomic_cases:
  assumes "run_state (DebitAtomic locks w n ref t d) s = (r, s')"
  shows "(succeeded r \<or> ledger_entries s' = ledger_entries s) \<and>
    (succeeded r \<longrightarrow> locks \<and> ref \<in> set (entry_refs s')) \<and>
    appends (\<lambda>e. e_wallet_id e = w \<and> e_reference e = ref \<and> e_credit e = 0 \<and> e_debit e = n \<and>
      n \<le> ledger_balance w s \<and> (\<exists>k. k < tick s' \<and> e_id e = uuid_at s k)) s s'"
proof (cases r)
  case (Inl e)
  have "on_tables (\<lambda>s'. ledger_entries s' = ledger_entries s)" by (simp add: on_tables_def)
  from local_tx_error_rolls_back [OF this assms [unfolded DebitAtomic_def Inl]] Inl show ?thesis
    by (auto intro: appends.nothing)
next
  case (Inr v)
  with assms obtain s1 where s1: "s' = step s1"
    and "run_state (or_return (locked_sum locks w) (Wrap ''ledger.DebitAtomic: balance check'') (\<lambda>balance.
       if balance < n then fail (ErrMsg ''ledger.DebitAtomic: insufficient balance'')
       else do {
         i \<leftarrow> uuid_new;
         or_return (exec (\<lambda>now. insert_entry \<lparr>e_id = i, e_wallet_id = w, e_debit = n,
             e_credit = 0, e_reference = ref, e_type = t, e_description = d, e_created_at = now\<rparr>))
           (Wrap ''ledger.DebitAtomic: insert'') (\<lambda>_. ok ())
       })) (step s) = (Inr v, s1)"
    unfolding DebitAtomic_def by (blast elim: local_tx_commits)
  from this(2) show ?thesis
  proof (rule or_return_success)
    fix b s2
    assume "run_state (locked_sum locks w) (step s) = (Inr b, s2)"
    then have s2: "locks" "s2 = step (step s)" "b = ledger_balance w s"
    proof (atomize(full), cases locks)
      case True
      with \<open>run_state (locked_sum locks w) (step s) = (Inr b, s2)\<close> have "run_state (sum_entries w) (step s) = (Inr b, s2)"
        by (simp add: locked_sum_def)
      from sum_entries_run [OF this] True show "locks \<and> s2 = step (step s) \<and> b = ledger_balance w s"
        by (simp add: ledger_balance_def)
    next
      case False
      with \<open>run_state (locked_sum locks w) (step s) = (Inr b, s2)\<close> show "locks \<and> s2 = step (step s) \<and> b = ledger_balance w s"
        by (simp add: locked_sum_def run_statement split: if_splits)
    qed
    assume "run_state (if b < n then fail (ErrMsg ''ledger.DebitAtomic: insufficient balance'')
       else do {
         i \<leftarrow> uuid_new;
         or_return (exec (\<lambda>now. insert_entry \<lparr>e_id = i, e_wallet_id = w, e_debit = n,
             e_credit = 0, e_reference = ref, e_type = t, e_description = d, e_created_at = now\<rparr>))
           (Wrap ''ledger.DebitAtomic: insert'') (\<lambda>_. ok ())
       }) s2 = (Inr v, s1)"
    with s2 have "n \<le> ledger_balance w s" and "run_state (exec (\<lambda>now. insert_entry
        \<lparr>e_id = uuid_at s (tick s2), e_wallet_id = w, e_debit = n,
         e_credit = 0, e_reference = ref, e_type = t, e_description = d, e_created_at = now\<rparr>)) (step s2)
        = (Inr (), s1)"
      by (auto split: if_splits elim!: or_return_success)
    then have run: "n \<le> ledger_balance w s" "run_state (exec (\<lambda>now. insert_entry
        \<lparr>e_id = uuid_at s (tick s2), e_wallet_id = w, e_debit = n,
         e_credit = 0, e_reference = ref, e_type = t, e_description = d, e_created_at = now\<rparr>)) (step s2)
        = (Inr (), s1)" by auto
    obtain k where "s1 = (step s2)\<lparr>tick := tick (step s2) + k, ledger_entries := ledger_entries s1\<rparr>"
      using posts_exec_entry run(2) by (rule posts_run)
    then have "tick s2 < tick s'" using s1 by (cases s1) simp
    with exec_entry_cases [OF run(2), of ref] run(1) s1 s2 Inr show ?thesis
      by (auto simp: entry_refs_def elim!: appends_weaken)
  qed
qed

text \<open>
  The contract of a posting: it succeeds only if its reference is in the table afterwards, on an
  error it wrote nothing, and all it ever writes is its own entry, a debit only when the wallet
  can pay for it.
\<close>

lemma post_cases:
  assumes "run_state (post locks p) s = (r, s')"
  shows "succeeded r \<or> ledger_entries s' = ledger_entries s"
    and "succeeded r \<Longrightarrow> p_ref p \<in> set (entry_refs s')"
    and "appends (\<lambda>e. entry_of p e \<and> e_debit e \<le> max 0 (ledger_balance (p_wallet p) s)) s s'"
proof -
  let ?A = "appends (\<lambda>e. entry_row_ok e \<longrightarrow> entry_of p e \<and> e_debit e \<le> max 0 (ledger_balance (p_wallet p) s)) s s'"
  have "(succeeded r \<or> ledger_entries s' = ledger_entries s) \<and>
    (succeeded r \<longrightarrow> p_ref p \<in> set (entry_refs s')) \<and> ?A"
  proof (cases "p_kind p")
    case Crediting
    with assms have "run_state (Credit (p_wallet p) (p_amount p) (p_ref p) (p_type p) (p_desc p)) s = (r, s')"
      by (simp add: post_def)
    from Credit_cases [OF this] Crediting show ?thesis
      by (auto elim!: appends_weaken simp: entry_of_def entry_row_ok_def)
  next
    case Debiting
    with assms have "run_state (Debit (p_wallet p) (p_amount p) (p_ref p) (p_type p) (p_desc p)) s = (r, s')"
      by (simp add: post_def)
    from Debit_cases [OF this] Debiting show ?thesis
      by (auto elim!: appends_weaken simp: entry_of_def entry_row_ok_def)
  next
    case DebitingAtomically
    with assms have "run_state (DebitAtomic locks (p_wallet p) (p_amount p) (p_ref p) (p_type p) (p_desc p)) s = (r, s')"
      by (simp add: post_def)
    from DebitAtomic_cases [OF this] DebitingAtomically show ?thesis
      by (auto elim!: appends_weaken simp: entry_of_def entry_row_ok_def)
  qed
  then show "succeeded r \<or> ledger_entries s' = ledger_entries s"
    and "succeeded r \<Longrightarrow> p_ref p \<in> set (entry_refs s')"
    and "appends (\<lambda>e. entry_of p e \<and> e_debit e \<le> max 0 (ledger_balance (p_wallet p) s)) s s'"
    by (auto elim!: appendsE intro: appends.intros)
qed

section \<open>A sound ledger\<close>

definition ledger_ok :: "world \<Rightarrow> bool" where
  "ledger_ok s \<longleftrightarrow>
     list_all entry_row_ok (ledger_entries s) \<and> distinct (entry_refs s) \<and>
     distinct (map e_id (ledger_entries s)) \<and>
     list_all (\<lambda>w. 0 \<le> ledger_balance w s) (map e_wallet_id (ledger_entries s))"

lemma ledger_ok_cong: "ledger_entries t = ledger_entries s \<Longrightarrow> ledger_ok t = ledger_ok s"
  by (simp add: ledger_ok_def entry_refs_def ledger_balance_def)

lemma ledger_balance_snoc:
  "ledger_entries s' = ledger_entries s @ [e] \<Longrightarrow>
     ledger_balance w s' = ledger_balance w s + (if e_wallet_id e = w then e_credit e - e_debit e else 0)"
  by (simp add: ledger_balance_def Let_def)

lemma ledger_never_overdrawn: "ledger_ok s \<Longrightarrow> 0 \<le> ledger_balance w s"
proof (cases "w \<in> set (map e_wallet_id (ledger_entries s))")
  case True
  moreover assume "ledger_ok s"
  ultimately show ?thesis by (auto simp: ledger_ok_def list_all_iff)
next
  case False
  then have "filter (\<lambda>e. e_wallet_id e = w) (ledger_entries s) = []"
    by (auto simp: filter_empty_conv)
  then show ?thesis by (simp add: ledger_balance_def)
qed

lemma post_keeps_ledger_ok: "keeps ledger_ok (post locks p)"
proof (rule keepsI)
  fix s assume ok: "ledger_ok s"
  obtain r s' where run: "run_state (post locks p) s = (r, s')" by (cases "run_state (post locks p) s")
  from post_cases(3) [OF run] have "ledger_ok s'"
  proof cases
    case nothing
    with ok ledger_ok_cong show ?thesis by blast
  next
    case (entry e)
    have "0 \<le> ledger_balance w s'" for w
      using ledger_never_overdrawn [OF ok, of w] entry(2,3)
      unfolding ledger_balance_snoc [OF entry(1)] by (auto simp: entry_of_def entry_row_ok_def)
    then have "list_all (\<lambda>w. 0 \<le> ledger_balance w s') (map e_wallet_id (ledger_entries s'))"
      by (simp add: list_all_iff)
    with ok entry(3-5) show ?thesis
      unfolding ledger_ok_def entry_refs_def entry(1) by simp
  qed
  with run show "ledger_ok (snd (run_state (post locks p) s))" by simp
qed

text \<open>A reference that is in the table is settled: no posting under it writes anything again.\<close>

interpretation postings: once ledger_ok ledger_entries "\<lambda>s r. r \<in> set (entry_refs s)" p_ref "post locks"
proof unfold_locales
  fix s s' p r v e
  show "keeps ledger_ok (post locks p)" by (rule post_keeps_ledger_ok)
  show "run_state (post locks p) s = (Inr v, s') \<Longrightarrow> p_ref p \<in> set (entry_refs s')"
    by (auto dest: post_cases(2))
  show "run_state (post locks p) s = (Inl e, s') \<Longrightarrow> ledger_entries s' = ledger_entries s"
    by (auto dest: post_cases(1))
  assume settled: "p_ref p \<in> set (entry_refs s)" and run: "run_state (post locks p) s = (r, s')"
  from post_cases(3) [OF run] have "ledger_entries s' = ledger_entries s"
    by cases (use settled in \<open>auto simp: entry_of_def\<close>)
  with settled show "ledger_entries s' = ledger_entries s \<and> p_ref p \<in> set (entry_refs s')"
    by (simp add: entry_refs_def)
qed

lemma postings_history:
  assumes "ledger_ok s"
  shows "\<exists>new. ledger_entries (attempts (post locks) ps s) = ledger_entries s @ new \<and>
    (\<forall>e \<in> set new. \<exists>p \<in> set ps. entry_of p e)"
  using assms
proof (induction ps arbitrary: s)
  case (Cons p ps)
  obtain r s1 where run: "run_state (post locks p) s = (r, s1)" by (cases "run_state (post locks p) s")
  have "ledger_ok s1" using post_keeps_ledger_ok run Cons.prems by (rule keeps_run)
  from Cons.IH [OF this] obtain new
    where new: "ledger_entries (attempts (post locks) ps s1) = ledger_entries s1 @ new"
      "\<forall>e \<in> set new. \<exists>p \<in> set ps. entry_of p e" by blast
  from post_cases(3) [OF run] show ?case
  proof cases
    case nothing
    with new run show ?thesis by (intro exI [of _ new]) auto
  next
    case (entry e)
    with new run show ?thesis by (intro exI [of _ "e # new"]) auto
  qed
qed simp

text \<open>The answers to a sequence of postings: which of them returned without an error.\<close>

fun posting_answers :: "bool \<Rightarrow> posting list \<Rightarrow> world \<Rightarrow> bool list" where
  "posting_answers locks [] s = []"
| "posting_answers locks (p # ps) s =
     (case run_state (post locks p) s of (r, s') \<Rightarrow> succeeded r # posting_answers locks ps s')"

definition signed_amount :: "posting \<Rightarrow> int" where
  "signed_amount p = (if p_kind p = Crediting then p_amount p else - p_amount p)"

text \<open>
  What the answers say a wallet's balance has changed by: every posting of that wallet that was
  answered without an error counts once, in full, unless its reference had been used before (the
  references in \<open>used\<close>, and those of the earlier successful postings).
\<close>

fun booked_sum :: "uuid \<Rightarrow> string set \<Rightarrow> (posting \<times> bool) list \<Rightarrow> int" where
  "booked_sum w used [] = 0"
| "booked_sum w used ((p, answer) # rest) =
     (if answer
      then (if p_wallet p = w \<and> p_ref p \<notin> used then signed_amount p else 0) + booked_sum w (insert (p_ref p) used) rest
      else booked_sum w used rest)"

lemma post_books:
  assumes "run_state (post locks p) s = (r, s')"
  shows "ledger_balance w s' = ledger_balance w s +
      (if succeeded r \<and> p_wallet p = w \<and> p_ref p \<notin> set (entry_refs s) then signed_amount p else 0)"
    and "set (entry_refs s') = (if succeeded r then insert (p_ref p) (set (entry_refs s)) else set (entry_refs s))"
proof (atomize(full), use post_cases(3) [OF assms] in cases)
  case nothing
  from ledger_balance_cong [OF this] entry_refs_cong [OF this] post_cases(2) [OF assms]
  show "ledger_balance w s' = ledger_balance w s +
      (if succeeded r \<and> p_wallet p = w \<and> p_ref p \<notin> set (entry_refs s) then signed_amount p else 0) \<and>
    set (entry_refs s') = (if succeeded r then insert (p_ref p) (set (entry_refs s)) else set (entry_refs s))"
    by auto
next
  case (entry e)
  then have "succeeded r" using post_cases(1) [OF assms] by auto
  with entry show "ledger_balance w s' = ledger_balance w s +
      (if succeeded r \<and> p_wallet p = w \<and> p_ref p \<notin> set (entry_refs s) then signed_amount p else 0) \<and>
    set (entry_refs s') = (if succeeded r then insert (p_ref p) (set (entry_refs s)) else set (entry_refs s))"
    by (simp add: ledger_balance_snoc entry_of_def signed_amount_def entry_refs_def)
qed

lemma attempts_booked:
  "ledger_balance w (attempts (post locks) ps s) =
     ledger_balance w s + booked_sum w (set (entry_refs s)) (zip ps (posting_answers locks ps s))"
proof (induction ps arbitrary: s)
  case (Cons p ps)
  obtain r s1 where run: "run_state (post locks p) s = (r, s1)" by (cases "run_state (post locks p) s")
  from Cons.IH [of s1] show ?case
    by (simp add: run post_books(1) [OF run, of w] post_books(2) [OF run])
qed simp

text \<open>A credit that nothing stands in the way of.\<close>

lemma run_Credit:
  assumes "reliable s" and "0 < n" and "in_i64 n" and "length ref \<le> 120"
    and "ref \<notin> set (entry_refs s)" and "wallet_exists w s"
    and "uuid_at s (tick s) \<notin> set (map e_id (ledger_entries s))"
  shows "run_state (Credit w n ref t d) s = (Inr (), s\<lparr>tick := tick s + 2, ledger_entries :=
    ledger_entries s @ [\<lparr>e_id = uuid_at s (tick s), e_wallet_id = w, e_debit = 0, e_credit = n,
      e_reference = ref, e_type = t, e_description = d, e_created_at = time_at s (tick s + 2)\<rparr>]\<rparr>)"
proof -
  have "in_i64 0" by (simp add: in_i64_def)
  with assms show ?thesis
    by (simp add: Credit_def insert_ledger_def run_or_return run_exec insert_entry_def entry_row_ok_def
        entry_refs_def wallet_exists_def step_def numeral_2_eq_2)
qed


text \<open>A debit that nothing stands in the way of, decided by the balance.\<close>

definition postable :: "posting \<Rightarrow> world \<Rightarrow> bool" where
  "postable p s \<longleftrightarrow> reliable s \<and> wallet_exists (p_wallet p) s \<and> in_i64 (ledger_balance (p_wallet p) s) \<and>
     0 < p_amount p \<and> in_i64 (p_amount p) \<and>
     length (p_ref p) \<le> 120 \<and> p_ref p \<notin> set (entry_refs s) \<and>
     (\<forall>k \<ge> tick s. uuid_at s k \<notin> set (map e_id (ledger_entries s)))"

lemma ledger_balance_tick [simp]: "ledger_balance w (s\<lparr>tick := k\<rparr>) = ledger_balance w s"
  by (simp add: ledger_balance_def)

lemma succeeded_Debit:
  assumes "postable p s"
  shows "succeeded (fst (run_state (Debit (p_wallet p) (p_amount p) (p_ref p) t d) s)) \<longleftrightarrow>
    p_amount p \<le> ledger_balance (p_wallet p) s"
proof -
  have "in_i64 0" by (simp add: in_i64_def)
  with assms show ?thesis
    by (auto simp: postable_def Debit_def Balance_def sum_entries_def insert_ledger_def run_or_return
        run_statement run_exec insert_entry_def entry_row_ok_def entry_refs_def wallet_exists_def step_def)
qed

lemma succeeded_DebitAtomic:
  assumes "postable p s"
  shows "succeeded (fst (run_state (DebitAtomic locks (p_wallet p) (p_amount p) (p_ref p) t d) s)) \<longleftrightarrow>
    locks \<and> p_amount p \<le> ledger_balance (p_wallet p) s"
proof -
  have "in_i64 0" by (simp add: in_i64_def)
  with assms show ?thesis
    by (auto simp: postable_def DebitAtomic_def local_tx_def run_begin_tx run_commit_tx rollback_def
        locked_sum_def sum_entries_def run_or_return run_statement run_exec insert_entry_def
        entry_row_ok_def entry_refs_def wallet_exists_def step_def)
qed

lemma post_decided:
  assumes "postable p s"
  shows "succeeded (fst (run_state (post locks p) s)) \<longleftrightarrow>
    (case p_kind p of Crediting \<Rightarrow> True
     | Debiting \<Rightarrow> p_amount p \<le> ledger_balance (p_wallet p) s
     | DebitingAtomically \<Rightarrow> locks \<and> p_amount p \<le> ledger_balance (p_wallet p) s)"
proof (cases "p_kind p")
  case Crediting
  with assms run_Credit [of s "p_amount p" "p_ref p" "p_wallet p" "p_type p" "p_desc p"] show ?thesis
    by (simp add: post_def postable_def)
qed (use assms in \<open>simp_all add: post_def succeeded_Debit succeeded_DebitAtomic\<close>)

text \<open>
  C19. The books of the ledger, over any sequence of credits and debits by anybody, with any statement
  failing. A wallet's balance is its old balance plus the sum of the postings of that wallet that were
  answered without an error, each once and in full (a second posting under a reference that was used
  before counts for nothing); no wallet is ever overdrawn, references stay unique, and what was
  written stays. \<open>Balance\<close> answers that sum or an error. And the next posting is answered without an
  error exactly as it should: when nothing else stands in its way (no failing statement, an existing
  wallet, a positive amount, an unused reference of at most 120 bytes, new UUIDs), a credit always
  and a debit if and only if the balance covers it; the atomic debit besides only where the database
  accepts the locking aggregate.
\<close>

theorem ledger_books:
  assumes "ledger_ok s" and "s' = attempts (post locks) ps s"
  shows "ledger_balance w s' = ledger_balance w s + booked_sum w (set (entry_refs s)) (zip ps (posting_answers locks ps s)) \<and>
    0 \<le> ledger_balance w s' \<and> distinct (entry_refs s') \<and>
    prefix (ledger_entries s) (ledger_entries s') \<and>
    (case fst (run_state (Balance w) s') of Inl _ \<Rightarrow> True | Inr b \<Rightarrow> b = ledger_balance w s') \<and>
    (\<forall>p. postable p s' \<longrightarrow>
       (succeeded (fst (run_state (post locks p) s')) \<longleftrightarrow>
          (case p_kind p of Crediting \<Rightarrow> True
           | Debiting \<Rightarrow> p_amount p \<le> ledger_balance (p_wallet p) s'
           | DebitingAtomically \<Rightarrow> locks \<and> p_amount p \<le> ledger_balance (p_wallet p) s')))"
proof -
  have ok: "ledger_ok s'" using postings.attempts_inv [OF assms(1), of locks ps] assms(2) by simp
  then have "0 \<le> ledger_balance w s'" "distinct (entry_refs s')"
    by (rule ledger_never_overdrawn, simp add: ledger_ok_def)
  moreover have "prefix (ledger_entries s) (ledger_entries s')"
    using postings_history [OF assms(1), of locks ps] assms(2) by (auto simp: prefix_def)
  moreover have "case fst (run_state (Balance w) s') of Inl _ \<Rightarrow> True | Inr b \<Rightarrow> b = ledger_balance w s'"
    using Balance_run [of w s'] by (cases "run_state (Balance w) s'") (simp split: sum.split)
  moreover have "ledger_balance w s' = ledger_balance w s + booked_sum w (set (entry_refs s)) (zip ps (posting_answers locks ps s))"
    using attempts_booked assms(2) by simp
  ultimately show ?thesis
    by (intro conjI allI impI post_decided)
qed

definition funded_ledger :: world where
  "funded_ledger = sample_world\<lparr>ledger_entries :=
     [\<lparr>e_id = ''e0'', e_wallet_id = ''wa'', e_debit = 0, e_credit = 90000, e_reference = ''FUND-1'',
       e_type = EntryFunding, e_description = [], e_created_at = 0\<rparr>]\<rparr>"

definition vas_posting :: "posting_kind \<Rightarrow> int \<Rightarrow> string \<Rightarrow> posting" where
  "vas_posting k n ref = \<lparr>p_kind = k, p_wallet = ''wa'', p_amount = n, p_ref = ref, p_type = EntryVAS,
     p_desc = []\<rparr>"

lemma ledger_books_witness:
  "ledger_balance ''wa'' (attempts (post True) [vas_posting DebitingAtomically 60000 ''A'',
     vas_posting Debiting 60000 ''B'', vas_posting Crediting 500 ''C'', vas_posting Debiting 100 ''A'']
     funded_ledger) = 30500 \<and>
   succeeded (fst (run_state (post True (vas_posting Debiting 90000 ''D'')) funded_ledger)) \<and>
   \<not> succeeded (fst (run_state (post True (vas_posting Debiting 90001 ''D'')) funded_ledger))"
proof -
  let ?ps = "[vas_posting DebitingAtomically 60000 ''A'', vas_posting Debiting 60000 ''B'',
        vas_posting Crediting 500 ''C'', vas_posting Debiting 100 ''A'']"
  have ok: "ledger_ok funded_ledger" by code_simp
  have "posting_answers True ?ps funded_ledger = [True, False, True, True]" by code_simp
  moreover have f: "ledger_balance ''wa'' funded_ledger = 90000" "entry_refs funded_ledger = [''FUND-1'']"
    "wallet_exists ''wa'' funded_ledger" "map e_id (ledger_entries funded_ledger) = [''e0'']"
    by code_simp+
  ultimately have "ledger_balance ''wa'' (attempts (post True) ?ps funded_ledger) = 30500"
    using ledger_books [OF ok refl, of "''wa''" True ?ps]
    by (simp add: vas_posting_def signed_amount_def)
  moreover have "uuid_at funded_ledger k \<noteq> ''e0''" and "reliable funded_ledger" for k
    using reliable_sample
    by (simp_all add: funded_ledger_def reliable_def sample_world_def empty_world_def)
  then have "postable (vas_posting Debiting n ''D'') funded_ledger" if "0 < n" "n < 100000" for n
    using that f by (simp add: postable_def vas_posting_def in_i64_def)
  then have "succeeded (fst (run_state (post True (vas_posting Debiting n ''D'')) funded_ledger)) \<longleftrightarrow> n \<le> 90000"
    if "0 < n" "n < 100000" for n
    using that ledger_books [OF ok refl, of "''wa''" True "[]"] f(1) by (simp add: vas_posting_def)
  ultimately show ?thesis by simp
qed

text \<open>
  Postings are safe to retry: however often a reference is presented, as a credit or a debit, the
  ledger gains at most one entry under it, and none if the reference was used before.
\<close>

theorem ledger_reference_once:
  assumes "ledger_ok s" and "\<forall>p \<in> set ps. p_ref p = r"
  shows "ledger_entries (attempts (post locks) ps s) = ledger_entries s \<or>
    r \<notin> set (entry_refs s) \<and>
    (\<exists>e. ledger_entries (attempts (post locks) ps s) = ledger_entries s @ [e] \<and>
       e_reference e = r \<and> (\<exists>p \<in> set ps. entry_of p e))"
proof -
  from postings.attempts_once [OF assms, where locks = locks]
  consider "ledger_entries (attempts (post locks) ps s) = ledger_entries s"
    | ys p zs v s2 where "ps = ys @ p # zs" "ledger_entries (attempts (post locks) ys s) = ledger_entries s"
        "run_state (post locks p) (attempts (post locks) ys s) = (Inr v, s2)"
        "ledger_entries (attempts (post locks) ps s) = ledger_entries s2"
    by blast
  then show ?thesis
  proof cases
    case 2
    from post_cases(3) [OF 2(3)] show ?thesis
    proof cases
      case nothing
      with 2 show ?thesis by simp
    next
      case (entry e)
      with 2 assms(2) show ?thesis
        by (intro disjI2) (auto simp: entry_of_def entry_refs_def)
    qed
  qed simp
qed

lemma ledger_reference_once_witness:
  "ledger_balance ''wa'' (attempts (post True) (replicate 3 (vas_posting DebitingAtomically 60000 ''A''))
     funded_ledger) = 30000 \<and>
   length (ledger_entries (attempts (post True) (replicate 3 (vas_posting DebitingAtomically 60000 ''A''))
     funded_ledger)) \<le> 2"
proof
  let ?s = "attempts (post True) (replicate 3 (vas_posting DebitingAtomically 60000 ''A'')) funded_ledger"
  show "ledger_balance ''wa'' ?s = 30000" by code_simp
  have "ledger_ok funded_ledger" "length (ledger_entries funded_ledger) = 1" by code_simp+
  moreover have "\<forall>p \<in> set (replicate 3 (vas_posting DebitingAtomically 60000 ''A'')). p_ref p = ''A''"
    by (simp add: vas_posting_def)
  ultimately show "length (ledger_entries ?s) \<le> 2"
    using ledger_reference_once [of funded_ledger "replicate 3 (vas_posting DebitingAtomically 60000 ''A'')" "''A''" True]
    by auto
qed

end
