(* ===== verification/Providers.thy ===== *)
theory Providers
  imports Models
begin

text \<open>
  \<open>internal/providers\<close>: the interface \<open>PaymentProvider\<close> with its requests and responses, and
  the \<open>ProviderRouter\<close> that picks a provider by priority and skips those whose circuit breaker
  is open. A provider's calls are functions of a tick, so they may answer differently
  each time; a \<open>map[string]any\<close> is an association list of texts.
\<close>

section \<open>The provider interface\<close>

record payment_request =
  pq_reference :: string
  pq_amount_kobo :: int
  pq_email :: string
  pq_phone_number :: string
  pq_full_name :: string
  pq_callback_url :: string
  pq_currency :: string
  pq_metadata :: "(string \<times> string) list"

record payment_response =
  pr_authorization_url :: string
  pr_reference :: string
  pr_access_code :: string
  pr_provider_name :: string

record verification_response =
  vr_reference :: string
  vr_amount_kobo :: int
  vr_status :: string
  vr_channel :: string
  vr_paid_at :: time
  vr_provider_ref :: string

record virtual_account_request =
  vq_user_id :: string
  vq_full_name :: string
  vq_email :: string
  vq_phone_number :: string
  vq_bvn :: string

record virtual_account_response =
  va_account_number :: string
  va_account_name :: string
  va_bank_name :: string
  va_provider_ref :: string

record transfer_request =
  tq_reference :: string
  tq_account_number :: string
  tq_bank_code :: string
  tq_account_name :: string
  tq_amount_kobo :: int
  tq_narration :: string

record transfer_response =
  tp_reference :: string
  tp_status :: string
  tp_provider_ref :: string

record bill_request =
  bq_reference :: string
  bq_service_type :: string
  bq_service_code :: string
  bq_customer :: string
  bq_amount_kobo :: int
  bq_phone_number :: string
  bq_extras :: "(string \<times> string) list"

record bill_response =
  bs_reference :: string
  bs_status :: string
  bs_token :: string
  bs_provider_ref :: string

record bank_info =
  bi_name :: string
  bi_code :: string

record account_info =
  ai_account_name :: string
  ai_account_number :: string

record payment_provider =
  pp_name :: string
  pp_initialize_payment :: "nat \<Rightarrow> payment_request \<Rightarrow> payment_response res"
  pp_verify_transaction :: "nat \<Rightarrow> string \<Rightarrow> verification_response res"
  pp_create_virtual_account :: "nat \<Rightarrow> virtual_account_request \<Rightarrow> virtual_account_response res"
  pp_transfer :: "nat \<Rightarrow> transfer_request \<Rightarrow> transfer_response res"
  pp_purchase_bill :: "nat \<Rightarrow> bill_request \<Rightarrow> bill_response res"
  pp_get_banks :: "nat \<Rightarrow> bank_info list res"
  pp_resolve_account :: "nat \<Rightarrow> string \<Rightarrow> string \<Rightarrow> account_info res"
  pp_health_check :: "nat \<Rightarrow> bool"

section \<open>The router\<close>

text \<open>
  \<open>rt_tick\<close> counts the readings of the clock and the health checks; \<open>rt_clock\<close> and the
  providers' \<open>HealthCheck\<close> are functions of it. Times are milliseconds.
\<close>

record breaker =
  bk_failures :: int
  bk_last_failure :: time
  bk_open :: bool

record router =
  rt_tick :: nat
  rt_clock :: "nat \<Rightarrow> time"
  rt_providers :: "string \<rightharpoonup> payment_provider"
  rt_breakers :: "string \<rightharpoonup> breaker"
  rt_threshold :: int
  rt_reset :: time

definition breaker_new :: breaker where
  "breaker_new = \<lparr>bk_failures = 0, bk_last_failure = 0, bk_open = False\<rparr>"

text \<open>The priority lists; an unknown feature has the list of \<open>default\<close>.\<close>

definition priority_lists :: "string \<rightharpoonup> string list" where
  "priority_lists = [
     ''card'' \<mapsto> [''paystack'', ''flutterwave'', ''monnify''],
     ''bills'' \<mapsto> [''opay'', ''flutterwave'', ''monnify''],
     ''virtual'' \<mapsto> [''monnify'', ''paystack''],
     ''transfer'' \<mapsto> [''paystack'', ''flutterwave''],
     ''default'' \<mapsto> [''flutterwave'', ''monnify'']]"

definition NewProviderRouter ::
  "payment_provider list \<Rightarrow> int \<Rightarrow> time \<Rightarrow> (nat \<Rightarrow> time) \<Rightarrow> router" where
  "NewProviderRouter provs failureThreshold resetTimeout clock =
     \<lparr>rt_tick = 0, rt_clock = clock,
      rt_providers = fold (\<lambda>p m. m(pp_name p \<mapsto> p)) provs Map.empty,
      rt_breakers = fold (\<lambda>p m. m(pp_name p \<mapsto> breaker_new)) provs Map.empty,
      rt_threshold = failureThreshold, rt_reset = resetTimeout\<rparr>"

text \<open>The three operations of a breaker, each run under the router's mutex.\<close>

definition breaker_fail :: "int \<Rightarrow> time \<Rightarrow> breaker \<Rightarrow> breaker" where
  "breaker_fail threshold now b =
     (let b = b\<lparr>bk_failures := bk_failures b + 1, bk_last_failure := now\<rparr>
      in if threshold \<le> bk_failures b then b\<lparr>bk_open := True\<rparr> else b)"

definition breaker_check :: "time \<Rightarrow> time \<Rightarrow> breaker \<Rightarrow> breaker" where
  "breaker_check reset now b =
     (if bk_open b \<and> reset < now - bk_last_failure b then b\<lparr>bk_open := False, bk_failures := 0\<rparr>
      else b)"

definition breaker_succeed :: "breaker \<Rightarrow> breaker" where
  "breaker_succeed b = b\<lparr>bk_failures := 0, bk_open := False\<rparr>"

definition rt_now :: "(router, time) state" where
  "rt_now = State (\<lambda>r. (rt_clock r (rt_tick r), r\<lparr>rt_tick := Suc (rt_tick r)\<rparr>))"

definition RecordSuccess :: "string \<Rightarrow> (router, unit) state" where
  "RecordSuccess name = State (\<lambda>r.
     (case rt_breakers r name of
        None \<Rightarrow> ((), r)
      | Some b \<Rightarrow> ((), r\<lparr>rt_breakers := (rt_breakers r)(name \<mapsto> breaker_succeed b)\<rparr>)))"

definition RecordFailure :: "string \<Rightarrow> (router, unit) state" where
  "RecordFailure name = State (\<lambda>r.
     (case rt_breakers r name of
        None \<Rightarrow> ((), r)
      | Some b \<Rightarrow> (case run_state rt_now r of (now, r') \<Rightarrow>
          ((), r'\<lparr>rt_breakers := (rt_breakers r')(name \<mapsto> breaker_fail (rt_threshold r) now b)\<rparr>))))"

definition isOpen :: "string \<Rightarrow> (router, bool) state" where
  "isOpen name = State (\<lambda>r.
     (case rt_breakers r name of
        None \<Rightarrow> (False, r)
      | Some b \<Rightarrow>
          if \<not> bk_open b then (False, r)
          else (case run_state rt_now r of (now, r') \<Rightarrow>
            let b' = breaker_check (rt_reset r) now b
            in (bk_open b', r'\<lparr>rt_breakers := (rt_breakers r')(name \<mapsto> b')\<rparr>))))"

definition health_check :: "payment_provider \<Rightarrow> (router, bool) state" where
  "health_check p = State (\<lambda>r. (pp_health_check p (rt_tick r), r\<lparr>rt_tick := Suc (rt_tick r)\<rparr>))"

fun select_loop :: "string list \<Rightarrow> (router, payment_provider option) state" where
  "select_loop [] = State_Monad.return None"
| "select_loop (name # names) = State (\<lambda>r.
     (case rt_providers r name of
        None \<Rightarrow> run_state (select_loop names) r
      | Some p \<Rightarrow>
          (case run_state (isOpen name) r of
             (True, r1) \<Rightarrow> run_state (select_loop names) r1
           | (False, r1) \<Rightarrow>
               (case run_state (health_check p) r1 of
                  (True, r2) \<Rightarrow> (Some p, r2)
                | (False, r2) \<Rightarrow>
                    (case run_state (RecordFailure name) r2 of
                       (_, r3) \<Rightarrow> run_state (select_loop names) r3)))))"

definition Select :: "string \<Rightarrow> (router, payment_provider option) state" where
  "Select feature =
     select_loop (case priority_lists feature of
        None \<Rightarrow> the (priority_lists ''default'') | Some names \<Rightarrow> names)"

section \<open>The breaker and its specification\<close>

text \<open>
  A circuit is closed, with the failures in a row it has seen, or open since its last failure.
  The three fields of \<open>breakerState\<close> implement it.
\<close>

datatype circuit = Closed int | Opened time

fun circuit_fail :: "int \<Rightarrow> time \<Rightarrow> circuit \<Rightarrow> circuit" where
  "circuit_fail threshold now (Closed k) = (if threshold \<le> k + 1 then Opened now else Closed (k + 1))"
| "circuit_fail threshold now (Opened t) = Opened now"

fun circuit_check :: "time \<Rightarrow> time \<Rightarrow> circuit \<Rightarrow> circuit" where
  "circuit_check reset now (Closed k) = Closed k"
| "circuit_check reset now (Opened t) = (if reset < now - t then Closed 0 else Opened t)"

definition circuit_of :: "breaker \<Rightarrow> circuit" where
  "circuit_of b = (if bk_open b then Opened (bk_last_failure b) else Closed (bk_failures b))"

datatype breaker_event = Failed time | Checked time | Succeeded

fun breaker_step :: "int \<Rightarrow> time \<Rightarrow> breaker_event \<Rightarrow> breaker \<Rightarrow> breaker" where
  "breaker_step threshold reset (Failed now) b = breaker_fail threshold now b"
| "breaker_step threshold reset (Checked now) b = breaker_check reset now b"
| "breaker_step threshold reset Succeeded b = breaker_succeed b"

fun circuit_step :: "int \<Rightarrow> time \<Rightarrow> breaker_event \<Rightarrow> circuit \<Rightarrow> circuit" where
  "circuit_step threshold reset (Failed now) c = circuit_fail threshold now c"
| "circuit_step threshold reset (Checked now) c = circuit_check reset now c"
| "circuit_step threshold reset Succeeded c = Closed 0"

text \<open>The failures since the last success, starting from \<open>k\<close>.\<close>

fun streak :: "int \<Rightarrow> breaker_event list \<Rightarrow> int" where
  "streak k [] = k"
| "streak k (Failed now # es) = streak (k + 1) es"
| "streak k (Checked now # es) = streak k es"
| "streak k (Succeeded # es) = streak 0 es"

lemma circuit_of_step:
  "circuit_of (breaker_step threshold reset e b) = circuit_step threshold reset e (circuit_of b)"
  by (cases e)
    (auto simp: circuit_of_def breaker_fail_def breaker_check_def breaker_succeed_def Let_def)

text \<open>A breaker in use: it is open only with enough failures, closed only with too few.\<close>

definition breaker_ok :: "int \<Rightarrow> breaker \<Rightarrow> bool" where
  "breaker_ok threshold b \<longleftrightarrow> 0 \<le> bk_failures b \<and> (bk_open b \<longleftrightarrow> threshold \<le> bk_failures b)"

lemma breaker_ok_step:
  "0 < threshold \<Longrightarrow> breaker_ok threshold b \<Longrightarrow> breaker_ok threshold (breaker_step threshold reset e b)"
  by (cases e) (auto simp: breaker_ok_def breaker_fail_def breaker_check_def breaker_succeed_def Let_def)

lemma breaker_streak:
  assumes "0 < threshold" and "breaker_ok threshold b" and "bk_failures b \<le> k"
  shows "breaker_ok threshold (fold (breaker_step threshold reset) es b) \<and>
    bk_failures (fold (breaker_step threshold reset) es b) \<le> streak k es"
  using assms
proof (induction es arbitrary: b k)
  case (Cons e es)
  let ?b = "breaker_step threshold reset e b"
  have "breaker_ok threshold ?b"
    using Cons.prems by (simp add: breaker_ok_step)
  moreover have "bk_failures ?b \<le> streak k [e]"
    using Cons.prems
    by (cases e) (auto simp: breaker_fail_def breaker_check_def breaker_succeed_def breaker_ok_def Let_def)
  ultimately have "breaker_ok threshold (fold (breaker_step threshold reset) es ?b) \<and>
      bk_failures (fold (breaker_step threshold reset) es ?b) \<le> streak (streak k [e]) es"
    using Cons.prems(1) by (intro Cons.IH)
  then show ?case by (cases e) simp_all
qed simp

text \<open>
  C23. The circuit breaker implements its specification: over any sequence of failures, successes and
  checks its three fields represent the circuit that the specification reaches, and it is open
  only after at least \<open>failureThreshold\<close> failures with no success among them.
\<close>

theorem breaker_refines_circuit:
  assumes "0 < threshold"
  shows "circuit_of (fold (breaker_step threshold reset) es breaker_new) =
      fold (circuit_step threshold reset) es (Closed 0) \<and>
    (bk_open (fold (breaker_step threshold reset) es breaker_new) \<longrightarrow> threshold \<le> streak 0 es)"
proof
  have "circuit_of (fold (breaker_step threshold reset) es b) =
      fold (circuit_step threshold reset) es (circuit_of b)" for b
    by (induction es arbitrary: b) (simp_all add: circuit_of_step)
  then show "circuit_of (fold (breaker_step threshold reset) es breaker_new) =
      fold (circuit_step threshold reset) es (Closed 0)"
    by (simp add: circuit_of_def breaker_new_def)
  have "breaker_ok threshold breaker_new" "bk_failures breaker_new \<le> 0"
    using assms by (simp_all add: breaker_ok_def breaker_new_def)
  from breaker_streak [OF assms this, of reset es]
  show "bk_open (fold (breaker_step threshold reset) es breaker_new) \<longrightarrow> threshold \<le> streak 0 es"
    by (auto simp: breaker_ok_def)
qed

lemma breaker_refines_circuit_witness:
  "fold (circuit_step 3 60000) [Failed 1, Failed 2, Failed 3, Checked 4] (Closed 0) = Opened 3 \<and>
   bk_open (fold (breaker_step 3 60000) [Failed 1, Failed 2, Failed 3, Checked 4] breaker_new) \<and>
   3 \<le> streak 0 [Failed 1, Failed 2, Failed 3, Checked 4]"
  using breaker_refines_circuit [of 3 60000 "[Failed 1, Failed 2, Failed 3, Checked 4]"]
  by (simp add: circuit_of_def split: if_splits)

section \<open>Selection\<close>

definition open_at :: "time \<Rightarrow> router \<Rightarrow> string \<Rightarrow> bool" where
  "open_at now r name =
     (case rt_breakers r name of
        None \<Rightarrow> False | Some b \<Rightarrow> bk_open (breaker_check (rt_reset r) now b))"

text \<open>A provider that is registered, in service and healthy, while the clock stands at \<open>now\<close>.\<close>

definition available :: "time \<Rightarrow> (string \<Rightarrow> bool) \<Rightarrow> router \<Rightarrow> string \<Rightarrow> bool" where
  "available now up r name \<longleftrightarrow> rt_providers r name \<noteq> None \<and> \<not> open_at now r name \<and> up name"

text \<open>What one iteration may change: the breaker of its own provider, and ticks.\<close>

definition touches :: "string \<Rightarrow> router \<Rightarrow> router \<Rightarrow> bool" where
  "touches name r r' \<longleftrightarrow> rt_clock r' = rt_clock r \<and> rt_providers r' = rt_providers r \<and>
     rt_reset r' = rt_reset r \<and> rt_threshold r' = rt_threshold r \<and>
     (\<forall>n. n \<noteq> name \<longrightarrow> rt_breakers r' n = rt_breakers r n)"

lemma touches_trans: "touches n r r' \<Longrightarrow> touches n r' r'' \<Longrightarrow> touches n r r''"
  by (auto simp: touches_def)

lemma isOpen_touches: "touches name r (snd (run_state (isOpen name) r))"
  by (auto simp: isOpen_def rt_now_def touches_def Let_def split: option.splits)

lemma RecordFailure_touches: "touches name r (snd (run_state (RecordFailure name) r))"
  by (auto simp: RecordFailure_def rt_now_def touches_def split: option.splits)

lemma health_check_touches: "touches name r (snd (run_state (health_check p) r))"
  by (simp add: health_check_def touches_def)

lemma isOpen_open_at: "rt_clock r (rt_tick r) = now \<Longrightarrow> fst (run_state (isOpen name) r) = open_at now r name"
  by (auto simp: isOpen_def open_at_def rt_now_def Let_def breaker_check_def split: option.splits)

lemma available_touches:
  "touches name r r' \<Longrightarrow> n \<noteq> name \<Longrightarrow> available now up r' n = available now up r n"
  by (auto simp: available_def open_at_def touches_def split: option.splits)

lemma find_available_touches:
  assumes "touches name r r'" and "name \<notin> set names"
  shows "find (available now up r') names = find (available now up r) names"
  using assms by (induction names) (auto simp: available_touches)

lemma select_loop_find:
  assumes "distinct names" and "\<forall>k. rt_clock r k = now"
    and "\<forall>n p k. rt_providers r n = Some p \<longrightarrow> pp_health_check p k = up n"
  shows "fst (run_state (select_loop names) r) =
    Option.bind (find (available now up r) names) (rt_providers r)"
  using assms
proof (induction names arbitrary: r)
  case (Cons name names)
  show ?case
  proof (cases "rt_providers r name")
    case None
    with Cons show ?thesis by (simp add: available_def)
  next
    case (Some p)
    obtain o1 r1 where o1: "run_state (isOpen name) r = (o1, r1)" by (cases "run_state (isOpen name) r")
    obtain h r2 where h: "run_state (health_check p) r1 = (h, r2)" by (cases "run_state (health_check p) r1")
    obtain u r3 where u: "run_state (RecordFailure name) r2 = (u, r3)" by (cases "run_state (RecordFailure name) r2")
    have "o1 = open_at now r name"
      using isOpen_open_at [of r now name] o1 Cons.prems(2) by simp
    moreover have "h = up name" using h Some Cons.prems(3) by (auto simp: health_check_def)
    ultimately have av: "available now up r name \<longleftrightarrow> \<not> o1 \<and> h"
      using Some by (auto simp: available_def)
    have t1: "touches name r r1" using isOpen_touches [of name r] o1 by simp
    moreover have "touches name r1 r2" using health_check_touches [of name r1 p] h by simp
    moreover have "touches name r2 r3" using RecordFailure_touches [of name r2] u by simp
    ultimately have t3: "touches name r r3" by (blast intro: touches_trans)
    have rest: "fst (run_state (select_loop names) r') =
        Option.bind (find (available now up r) names) (rt_providers r)" if "touches name r r'" for r'
      using Cons.IH [of r'] Cons.prems that find_available_touches [OF that, of names now up]
      by (simp add: touches_def)
    show ?thesis
      using Some o1 h u av rest [OF t1] rest [OF t3] by (cases o1; cases h) auto
  qed
qed simp

lemma priority_lists_distinct:
  "distinct (case priority_lists feature of None \<Rightarrow> the (priority_lists ''default'') | Some names \<Rightarrow> names)"
  by (auto simp: priority_lists_def)

text \<open>
  C22. While neither the clock nor the health of the providers changes, \<open>Select\<close> is the reference
  search: the first name of the feature's priority list (of the default list for an unknown
  feature) that is registered, whose circuit is not open and that answers its health check;
  nothing if there is none. In particular an open circuit is never routed to.
\<close>

theorem select_first_available:
  assumes "\<forall>k. rt_clock r k = now"
    and "\<forall>n p k. rt_providers r n = Some p \<longrightarrow> pp_health_check p k = up n"
  shows "fst (run_state (Select feature) r) =
    Option.bind (find (available now up r)
      (case priority_lists feature of None \<Rightarrow> the (priority_lists ''default'') | Some names \<Rightarrow> names))
      (rt_providers r)"
  unfolding Select_def using priority_lists_distinct assms by (rule select_loop_find)

definition sample_provider :: "string \<Rightarrow> bool \<Rightarrow> payment_provider" where
  "sample_provider name healthy = \<lparr>pp_name = name,
     pp_initialize_payment = (\<lambda>_ _. Inl (ErrMsg ''down'')), pp_verify_transaction = (\<lambda>_ _. Inl (ErrMsg ''down'')),
     pp_create_virtual_account = (\<lambda>_ _. Inl (ErrMsg ''down'')), pp_transfer = (\<lambda>_ _. Inl (ErrMsg ''down'')),
     pp_purchase_bill = (\<lambda>_ _. Inl (ErrMsg ''down'')), pp_get_banks = (\<lambda>_. Inl (ErrMsg ''down'')),
     pp_resolve_account = (\<lambda>_ _ _. Inl (ErrMsg ''down'')), pp_health_check = (\<lambda>_. healthy)\<rparr>"

definition sample_router :: "bool \<Rightarrow> bool \<Rightarrow> router" where
  "sample_router a b = NewProviderRouter [sample_provider ''paystack'' a, sample_provider ''flutterwave'' b]
     3 60000 (\<lambda>_. 100000)"

lemma sample_router_providers:
  "rt_providers (sample_router a b) =
     [''paystack'' \<mapsto> sample_provider ''paystack'' a, ''flutterwave'' \<mapsto> sample_provider ''flutterwave'' b]"
  "rt_clock (sample_router a b) = (\<lambda>_. 100000)"
  by (simp_all add: sample_router_def NewProviderRouter_def sample_provider_def)

lemma select_first_available_witness:
  "map_option pp_name (fst (run_state (Select ''transfer'') (sample_router False True))) = Some ''flutterwave''"
proof -
  have select: "fst (run_state (Select ''transfer'') (sample_router False True)) =
    Option.bind (find (available 100000 (\<lambda>n. n = ''flutterwave'') (sample_router False True))
      (case priority_lists ''transfer'' of None \<Rightarrow> the (priority_lists ''default'') | Some names \<Rightarrow> names))
      (rt_providers (sample_router False True))"
    by (rule select_first_available)
      (auto simp: sample_router_providers sample_provider_def split: if_splits)
  show ?thesis unfolding select by code_simp
qed

text \<open>
  C24. An open circuit recovers: once more than \<open>resetTimeout\<close> has passed since its last failure, the
  next selection probes the provider again, and routes to it if it is healthy, whatever the
  breaker counted before.
\<close>

theorem open_circuit_recovers:
  assumes "priority_lists feature = Some (name # names)" and "rt_providers r name = Some p"
    and "rt_breakers r name = Some b" and "rt_reset r < rt_clock r (rt_tick r) - bk_last_failure b"
    and "\<forall>k. pp_health_check p k"
  shows "fst (run_state (Select feature) r) = Some p"
proof -
  have "\<not> fst (run_state (isOpen name) r)"
    using assms(3,4) by (auto simp: isOpen_def rt_now_def breaker_check_def Let_def)
  then obtain r1 where "run_state (isOpen name) r = (False, r1)" by (metis prod.collapse)
  with assms show ?thesis by (simp add: Select_def health_check_def)
qed

definition tripped_router :: router where
  "tripped_router = (sample_router True True)\<lparr>rt_breakers :=
     [''paystack'' \<mapsto> \<lparr>bk_failures = 3, bk_last_failure = 30000, bk_open = True\<rparr>]\<rparr>"

lemma open_circuit_recovers_witness:
  "map_option pp_name (fst (run_state (Select ''transfer'') tripped_router)) = Some ''paystack''"
proof -
  have "fst (run_state (Select ''transfer'') tripped_router) = Some (sample_provider ''paystack'' True)"
    by (rule open_circuit_recovers [of _ "''paystack''" "[''flutterwave'']" _ _
          "\<lparr>bk_failures = 3, bk_last_failure = 30000, bk_open = True\<rparr>"])
      (simp_all add: tripped_router_def sample_router_def NewProviderRouter_def sample_provider_def
        priority_lists_def)
  then show ?thesis by (simp add: sample_provider_def)
qed

text \<open>
  \<open>Select\<close> can return nothing although no circuit is open: with the two providers that
  \<open>main.go\<close> registers (Paystack and OPay) every feature outside the four known ones is unroutable,
  in every state of the breakers and however healthy the providers are.
\<close>

theorem default_features_unroutable:
  assumes "pp_name p = ''paystack''" and "pp_name q = ''opay''"
    and "feature \<notin> {''card'', ''bills'', ''virtual'', ''transfer''}"
  shows "fst (run_state (Select feature)
    ((NewProviderRouter [p, q] threshold reset clock)\<lparr>rt_breakers := breakers, rt_tick := n\<rparr>)) = None"
  using assms by (simp add: Select_def priority_lists_def NewProviderRouter_def)

lemma default_features_unroutable_witness:
  "fst (run_state (Select ''airtime'') (NewProviderRouter
     [sample_provider ''paystack'' True, sample_provider ''opay'' True] 3 60000 (\<lambda>_. 0))) = None"
  using default_features_unroutable [where p = "sample_provider ''paystack'' True" and
      q = "sample_provider ''opay'' True" and feature = "''airtime''" and threshold = 3 and
      reset = 60000 and clock = "\<lambda>_. 0" and n = 0 and breakers = "rt_breakers (NewProviderRouter
     [sample_provider ''paystack'' True, sample_provider ''opay'' True] 3 60000 (\<lambda>_. 0))"]
  by (simp add: sample_provider_def NewProviderRouter_def)

end
