(* ===== verification/BankTransfers.thy ===== *)
theory BankTransfers
  imports Ledger Providers
begin

text \<open>
  \<open>internal/services/transfer/service.go\<close>: a bank transfer debits the ledger, records the
  attempt and instructs the provider; a webhook reports the outcome later.
\<close>

section \<open>The table of transfers\<close>

definition transfer_row_ok :: "transfer \<Rightarrow> bool" where
  "transfer_row_ok x \<longleftrightarrow>
     length (x_reference x) \<le> 120 \<and> 0 < x_amount x \<and> in_i64 (x_amount x) \<and> in_i64 (x_fee x) \<and>
     length (x_status x) \<le> 20 \<and> length (x_bank_code x) \<le> 10 \<and> length (x_account_number x) \<le> 20 \<and>
     length (x_account_name x) \<le> 200 \<and> length (x_provider x) \<le> 50 \<and> length (x_provider_ref x) \<le> 120"

definition insert_transfer :: "transfer \<Rightarrow> world \<Rightarrow> world option" where
  "insert_transfer x s =
     (if transfer_row_ok x \<and> user_exists (x_user_id x) s \<and> wallet_exists (x_wallet_id x) s \<and>
         x_reference x \<notin> set (map x_reference (transfers s))
      then Some (s\<lparr>transfers := transfers s @ [x]\<rparr>) else None)"

definition update_transfers ::
  "(transfer \<Rightarrow> bool) \<Rightarrow> (transfer \<Rightarrow> transfer) \<Rightarrow> world \<Rightarrow> world option" where
  "update_transfers p f s =
     (if list_all (\<lambda>x. p x \<longrightarrow> transfer_row_ok (f x)) (transfers s)
      then Some (s\<lparr>transfers := set_rows p f (transfers s)\<rparr>) else None)"

section \<open>The service\<close>

text \<open>The text of an error.\<close>

fun Error :: "goerr \<Rightarrow> string" where
  "Error ErrNoRows = ''no rows in result set''"
| "Error (ErrDb m) = m"
| "Error (ErrMsg m) = m"
| "Error (Wrap m e) = m @ '': '' @ Error e"

text \<open>Step 3 and 4: the provider's answer, with the refund when it refuses.\<close>

definition instruct_provider ::
  "payment_provider \<Rightarrow> uuid \<Rightarrow> int \<Rightarrow> transfer_request \<Rightarrow> transfer_response program" where
  "instruct_provider p walletID totalDebit req = do {
     answer \<leftarrow> call (\<lambda>n. pp_transfer p n req);
     case answer of
       Inl e \<Rightarrow> do {
         _ \<leftarrow> Credit walletID totalDebit (tq_reference req @ ''-REV'') EntryReversal
                ''Refund: transfer failed'';
         _ \<leftarrow> exec (\<lambda>_. update_transfers (\<lambda>x. x_reference x = tq_reference req)
                (\<lambda>x. x\<lparr>x_status := ''failed'', x_failure_reason := Error e\<rparr>));
         fail (Wrap ''transfer: provider error'' e)
       }
     | Inr resp \<Rightarrow> do {
         _ \<leftarrow> exec (\<lambda>_. update_transfers (\<lambda>x. x_reference x = tq_reference req)
                (\<lambda>x. x\<lparr>x_provider_ref := tp_provider_ref resp, x_status := tp_status resp\<rparr>));
         ok resp
       }
   }"

text \<open>Step 2: the record of the attempt, with the refund when it cannot be saved.\<close>

definition record_transfer ::
  "payment_provider \<Rightarrow> uuid \<Rightarrow> uuid \<Rightarrow> string \<Rightarrow> int \<Rightarrow> string \<Rightarrow> string \<Rightarrow> string \<Rightarrow> string \<Rightarrow> int \<Rightarrow> int \<Rightarrow>
     transfer_response program" where
  "record_transfer p userID walletID ref totalDebit bankCode accountNumber accountName narration
     amountKobo feeKobo = do {
     recorded \<leftarrow> exec (\<lambda>_. insert_transfer \<lparr>x_reference = ref, x_user_id = userID,
       x_wallet_id = walletID, x_amount = amountKobo, x_fee = feeKobo, x_status = ''pending'',
       x_bank_code = bankCode, x_account_number = accountNumber, x_account_name = accountName,
       x_narration = narration, x_provider = pp_name p, x_provider_ref = [], x_failure_reason = []\<rparr>);
     case recorded of
       Inl e \<Rightarrow> do {
         _ \<leftarrow> Credit walletID totalDebit (ref @ ''-REV'') EntryReversal ''Refund: internal error'';
         fail (Wrap ''transfer: failed to save record'' e)
       }
     | Inr _ \<Rightarrow> instruct_provider p walletID totalDebit \<lparr>tq_reference = ref,
         tq_account_number = accountNumber, tq_bank_code = bankCode,
         tq_account_name = accountName, tq_amount_kobo = amountKobo, tq_narration = narration\<rparr>
   }"

definition InitiateBankTransfer ::
  "bool \<Rightarrow> payment_provider \<Rightarrow> uuid \<Rightarrow> uuid \<Rightarrow> string \<Rightarrow> string \<Rightarrow> string \<Rightarrow> string \<Rightarrow> int \<Rightarrow> int \<Rightarrow>
     transfer_response program" where
  "InitiateBankTransfer locks p userID walletID bankCode accountNumber accountName narration
     amountKobo feeKobo = do {
     u \<leftarrow> uuid_new;
     let totalDebit = i64 (amountKobo + feeKobo);
     let ref = ''TRF-'' @ u;
     or_return (DebitAtomic locks walletID totalDebit ref EntryTransferOut
                  (''Bank transfer to '' @ accountName))
       (Wrap ''transfer: insufficient funds or ledger error'') (\<lambda>_.
     record_transfer p userID walletID ref totalDebit bankCode accountNumber accountName narration
       amountKobo feeKobo)
   }"

definition refund_async :: "string \<Rightarrow> unit program" where
  "refund_async reference = do {
     found \<leftarrow> query_row (\<lambda>s. find (\<lambda>x. x_reference x = reference) (transfers s));
     case found of
       Inl _ \<Rightarrow> ok ()
     | Inr x \<Rightarrow> do {
         _ \<leftarrow> Credit (x_wallet_id x) (i64 (x_amount x + x_fee x)) (reference @ ''-REV-ASYNC'')
                EntryReversal ''Refund: transfer failed asynchronously'';
         ok ()
       }
   }"

definition HandleWebhook :: "string \<Rightarrow> string \<Rightarrow> string \<Rightarrow> unit program" where
  "HandleWebhook reference status providerRef =
     or_return (exec (\<lambda>_. update_transfers (\<lambda>x. x_reference x = reference \<and> x_status x = ''pending'')
                  (\<lambda>x. x\<lparr>x_status := status, x_provider_ref := providerRef\<rparr>)))
       (Wrap ''transfer: failed to update status from webhook'') (\<lambda>_.
     if status = ''failed'' \<or> status = ''reversed'' then refund_async reference else ok ())"

definition GetSupportedBanks :: "payment_provider \<Rightarrow> bank_info list program" where
  "GetSupportedBanks p = call (pp_get_banks p)"

definition ResolveAccount :: "payment_provider \<Rightarrow> string \<Rightarrow> string \<Rightarrow> account_info program" where
  "ResolveAccount p accountNumber bankCode = call (\<lambda>n. pp_resolve_account p n accountNumber bankCode)"

text \<open>The handler charges a fixed fee.\<close>

record bank_transfer_request =
  bt_bank_code :: string
  bt_account_number :: string
  bt_account_name :: string
  bt_amount_kobo :: int
  bt_narration :: string
  bt_pin :: string

definition transfer_request_bound :: "bank_transfer_request \<Rightarrow> bool" where
  "transfer_request_bound req \<longleftrightarrow>
     bt_bank_code req \<noteq> [] \<and> bt_account_number req \<noteq> [] \<and> bt_account_name req \<noteq> [] \<and>
     0 < bt_amount_kobo req \<and> bt_pin req \<noteq> []"

definition BankTransferHandler ::
  "bool \<Rightarrow> payment_provider \<Rightarrow> uuid \<Rightarrow> uuid \<Rightarrow> bank_transfer_request \<Rightarrow> transfer_response program" where
  "BankTransferHandler locks p userID walletID req =
     (if \<not> transfer_request_bound req then fail (ErrMsg ''Invalid request parameters'')
      else InitiateBankTransfer locks p userID walletID (bt_bank_code req) (bt_account_number req)
             (bt_account_name req) (bt_narration req) (bt_amount_kobo req) 5000)"

section \<open>A transfer in detail\<close>

text \<open>
  A sound ledger on a reliable database, and UUIDs that are new to it: no entry has one as its
  identifier or a reference that begins with the \<open>TRF-\<close> reference of one.
\<close>

definition transfer_ready :: "world \<Rightarrow> bool" where
  "transfer_ready s \<longleftrightarrow> reliable s \<and> ledger_ok s \<and> inj (uuid_at s) \<and>
     (\<forall>n \<ge> tick s. uuid_at s n \<notin> set (map e_id (ledger_entries s))) \<and>
     length (uuid_at s (tick s)) \<le> 100 \<and>
     (\<forall>r \<in> set (entry_refs s). \<not> prefix (''TRF-'' @ uuid_at s (tick s)) r)"

definition transfer_ref :: "world \<Rightarrow> string" where
  "transfer_ref s = ''TRF-'' @ uuid_at s (tick s)"

lemma transfer_ref_new:
  assumes "transfer_ready s"
  shows "transfer_ref s @ suf \<notin> set (entry_refs s)"
proof
  assume "transfer_ref s @ suf \<in> set (entry_refs s)"
  then have "\<not> prefix (transfer_ref s) (transfer_ref s @ suf)"
    using assms unfolding transfer_ready_def transfer_ref_def by blast
  then show False by simp
qed

text \<open>The state of the ledger between the debit and its refund.\<close>

definition debited :: "world \<Rightarrow> entry \<Rightarrow> uuid \<Rightarrow> int \<Rightarrow> world \<Rightarrow> bool" where
  "debited s e w n s1 \<longleftrightarrow>
     ledger_entries s1 = ledger_entries s @ [e] \<and> sql_ok s1 = sql_ok s \<and> uuid_at s1 = uuid_at s \<and>
     wallets s1 = wallets s \<and> users s1 = users s \<and> tick s \<le> tick s1 \<and>
     (\<exists>k < tick s1. e_id e = uuid_at s k) \<and> e_reference e = transfer_ref s \<and> e_wallet_id e = w \<and>
     e_debit e = n \<and> e_credit e = 0 \<and> 0 < n \<and> in_i64 n \<and> n \<le> ledger_balance w s"

lemma debited_later:
  "debited s e w n s1 \<Longrightarrow> debited s e w n (s1\<lparr>tick := tick s1 + k, transfers := x\<rparr>)"
  unfolding debited_def by (auto intro: trans_less_add1)

lemma debited_step: "debited s e w n s1 \<Longrightarrow> debited s e w n (step s1)"
  unfolding debited_def by (auto intro: less_SucI)

lemma transfer_debit:
  assumes "transfer_ready s"
    and run: "run_state (DebitAtomic locks w n (transfer_ref s) t d) (step s) = (r, s1)"
  shows "(\<not> succeeded r \<longrightarrow> ledger_entries s1 = ledger_entries s) \<and>
    (succeeded r \<longrightarrow> (\<exists>e. debited s e w n s1) \<and> transfers s1 = transfers s)"
proof -
  obtain k where s1: "s1 = (step s)\<lparr>tick := tick (step s) + k, ledger_entries := ledger_entries s1\<rparr>"
    using posts_DebitAtomic run by (rule posts_run)
  note c = DebitAtomic_cases [OF run]
  have "ledger_balance w (step s) = ledger_balance w s" by (simp add: ledger_balance_def)
  moreover have new: "transfer_ref s \<notin> set (entry_refs s)"
    using transfer_ref_new [OF assms(1), of "[]"] by simp
  moreover have "transfers s1 = transfers s \<and> sql_ok s1 = sql_ok s \<and> uuid_at s1 = uuid_at s \<and>
      wallets s1 = wallets s \<and> users s1 = users s \<and> tick s \<le> tick s1"
    by (subst (1 2 3 4 5 6) s1) simp
  moreover from c have "appends (\<lambda>e. e_wallet_id e = w \<and> e_reference e = transfer_ref s \<and> e_credit e = 0 \<and>
      e_debit e = n \<and> n \<le> ledger_balance w (step s) \<and> (\<exists>k<tick s1. e_id e = uuid_at (step s) k)) (step s) s1"
    by blast
  ultimately show ?thesis using c
    by (auto simp: debited_def entry_refs_def entry_row_ok_def elim!: appendsE)
qed

lemma transfer_credit:
  assumes "transfer_ready s" and "debited s e w n s1" and "wallet_exists w s"
    and "length suf \<le> 10" and "suf \<noteq> []"
  shows "\<exists>c. run_state (Credit w n (transfer_ref s @ suf) t d) s1 =
      (Inr (), s1\<lparr>tick := tick s1 + 2, ledger_entries := ledger_entries s @ [e, c]\<rparr>) \<and>
    e_wallet_id c = w \<and> e_credit c = n \<and> e_debit c = 0 \<and> e_reference c = transfer_ref s @ suf \<and>
    e_id c = uuid_at s (tick s1)"
proof -
  have "reliable s1" "uuid_at s1 = uuid_at s" "wallet_exists w s1" "0 < n" "in_i64 n"
    and e: "ledger_entries s1 = ledger_entries s @ [e]" "e_reference e = transfer_ref s"
    using assms by (auto simp: debited_def transfer_ready_def reliable_def wallet_exists_def)
  moreover have "length (transfer_ref s @ suf) \<le> 120"
    using assms(1,4) by (auto simp: transfer_ready_def transfer_ref_def)
  moreover have "transfer_ref s @ suf \<notin> set (entry_refs s1)"
    using e assms(5) transfer_ref_new [OF assms(1), of suf] by (simp add: entry_refs_def)
  moreover have "uuid_at s1 (tick s1) \<notin> set (map e_id (ledger_entries s1))"
  proof -
    from assms(2) obtain k where "k < tick s1" "e_id e = uuid_at s k" by (auto simp: debited_def)
    moreover have "inj (uuid_at s)" using assms(1) by (simp add: transfer_ready_def)
    ultimately have "uuid_at s (tick s1) \<noteq> e_id e" by (simp add: inj_eq)
    moreover have "uuid_at s (tick s1) \<notin> set (map e_id (ledger_entries s))"
      using assms(1,2) by (simp add: transfer_ready_def debited_def)
    ultimately show ?thesis using assms(2) by (simp add: debited_def)
  qed
  ultimately show ?thesis
    by (intro exI [of _ "\<lparr>e_id = uuid_at s1 (tick s1), e_wallet_id = w, e_debit = 0, e_credit = n,
          e_reference = transfer_ref s @ suf, e_type = t, e_description = d,
          e_created_at = time_at s1 (tick s1 + 2)\<rparr>"])
      (simp add: run_Credit del: append_assoc)
qed

text \<open>The provider's part: the ledger keeps the debit if it accepts and has it back if it refuses.\<close>

lemma instruct_provider_cases:
  assumes "transfer_ready s" and "debited s e w n s1" and "wallet_exists w s"
    and x: "find (\<lambda>y. x_reference y = transfer_ref s) (transfers s1) = Some x" "transfer_row_ok x"
    and only: "\<forall>y \<in> set (transfers s1). x_reference y = transfer_ref s \<longrightarrow> y = x"
    and "tq_reference req = transfer_ref s"
    and "run_state (instruct_provider p w n req) s1 = (r, s')"
  shows "(\<exists>resp. r = Inr resp) \<and> pp_transfer p (tick s1) req = r \<and> ledger_entries s' = ledger_entries s @ [e] \<or>
    (\<exists>err c x' k. pp_transfer p (tick s1) req = Inl err \<and> r = Inl (Wrap ''transfer: provider error'' err) \<and>
       s' = s1\<lparr>tick := tick s1 + k, ledger_entries := ledger_entries s @ [e, c], transfers := x'\<rparr> \<and>
       (\<exists>y. find (\<lambda>y. x_reference y = transfer_ref s) x' = Some y \<and>
         x_wallet_id y = x_wallet_id x \<and> x_amount y = x_amount x \<and> x_fee y = x_fee x) \<and>
       (\<forall>y \<in> set x'. x_reference y = transfer_ref s \<longrightarrow> x_status y = ''failed'') \<and>
       e_wallet_id c = w \<and> e_credit c = n \<and> e_debit c = 0 \<and>
       e_reference c = transfer_ref s @ ''-REV'' \<and> e_id c = uuid_at s (tick (step s1)) \<and> 3 \<le> k)"
proof (cases "pp_transfer p (tick s1) req")
  case (Inr resp)
  with assms(8) have "r = Inr resp \<and> pp_transfer p (tick s1) req = r \<and> ledger_entries s' = ledger_entries s1"
    by (auto simp: instruct_provider_def run_exec update_transfers_def split: if_splits option.splits)
  with assms(2) show ?thesis by (simp add: debited_def)
next
  case (Inl err)
  obtain c where run: "run_state (Credit w n (transfer_ref s @ ''-REV'') EntryReversal
      ''Refund: transfer failed'') (step s1) =
      (Inr (), (step s1)\<lparr>tick := tick (step s1) + 2, ledger_entries := ledger_entries s @ [e, c]\<rparr>)"
    and c: "e_wallet_id c = w" "e_credit c = n" "e_debit c = 0"
      "e_reference c = transfer_ref s @ ''-REV''" "e_id c = uuid_at s (tick (step s1))"
    using transfer_credit [OF assms(1) debited_step [OF assms(2)] assms(3), of "''-REV''"] by auto
  define s2 where "s2 = (step s1)\<lparr>tick := tick (step s1) + 2, ledger_entries := ledger_entries s @ [e, c]\<rparr>"
  let ?p = "\<lambda>y. x_reference y = transfer_ref s"
  let ?f = "\<lambda>y. y\<lparr>x_status := ''failed'', x_failure_reason := Error err\<rparr>"
  have ok: "sql_ok s2 (tick s2)" using assms(1,2) by (simp add: s2_def debited_def transfer_ready_def)
  have "list_all (\<lambda>y. ?p y \<longrightarrow> transfer_row_ok (?f y)) (transfers s2)"
    using only x(2) by (auto simp: list_all_iff s2_def transfer_row_ok_def)
  then have "update_transfers ?p ?f (step s2) = Some ((step s2)\<lparr>transfers := set_rows ?p ?f (transfers s2)\<rparr>)"
    by (simp add: update_transfers_def)
  then have upd: "run_state (exec (\<lambda>_. update_transfers ?p ?f)) s2 =
      (Inr (), (step s2)\<lparr>transfers := set_rows ?p ?f (transfers s2)\<rparr>)"
    using ok by (simp add: run_exec_Some)
  have "run_state (instruct_provider p w n req) s1 =
      (Inl (Wrap ''transfer: provider error'' err), (step s2)\<lparr>transfers := set_rows ?p ?f (transfers s2)\<rparr>)"
    using run upd Inl assms(7) by (simp add: instruct_provider_def s2_def)
  moreover have "find ?p (set_rows ?p ?f (transfers s2)) = Some (?f x)"
    using x(1) by (subst find_set_rows) (auto simp: s2_def dest: find_SomeD)
  ultimately show ?thesis using assms(8) c Inl
    by (intro disjI2 exI [of _ err] exI [of _ c] exI [of _ "set_rows ?p ?f (transfers s2)"] exI [of _ 4])
      (auto simp: s2_def step_def set_rows_def)
qed

text \<open>What the provider is asked: the amount without the fee, to the account of the request.\<close>

definition transfer_order :: "world \<Rightarrow> string \<Rightarrow> string \<Rightarrow> string \<Rightarrow> string \<Rightarrow> int \<Rightarrow> transfer_request" where
  "transfer_order s bank acct name narr a = \<lparr>tq_reference = transfer_ref s, tq_account_number = acct,
     tq_bank_code = bank, tq_account_name = name, tq_amount_kobo = a, tq_narration = narr\<rparr>"

lemma run_InitiateBankTransfer:
  "run_state (InitiateBankTransfer locks p u w bank acct name narr a f) s =
     run_state (or_return (DebitAtomic locks w (i64 (a + f)) (transfer_ref s) EntryTransferOut
         (''Bank transfer to '' @ name)) (Wrap ''transfer: insufficient funds or ledger error'')
       (\<lambda>_. record_transfer p u w (transfer_ref s) (i64 (a + f)) bank acct name narr a f)) (step s)"
  by (simp add: InitiateBankTransfer_def transfer_ref_def Let_def)

lemma debited_insert_transfer:
  assumes "debited s e w n s1" and "insert_transfer x (step s1) = Some s2"
  shows "debited s e w n s2 \<and> transfers s2 = transfers s1 @ [x] \<and> transfer_row_ok x \<and>
    x_reference x \<notin> set (map x_reference (transfers s1))"
proof -
  have "s2 = (step s1)\<lparr>transfers := transfers s1 @ [x]\<rparr>" and x: "transfer_row_ok x"
    "x_reference x \<notin> set (map x_reference (transfers s1))"
    using assms(2) by (auto simp: insert_transfer_def split: if_splits)
  then have "s2 = s1\<lparr>tick := tick s1 + 1, transfers := transfers s1 @ [x]\<rparr>"
    by (simp add: step_def)
  with debited_later [OF assms(1), where k = 1 and x = "transfers s1 @ [x]"] x show ?thesis by simp
qed

lemma transfer_cases:
  assumes ready: "transfer_ready s" and wallet: "wallet_exists w s"
    and run: "run_state (InitiateBankTransfer locks p u w bank acct name narr a f) s = (r, s')"
  obtains
    (refused) "\<not> succeeded r" "ledger_entries s' = ledger_entries s"
      "\<forall>err. r \<noteq> Inl (Wrap ''transfer: provider error'' err)"
  | (sent) e s1 where "succeeded r" "debited s e w (i64 (a + f)) s1" "ledger_entries s' = ledger_entries s @ [e]"
      "\<exists>n. pp_transfer p n (transfer_order s bank acct name narr a) = r"
  | (refunded) e s1 c where "\<not> succeeded r" "debited s e w (i64 (a + f)) s1"
      "ledger_entries s' = ledger_entries s @ [e, c]" "e_wallet_id c = w" "e_credit c = i64 (a + f)" "e_debit c = 0"
      "\<forall>err. r = Inl (Wrap ''transfer: provider error'' err) \<longrightarrow>
         (\<exists>n. pp_transfer p n (transfer_order s bank acct name narr a) = Inl err)"
      "\<forall>err. r = Inl (Wrap ''transfer: provider error'' err) \<longrightarrow>
         (\<exists>x' k y. s' = s1\<lparr>tick := tick s1 + k, ledger_entries := ledger_entries s @ [e, c], transfers := x'\<rparr> \<and>
            find (\<lambda>y. x_reference y = transfer_ref s) x' = Some y \<and>
            x_wallet_id y = w \<and> x_amount y = a \<and> x_fee y = f \<and>
            (\<forall>y \<in> set x'. x_reference y = transfer_ref s \<longrightarrow> x_status y = ''failed'') \<and>
            e_reference c = transfer_ref s @ ''-REV'' \<and> e_id c = uuid_at s (tick (step s1)) \<and> 3 \<le> k)"
proof -
  let ?n = "i64 (a + f)"
  obtain r1 s1 where debit: "run_state (DebitAtomic locks w ?n (transfer_ref s) EntryTransferOut
      (''Bank transfer to '' @ name)) (step s) = (r1, s1)" by (meson surj_pair)
  note d = transfer_debit [OF ready debit]
  show thesis
  proof (cases r1)
    case (Inl err)
    with run debit have "r = Inl (Wrap ''transfer: insufficient funds or ledger error'' err)" "s' = s1"
      by (simp_all add: run_InitiateBankTransfer run_or_return_Inl)
    with Inl d refused show thesis by simp
  next
    case (Inr v)
    with d obtain e where e: "debited s e w ?n s1" by auto
    from Inr run debit have saved: "run_state (record_transfer p u w (transfer_ref s) ?n bank acct name narr a f) s1 = (r, s')"
      by (simp add: run_InitiateBankTransfer run_or_return_Inr)
    define x where "x = \<lparr>x_reference = transfer_ref s, x_user_id = u, x_wallet_id = w, x_amount = a,
      x_fee = f, x_status = ''pending'', x_bank_code = bank, x_account_number = acct,
      x_account_name = name, x_narration = narr, x_provider = pp_name p, x_provider_ref = [],
      x_failure_reason = []\<rparr>"
    have ok: "sql_ok s1 (tick s1)" using ready e by (simp add: debited_def transfer_ready_def)
    show thesis
    proof (cases "insert_transfer x (step s1)")
      case None
      then have rec: "run_state (exec (\<lambda>_. insert_transfer x)) s1 = (Inl (ErrDb ''constraint''), step s1)"
        using ok by (simp add: run_exec)
      obtain c where "run_state (Credit w ?n (transfer_ref s @ ''-REV'') EntryReversal
          ''Refund: internal error'') (step s1) =
          (Inr (), (step s1)\<lparr>tick := tick (step s1) + 2, ledger_entries := ledger_entries s @ [e, c]\<rparr>)"
        and c: "e_wallet_id c = w" "e_credit c = ?n" "e_debit c = 0"
        using transfer_credit [OF ready debited_step [OF e] wallet, of "''-REV''"] by auto
      with saved rec have "r = Inl (Wrap ''transfer: failed to save record'' (ErrDb ''constraint'')) \<and>
          s' = (step s1)\<lparr>tick := tick (step s1) + 2, ledger_entries := ledger_entries s @ [e, c]\<rparr>"
        by (simp add: record_transfer_def x_def)
      with c e show thesis by (intro refunded [of e s1 c]) auto
    next
      case (Some s2)
      then have rec: "run_state (exec (\<lambda>_. insert_transfer x)) s1 = (Inr (), s2)"
        using ok by (simp add: run_exec_Some)
      from debited_insert_transfer [OF e Some]
      have s2: "debited s e w ?n s2" "transfers s2 = transfers s1 @ [x]" "transfer_row_ok x"
        "x_reference x \<notin> set (map x_reference (transfers s1))" by auto
      define req where "req = transfer_order s bank acct name narr a"
      have inst: "run_state (instruct_provider p w ?n req) s2 = (r, s')"
        using saved rec by (simp add: record_transfer_def x_def req_def transfer_order_def)
      have "find (\<lambda>y. x_reference y = transfer_ref s) (transfers s2) = Some x"
      proof -
        have "find (\<lambda>y. x_reference y = transfer_ref s) (transfers s1) = None"
          using s2(4) by (auto simp: find_None_iff x_def image_iff)
        then show ?thesis by (simp add: s2(2) find_append x_def)
      qed
      moreover have "\<forall>y \<in> set (transfers s2). x_reference y = transfer_ref s \<longrightarrow> y = x"
        using s2(2,4) by (auto simp: x_def image_iff)
      moreover have "tq_reference req = transfer_ref s" by (simp add: req_def transfer_order_def)
      ultimately have "(\<exists>resp. r = Inr resp) \<and> pp_transfer p (tick s2) req = r \<and> ledger_entries s' = ledger_entries s @ [e] \<or>
        (\<exists>err c x' k. pp_transfer p (tick s2) req = Inl err \<and> r = Inl (Wrap ''transfer: provider error'' err) \<and>
           s' = s2\<lparr>tick := tick s2 + k, ledger_entries := ledger_entries s @ [e, c], transfers := x'\<rparr> \<and>
           (\<exists>y. find (\<lambda>y. x_reference y = transfer_ref s) x' = Some y \<and>
             x_wallet_id y = x_wallet_id x \<and> x_amount y = x_amount x \<and> x_fee y = x_fee x) \<and>
           (\<forall>y \<in> set x'. x_reference y = transfer_ref s \<longrightarrow> x_status y = ''failed'') \<and>
           e_wallet_id c = w \<and> e_credit c = ?n \<and> e_debit c = 0 \<and>
           e_reference c = transfer_ref s @ ''-REV'' \<and> e_id c = uuid_at s (tick (step s2)) \<and> 3 \<le> k)"
        using ready s2(1,3) wallet inst by (intro instruct_provider_cases)
      then consider "\<exists>resp. r = Inr resp" "pp_transfer p (tick s2) req = r" "ledger_entries s' = ledger_entries s @ [e]"
        | err c x' k y where "pp_transfer p (tick s2) req = Inl err" "r = Inl (Wrap ''transfer: provider error'' err)"
          "s' = s2\<lparr>tick := tick s2 + k, ledger_entries := ledger_entries s @ [e, c], transfers := x'\<rparr>"
          "find (\<lambda>y. x_reference y = transfer_ref s) x' = Some y"
          "x_wallet_id y = w" "x_amount y = a" "x_fee y = f"
          "\<forall>y \<in> set x'. x_reference y = transfer_ref s \<longrightarrow> x_status y = ''failed''"
          "e_wallet_id c = w" "e_credit c = ?n" "e_debit c = 0"
          "e_reference c = transfer_ref s @ ''-REV''" "e_id c = uuid_at s (tick (step s2))" "3 \<le> k"
        by (auto simp: x_def)
      then show thesis
      proof cases
        case 1
        with s2(1) show thesis by (intro sent) (auto simp: req_def)
      next
        case 2
        have "\<exists>n. pp_transfer p n (transfer_order s bank acct name narr a) = Inl err"
          using 2(1) unfolding req_def by blast
        with 2(2-) s2(1) show thesis
          by (intro refunded [of e s2 c]) (simp_all, intro exI [of _ x'] exI [of _ k] exI [of _ y], simp)
      qed
    qed
  qed
qed

text \<open>
  C20. On a sound ledger, when no statement of the database fails and the UUIDs drawn are new, a bank
  transfer from an existing wallet is all or nothing: it succeeds only with the answer of a provider that
  accepted to send the amount to the account of the request, and then the wallet could pay for it and is
  charged exactly the amount and the fee; whatever fails, the check of the funds, the record or the
  provider, every wallet has its former balance. The ledger's balance query may be accepted or refused
  by the database. (A refund that fails is only logged: where statements may fail, a refused transfer
  can keep the money.)
\<close>

theorem transfer_all_or_nothing:
  assumes "transfer_ready s" and "wallet_exists w s"
    and "run_state (InitiateBankTransfer locks p u w bank acct name narr a f) s = (r, s')"
  shows "(\<forall>x. ledger_balance x s' =
      ledger_balance x s - (if succeeded r \<and> x = w then i64 (a + f) else 0)) \<and>
    (succeeded r \<longrightarrow> 0 < i64 (a + f) \<and> i64 (a + f) \<le> ledger_balance w s \<and>
       (\<exists>n. pp_transfer p n (transfer_order s bank acct name narr a) = r)) \<and>
    (\<forall>err. r = Inl (Wrap ''transfer: provider error'' err) \<longrightarrow>
       (\<exists>n. pp_transfer p n (transfer_order s bank acct name narr a) = Inl err))"
  using assms
proof (cases rule: transfer_cases)
  case refused
  then show ?thesis by (simp add: ledger_balance_def)
next
  case (sent e s1)
  then show ?thesis by (auto simp: ledger_balance_def debited_def Let_def)
next
  case (refunded e s1 c)
  then show ?thesis by (auto simp: ledger_balance_def debited_def Let_def)
qed

definition sample_bank :: "bool \<Rightarrow> payment_provider" where
  "sample_bank accepts = (sample_provider ''paystack'' True)\<lparr>pp_transfer := (\<lambda>_ req.
     if accepts then Inr \<lparr>tp_reference = tq_reference req, tp_status = ''pending'', tp_provider_ref = ''T1''\<rparr>
     else Inl (ErrMsg ''declined''))\<rparr>"

lemma transfer_ready_funded: "transfer_ready funded_ledger" "wallet_exists ''wa'' funded_ledger"
proof -
  have "ledger_ok funded_ledger" "tick funded_ledger = 0" "map e_id (ledger_entries funded_ledger) = [''e0'']"
    "entry_refs funded_ledger = [''FUND-1'']" "length (uuid_at funded_ledger 0) \<le> 100"
    "\<not> prefix (''TRF-'' @ uuid_at funded_ledger 0) ''FUND-1''"
    by code_simp+
  moreover have "reliable funded_ledger" and u: "uuid_at funded_ledger = (\<lambda>n. ''uuid-'' @ show_int (int n))"
    using reliable_sample
    by (simp_all add: funded_ledger_def reliable_def sample_world_def empty_world_def)
  moreover have "inj (uuid_at funded_ledger)"
    by (auto simp: u inj_def show_int_def dest: show_dec_inj [OF of_nat_0_le_iff of_nat_0_le_iff])
  ultimately show "transfer_ready funded_ledger"
    by (simp add: transfer_ready_def u)
  show "wallet_exists ''wa'' funded_ledger" by code_simp
qed

definition sample_transfer :: "bool \<Rightarrow> int \<Rightarrow> transfer_response program" where
  "sample_transfer accepts n =
     InitiateBankTransfer True (sample_bank accepts) ''ada'' ''wa'' ''058'' ''0123456789'' ''Bola'' [] n 5000"

lemma transfer_all_or_nothing_witness:
  "ledger_balance ''wa'' (snd (run_state (sample_transfer True 40000) funded_ledger)) = 45000 \<and>
   ledger_balance ''wa'' (snd (run_state (sample_transfer False 40000) funded_ledger)) = 90000"
proof -
  have r: "succeeded (fst (run_state (sample_transfer True 40000) funded_ledger))"
    "\<not> succeeded (fst (run_state (sample_transfer False 40000) funded_ledger))"
    "ledger_balance ''wa'' funded_ledger = 90000" "i64 (40000 + 5000) = 45000"
    by code_simp+
  have "ledger_balance ''wa'' (snd (run_state (sample_transfer b 40000) funded_ledger)) =
      ledger_balance ''wa'' funded_ledger -
        (if succeeded (fst (run_state (sample_transfer b 40000) funded_ledger)) then i64 (40000 + 5000) else 0)" for b
    using transfer_all_or_nothing [OF transfer_ready_funded, of True "sample_bank b" "''ada''" "''058''"
        "''0123456789''" "''Bola''" "[]" 40000 5000]
    by (simp add: sample_transfer_def prod_eq_iff)
  with r show ?thesis by simp
qed

text \<open>
  C21. PostgreSQL rejects the locking aggregate query of the debit, so no bank transfer ever starts: every
  request fails, before the provider is asked and without a trace in any table.
\<close>

theorem bank_transfers_never_start:
  "\<exists>e k. run_state (InitiateBankTransfer False p u w bank acct name narr a f) s =
     (Inl (Wrap ''transfer: insufficient funds or ledger error'' e), s\<lparr>tick := tick s + k\<rparr>)"
proof -
  obtain r1 s1 where debit: "run_state (DebitAtomic False w (i64 (a + f)) (transfer_ref s) EntryTransferOut
      (''Bank transfer to '' @ name)) (step s) = (r1, s1)" by (meson surj_pair)
  from DebitAtomic_cases [OF this] obtain e where e: "r1 = Inl e" "ledger_entries s1 = ledger_entries s"
    by (cases r1) auto
  obtain k where "s1 = (step s)\<lparr>tick := tick (step s) + k, ledger_entries := ledger_entries s1\<rparr>"
    using posts_DebitAtomic debit by (rule posts_run)
  then have "s1 = s\<lparr>tick := tick s + Suc k\<rparr>" using e(2) by (simp add: step_def)
  with debit e(1) show ?thesis
    unfolding run_InitiateBankTransfer by (intro exI [of _ e] exI [of _ "Suc k"]) (simp add: run_or_return_Inl)
qed

section \<open>The webhook\<close>

text \<open>What a webhook leaves alone in the table of transfers.\<close>

definition charges :: "world \<Rightarrow> (string \<times> uuid \<times> int) list" where
  "charges s = map (\<lambda>x. (x_reference x, x_wallet_id x, i64 (x_amount x + x_fee x))) (transfers s)"

definition refund_of :: "string \<Rightarrow> world \<Rightarrow> entry \<Rightarrow> bool" where
  "refund_of ref s e \<longleftrightarrow> e_reference e = ref @ ''-REV-ASYNC'' \<and> e_debit e = 0 \<and>
     (ref, e_wallet_id e, e_credit e) \<in> set (charges s)"

lemma HandleWebhook_cases:
  assumes "run_state (HandleWebhook ref status pr) s = (r, s')"
  shows "appends (refund_of ref s) s s' \<and> charges s' = charges s"
  using assms unfolding HandleWebhook_def
proof (cases rule: or_return_cases)
  case (returned e)
  from exec_error [OF returned(1)] show ?thesis by (simp add: charges_def appends.nothing)
next
  case (continued v s1)
  have s1: "ledger_entries s1 = ledger_entries s" "charges s1 = charges s"
    using continued(1) by (auto simp: run_exec update_transfers_def charges_def set_rows_def split: if_splits)
  show ?thesis
  proof (cases "status = ''failed'' \<or> status = ''reversed''")
    case False
    with continued s1 show ?thesis by (auto intro: appends.nothing)
  next
    case True
    with continued have run: "run_state (refund_async ref) s1 = (r, s')" by simp
    show ?thesis
    proof (cases "sql_ok s1 (tick s1) \<and> find (\<lambda>x. x_reference x = ref) (transfers s1) \<noteq> None")
      case False
      with run s1 show ?thesis
        by (auto simp: refund_async_def run_query_row charges_def split: option.splits if_splits intro: appends.nothing)
    next
      case True
      then obtain x where x: "find (\<lambda>x. x_reference x = ref) (transfers s1) = Some x" by auto
      with True run obtain r2 where credit: "run_state (Credit (x_wallet_id x) (i64 (x_amount x + x_fee x))
          (ref @ ''-REV-ASYNC'') EntryReversal ''Refund: transfer failed asynchronously'') (step s1) = (r2, s')"
        by (auto simp: refund_async_def run_query_row split: prod.splits)
      obtain k where later: "s' = (step s1)\<lparr>tick := tick (step s1) + k, ledger_entries := ledger_entries s'\<rparr>"
        using posts_Credit credit by (rule posts_run)
      from arg_cong [OF later, of transfers] have "transfers s' = transfers s1" by simp
      then have "charges s' = charges s" using s1 by (simp add: charges_def)
      moreover have "(ref, x_wallet_id x, i64 (x_amount x + x_fee x)) \<in> set (charges s)"
      proof -
        from find_SomeD [OF x] have "(ref, x_wallet_id x, i64 (x_amount x + x_fee x)) \<in> set (charges s1)"
          by (auto simp: charges_def)
        then show ?thesis by (simp only: s1(2))
      qed
      moreover have "appends (refund_of ref s) s s'"
      proof (rule appends_weaken)
        show "appends (\<lambda>e. e_wallet_id e = x_wallet_id x \<and> e_reference e = ref @ ''-REV-ASYNC'' \<and>
            e_credit e = i64 (x_amount x + x_fee x) \<and> e_debit e = 0) (step s1) s'"
          using Credit_cases [OF credit] by blast
      qed (use calculation s1 in \<open>simp_all add: refund_of_def\<close>)
      ultimately show ?thesis by blast
    qed
  qed
qed

text \<open>
  However many webhooks a provider sends for a transfer, in whatever order and with whatever
  statuses, the ledger gains at most one entry, the refund of that transfer's amount and fee
  to the wallet it was paid from, and none if it was refunded by a webhook before.
\<close>

theorem webhooks_refund_once:
  assumes "s' = attempts (\<lambda>(status, pr). HandleWebhook ref status pr) reports s"
  shows "ledger_entries s' = ledger_entries s \<or>
    ref @ ''-REV-ASYNC'' \<notin> set (entry_refs s) \<and> (\<exists>e. ledger_entries s' = ledger_entries s @ [e] \<and> refund_of ref s e)"
proof -
  let ?act = "\<lambda>(status, pr). HandleWebhook ref status pr"
  have settled: "ledger_entries (attempts ?act es t) = ledger_entries t"
    if "ref @ ''-REV-ASYNC'' \<in> set (entry_refs t)" for es t
    using that
  proof (induction es arbitrary: t)
    case (Cons e es)
    obtain r t1 where run: "run_state (?act e) t = (r, t1)" by (cases "run_state (?act e) t")
    then have "appends (refund_of ref t) t t1" using HandleWebhook_cases by (cases e) auto
    with Cons.prems have "ledger_entries t1 = ledger_entries t" by (auto simp: refund_of_def elim!: appendsE)
    with Cons run show ?case by (simp add: entry_refs_def)
  qed simp
  have "ledger_entries (attempts ?act reports t) = ledger_entries t \<or> ref @ ''-REV-ASYNC'' \<notin> set (entry_refs t) \<and>
      (\<exists>e. ledger_entries (attempts ?act reports t) = ledger_entries t @ [e] \<and> refund_of ref t e)" for t
  proof (induction reports arbitrary: t)
    case (Cons e es)
    obtain r t1 where run: "run_state (?act e) t = (r, t1)" by (cases "run_state (?act e) t")
    then have one: "appends (refund_of ref t) t t1 \<and> charges t1 = charges t"
      using HandleWebhook_cases by (cases e) auto
    from one [THEN conjunct1] show ?case
    proof cases
      case nothing
      with one Cons.IH [of t1] run show ?thesis by (auto simp: refund_of_def entry_refs_def)
    next
      case (entry x)
      then have "ref @ ''-REV-ASYNC'' \<in> set (entry_refs t1)" by (simp add: entry_refs_def refund_of_def)
      from settled [OF this, of es] entry run show ?thesis by (auto simp: refund_of_def)
    qed
  qed simp
  with assms show ?thesis by blast
qed

definition failed_world :: world where
  "failed_world = snd (run_state (sample_transfer False 40000) funded_ledger)"

lemma webhooks_refund_once_witness:
  "length (ledger_entries (attempts (\<lambda>(status, pr). HandleWebhook (transfer_ref funded_ledger) status pr)
     [(''failed'', ''T1''), (''reversed'', ''T1''), (''success'', ''T2''), (''failed'', ''T1'')] failed_world)) \<le> 4"
proof -
  have "length (ledger_entries failed_world) = 3" by code_simp
  with webhooks_refund_once [OF refl, of "transfer_ref funded_ledger"
      "[(''failed'', ''T1''), (''reversed'', ''T1''), (''success'', ''T2''), (''failed'', ''T1'')]" failed_world]
  show ?thesis by auto
qed

text \<open>
  A transfer that the provider refuses at once is refunded twice if the provider also reports the
  failure by webhook: the two refunds have different references, and the webhook refunds
  whatever the transfer's status is. The wallet ends with the transfer's amount and fee on top of
  its opening balance.
\<close>

theorem late_failure_refunds_again:
  assumes "transfer_ready s" and "wallet_exists w s"
    and "run_state (InitiateBankTransfer locks p u w bank acct name narr a f) s =
      (Inl (Wrap ''transfer: provider error'' err), s1)"
    and "run_state (HandleWebhook (transfer_ref s) ''failed'' pr) s1 = (r, s2)"
  shows "ledger_balance w s2 = ledger_balance w s + i64 (a + f) \<and> 0 < i64 (a + f)"
  using assms(1-3)
proof (cases rule: transfer_cases)
  case (refunded e s3 c)
  then obtain x' k y where s1: "s1 = s3\<lparr>tick := tick s3 + k, ledger_entries := ledger_entries s @ [e, c], transfers := x'\<rparr>"
    and y: "find (\<lambda>y. x_reference y = transfer_ref s) x' = Some y" "x_wallet_id y = w" "x_amount y = a" "x_fee y = f"
    and failed: "\<forall>y \<in> set x'. x_reference y = transfer_ref s \<longrightarrow> x_status y = ''failed''"
    and c: "e_reference c = transfer_ref s @ ''-REV''" "e_id c = uuid_at s (tick (step s3))" "3 \<le> k"
    by auto
  let ?n = "i64 (a + f)" and ?ref = "transfer_ref s @ ''-REV-ASYNC''"
  let ?p = "\<lambda>x. x_reference x = transfer_ref s \<and> x_status x = ''pending''"
  let ?f = "\<lambda>x. x\<lparr>x_status := ''failed'', x_provider_ref := pr\<rparr>"
  have d: "debited s e w ?n s3" by fact
  then have rel: "reliable s1" and uu: "uuid_at s1 = uuid_at s" and wal: "wallet_exists w s1"
    using assms(1,2) by (auto simp: s1 debited_def transfer_ready_def reliable_def wallet_exists_def)
  have "set_rows ?p ?f x' = x'" using failed by (intro set_rows_none) auto
  moreover have "list_all (\<lambda>x. ?p x \<longrightarrow> transfer_row_ok (?f x)) x'" using failed by (auto simp: list_all_iff)
  ultimately have "update_transfers ?p ?f (step s1) = Some (step s1)" by (simp add: update_transfers_def s1)
  then have upd: "run_state (exec (\<lambda>_. update_transfers ?p ?f)) s1 = (Inr (), step s1)"
    using rel by (simp add: run_exec_Some)
  define s4 where "s4 = step (step s1)"
  have s4: "reliable s4" "uuid_at s4 = uuid_at s" "wallet_exists w s4" "tick s4 = tick s3 + k + 2"
    "ledger_entries s4 = ledger_entries s @ [e, c]"
    using rel uu wal by (simp_all add: s4_def s1 wallet_exists_def)
  have "?ref \<notin> set (entry_refs s4)"
    using transfer_ref_new [OF assms(1), of "''-REV-ASYNC''"] c(1) d s4(5)
    by (simp add: entry_refs_def debited_def)
  moreover have "uuid_at s (tick s4) \<notin> set (map e_id (ledger_entries s4))"
  proof -
    have inj: "inj (uuid_at s)" using assms(1) by (simp add: transfer_ready_def)
    from d obtain j where "j < tick s3" "e_id e = uuid_at s j" by (auto simp: debited_def)
    with inj s4(4) have "uuid_at s (tick s4) \<noteq> e_id e" by (simp add: inj_eq)
    moreover have "uuid_at s (tick s4) \<noteq> e_id c" using inj c(2,3) s4(4) by (simp add: inj_eq)
    moreover have "uuid_at s (tick s4) \<notin> set (map e_id (ledger_entries s))"
      using assms(1) d s4(4) by (simp add: transfer_ready_def debited_def)
    ultimately show ?thesis using s4(5) by simp
  qed
  moreover have "length ?ref \<le> 120" using assms(1) by (auto simp: transfer_ready_def transfer_ref_def)
  moreover have n: "0 < ?n" "in_i64 ?n" using d by (auto simp: debited_def)
  ultimately have credit: "run_state (Credit w ?n ?ref EntryReversal ''Refund: transfer failed asynchronously'') s4 =
      (Inr (), s4\<lparr>tick := tick s4 + 2, ledger_entries := ledger_entries s4 @ [\<lparr>e_id = uuid_at s4 (tick s4),
        e_wallet_id = w, e_debit = 0, e_credit = ?n, e_reference = ?ref, e_type = EntryReversal,
        e_description = ''Refund: transfer failed asynchronously'', e_created_at = time_at s4 (tick s4 + 2)\<rparr>]\<rparr>)"
    using s4(1-3) by (intro run_Credit) (simp_all only: s4(2) not_False_eq_True)
  have "run_state (query_row (\<lambda>s'. find (\<lambda>x. x_reference x = transfer_ref s) (transfers s'))) (step s1) =
      (Inr y, s4)"
    using reliableD [OF rel, of "tick (step s1)"] y(1) by (simp add: run_query_row s4_def s1)
  then have "snd (run_state (refund_async (transfer_ref s)) (step s1)) =
      snd (run_state (Credit w ?n ?ref EntryReversal ''Refund: transfer failed asynchronously'') s4)"
    by (simp add: refund_async_def y split: prod.splits)
  moreover have "s2 = snd (run_state (refund_async (transfer_ref s)) (step s1))"
    using assms(4) unfolding HandleWebhook_def run_or_return_Inr [OF upd] by simp
  ultimately have s2: "ledger_entries s2 = ledger_entries s @ [e, c, \<lparr>e_id = uuid_at s4 (tick s4),
        e_wallet_id = w, e_debit = 0, e_credit = ?n, e_reference = ?ref, e_type = EntryReversal,
        e_description = ''Refund: transfer failed asynchronously'', e_created_at = time_at s4 (tick s4 + 2)\<rparr>]"
    using credit s4(5) by simp
  have "e_wallet_id e = w" "e_debit e = ?n" "e_credit e = 0" using d by (simp_all add: debited_def)
  moreover have "e_wallet_id c = w" "e_credit c = ?n" "e_debit c = 0" by fact+
  ultimately show ?thesis using n(1) by (simp add: ledger_balance_def Let_def s2)
qed auto

lemma late_failure_refunds_again_witness:
  "ledger_balance ''wa'' (snd (run_state (HandleWebhook (transfer_ref funded_ledger) ''failed'' ''T1'') failed_world))
     = 135000"
proof -
  let ?e = "ErrMsg ''declined''"
  have "fst (run_state (sample_transfer False 40000) funded_ledger) = Inl (Wrap ''transfer: provider error'' ?e)"
    by code_simp
  then have run: "run_state (sample_transfer False 40000) funded_ledger =
      (Inl (Wrap ''transfer: provider error'' ?e), failed_world)"
    by (simp add: failed_world_def prod_eq_iff)
  have "ledger_balance ''wa'' funded_ledger = 90000" "i64 (40000 + 5000) = 45000" by code_simp+
  then show ?thesis
    using late_failure_refunds_again [OF transfer_ready_funded run [unfolded sample_transfer_def],
        of "''T1''" "fst (run_state (HandleWebhook (transfer_ref funded_ledger) ''failed'' ''T1'') failed_world)"]
    by (simp add: prod_eq_iff)
qed

end
