(* ===== verification/VirtualAccounts.thy ===== *)
theory VirtualAccounts
  imports WalletRepo Providers
begin

text \<open>
  \<open>internal/services/virtualaccount/service.go\<close>: the dedicated bank account of a user, asked
  from the provider the first time and read from the table afterwards.
\<close>

definition virtual_row_ok :: "virtual_account \<Rightarrow> bool" where
  "virtual_row_ok v \<longleftrightarrow> length (v_account_number v) \<le> 20 \<and> length (v_account_name v) \<le> 200 \<and>
     length (v_bank_name v) \<le> 100 \<and> length (v_provider v) \<le> 50 \<and> length (v_provider_ref v) \<le> 120"

text \<open>\<open>ON CONFLICT (user_id) DO NOTHING\<close>; another user's account number is an error.\<close>

definition insert_virtual_account :: "virtual_account \<Rightarrow> world \<Rightarrow> world option" where
  "insert_virtual_account v s =
     (if \<not> virtual_row_ok v then None
      else if v_user_id v \<in> set (map v_user_id (virtual_accounts s)) then Some s
      else if user_exists (v_user_id v) s \<and>
        v_account_number v \<notin> set (map v_account_number (virtual_accounts s))
      then Some (s\<lparr>virtual_accounts := virtual_accounts s @ [v]\<rparr>) else None)"

definition virtual_response :: "virtual_account \<Rightarrow> virtual_account_response" where
  "virtual_response v = \<lparr>va_account_number = v_account_number v, va_account_name = v_account_name v,
     va_bank_name = v_bank_name v, va_provider_ref = v_provider_ref v\<rparr>"

definition GetUserVirtualAccount :: "uuid \<Rightarrow> virtual_account_response program" where
  "GetUserVirtualAccount userID =
     or_return (query_row (\<lambda>s. map_option virtual_response
         (find (\<lambda>v. v_user_id v = userID \<and> v_is_active v) (virtual_accounts s))))
       (Wrap ''virtualaccount: not found or db error'') ok"

definition CreateVirtualAccount ::
  "payment_provider \<Rightarrow> uuid \<Rightarrow> string \<Rightarrow> string \<Rightarrow> string \<Rightarrow> string \<Rightarrow> virtual_account_response program" where
  "CreateVirtualAccount p userID fullName email phone bvn = do {
     existing \<leftarrow> GetUserVirtualAccount userID;
     case existing of
       Inr va \<Rightarrow> ok va
     | Inl _ \<Rightarrow>
         or_return (call (\<lambda>n. pp_create_virtual_account p n \<lparr>vq_user_id = userID, vq_full_name = fullName,
             vq_email = email, vq_phone_number = phone, vq_bvn = bvn\<rparr>))
           (Wrap ''virtualaccount: failed to provision'') (\<lambda>resp.
         or_return (exec (\<lambda>_. insert_virtual_account \<lparr>v_user_id = userID,
             v_account_number = va_account_number resp, v_account_name = va_account_name resp,
             v_bank_name = va_bank_name resp, v_provider = pp_name p,
             v_provider_ref = va_provider_ref resp, v_is_active = True\<rparr>))
           (Wrap ''virtualaccount: failed to save record'') (\<lambda>_. ok resp))
   }"

lemma run_GetUserVirtualAccount:
  "reliable s \<Longrightarrow> run_state (GetUserVirtualAccount u) s =
     (case find (\<lambda>v. v_user_id v = u \<and> v_is_active v) (virtual_accounts s) of
        None \<Rightarrow> (Inl (Wrap ''virtualaccount: not found or db error'' ErrNoRows), step s)
      | Some v \<Rightarrow> (Inr (virtual_response v), step s))"
  by (simp add: GetUserVirtualAccount_def run_or_return run_query_row split: option.splits)

text \<open>
  A user gets one virtual account: once a request succeeded, every later request answers with the
  same account, whatever the name, e-mail, phone, BVN or provider, and adds no row.
\<close>

theorem virtual_account_issued_once:
  assumes "reliable s" and "\<forall>v \<in> set (virtual_accounts s). v_user_id v = u \<longrightarrow> v_is_active v"
    and "run_state (CreateVirtualAccount p u n e ph b) s = (Inr va, s1)"
    and "reliable t" and "virtual_accounts t = virtual_accounts s1"
  shows "fst (run_state (CreateVirtualAccount q u n' e' ph' b') t) = Inr va \<and>
    virtual_accounts (snd (run_state (CreateVirtualAccount q u n' e' ph' b') t)) = virtual_accounts t"
proof -
  have "\<exists>v. find (\<lambda>v. v_user_id v = u \<and> v_is_active v) (virtual_accounts s1) = Some v \<and> virtual_response v = va"
  proof (cases "find (\<lambda>v. v_user_id v = u \<and> v_is_active v) (virtual_accounts s)")
    case (Some v)
    with assms(1,3) show ?thesis by (auto simp: CreateVirtualAccount_def run_GetUserVirtualAccount)
  next
    case None
    with assms(2) have new: "u \<notin> set (map v_user_id (virtual_accounts s))"
      by (auto simp: find_None_iff)
    let ?v = "\<lambda>resp. \<lparr>v_user_id = u, v_account_number = va_account_number resp,
      v_account_name = va_account_name resp, v_bank_name = va_bank_name resp, v_provider = pp_name p,
      v_provider_ref = va_provider_ref resp, v_is_active = True\<rparr>"
    from None assms(1,3)
    have "run_state (exec (\<lambda>_. insert_virtual_account (?v va))) (step (step s)) = (Inr (), s1)"
      by (auto simp: CreateVirtualAccount_def run_GetUserVirtualAccount run_or_return
          split: sum.splits prod.splits)
    with new have "virtual_accounts s1 = virtual_accounts s @ [?v va]"
      by (auto simp: run_exec insert_virtual_account_def split: if_splits option.splits)
    with None show ?thesis by (simp add: find_append virtual_response_def)
  qed
  with assms(4,5) show ?thesis
    by (auto simp: CreateVirtualAccount_def run_GetUserVirtualAccount)
qed

definition account_bank :: "string \<Rightarrow> payment_provider" where
  "account_bank number = (sample_provider ''paystack'' True)\<lparr>pp_create_virtual_account := (\<lambda>_ req.
     Inr \<lparr>va_account_number = number, va_account_name = vq_full_name req, va_bank_name = ''Wema'',
       va_provider_ref = ''R1''\<rparr>)\<rparr>"

lemma virtual_account_issued_once_witness:
  "map_sum id va_account_number (fst (run_state (CreateVirtualAccount (account_bank ''22'') ''ada'' [] [] [] [])
     (snd (run_state (CreateVirtualAccount (account_bank ''11'') ''ada'' ''Ada'' [] [] []) sample_world)))) = Inr ''11''"
proof -
  let ?r = "run_state (CreateVirtualAccount (account_bank ''11'') ''ada'' ''Ada'' [] [] []) sample_world"
  have "fst ?r = Inr \<lparr>va_account_number = ''11'', va_account_name = ''Ada'', va_bank_name = ''Wema'',
       va_provider_ref = ''R1''\<rparr>" and "virtual_accounts sample_world = []"
    by code_simp+
  moreover have "reliable (snd ?r)"
    by (simp add: CreateVirtualAccount_def run_GetUserVirtualAccount run_or_return run_exec
        insert_virtual_account_def reliable_def sample_world_def empty_world_def account_bank_def)
  ultimately show ?thesis
    using virtual_account_issued_once [of sample_world "''ada''" "account_bank ''11''" "''Ada''" "[]" "[]" "[]"
        _ "snd ?r" "snd ?r" "account_bank ''22''" "[]" "[]" "[]" "[]"]
    by (simp add: prod_eq_iff)
qed

end
