(* ===== verification/Float64.thy ===== *)
theory Float64
  imports GoStrings Complex_Main
begin

text \<open>
  Go's \<open>float64\<close>. A finite value is the rational it stands for, and \<open>float64 q\<close> is the value
  nearest to \<open>q\<close>, the even one of two: 53 bits above \<open>2^-1022\<close> and multiples of \<open>2^-1074\<close>
  below. Every literal, product and quotient of the code is rounded with it. Then the conversion
  \<open>int64(x)\<close>, which cuts the fraction off, \<open>strconv.ParseFloat\<close>, and the idiom
  \<open>int64(naira * 100)\<close> with which the code turns naira into kobo.
\<close>

section \<open>Binary exponents\<close>

text \<open>The number of binary digits.\<close>

function bits :: "int \<Rightarrow> nat" where
  "bits n = (if n \<le> 0 then 0 else Suc (bits (n div 2)))"
  by pat_completeness auto
termination by (relation "measure nat") auto

declare bits.simps [simp del]

lemma bits_bounds: "0 < n \<Longrightarrow> \<exists>b. bits n = Suc b \<and> 2 ^ b \<le> n \<and> n < 2 ^ Suc b"
proof (induction n rule: bits.induct)
  case (1 n)
  show ?case
  proof (cases "n div 2 \<le> 0")
    case True
    with "1.prems" have "n = 1" by simp
    then show ?thesis by (simp add: bits.simps)
  next
    case False
    with 1 obtain b where b: "bits (n div 2) = Suc b" "2 ^ b \<le> n div 2" "n div 2 < 2 ^ Suc b" by auto
    then have "2 ^ Suc b \<le> n" "n < 2 ^ Suc (Suc b)" by simp_all
    moreover have "bits n = Suc (Suc b)" using "1.prems" b(1) by (subst bits.simps) simp
    ultimately show ?thesis by blast
  qed
qed

text \<open>The exponent \<open>e\<close> of a positive number: \<open>2^e\<close> is the greatest power of two below it.\<close>

definition float_exp :: "rat \<Rightarrow> int" where
  "float_exp x =
     (let (n, d) = quotient_of x; k = int (bits n) - int (bits d)
      in if 2 powi k \<le> x then k else k - 1)"

lemma float_exp:
  assumes "0 < x"
  shows "2 powi float_exp x \<le> x" and "x < 2 powi (float_exp x + 1)"
proof -
  obtain n d where q: "quotient_of x = (n, d)" by force
  then have d: "0 < d" and x: "x = of_int n / of_int d"
    using quotient_of_denom_pos quotient_of_div by blast+
  with assms have n: "0 < n" by (simp add: zero_less_divide_iff)
  from bits_bounds [OF n] obtain a where a: "bits n = Suc a" "2 ^ a \<le> n" "n < 2 ^ Suc a" by blast
  from bits_bounds [OF d] obtain b where b: "bits d = Suc b" "2 ^ b \<le> d" "d < 2 ^ Suc b" by blast
  let ?k = "int (bits n) - int (bits d)"
  have k: "?k = int a - int b" using a b by simp
  have cast: "(2::rat) ^ a \<le> of_int n" "of_int n < (2::rat) ^ Suc a" "(2::rat) ^ b \<le> of_int d" "of_int d < (2::rat) ^ Suc b"
    using a(2,3) b(2,3) by (metis of_int_le_iff of_int_less_iff of_int_numeral of_int_power)+
  have "x < 2 ^ Suc a / 2 ^ b"
    unfolding x using cast d by (intro frac_less) (simp_all add: n order.strict_implies_order)
  also have "\<dots> = 2 powi (?k + 1)"
    unfolding k by (simp add: power_int_diff power_int_add)
  finally have hi: "x < 2 powi (?k + 1)" .
  have "2 ^ a / 2 ^ Suc b \<le> x"
    unfolding x using cast d by (intro frac_le) (simp_all add: n order.strict_implies_order)
  moreover have "(2::rat) ^ a / 2 ^ Suc b = 2 powi (?k - 1)"
    unfolding k by (simp add: power_int_diff)
  ultimately have lo: "2 powi (?k - 1) \<le> x" by simp
  from hi lo show "2 powi float_exp x \<le> x" "x < 2 powi (float_exp x + 1)"
    by (auto simp: float_exp_def q Let_def)
qed

text \<open>Powers of two are ordered as their exponents are.\<close>

lemma powi_less_iff: "(2::rat) powi a < 2 powi b \<longleftrightarrow> a < b"
  using power_int_increasing [of b a "2::rat"] power_int_strict_increasing [of a b "2::rat"]
  by (auto simp: not_less [symmetric])

section \<open>Rounding\<close>

definition round_even :: "rat \<Rightarrow> int" where
  "round_even q =
     (let f = \<lfloor>q\<rfloor>; r = q - of_int f
      in if r < 1 / 2 \<or> (r = 1 / 2 \<and> even f) then f else f + 1)"

lemma round_even_error: "\<bar>of_int (round_even q) - q\<bar> \<le> 1 / 2"
proof -
  define f r where "f = \<lfloor>q\<rfloor>" and "r = q - of_int f"
  then have "0 \<le> r" "r < 1" "q = of_int f + r" by linarith+
  moreover have "round_even q = (if r < 1 / 2 \<or> (r = 1 / 2 \<and> even f) then f else f + 1)"
    by (simp add: round_even_def Let_def f_def r_def)
  ultimately show ?thesis by (auto simp: abs_if)
qed

lemma round_even_of_int [simp]: "round_even (of_int n) = n"
  by (simp add: round_even_def)

lemma round_even_near: "\<bar>x - of_int n\<bar> < 1 / 2 \<Longrightarrow> round_even x = n"
  using round_even_error [of x] by linarith

definition float64 :: "rat \<Rightarrow> rat" where
  "float64 x =
     (if x = 0 then 0
      else let e = max (float_exp \<bar>x\<bar> - 52) (- 1074)
           in sgn x * 2 powi e * of_int (round_even (\<bar>x\<bar> / 2 powi e)))"

lemma float64_0 [simp]: "float64 0 = 0"
  by (simp add: float64_def)

lemma float64_minus: "float64 (- x) = - float64 x"
  by (simp add: float64_def Let_def)

text \<open>The relative error of one rounding is at most \<open>2^-53\<close>.\<close>

definition unit_roundoff :: rat where
  "unit_roundoff = 1 / 2 ^ 53"

lemma float64_error_pos:
  assumes "2 powi (- 1022) \<le> x"
  shows "\<bar>float64 x - x\<bar> \<le> x * unit_roundoff"
proof -
  have "(0::rat) < 2 powi (- 1022)" by simp
  with assms have x: "0 < x" by linarith
  let ?E = "float_exp x" and ?e = "max (float_exp x - 52) (- 1074)"
  have "(2::rat) powi (- 1022) < 2 powi (?E + 1)"
    using assms float_exp(2) [OF x] by (rule le_less_trans)
  then have "- 1022 < ?E + 1" by (simp only: powi_less_iff)
  then have e: "?e = ?E - 52" by simp
  have p: "(0::rat) < 2 powi ?e" by simp
  have f: "float64 x = 2 powi ?e * of_int (round_even (x / 2 powi ?e))"
    using x by (simp add: float64_def Let_def)
  have "float64 x - x = 2 powi ?e * (of_int (round_even (x / 2 powi ?e)) - x / 2 powi ?e)"
    using p by (simp add: f right_diff_distrib)
  then have "\<bar>float64 x - x\<bar> = 2 powi ?e * \<bar>of_int (round_even (x / 2 powi ?e)) - x / 2 powi ?e\<bar>"
    using p by (simp add: abs_mult)
  also have "\<dots> \<le> 2 powi ?e * (1 / 2)"
    using p round_even_error by (intro mult_left_mono) auto
  also have "\<dots> = 2 powi ?E * unit_roundoff"
    by (simp add: e power_int_diff unit_roundoff_def)
  also have "\<dots> \<le> x * unit_roundoff"
    using float_exp(1) [OF x] by (intro mult_right_mono) (simp_all add: unit_roundoff_def)
  finally show ?thesis .
qed

lemma float64_error:
  assumes "1 / 1000 \<le> x"
  shows "\<bar>float64 x - x\<bar> \<le> x * unit_roundoff"
proof (rule float64_error_pos)
  have "2 powi (- 1022) \<le> (2 powi (- 10) :: rat)" by (intro power_int_increasing) simp_all
  also have "(2::rat) powi (- 10) = 1 / 1024" by (simp add: power_int_def power_divide)
  finally show "2 powi (- 1022) \<le> x" by (rule order_trans) (use assms in simp)
qed

text \<open>A multiple of a power of two that needs at most 53 bits is not rounded.\<close>

lemma float64_exact:
  assumes "x = 2 powi e * of_int m" and "\<bar>m\<bar> < 2 ^ 53" and "- 1074 \<le> e"
  shows "float64 x = x"
proof (cases "m = 0")
  case False
  let ?a = "\<bar>x\<bar>" and ?e = "max (float_exp \<bar>x\<bar> - 52) (- 1074)"
  have a: "?a = 2 powi e * of_int \<bar>m\<bar>" using assms(1) by (simp add: abs_mult)
  have pos: "0 < ?a" using False by (simp add: a)
  have "2 powi float_exp ?a \<le> ?a" using float_exp(1) [OF pos] .
  also have "\<dots> < 2 powi e * 2 ^ 53"
    unfolding a using assms(2) by (intro mult_strict_left_mono) (metis of_int_less_iff of_int_numeral of_int_power, simp)
  also have "\<dots> = 2 powi (e + 53)" by (simp add: power_int_add)
  finally have "float_exp ?a < e + 53" by (simp only: powi_less_iff)
  with assms(3) have le: "?e \<le> e" by simp
  define k where "k = nat (e - ?e)"
  have "?a / 2 powi ?e = 2 powi (e - ?e) * of_int \<bar>m\<bar>"
    by (simp add: a power_int_diff)
  also have "2 powi (e - ?e) = (2::rat) ^ k"
    using le by (simp add: k_def power_int_def)
  finally have q: "?a / 2 powi ?e = of_int (2 ^ k * \<bar>m\<bar>)" by simp
  have "float64 x = sgn x * 2 powi ?e * (?a / 2 powi ?e)"
    using pos by (simp add: float64_def Let_def q del: of_int_mult of_int_abs)
  also have "\<dots> = x" by (simp add: sgn_mult_abs)
  finally show ?thesis .
qed (use assms in simp)

lemma float64_of_int [simp]: "\<bar>n\<bar> < 2 ^ 53 \<Longrightarrow> float64 (of_int n) = of_int n"
  by (rule float64_exact [where e = 0 and m = n]) simp_all

section \<open>Conversion\<close>

definition trunc :: "rat \<Rightarrow> int" where
  "trunc q = (if q < 0 then - \<lfloor>- q\<rfloor> else \<lfloor>q\<rfloor>)"

text \<open>
  \<open>int64(x)\<close> of a value that does not fit is left to the machine: on amd64 it is the least
  number.
\<close>

definition int64_of :: "rat \<Rightarrow> int" where
  "int64_of q = (let n = trunc q in if in_i64 n then n else - (2 ^ 63))"

text \<open>\<open>int64(naira * 100)\<close>.\<close>

definition kobo_of :: "rat \<Rightarrow> int" where
  "kobo_of naira = int64_of (float64 (naira * 100))"

text \<open>
  An amount of \<open>n\<close> kobo that is sent as a decimal number of naira comes out as \<open>n\<close> or one
  kobo less.
\<close>

lemma kobo_of_float64:
  assumes "0 < n" and "n < 2 ^ 51"
  shows "kobo_of (float64 (of_int n / 100)) \<in> {n - 1, n}"
proof -
  let ?u = unit_roundoff and ?N = "of_int n :: rat"
  let ?a = "float64 (?N / 100)"
  let ?b = "float64 (?a * 100)"
  have N: "1 \<le> ?N" "?N < 2 ^ 51" using assms by (metis of_int_1_le_iff int_one_le_iff_zero_less, metis of_int_less_iff of_int_numeral of_int_power)
  have "1 / 1000 \<le> ?N / 100" using N(1) by simp
  from float64_error [OF this] have a: "\<bar>?a - ?N / 100\<bar> \<le> ?N / 100 * ?u" .
  then have a100: "\<bar>?a * 100 - ?N\<bar> \<le> ?N * ?u" by (simp add: abs_if field_simps split: if_splits)
  have u: "?u = 1 / 9007199254740992" by (simp add: unit_roundoff_def)
  have big: "1 / 2 \<le> ?a * 100" using a100 [unfolded u] N(1) by linarith
  then have "1 / 1000 \<le> ?a * 100" by linarith
  from float64_error [OF this] have b: "\<bar>?b - ?a * 100\<bar> \<le> ?a * 100 * ?u" .
  have "?N < 2251799813685248" using N(2) by simp
  then have "?N - 1 < ?b" "?b < ?N + 1" "0 \<le> ?b"
    using a100 [unfolded u] b [unfolded u] big by linarith+
  moreover note \<open>0 \<le> ?b\<close>
  ultimately have "trunc ?b \<in> {n - 1, n}"
    by (auto simp: trunc_def floor_eq_iff)
  moreover have "in_i64 n" "in_i64 (n - 1)" using assms by (simp_all add: in_i64_def)
  ultimately show ?thesis by (auto simp: kobo_of_def int64_of_def Let_def)
qed

text \<open>Whole naira are exact.\<close>

lemma kobo_of_whole:
  assumes "0 \<le> n" and "n < 2 ^ 46"
  shows "kobo_of (of_int n) = n * 100"
proof -
  have "float64 (of_int n * 100) = of_int (n * 100)"
    using float64_of_int [of "n * 100"] assms by simp
  then show ?thesis
    using assms by (simp add: kobo_of_def int64_of_def trunc_def in_i64_def Let_def flip: of_int_mult)
qed

text \<open>\<open>float64(kobo) / 100\<close>.\<close>

definition ngn_of :: "int \<Rightarrow> rat" where
  "ngn_of kobo = float64 (float64 (of_int kobo) / 100)"

text \<open>Kobo are not lost on the way to naira: the hundredth rounds back to the amount.\<close>

lemma ngn_of_kobo:
  assumes "0 \<le> n" and "n < 2 ^ 51"
  shows "round_even (ngn_of n * 100) = n"
proof (cases "n = 0")
  case False
  let ?x = "float64 (of_int n / 100)" and ?N = "of_int n :: rat"
  have "\<bar>n\<bar> < 2 ^ 53" using assms by simp
  then have ngn: "ngn_of n = ?x" by (simp add: ngn_of_def)
  from False assms(1) have "(1 / 1000 :: rat) \<le> ?N / 100" by simp
  from float64_error [OF this, unfolded unit_roundoff_def]
  have e: "\<bar>?x - ?N / 100\<bar> \<le> ?N / 100 * (1 / 9007199254740992)" by simp
  have "?N < 2 ^ 51" using assms(2) by (metis of_int_less_iff of_int_numeral of_int_power)
  then have "?N < 2251799813685248" by simp
  with e have "\<bar>?x * 100 - ?N\<bar> < 1 / 2" by linarith
  then show ?thesis by (simp add: ngn round_even_near)
qed (simp add: ngn_of_def round_even_def)

section \<open>Decimal text\<close>

definition is_digit :: "char \<Rightarrow> bool" where
  "is_digit c \<longleftrightarrow> in_range CHR ''0'' CHR ''9'' c"

definition all_digits :: "string \<Rightarrow> bool" where
  "all_digits s \<longleftrightarrow> list_all is_digit s"

definition number :: "string \<Rightarrow> int" where
  "number s = foldl (\<lambda>n c. 10 * n + (of_char c - 48)) 0 s"

definition take_sign :: "string \<Rightarrow> int \<times> string" where
  "take_sign s =
     (case s of
        c # cs \<Rightarrow> if c = CHR ''-'' then (- 1, cs) else if c = CHR ''+'' then (1, cs) else (1, s)
      | [] \<Rightarrow> (1, []))"

definition take_fraction :: "string \<Rightarrow> string \<times> string" where
  "take_fraction s =
     (case s of
        c # cs \<Rightarrow> if c = CHR ''.'' then (takeWhile is_digit cs, dropWhile is_digit cs) else ([], s)
      | [] \<Rightarrow> ([], []))"

definition take_exponent :: "string \<Rightarrow> int option" where
  "take_exponent s =
     (case s of
        [] \<Rightarrow> Some 0
      | c # cs \<Rightarrow>
          (let (sign, ds) = take_sign cs
           in if c \<in> {CHR ''e'', CHR ''E''} \<and> ds \<noteq> [] \<and> all_digits ds then Some (sign * number ds) else None))"

text \<open>The rational that decimal text with an optional exponent stands for.\<close>

definition decimal_value :: "string \<Rightarrow> rat option" where
  "decimal_value s =
     (let (sign, s1) = take_sign s;
          whole = takeWhile is_digit s1;
          (fraction, s2) = take_fraction (dropWhile is_digit s1)
      in if whole = [] \<and> fraction = [] then None
         else map_option (\<lambda>e. of_int (sign * number (whole @ fraction)) * 10 powi (e - int (length fraction)))
                (take_exponent s2))"

text \<open>
  \<open>strconv.ParseFloat(s, 64)\<close> of decimal text; the spellings of infinities, hexadecimal floats and
  underscores between digits, which no gateway sends, are refused here. A number beyond the range
  is an error too.
\<close>

definition ParseFloat :: "string \<Rightarrow> rat res" where
  "ParseFloat s =
     (case decimal_value s of
        None \<Rightarrow> Inl (ErrMsg ''invalid syntax'')
      | Some q \<Rightarrow>
          (let x = float64 q
           in if x \<noteq> 0 \<and> 1024 \<le> float_exp \<bar>x\<bar> then Inl (ErrMsg ''value out of range'') else Inr x))"

text \<open>Decimal text is read back as the number that was printed.\<close>

lemma is_digit_char: "0 \<le> d \<Longrightarrow> d < 10 \<Longrightarrow> is_digit (digit_char d)"
proof -
  assume "0 \<le> d" "d < 10"
  then have "d \<in> set [0..9]" by simp
  moreover have "\<forall>d \<in> set [0..9]. is_digit (digit_char d)" by code_simp
  ultimately show ?thesis by blast
qed

lemma digit_value: "0 \<le> d \<Longrightarrow> d < 10 \<Longrightarrow> of_char (digit_char d) - 48 = d"
  by (simp add: digit_char_def)

lemma number_snoc [simp]: "number (s @ [c]) = 10 * number s + (of_char c - 48)"
  by (simp add: number_def)

lemma number_Nil [simp]: "number [] = 0"
  by (simp add: number_def)

lemma show_dec_digits: "0 \<le> n \<Longrightarrow> list_all is_digit (show_dec n) \<and> number (show_dec n) = n"
proof (induction n rule: show_dec.induct)
  case (1 n)
  show ?case
  proof (cases "n < 10")
    case True
    with 1 show ?thesis
      using number_snoc [of "[]" "digit_char n"] by (simp add: show_dec_small is_digit_char digit_value)
  next
    case False
    with 1 show ?thesis by (simp add: show_dec_big is_digit_char digit_value)
  qed
qed

text \<open>\<open>fmt.Sprintf("%.2f", x)\<close> rounds the exact value of \<open>x\<close>, the even digit of two.\<close>

definition show_fixed2 :: "rat \<Rightarrow> string" where
  "show_fixed2 x = show_kobo (round_even (x * 100))"

lemma ParseFloat_show_kobo:
  assumes "0 \<le> n" and "n < 2 ^ 51"
  shows "ParseFloat (show_kobo n) = Inr (float64 (of_int n / 100))"
proof -
  let ?w = "show_dec (n div 100)" and ?x = "digit_char (n div 10 mod 10)" and ?y = "digit_char (n mod 10)"
  have w: "list_all is_digit ?w" "number ?w = n div 100"
    using show_dec_digits [of "n div 100"] assms(1) by simp_all
  have sign: "take_sign (show_kobo n) = (1, show_kobo n)"
  proof -
    obtain c cs where c: "?w = c # cs" by (cases ?w) simp_all
    with w(1) have "c \<noteq> CHR ''-''" "c \<noteq> CHR ''+''" by (auto simp: is_digit_def in_range_def)
    with c assms(1) show ?thesis by (simp add: show_kobo_def take_sign_def Let_def)
  qed
  have dot: "\<not> is_digit CHR ''.''" by (simp add: is_digit_def in_range_def)
  have shape: "show_kobo n = ?w @ CHR ''.'' # [?x, ?y]"
    using assms(1) by (simp add: show_kobo_def Let_def)
  have whole: "takeWhile is_digit (show_kobo n) = ?w" "dropWhile is_digit (show_kobo n) = CHR ''.'' # [?x, ?y]"
    using w(1) dot unfolding shape by (simp_all add: list_all_iff takeWhile_append2 dropWhile_append2)
  have xy: "is_digit ?x" "is_digit ?y" using assms(1) by (simp_all add: is_digit_char)
  have "number (?w @ [?x, ?y]) = n"
  proof -
    have "number ((?w @ [?x]) @ [?y]) = 10 * (10 * (n div 100) + n div 10 mod 10) + n mod 10"
      using number_snoc [of "?w @ [?x]" ?y] w(2) by (simp add: digit_value)
    also have "10 * (n div 100) + n div 10 mod 10 = n div 10"
      using zdiv_zmult2_eq [of 10 n 10] by simp
    also have "10 * (n div 10) + n mod 10 = n" by simp
    finally show ?thesis by simp
  qed
  then have "decimal_value (show_kobo n) = Some (of_int n / 100)"
    using xy by (simp add: decimal_value_def sign whole take_fraction_def take_exponent_def power_int_def power_divide)
  moreover have "float_exp \<bar>float64 (of_int n / 100)\<bar> < 1024" if pos: "float64 (of_int n / 100) \<noteq> 0"
  proof -
    from pos have "n \<noteq> 0" by auto
    with assms(1) have "(1 / 1000 :: rat) \<le> of_int n / 100" by simp
    note float64_error [OF this]
    also have "of_int n / 100 * unit_roundoff \<le> of_int n / 100"
      using assms(1) by (intro mult_left_le) (simp_all add: unit_roundoff_def)
    finally have "\<bar>float64 (of_int n / 100) - of_int n / 100\<bar> \<le> of_int n / 100" .
    moreover have "0 \<le> (of_int n :: rat)" using assms(1) by simp
    ultimately have le: "\<bar>float64 (of_int n / 100)\<bar> \<le> of_int n" by linarith
    have "(2::rat) powi float_exp \<bar>float64 (of_int n / 100)\<bar> \<le> \<bar>float64 (of_int n / 100)\<bar>"
      using pos by (intro float_exp(1)) simp
    also note le
    also have "of_int n < (2 ^ 51 :: rat)" using assms(2) by (metis of_int_less_iff of_int_numeral of_int_power)
    also have "(2 ^ 51 :: rat) = 2 powi 51" by (simp add: power_int_def)
    finally show ?thesis by (simp only: powi_less_iff)
  qed
  ultimately show ?thesis by (auto simp: ParseFloat_def Let_def)
qed

end
