(* ===== verification/Dates.thy ===== *)
theory Dates
  imports Models Float64
begin

text \<open>
  \<open>time.Parse\<close> for the layouts of the code. A time is the number of milliseconds since 1970 UTC, and an
  error that the code ignores leaves the zero time.
\<close>

section \<open>Days\<close>

text \<open>Go's zero time is the beginning of the year 1.\<close>

definition zero_time :: time where
  "zero_time = - 62135596800000"

text \<open>
  \<open>time.Parse("2006-01-02", s)\<close>, in milliseconds since 1970 UTC: four, two and two digits with
  hyphens, a month from 1 to 12 and a day of that month.
\<close>

definition is_leap :: "int \<Rightarrow> bool" where
  "is_leap y \<longleftrightarrow> y mod 4 = 0 \<and> (y mod 100 \<noteq> 0 \<or> y mod 400 = 0)"

definition days_in :: "int \<Rightarrow> int \<Rightarrow> int" where
  "days_in y m = (if m = 2 then (if is_leap y then 29 else 28) else if m \<in> {4, 6, 9, 11} then 30 else 31)"

fun days_before_month :: "int \<Rightarrow> nat \<Rightarrow> int" where
  "days_before_month y 0 = 0"
| "days_before_month y (Suc m) = days_before_month y m + (if m = 0 then 0 else days_in y (int m))"

text \<open>Days from 1970-01-01; the years before \<open>y\<close> bring a leap day each fourth year, but for centuries.\<close>

definition days_from_civil :: "int \<Rightarrow> int \<Rightarrow> int \<Rightarrow> int" where
  "days_from_civil y m d =
     365 * (y - 1970) + ((y - 1) div 4 - (y - 1) div 100 + (y - 1) div 400) - 477
     + days_before_month y (nat m) + d - 1"

definition day_ms :: int where
  "day_ms = 24 * 60 * 60 * 1000"

definition parse_date :: "string \<Rightarrow> time option" where
  "parse_date s =
     (let y = number (take 4 s); m = number (take 2 (drop 5 s)); d = number (drop 8 s)
      in if length s = 10 \<and> s ! 4 = CHR ''-'' \<and> s ! 7 = CHR ''-'' \<and>
            all_digits (take 4 s) \<and> all_digits (take 2 (drop 5 s)) \<and> all_digits (drop 8 s) \<and>
            1 \<le> m \<and> m \<le> 12 \<and> 1 \<le> d \<and> d \<le> days_in y m
         then Some (days_from_civil y m d * day_ms) else None)"

text \<open>With the error ignored, a date that does not parse is the zero time.\<close>

definition date_or_zero :: "string \<Rightarrow> time" where
  "date_or_zero s = (case parse_date s of None \<Rightarrow> zero_time | Some t \<Rightarrow> t)"

section \<open>Times of day\<close>

definition hours :: "int \<Rightarrow> int" where
  "hours n = n * 60 * 60 * 1000"

definition two_digits :: "string \<Rightarrow> bool" where
  "two_digits s \<longleftrightarrow> length s = 2 \<and> all_digits s"

text \<open>A fraction of a second may follow the seconds although the layout has none.\<close>

definition take_second_fraction :: "string \<Rightarrow> time \<times> string" where
  "take_second_fraction r =
     (if take 1 r \<in> {''.'', '',''} \<and> takeWhile is_digit (tl r) \<noteq> []
      then (number (take 3 (takeWhile is_digit (tl r) @ ''000'')), dropWhile is_digit (tl r)) else (0, r))"

text \<open>\<open>2006-01-02T15:04:05\<close> and what follows it.\<close>

definition take_datetime :: "string \<Rightarrow> (time \<times> string) option" where
  "take_datetime s =
     (let h = take 2 (drop 11 s); mi = take 2 (drop 14 s); sec = take 2 (drop 17 s);
          (ms, rest) = take_second_fraction (drop 19 s)
      in case parse_date (take 10 s) of
        None \<Rightarrow> None
      | Some d \<Rightarrow>
          if take 1 (drop 10 s) = ''T'' \<and> take 1 (drop 13 s) = '':'' \<and> take 1 (drop 16 s) = '':'' \<and>
             two_digits h \<and> two_digits mi \<and> two_digits sec \<and> number h < 24 \<and> number mi < 60 \<and> number sec < 60
          then Some (d + hours (number h) + number mi * 60000 + number sec * 1000 + ms, rest) else None)"

definition datetime_or_zero :: "string \<Rightarrow> time" where
  "datetime_or_zero s =
     (case take_datetime s of Some (t, rest) \<Rightarrow> if rest = [] then t else zero_time | None \<Rightarrow> zero_time)"

text \<open>\<open>time.RFC3339\<close>: a zone follows, \<open>Z\<close> or an offset in hours and minutes.\<close>

definition zone_offset :: "string \<Rightarrow> time option" where
  "zone_offset z =
     (if z = ''Z'' then Some 0
      else let (sign, hm) = take_sign z
        in if take 1 z \<in> {''+'', ''-''} \<and> length hm = 5 \<and> take 1 (drop 2 hm) = '':'' \<and>
              two_digits (take 2 hm) \<and> two_digits (drop 3 hm) \<and> number (take 2 hm) \<le> 24 \<and> number (drop 3 hm) \<le> 60
           then Some (sign * (hours (number (take 2 hm)) + number (drop 3 hm) * 60000)) else None)"

definition rfc3339_or_zero :: "string \<Rightarrow> time" where
  "rfc3339_or_zero s =
     (case take_datetime s of
        None \<Rightarrow> zero_time
      | Some (t, z) \<Rightarrow> (case zone_offset z of None \<Rightarrow> zero_time | Some o' \<Rightarrow> t - o'))"

end
