(* ===== verification/Loyalty.thy ===== *)
theory Loyalty
  imports WalletService Dates
begin

text \<open>
  Points: \<open>internal/models/loyalty.go\<close>, \<open>internal/repository/postgres/loyalty_repo.go\<close> and
  \<open>internal/services/loyalty/loyalty_service.go\<close>. \<open>uuid.Parse\<close> is a parameter. The accounts
  of points are a second purse, keyed by the user.
\<close>

section \<open>Rates and tiers\<close>

definition PointsRatePerNaira :: "service_category \<rightharpoonup> int" where
  "PointsRatePerNaira = [CategoryAirtime \<mapsto> 1, CategoryData \<mapsto> 1, CategoryElectricity \<mapsto> 2,
     CategoryCableTV \<mapsto> 2, CategoryBetting \<mapsto> 1, CategoryBusTravel \<mapsto> 5, CategoryFlight \<mapsto> 10,
     CategoryWalletFund \<mapsto> 0, CategoryTransfer \<mapsto> 0]"

definition TierThresholds :: "(int \<times> loyalty_tier) list" where
  "TierThresholds = [(200000, TierPlatinum), (50000, TierGold), (10000, TierSilver), (0, TierBronze)]"

definition CalculateTier :: "int \<Rightarrow> loyalty_tier" where
  "CalculateTier lifetimePoints =
     (case find (\<lambda>(m, _). m \<le> lifetimePoints) TierThresholds of
        None \<Rightarrow> TierBronze | Some (_, tier) \<Rightarrow> tier)"

definition CalculatePointsEarned :: "service_category \<Rightarrow> int \<Rightarrow> int" where
  "CalculatePointsEarned category amountKobo =
     (case PointsRatePerNaira category of
        None \<Rightarrow> 0
      | Some rate \<Rightarrow> if rate = 0 then 0 else i64 (amountKobo sdiv 100 * rate))"

definition PointsToKobo :: "int \<Rightarrow> int" where
  "PointsToKobo points = i64 (points * 100) sdiv 100"

section \<open>The tables\<close>

definition points_row_ok :: "loyalty_account \<Rightarrow> bool" where
  "points_row_ok a \<longleftrightarrow> 0 \<le> a_points_balance a \<and> in_i64 (a_points_balance a) \<and>
     0 \<le> a_lifetime_points a \<and> in_i64 (a_lifetime_points a)"

definition insert_loyalty_account :: "loyalty_account \<Rightarrow> world \<Rightarrow> world option" where
  "insert_loyalty_account a s =
     (if \<not> points_row_ok a then None
      else if a_user_id a \<in> set (map a_user_id (loyalty_accounts s)) then Some s
      else if user_exists (a_user_id a) s \<and> a_id a \<notin> set (map a_id (loyalty_accounts s))
      then Some (s\<lparr>loyalty_accounts := loyalty_accounts s @ [a]\<rparr>) else None)"

definition update_loyalty_accounts ::
  "(loyalty_account \<Rightarrow> bool) \<Rightarrow> (loyalty_account \<Rightarrow> loyalty_account) \<Rightarrow> world \<Rightarrow> world option" where
  "update_loyalty_accounts p f s =
     (if list_all (\<lambda>a. p a \<longrightarrow> points_row_ok (f a)) (loyalty_accounts s)
      then Some (s\<lparr>loyalty_accounts := set_rows p f (loyalty_accounts s)\<rparr>) else None)"

definition insert_loyalty_transaction :: "loyalty_transaction \<Rightarrow> world \<Rightarrow> world option" where
  "insert_loyalty_transaction t s =
     (if in_i64 (l_points t) \<and> in_i64 (l_balance_before t) \<and> in_i64 (l_balance_after t) \<and>
         (case l_category t of None \<Rightarrow> True | Some c \<Rightarrow> length c \<le> 50) \<and>
         user_exists (l_user_id t) s \<and> l_account_id t \<in> set (map a_id (loyalty_accounts s)) \<and>
         (case l_source_tx_id t of None \<Rightarrow> True | Some i \<Rightarrow> tx_exists i s) \<and>
         l_id t \<notin> set (map l_id (loyalty_transactions s))
      then Some (s\<lparr>loyalty_transactions := loyalty_transactions s @ [t]\<rparr>) else None)"

section \<open>The repository\<close>

definition account_of_user :: "uuid \<Rightarrow> world \<Rightarrow> loyalty_account option" where
  "account_of_user u s = find (\<lambda>a. a_user_id a = u) (loyalty_accounts s)"

definition GetOrCreate :: "uuid \<Rightarrow> loyalty_account program" where
  "GetOrCreate userID = do {
     found \<leftarrow> query_row (account_of_user userID);
     case found of
       Inr acc \<Rightarrow> ok acc
     | Inl _ \<Rightarrow> do {
         i \<leftarrow> uuid_new;
         created \<leftarrow> time_now;
         updated \<leftarrow> time_now;
         let acc = \<lparr>a_id = i, a_user_id = userID, a_points_balance = 0, a_lifetime_points = 0,
                    a_tier = TierBronze, a_created_at = created, a_updated_at = updated\<rparr>;
         or_return (exec (\<lambda>_. insert_loyalty_account acc)) (Wrap ''create loyalty account'') (\<lambda>_. ok acc)
       }
   }"

text \<open>
  The part that earning and redeeming share: update the locked account, build the entry, append
  it (\<open>stored\<close> is what the \<open>INSERT\<close> makes of it).
\<close>

definition append_movement ::
  "loyalty_account \<Rightarrow> (loyalty_account \<Rightarrow> loyalty_account) \<Rightarrow> (uuid \<Rightarrow> time \<Rightarrow> loyalty_transaction) \<Rightarrow>
     (loyalty_transaction \<Rightarrow> loyalty_transaction) \<Rightarrow> loyalty_transaction program" where
  "append_movement acc f entry stored =
     or_return (exec (\<lambda>t. update_loyalty_accounts (\<lambda>a. a_id a = a_id acc)
         (\<lambda>a. (f a)\<lparr>a_updated_at := t\<rparr>))) (\<lambda>e. e) (\<lambda>_. do {
     i \<leftarrow> uuid_new;
     created \<leftarrow> time_now;
     or_return (exec (\<lambda>_. insert_loyalty_transaction (stored (entry i created)))) (\<lambda>e. e)
       (\<lambda>_. ok (entry i created))
     })"

definition EarnPoints ::
  "uuid \<Rightarrow> int \<Rightarrow> uuid option \<Rightarrow> string \<Rightarrow> string \<Rightarrow> loyalty_transaction program" where
  "EarnPoints userID points sourceTxID category narration =
     local_tx NoTx (\<lambda>e. e) (\<lambda>e. e) (
       or_return (query_row (account_of_user userID)) (Wrap ''lock loyalty account'') (\<lambda>acc. do {
       let newBalance = i64 (a_points_balance acc + points);
       let newLifetime = i64 (a_lifetime_points acc + points);
       let newTier = CalculateTier newLifetime;
       now \<leftarrow> time_now;
       let expiresAt = now + 365 * 24 * 60 * 60 * 1000;
       append_movement acc
         (\<lambda>a. a\<lparr>a_points_balance := newBalance, a_lifetime_points := newLifetime, a_tier := newTier\<rparr>)
         (\<lambda>i created. \<lparr>l_id = i, l_user_id = userID, l_account_id = a_id acc, l_type = LoyaltyEarn,
            l_points = points, l_balance_before = a_points_balance acc,
            l_balance_after = newBalance, l_source_tx_id = sourceTxID, l_category = Some category,
            l_narration = narration, l_expires_at = Some expiresAt, l_created_at = created\<rparr>)
         (\<lambda>ltx. ltx)
     }))"

text \<open>The entry of a redemption is inserted with a \<open>NULL\<close> category.\<close>

definition RedeemPointsRepo :: "uuid \<Rightarrow> int \<Rightarrow> string \<Rightarrow> loyalty_transaction program" where
  "RedeemPointsRepo userID points narration =
     local_tx NoTx (\<lambda>e. e) (\<lambda>e. e) (
       or_return (query_row (account_of_user userID)) (Wrap ''loyalty account not found'') (\<lambda>acc.
       if a_points_balance acc < points
       then fail (ErrMsg (''insufficient points: have '' @ show_int (a_points_balance acc) @
                  '', need '' @ show_int points))
       else
       let newBalance = i64 (a_points_balance acc - points)
       in append_movement acc (\<lambda>a. a\<lparr>a_points_balance := newBalance\<rparr>)
         (\<lambda>i created. \<lparr>l_id = i, l_user_id = userID, l_account_id = a_id acc, l_type = LoyaltyRedeem,
            l_points = points, l_balance_before = a_points_balance acc,
            l_balance_after = newBalance, l_source_tx_id = None, l_category = Some [],
            l_narration = narration, l_expires_at = None, l_created_at = created\<rparr>)
         (\<lambda>ltx. ltx\<lparr>l_category := None\<rparr>)))"

text \<open>The rows are scanned into strings, which a \<open>NULL\<close> category does not fit.\<close>

definition scan_history :: "loyalty_transaction list \<Rightarrow> loyalty_transaction list res" where
  "scan_history rows =
     (if list_all (\<lambda>t. l_category t \<noteq> None) rows then Inr rows
      else Inl (ErrDb ''cannot scan NULL into *string''))"

definition ListLoyaltyTransactions :: "uuid \<Rightarrow> int \<Rightarrow> int \<Rightarrow> (loyalty_transaction list \<times> int) program" where
  "ListLoyaltyTransactions userID limit offset =
     or_return (query_all (\<lambda>s. int (length (filter (\<lambda>t. l_user_id t = userID) (loyalty_transactions s)))))
       (\<lambda>e. e) (\<lambda>total.
     or_return (statement (\<lambda>s. (if limit < 0 \<or> offset < 0 then Inl (ErrDb ''negative bound'')
         else scan_history (page_of l_created_at limit offset
                (filter (\<lambda>t. l_user_id t = userID) (loyalty_transactions s))), s)))
       (\<lambda>e. e) (\<lambda>txs. ok (txs, total)))"

section \<open>The service\<close>

record points_balance_response =
  pb_account_id :: uuid
  pb_points_balance :: int
  pb_lifetime_points :: int
  pb_tier :: loyalty_tier
  pb_next_tier :: "loyalty_tier option"
  pb_points_to_next :: "int option"
  pb_redeemable_ngn :: rat

record points_history_response =
  ph_transactions :: "loyalty_transaction list"
  ph_total :: int
  ph_page :: int
  ph_limit :: int
  ph_total_pages :: int

record redeem_response =
  rr_points_redeemed :: int
  rr_kobo_credit :: int
  rr_ngn_credit :: rat
  rr_new_balance :: int

text \<open>
  The loop over \<open>TierThresholds\<close>: the entry before the account's tier. The first argument is
  the entry of the previous iteration, \<open>None\<close> while \<open>i = 0\<close>.
\<close>

fun next_tier :: "(int \<times> loyalty_tier) option \<Rightarrow> (int \<times> loyalty_tier) list \<Rightarrow> loyalty_tier \<Rightarrow>
    (int \<times> loyalty_tier) option" where
  "next_tier prev [] tier = None"
| "next_tier prev ((m, t) # ts) tier =
     (if tier = t \<and> prev \<noteq> None then prev else next_tier (Some (m, t)) ts tier)"

definition GetPointsBalance :: "(string \<rightharpoonup> uuid) \<Rightarrow> string \<Rightarrow> points_balance_response program" where
  "GetPointsBalance parse userID =
     (case parse userID of
        None \<Rightarrow> fail (ErrMsg ''invalid user ID'')
      | Some uid \<Rightarrow> or_return (GetOrCreate uid) (\<lambda>e. e) (\<lambda>acc.
          let above = next_tier None TierThresholds (a_tier acc)
          in ok \<lparr>pb_account_id = a_id acc, pb_points_balance = a_points_balance acc,
               pb_lifetime_points = a_lifetime_points acc, pb_tier = a_tier acc,
               pb_next_tier = map_option snd above,
               pb_points_to_next = map_option (\<lambda>(m, _). i64 (m - a_lifetime_points acc)) above,
               pb_redeemable_ngn = of_int (PointsToKobo (a_points_balance acc)) / 100\<rparr>))"

definition GetHistory :: "(string \<rightharpoonup> uuid) \<Rightarrow> string \<Rightarrow> int \<Rightarrow> int \<Rightarrow> points_history_response program" where
  "GetHistory parse userID page limit =
     (case parse userID of
        None \<Rightarrow> fail (ErrMsg ''invalid user ID'')
      | Some uid \<Rightarrow>
          let page = (if page < 1 then 1 else page);
              limit = (if limit < 1 \<or> 100 < limit then 20 else limit);
              offset = i64 ((page - 1) * limit)
          in or_return (ListLoyaltyTransactions uid limit offset) (\<lambda>e. e) (\<lambda>(txs, total).
               ok \<lparr>ph_transactions = txs, ph_total = total, ph_page = page, ph_limit = limit,
                   ph_total_pages = i64 (i64 (total + limit - 1) sdiv limit)\<rparr>))"

definition redeem_narration :: "int \<Rightarrow> int \<Rightarrow> string \<Rightarrow> string" where
  "redeem_narration points koboCredit narration =
     (if narration = []
      then ''Redeemed '' @ show_int points @ '' points for '' @ naira_sign @ show_kobo koboCredit @ '' wallet credit''
      else narration)"

text \<open>The wallet's side of a redemption; the transaction has no time stamps and its insert may fail unnoticed.\<close>

definition credit_redemption :: "string \<Rightarrow> int \<Rightarrow> string \<Rightarrow> unit program" where
  "credit_redemption userID koboCredit narration =
     or_return (FindByUserID userID) (\<lambda>_. ErrMsg ''wallet not found'') (\<lambda>wallet.
     or_return (CreditBalance (w_id wallet) koboCredit) (Wrap ''wallet credit failed'') (\<lambda>_. do {
       i \<leftarrow> uuid_new;
       u \<leftarrow> uuid_new;
       _ \<leftarrow> InsertTransaction \<lparr>t_id = i, t_user_id = w_user_id wallet, t_wallet_id = w_id wallet,
         t_reference = ''LYL-'' @ take 8 u, t_external_ref = [], t_type = TxTypeCredit,
         t_category = CategoryTransfer, t_amount = koboCredit, t_commission = 0, t_fee = 0,
         t_balance_before = w_balance wallet, t_balance_after = i64 (w_balance wallet + koboCredit),
         t_status = TxSuccess, t_provider = ''loyalty_redemption'', t_narration = narration,
         t_meta = [], t_reversed_tx_id = None, t_created_at = zero_time, t_updated_at = zero_time\<rparr>;
       ok ()
     }))"

definition RedeemPoints :: "(string \<rightharpoonup> uuid) \<Rightarrow> string \<Rightarrow> int \<Rightarrow> string \<Rightarrow> redeem_response program" where
  "RedeemPoints parse userID points narration =
     (case parse userID of
        None \<Rightarrow> fail (ErrMsg ''invalid user ID'')
      | Some uid \<Rightarrow>
          if points smod 100 \<noteq> 0
          then fail (ErrMsg (''points must be in multiples of 100 (100 points = '' @ naira_sign @ ''1)''))
          else
            let koboCredit = PointsToKobo points;
                narration = redeem_narration points koboCredit narration
            in or_return (RedeemPointsRepo uid points narration) (\<lambda>e. e) (\<lambda>ltx.
               or_return (credit_redemption userID koboCredit narration) (\<lambda>e. e) (\<lambda>_.
               ok \<lparr>rr_points_redeemed = points, rr_kobo_credit = koboCredit,
                   rr_ngn_credit = of_int koboCredit / 100, rr_new_balance = l_balance_after ltx\<rparr>)))"

definition AwardPoints :: "(string \<rightharpoonup> uuid) \<Rightarrow> string \<Rightarrow> uuid \<Rightarrow> service_category \<Rightarrow> int \<Rightarrow> (world, unit) state" where
  "AwardPoints parse userID sourceTxID category amountKobo =
     (let points = CalculatePointsEarned category amountKobo
      in if points = 0 then State_Monad.return ()
         else case parse userID of
           None \<Rightarrow> State_Monad.return ()
         | Some uid \<Rightarrow> do {
             account \<leftarrow> GetOrCreate uid;
             case account of
               Inl _ \<Rightarrow> State_Monad.return ()
             | Inr _ \<Rightarrow> do {
                 _ \<leftarrow> EarnPoints uid points (Some sourceTxID) (category_text category)
                   (''Earned '' @ show_int points @ '' points on '' @ category_text category @ '' transaction'');
                 State_Monad.return ()
               }
           })"

text \<open>\<open>POST /loyalty/redeem\<close>: the binding asks for at least 100 points.\<close>

definition RedeemPointsHandler :: "(string \<rightharpoonup> uuid) \<Rightarrow> string \<Rightarrow> int \<Rightarrow> string \<Rightarrow> redeem_response program" where
  "RedeemPointsHandler parse userID points narration =
     (if points < 100 then fail (ErrMsg ''validation failed'') else RedeemPoints parse userID points narration)"

section \<open>What the movements of points do\<close>

definition points_tables :: "world \<Rightarrow> loyalty_account list \<times> loyalty_transaction list" where
  "points_tables s = (loyalty_accounts s, loyalty_transactions s)"

lemma on_tables_points [simp]: "on_tables (\<lambda>s'. points_tables s' = t)"
  by (simp add: on_tables_def points_tables_def)

lemma account_of_user_step [simp]: "account_of_user u (step s) = account_of_user u s"
  by (simp add: account_of_user_def)

lemma account_lookup_success:
  "run_state (query_row (account_of_user u)) s = (Inr acc, s') \<Longrightarrow> s' = step s \<and> account_of_user u s = Some acc"
  by (auto simp: run_query_row split: if_splits option.splits)

text \<open>
  A movement replaces the row of one account by one within its checks, and appends an
  entry under a new identifier.
\<close>

definition moved :: "world \<Rightarrow> world \<Rightarrow> loyalty_account \<Rightarrow> (loyalty_account \<Rightarrow> loyalty_account) \<Rightarrow>
    loyalty_transaction \<Rightarrow> bool" where
  "moved s s' acc f t \<longleftrightarrow>
     (\<exists>now. loyalty_accounts s' =
        set_rows (\<lambda>a. a_id a = a_id acc) (\<lambda>a. (f a)\<lparr>a_updated_at := now\<rparr>) (loyalty_accounts s)) \<and>
     (\<forall>a \<in> set (loyalty_accounts s). a_id a = a_id acc \<longrightarrow> points_row_ok (f a)) \<and>
     loyalty_transactions s' = loyalty_transactions s @ [t] \<and>
     l_id t \<notin> set (map l_id (loyalty_transactions s))"

lemma append_movement_success:
  assumes "run_state (append_movement acc f entry stored) s = (Inr ltx, s')"
  shows "\<exists>i created. ltx = entry i created \<and> moved s s' acc f (stored ltx)"
proof -
  from assms obtain v s1 where upd: "run_state (exec (\<lambda>t. update_loyalty_accounts (\<lambda>a. a_id a = a_id acc)
      (\<lambda>a. (f a)\<lparr>a_updated_at := t\<rparr>))) s = (Inr v, s1)"
    and rest: "run_state (do { i \<leftarrow> uuid_new; created \<leftarrow> time_now;
      or_return (exec (\<lambda>_. insert_loyalty_transaction (stored (entry i created)))) (\<lambda>e. e)
        (\<lambda>_. ok (entry i created)) }) s1 = (Inr ltx, s')"
    unfolding append_movement_def by (rule or_return_success)
  define i created s2 where "i = uuid_at s1 (tick s1)" and "created = time_at s1 (tick (step s1))"
    and "s2 = step (step s1)"
  from rest have "run_state (or_return (exec (\<lambda>_. insert_loyalty_transaction (stored (entry i created)))) (\<lambda>e. e)
      (\<lambda>_. ok (entry i created))) s2 = (Inr ltx, s')"
    by (simp add: i_def created_def s2_def)
  then obtain w s3 where ins: "run_state (exec (\<lambda>_. insert_loyalty_transaction (stored (entry i created)))) s2 = (Inr w, s3)"
    and ltx: "ltx = entry i created" "s' = s3"
    by (rule or_return_success) simp
  from upd obtain now where u: "update_loyalty_accounts (\<lambda>a. a_id a = a_id acc)
      (\<lambda>a. (f a)\<lparr>a_updated_at := now\<rparr>) (step s) = Some s1" by (rule exec_success)
  from ins obtain now' where "insert_loyalty_transaction (stored (entry i created)) (step s2) = Some s3"
    by (rule exec_success)
  then have "loyalty_accounts s3 = loyalty_accounts s1 \<and> loyalty_transactions s3 = loyalty_transactions s1 @ [stored ltx] \<and>
      l_id (stored ltx) \<notin> set (map l_id (loyalty_transactions s1))"
    by (auto simp: insert_loyalty_transaction_def s2_def ltx split: if_splits)
  moreover from u have "loyalty_accounts s1 =
      set_rows (\<lambda>a. a_id a = a_id acc) (\<lambda>a. (f a)\<lparr>a_updated_at := now\<rparr>) (loyalty_accounts s)"
    "\<forall>a \<in> set (loyalty_accounts s). a_id a = a_id acc \<longrightarrow> points_row_ok (f a)"
    "loyalty_transactions s1 = loyalty_transactions s"
    by (auto simp: update_loyalty_accounts_def list_all_iff points_row_ok_def split: if_splits)
  ultimately show ?thesis using ltx unfolding moved_def by auto
qed

lemma moved_step [simp]: "moved (step s) s' acc f t = moved s s' acc f t" "moved s (step s') acc f t = moved s s' acc f t"
  by (simp_all add: moved_def)

lemma points_tables_step [simp]: "points_tables (step s) = points_tables s"
  by (simp add: points_tables_def)

lemma EarnPoints_success:
  assumes "run_state (EarnPoints u n src cat narr) s = (Inr ltx, s')"
  shows "\<exists>acc. account_of_user u s = Some acc \<and> l_account_id ltx = a_id acc \<and> l_type ltx = LoyaltyEarn \<and>
    l_points ltx = n \<and> moved s s' acc (\<lambda>a. a\<lparr>a_points_balance := i64 (a_points_balance acc + n),
      a_lifetime_points := i64 (a_lifetime_points acc + n),
      a_tier := CalculateTier (i64 (a_lifetime_points acc + n))\<rparr>) ltx"
  using assms unfolding EarnPoints_def Let_def
  by (auto elim!: local_tx_commits or_return_success dest!: account_lookup_success append_movement_success)

lemma RedeemPointsRepo_success:
  assumes "run_state (RedeemPointsRepo u n narr) s = (Inr ltx, s')"
  shows "\<exists>acc. account_of_user u s = Some acc \<and> n \<le> a_points_balance acc \<and> l_account_id ltx = a_id acc \<and>
    l_type ltx = LoyaltyRedeem \<and> l_points ltx = n \<and> l_user_id ltx = u \<and>
    l_balance_after ltx = i64 (a_points_balance acc - n) \<and>
    moved s s' acc (\<lambda>a. a\<lparr>a_points_balance := i64 (a_points_balance acc - n)\<rparr>) (ltx\<lparr>l_category := None\<rparr>)"
  using assms unfolding RedeemPointsRepo_def Let_def
  by (auto elim!: local_tx_commits or_return_success dest!: account_lookup_success append_movement_success split: if_splits)

lemma movement_error:
  "run_state (EarnPoints u n src cat narr) s = (Inl e, s') \<Longrightarrow> points_tables s' = points_tables s"
  "run_state (RedeemPointsRepo u n narr) s = (Inl e, s') \<Longrightarrow> points_tables s' = points_tables s"
  unfolding EarnPoints_def RedeemPointsRepo_def
  using local_tx_error_rolls_back [OF on_tables_points [of "points_tables s"], where s = s and s' = s' and e = e]
  by simp_all

section \<open>The ledger of points\<close>

fun signed_points :: "loyalty_transaction \<Rightarrow> int" where
  "signed_points t = (if l_type t = LoyaltyEarn then l_points t else - l_points t)"

fun earned_points :: "loyalty_transaction \<Rightarrow> int" where
  "earned_points t = (if l_type t = LoyaltyEarn then l_points t else 0)"

definition entries_of :: "uuid \<Rightarrow> world \<Rightarrow> loyalty_transaction list" where
  "entries_of i s = filter (\<lambda>t. l_account_id t = i) (loyalty_transactions s)"

text \<open>An account is explained by its entries: balance, lifetime and tier.\<close>

definition explained :: "world \<Rightarrow> loyalty_account \<Rightarrow> bool" where
  "explained s a \<longleftrightarrow> points_row_ok a \<and>
     a_points_balance a = sum_list (map signed_points (entries_of (a_id a) s)) \<and>
     a_lifetime_points a = sum_list (map earned_points (entries_of (a_id a) s)) \<and>
     a_tier a = CalculateTier (a_lifetime_points a)"

definition loyalty_ok :: "world \<Rightarrow> bool" where
  "loyalty_ok s \<longleftrightarrow>
     distinct (map a_id (loyalty_accounts s)) \<and> distinct (map a_user_id (loyalty_accounts s)) \<and>
     distinct (map l_id (loyalty_transactions s)) \<and>
     list_all (explained s) (loyalty_accounts s) \<and>
     list_all (\<lambda>t. l_account_id t \<in> set (map a_id (loyalty_accounts s))) (loyalty_transactions s)"

lemma loyalty_ok_tables: "points_tables s' = points_tables s \<Longrightarrow> loyalty_ok s \<Longrightarrow> loyalty_ok s'"
  by (auto simp: points_tables_def loyalty_ok_def explained_def entries_of_def list_all_iff)

lemma on_tables_loyalty_ok: "on_tables loyalty_ok"
  by (simp add: on_tables_def loyalty_ok_def explained_def entries_of_def list_all_iff)

lemma account_of_user_in: "account_of_user u s = Some acc \<Longrightarrow> acc \<in> set (loyalty_accounts s) \<and> a_user_id acc = u"
  unfolding account_of_user_def by (rule find_SomeD)

lemma moved_keeps_loyalty_ok:
  assumes ok: "loyalty_ok s" and acc: "acc \<in> set (loyalty_accounts s)" and m: "moved s s' acc f t"
    and t: "l_account_id t = a_id acc" and ids: "\<And>a. a_id (f a) = a_id a \<and> a_user_id (f a) = a_user_id a"
    and sums: "a_points_balance (f acc) = a_points_balance acc + signed_points t"
      "a_lifetime_points (f acc) = a_lifetime_points acc + earned_points t"
      "a_tier (f acc) = CalculateTier (a_lifetime_points (f acc))"
  shows "loyalty_ok s'"
proof -
  from m obtain now where A: "loyalty_accounts s' =
      set_rows (\<lambda>a. a_id a = a_id acc) (\<lambda>a. (f a)\<lparr>a_updated_at := now\<rparr>) (loyalty_accounts s)"
    and T: "loyalty_transactions s' = loyalty_transactions s @ [t]"
    and new: "l_id t \<notin> set (map l_id (loyalty_transactions s))" and row: "points_row_ok (f acc)"
    using acc by (auto simp: moved_def)
  have dist: "distinct (map a_id (loyalty_accounts s))" using ok by (simp add: loyalty_ok_def)
  have ids': "map a_id (loyalty_accounts s') = map a_id (loyalty_accounts s)"
    "map a_user_id (loyalty_accounts s') = map a_user_id (loyalty_accounts s)"
    unfolding A by (auto intro!: map_set_rows simp: ids)
  have E: "entries_of i s' = entries_of i s @ (if i = a_id acc then [t] else [])" for i
    using t by (simp add: entries_of_def T)
  have "explained s' a" if "a \<in> set (loyalty_accounts s')" for a
  proof -
    from that A obtain b where b: "b \<in> set (loyalty_accounts s)"
      and a: "a = (if a_id b = a_id acc then (f b)\<lparr>a_updated_at := now\<rparr> else b)"
      by (auto simp: set_rows_def)
    have eb: "explained s b" using ok b by (simp add: loyalty_ok_def list_all_iff)
    show ?thesis
    proof (cases "a_id b = a_id acc")
      case True
      with dist b acc have "b = acc" by (rule unique_key)
      with a eb row sums ids E [of "a_id acc"] show ?thesis
        by (simp add: explained_def points_row_ok_def del: signed_points.simps earned_points.simps)
    next
      case False
      with a eb E [of "a_id b"] show ?thesis by (simp add: explained_def)
    qed
  qed
  moreover have "l_account_id x \<in> set (map a_id (loyalty_accounts s'))" if "x \<in> set (loyalty_transactions s')" for x
    using that ok acc t unfolding ids' T by (auto simp: loyalty_ok_def list_all_iff)
  ultimately show ?thesis using ok new unfolding loyalty_ok_def ids' list_all_iff T by simp
qed

text \<open>The new balance is the exact one: a sum beyond 64 bits wraps below zero and is refused by the row's check.\<close>

lemma i64_wrap: "2 ^ 63 \<le> x \<Longrightarrow> x < 2 ^ 64 \<Longrightarrow> i64 x = x - 2 ^ 64"
proof -
  assume "2 ^ 63 \<le> x" "x < 2 ^ 64"
  then have "(x + 2 ^ 63 - 2 ^ 64) mod 2 ^ 64 = x + 2 ^ 63 - 2 ^ 64" by (intro mod_pos_pos_trivial) auto
  moreover have "(x + 2 ^ 63) mod 2 ^ 64 = (x + 2 ^ 63 - 2 ^ 64) mod (2 ^ 64 :: int)" by (metis minus_mod_self2)
  ultimately show ?thesis by (simp add: i64_def)
qed

lemma i64_exact: "0 \<le> i64 x \<Longrightarrow> - (2 ^ 63) \<le> x \<Longrightarrow> x < 2 ^ 64 \<Longrightarrow> i64 x = x"
  using i64_wrap [of x] i64_id [of x] by (cases "2 ^ 63 \<le> x") (simp_all add: in_i64_def)

lemma explained_account:
  "loyalty_ok s \<Longrightarrow> account_of_user u s = Some acc \<Longrightarrow> explained s acc \<and> acc \<in> set (loyalty_accounts s)"
  by (auto dest!: account_of_user_in simp: loyalty_ok_def list_all_iff)

lemma moved_row_ok: "moved s s' acc f t \<Longrightarrow> acc \<in> set (loyalty_accounts s) \<Longrightarrow> points_row_ok (f acc)"
  by (auto simp: moved_def)

lemma account_of_user_moved:
  assumes "loyalty_ok s" and "acc \<in> set (loyalty_accounts s)" and "moved s s' acc f t"
    and "\<And>a. a_id (f a) = a_id a \<and> a_user_id (f a) = a_user_id a"
  shows "map_option a_points_balance (account_of_user u s') =
    (if u = a_user_id acc then Some (a_points_balance (f acc)) else map_option a_points_balance (account_of_user u s))"
proof -
  from assms(3) obtain now where A: "loyalty_accounts s' =
      set_rows (\<lambda>a. a_id a = a_id acc) (\<lambda>a. (f a)\<lparr>a_updated_at := now\<rparr>) (loyalty_accounts s)"
    by (auto simp: moved_def)
  have "account_of_user u s' = map_option (\<lambda>a. if a_id a = a_id acc then (f a)\<lparr>a_updated_at := now\<rparr> else a)
      (account_of_user u s)"
    unfolding account_of_user_def A using assms(4) by (intro find_set_rows) simp
  moreover have "account_of_user (a_user_id acc) s = Some acc"
    using assms(1,2) unfolding account_of_user_def loyalty_ok_def by (intro find_unique) auto
  moreover have "a_id b = a_id acc \<longleftrightarrow> u = a_user_id acc" if "account_of_user u s = Some b" for b
  proof -
    from that have b: "b \<in> set (loyalty_accounts s)" "a_user_id b = u" by (auto dest: account_of_user_in)
    show ?thesis
      using assms(1,2) b unique_key [of a_id "loyalty_accounts s" b acc]
        unique_key [of a_user_id "loyalty_accounts s" b acc] by (auto simp: loyalty_ok_def)
  qed
  ultimately show ?thesis by (cases "account_of_user u s") auto
qed

lemma EarnPoints_effect:
  assumes ok: "loyalty_ok s" and n: "in_i64 n" and run: "run_state (EarnPoints u n src cat narr) s = (Inr ltx, s')"
  shows "loyalty_ok s' \<and> (\<exists>acc. account_of_user u s = Some acc \<and>
    (\<forall>x. map_option a_points_balance (account_of_user x s') =
      (if x = u then Some (a_points_balance acc + n) else map_option a_points_balance (account_of_user x s))))"
proof -
  from EarnPoints_success [OF run] obtain acc where acc: "account_of_user u s = Some acc"
    and t: "l_account_id ltx = a_id acc" "l_type ltx = LoyaltyEarn" "l_points ltx = n"
    and m: "moved s s' acc (\<lambda>a. a\<lparr>a_points_balance := i64 (a_points_balance acc + n),
      a_lifetime_points := i64 (a_lifetime_points acc + n),
      a_tier := CalculateTier (i64 (a_lifetime_points acc + n))\<rparr>) ltx" (is "moved s s' acc ?f ltx")
    by blast
  from explained_account [OF ok acc] have ex: "explained s acc" "acc \<in> set (loyalty_accounts s)" by auto
  from moved_row_ok [OF m ex(2)] ex(1) n
  have "i64 (a_points_balance acc + n) = a_points_balance acc + n \<and>
      i64 (a_lifetime_points acc + n) = a_lifetime_points acc + n"
    by (auto simp: points_row_ok_def explained_def in_i64_def intro!: i64_exact)
  with moved_keeps_loyalty_ok [OF ok ex(2) m t(1)] account_of_user_moved [OF ok ex(2) m] t acc
    account_of_user_in [OF acc]
  show ?thesis by simp
qed

lemma RedeemPointsRepo_effect:
  assumes ok: "loyalty_ok s" and n: "in_i64 n" and run: "run_state (RedeemPointsRepo u n narr) s = (Inr ltx, s')"
  shows "loyalty_ok s' \<and> (\<exists>acc. account_of_user u s = Some acc \<and> n \<le> a_points_balance acc \<and>
    l_balance_after ltx = a_points_balance acc - n \<and>
    (\<forall>x. map_option a_points_balance (account_of_user x s') =
      (if x = u then Some (a_points_balance acc - n) else map_option a_points_balance (account_of_user x s))))"
proof -
  from RedeemPointsRepo_success [OF run] obtain acc where acc: "account_of_user u s = Some acc"
    and t: "l_account_id ltx = a_id acc" "l_type ltx = LoyaltyRedeem" "l_points ltx = n"
    and le: "n \<le> a_points_balance acc" and after: "l_balance_after ltx = i64 (a_points_balance acc - n)"
    and m: "moved s s' acc (\<lambda>a. a\<lparr>a_points_balance := i64 (a_points_balance acc - n)\<rparr>) (ltx\<lparr>l_category := None\<rparr>)"
    by blast
  from explained_account [OF ok acc] have ex: "explained s acc" "acc \<in> set (loyalty_accounts s)" by auto
  from moved_row_ok [OF m ex(2)] ex(1) n
  have b: "i64 (a_points_balance acc - n) = a_points_balance acc - n"
    by (auto simp: points_row_ok_def explained_def in_i64_def intro!: i64_exact)
  have "a_tier acc = CalculateTier (a_lifetime_points acc)" using ex(1) by (simp add: explained_def)
  with moved_keeps_loyalty_ok [OF ok ex(2) m] account_of_user_moved [OF ok ex(2) m] t acc b le after
    account_of_user_in [OF acc]
  show ?thesis by simp
qed

lemma GetOrCreate_success:
  assumes "loyalty_ok s" and "run_state (GetOrCreate u) s = (Inr acc, s')"
  shows "points_row_ok acc \<and> a_tier acc = CalculateTier (a_lifetime_points acc)"
proof (cases "sql_ok s (tick s) \<and> account_of_user u s \<noteq> None")
  case True
  with assms(2) have "account_of_user u s = Some acc"
    by (auto simp: GetOrCreate_def run_query_row split: option.splits)
  from explained_account [OF assms(1) this] show ?thesis by (simp add: explained_def)
next
  case False
  then have "\<exists>e. run_state (query_row (account_of_user u)) s = (Inl e, step s)"
    by (auto simp: run_query_row)
  then obtain e where "run_state (query_row (account_of_user u)) s = (Inl e, step s)" ..
  with assms(2) show ?thesis
    by (auto simp: GetOrCreate_def Let_def points_row_ok_def in_i64_def CalculateTier_def
        TierThresholds_def elim!: or_return_success)
qed

lemma insert_account_keeps:
  assumes ok: "loyalty_ok s" and ins: "insert_loyalty_account a s = Some s'"
    and a: "a_points_balance a = 0" "a_lifetime_points a = 0" "a_tier a = TierBronze"
  shows "loyalty_ok s'"
proof (cases "a_user_id a \<in> set (map a_user_id (loyalty_accounts s))")
  case True
  with ok ins show ?thesis by (auto simp: insert_loyalty_account_def split: if_splits)
next
  case False
  with ins have A: "loyalty_accounts s' = loyalty_accounts s @ [a]" "loyalty_transactions s' = loyalty_transactions s"
    and new: "a_id a \<notin> set (map a_id (loyalty_accounts s))" and row: "points_row_ok a"
    by (auto simp: insert_loyalty_account_def split: if_splits)
  have "entries_of (a_id a) s = []"
    using ok new unfolding entries_of_def loyalty_ok_def list_all_iff filter_empty_conv by metis
  then have "explained s' a"
    using a row by (simp add: explained_def entries_of_def A CalculateTier_def TierThresholds_def)
  moreover have "explained s' b = explained s b" for b by (simp add: explained_def entries_of_def A)
  ultimately show ?thesis using ok new False by (auto simp: loyalty_ok_def A list_all_iff)
qed

lemma keeps_GetOrCreate: "keeps loyalty_ok (GetOrCreate u)"
  unfolding GetOrCreate_def Let_def
  by (intro keeps_intros keeps_exec on_tables_loyalty_ok) (auto intro: insert_account_keeps)

lemma keeps_EarnPoints:
  assumes n: "in_i64 n"
  shows "keeps loyalty_ok (EarnPoints u n src cat narr)"
proof (rule keepsI)
  fix s assume ok: "loyalty_ok s"
  obtain r s' where run: "run_state (EarnPoints u n src cat narr) s = (r, s')" by fastforce
  have "loyalty_ok s'"
  proof (cases r)
    case (Inl e)
    from movement_error(1) [OF run [unfolded Inl]] ok show ?thesis by (rule loyalty_ok_tables)
  next
    case (Inr v)
    from EarnPoints_effect [OF ok n run [unfolded Inr]] show ?thesis ..
  qed
  with run show "loyalty_ok (snd (run_state (EarnPoints u n src cat narr) s))" by simp
qed

lemma keeps_RedeemPointsRepo:
  assumes n: "in_i64 n"
  shows "keeps loyalty_ok (RedeemPointsRepo u n narr)"
proof (rule keepsI)
  fix s assume ok: "loyalty_ok s"
  obtain r s' where run: "run_state (RedeemPointsRepo u n narr) s = (r, s')" by fastforce
  have "loyalty_ok s'"
  proof (cases r)
    case (Inl e)
    from movement_error(2) [OF run [unfolded Inl]] ok show ?thesis by (rule loyalty_ok_tables)
  next
    case (Inr v)
    from RedeemPointsRepo_effect [OF ok n run [unfolded Inr]] show ?thesis ..
  qed
  with run show "loyalty_ok (snd (run_state (RedeemPointsRepo u n narr) s))" by simp
qed

text \<open>The wallet's tables and the tables of points do not touch each other.\<close>

lemma keeps_credit_redemption:
  assumes P: "on_tables P" and eq: "\<And>s s'. points_tables s' = points_tables s \<Longrightarrow> P s \<Longrightarrow> P s'"
  shows "keeps P (credit_redemption u k narr)"
proof -
  have credit: "keeps P (CreditBalance w n)" for w n unfolding CreditBalance_def
    by (rule keeps_exec [OF P], rule eq)
      (auto simp: update_wallets_def points_tables_def split: if_splits)
  have insert: "keeps P (InsertTransaction x)" for x unfolding InsertTransaction_def
    by (rule keeps_exec [OF P], rule eq)
      (auto simp: insert_transaction_def points_tables_def split: if_splits)
  show ?thesis unfolding credit_redemption_def FindByUserID_def
    by (intro keeps_intros credit insert P)
qed

lemma keeps_RedeemPoints: "in_i64 n \<Longrightarrow> keeps loyalty_ok (RedeemPoints parse u n narr)"
  unfolding RedeemPoints_def Let_def
  by (intro keeps_intros keeps_RedeemPointsRepo keeps_credit_redemption on_tables_loyalty_ok)
    (assumption | erule (1) loyalty_ok_tables)+

lemma in_i64_points: "in_i64 (CalculatePointsEarned c n)"
proof -
  have "in_i64 0" by (simp add: in_i64_def)
  then show ?thesis by (simp add: CalculatePointsEarned_def split: option.split)
qed

lemma keeps_AwardPoints: "keeps loyalty_ok (AwardPoints parse u src c n)"
  unfolding AwardPoints_def Let_def
  by (intro keeps_intros keeps_GetOrCreate keeps_EarnPoints in_i64_points)

lemma keeps_GetPointsBalance: "keeps loyalty_ok (GetPointsBalance parse u)"
  unfolding GetPointsBalance_def Let_def by (intro keeps_intros keeps_GetOrCreate)


section \<open>The points of a user, as a second purse\<close>

definition points_of :: "world \<Rightarrow> (uuid \<rightharpoonup> int)" where
  "points_of s u = map_option a_points_balance (account_of_user u s)"

lemma points_of_tables: "points_tables s' = points_tables s \<Longrightarrow> points_of s' = points_of s"
  by (simp add: points_of_def account_of_user_def points_tables_def fun_eq_iff)

lemma points_of_nonneg: "loyalty_ok s \<Longrightarrow> points_of s u = Some b \<Longrightarrow> 0 \<le> b"
  by (auto simp: points_of_def explained_def points_row_ok_def dest!: explained_account)

lemma EarnPoints_points:
  assumes "loyalty_ok s" and "in_i64 n" and "run_state (EarnPoints u n src cat narr) s = (Inr ltx, s')"
  shows "\<exists>b. points_of s u = Some b \<and> points_of s' = (points_of s)(u \<mapsto> b + n)"
proof -
  from EarnPoints_effect [OF assms] obtain acc where "account_of_user u s = Some acc" and
    "\<And>x. points_of s' x = (if x = u then Some (a_points_balance acc + n) else points_of s x)"
    unfolding points_of_def by blast
  then show ?thesis by (intro exI [of _ "a_points_balance acc"]) (auto simp: points_of_def [of s u])
qed

lemma RedeemPointsRepo_points:
  assumes "loyalty_ok s" and "in_i64 n" and "run_state (RedeemPointsRepo u n narr) s = (Inr ltx, s')"
  shows "\<exists>b. points_of s u = Some b \<and> n \<le> b \<and> l_balance_after ltx = b - n \<and>
    points_of s' = (points_of s)(u \<mapsto> b - n)"
proof -
  from RedeemPointsRepo_effect [OF assms] obtain acc where "account_of_user u s = Some acc" and
    "n \<le> a_points_balance acc" "l_balance_after ltx = a_points_balance acc - n" and
    "\<And>x. points_of s' x = (if x = u then Some (a_points_balance acc - n) else points_of s x)"
    unfolding points_of_def by blast
  then show ?thesis by (intro exI [of _ "a_points_balance acc"]) (auto simp: points_of_def [of s u])
qed

text \<open>The two operations of the repository, for the 64-bit amounts they take.\<close>

definition redeem_points :: "uuid \<Rightarrow> int \<Rightarrow> loyalty_transaction program" where
  "redeem_points u n = (if in_i64 n then RedeemPointsRepo u n [] else fail (ErrMsg ''int64''))"

definition earn_points :: "uuid \<Rightarrow> int \<Rightarrow> loyalty_transaction program" where
  "earn_points u n = (if in_i64 n then EarnPoints u n None [] [] else fail (ErrMsg ''int64''))"

definition points_purse :: "world \<Rightarrow> uuid \<Rightarrow> (uuid \<times> int) option" where
  "points_purse s u = map_option (Pair u) (points_of s u)"

lemma points_purse_upd: "points_of s' = (points_of s)(u \<mapsto> b) \<Longrightarrow> points_purse s' = (points_purse s)(u \<mapsto> (u, b))"
  by (simp add: points_purse_def fun_eq_iff)

lemma points_purse_frame: "points_tables s' = points_tables s \<Longrightarrow> points_purse s' = points_purse s"
  by (drule points_of_tables) (simp add: points_purse_def fun_eq_iff)

interpretation points: purse loyalty_ok points_purse redeem_points earn_points
proof
  fix s s' :: world and u v :: uuid and n b b' :: int and ltx e h
  show "keeps loyalty_ok (redeem_points u n)" "keeps loyalty_ok (earn_points u n)"
    by (simp_all add: redeem_points_def earn_points_def keeps_RedeemPointsRepo keeps_EarnPoints keeps_return)
  show "0 \<le> b" if "loyalty_ok s" "points_purse s u = Some (h, b)"
    using that by (auto simp: points_purse_def dest: points_of_nonneg)
  show "u = v" if "loyalty_ok s" "points_purse s u = Some (h, b)" "points_purse s v = Some (h, b')"
    using that by (auto simp: points_purse_def)
  show "\<exists>h b. points_purse s u = Some (h, b) \<and> points_purse s' = (points_purse s)(u \<mapsto> (h, b - n))"
    if "loyalty_ok s" "run_state (redeem_points u n) s = (Inr ltx, s')"
  proof -
    from that have "in_i64 n" "run_state (RedeemPointsRepo u n []) s = (Inr ltx, s')"
      by (simp_all add: redeem_points_def split: if_splits)
    from RedeemPointsRepo_points [OF that(1) this] obtain b
      where b: "points_of s u = Some b" "points_of s' = (points_of s)(u \<mapsto> b - n)" by blast
    from b(1) have "points_purse s u = Some (u, b)" by (simp add: points_purse_def)
    with points_purse_upd [OF b(2)] show ?thesis by blast
  qed
  show "points_purse s' = points_purse s" if "loyalty_ok s" "run_state (redeem_points u n) s = (Inl e, s')"
    using that by (auto simp: redeem_points_def split: if_splits intro: points_purse_frame movement_error(2))
  show "points_purse s' = points_purse s" if "loyalty_ok s" "run_state (earn_points u n) s = (Inl e, s')"
    using that by (auto simp: earn_points_def split: if_splits intro: points_purse_frame movement_error(1))
  have earn: "\<exists>b. points_of s u = Some b \<and> points_of s' = (points_of s)(u \<mapsto> b + n)"
    if "loyalty_ok s" "run_state (earn_points u n) s = (Inr ltx, s')" for u
  proof -
    from that have "in_i64 n" "run_state (EarnPoints u n None [] []) s = (Inr ltx, s')"
      by (simp_all add: earn_points_def split: if_splits)
    then show ?thesis by (rule EarnPoints_points [OF that(1)])
  qed
  show "points_purse s' = (points_purse s)(u \<mapsto> (h, b + n))"
    if "loyalty_ok s" "points_purse s u = Some (h, b)" "run_state (earn_points h n) s = (Inr ltx, s')"
  proof -
    from that(2) have h: "h = u" "points_of s u = Some b" by (auto simp: points_purse_def)
    with earn [OF that(1,3)] have "points_of s' = (points_of s)(u \<mapsto> b + n)" by auto
    with h show ?thesis by (simp add: points_purse_upd)
  qed
  show "points_purse s' = points_purse s"
    if "loyalty_ok s" "\<forall>k b. points_purse s k \<noteq> Some (h, b)" "run_state (earn_points h n) s = (Inr ltx, s')"
  proof -
    from earn [OF that(1,3)] obtain b where "points_purse s h = Some (h, b)" by (auto simp: points_purse_def)
    with that(2) show ?thesis by blast
  qed
qed

section \<open>Redemption\<close>

definition wallet_side :: "world \<Rightarrow> wallet list \<times> transaction list \<times> user list" where
  "wallet_side s = (wallets s, transactions s, users s)"

lemma wallet_side_frame:
  assumes "wallet_side s' = wallet_side s"
  shows "accounts s' = accounts s" "wallet_tables_ok s' = wallet_tables_ok s"
proof -
  from assms have eq: "wallets s' = wallets s" "transactions s' = transactions s" "users s' = users s"
    by (simp_all add: wallet_side_def)
  from eq(1) show "accounts s' = accounts s" by (rule accounts_wallets)
  show "wallet_tables_ok s' = wallet_tables_ok s"
    unfolding wallet_tables_ok_def user_exists_def wallet_exists_def eq ..
qed

lemma RedeemPointsRepo_wallet_side:
  assumes "run_state (RedeemPointsRepo u n narr) s = (r, s')"
  shows "wallet_side s' = wallet_side s"
proof -
  let ?P = "\<lambda>x. wallet_side x = wallet_side s"
  have P: "on_tables ?P" by (simp add: on_tables_def wallet_side_def)
  have "keeps ?P (exec (\<lambda>t. update_loyalty_accounts p (g t)))" for p g
    by (rule keeps_exec [OF P]) (auto simp: update_loyalty_accounts_def wallet_side_def split: if_splits)
  moreover have "keeps ?P (exec (\<lambda>_. insert_loyalty_transaction t))" for t
    by (rule keeps_exec [OF P]) (auto simp: insert_loyalty_transaction_def wallet_side_def split: if_splits)
  ultimately have "keeps ?P (RedeemPointsRepo u n narr)"
    unfolding RedeemPointsRepo_def append_movement_def Let_def
    by (intro keeps_intros P) auto
  from keeps_run [OF this assms] show ?thesis by simp
qed

lemma credit_redemption_points:
  assumes "run_state (credit_redemption u k narr) s = (r, s')"
  shows "points_tables s' = points_tables s"
proof -
  have "keeps (\<lambda>x. points_tables x = points_tables s) (credit_redemption u k narr)"
    by (rule keeps_credit_redemption) (auto simp: on_tables_points)
  from keeps_run [OF this assms] show ?thesis by simp
qed

lemma InsertTransaction_accounts: "accounts (snd (run_state (InsertTransaction t) s)) = accounts s"
proof -
  have "keeps (\<lambda>x. wallets x = wallets s) (InsertTransaction t)"
    unfolding InsertTransaction_def
    by (rule keeps_exec) (auto simp: on_tables_def insert_transaction_def split: if_splits)
  then show ?thesis by (intro accounts_wallets) (auto dest: keepsD)
qed

lemma credit_redemption_success:
  assumes ok: "wallet_tables_ok s" and run: "run_state (credit_redemption u k narr) s = (Inr v, s')"
  shows "\<exists>a. accounts s u = Some a \<and> accounts s' = (accounts s)(u \<mapsto> credit k a)"
proof -
  from run obtain w s1 v2 s2 where f: "run_state (FindByUserID u) s = (Inr w, s1)"
    and c: "run_state (CreditBalance (w_id w) k) s1 = (Inr v2, s2)"
    and s': "\<exists>t r. run_state (InsertTransaction t) (step (step s2)) = (r, s')"
    unfolding credit_redemption_def
    by (elim or_return_success) (auto split: prod.splits)
  from FindByUserID_success [OF f] have w: "wallet_of u s = Some w" and s1: "s1 = step s" by auto
  have a: "accounts s1 u = Some (account_of w)" "wallet_tables_ok s1"
    using w ok by (simp_all add: s1 accounts_def on_tables_step [OF on_tables_wallet_tables_ok])
  from CreditBalance_success [OF a(2,1), of k v2 s2] c
  have "accounts s2 = (accounts s1)(u \<mapsto> credit k (account_of w))" by simp
  moreover from s' have "accounts s' = accounts s2"
    using InsertTransaction_accounts [where s = "step (step s2)"] by (auto, metis snd_conv accounts_step(1))
  ultimately show ?thesis using a(1) by (auto simp: s1)
qed

lemma credit_redemption_error:
  assumes "run_state (credit_redemption u k narr) s = (Inl e, s')"
  shows "accounts s' = accounts s \<and> (e = ErrMsg ''wallet not found'' \<or> (\<exists>e'. e = Wrap ''wallet credit failed'' e'))"
  using assms unfolding credit_redemption_def
proof (cases rule: or_return_cases)
  case (returned e')
  with FindByUserID_state [of u s] show ?thesis by simp
next
  case (continued w s1)
  with FindByUserID_state [of u s] have s1: "s1 = step s" by simp
  from continued(2) show ?thesis
  proof (cases rule: or_return_cases)
    case (returned e')
    from CreditBalance_error [OF returned(1)] have "accounts s' = accounts s1" by (rule accounts_wallets)
    with returned s1 show ?thesis by auto
  next
    case (continued v s2)
    then show ?thesis by (auto split: prod.splits)
  qed
qed

lemma RedeemPointsRepo_errors:
  assumes "run_state (RedeemPointsRepo u n narr) s = (Inl e, s')"
  shows "e \<noteq> ErrMsg ''wallet not found'' \<and> (\<forall>e'. e \<noteq> Wrap ''wallet credit failed'' e')"
  using assms unfolding RedeemPointsRepo_def append_movement_def Let_def
  by (auto simp: local_tx_def run_begin_tx run_commit_tx run_or_return run_query_row run_exec
      split: prod.splits sum.splits if_splits option.splits)

section \<open>Properties\<close>

datatype points_op = Award string uuid service_category int | Redeem string int string | Look string

text \<open>What clients and finished payments make happen; the amounts are 64-bit integers.\<close>

fun points_step :: "(string \<rightharpoonup> uuid) \<Rightarrow> points_op \<Rightarrow> (world, unit) state" where
  "points_step parse (Award u src c n) = AwardPoints parse u src c n"
| "points_step parse (Redeem u n narr) = do { _ \<leftarrow> RedeemPointsHandler parse u (i64 n) narr; State_Monad.return () }"
| "points_step parse (Look u) = do { _ \<leftarrow> GetPointsBalance parse u; State_Monad.return () }"

lemma keeps_points_step: "keeps loyalty_ok (points_step parse op)"
  by (cases op) (auto simp: RedeemPointsHandler_def
      intro!: keeps_intros keeps_AwardPoints keeps_RedeemPoints keeps_GetPointsBalance)

lemma attempts_keeps: "(\<And>x. keeps P (act x)) \<Longrightarrow> P s \<Longrightarrow> P (attempts act xs s)"
  by (induction xs arbitrary: s) (auto dest: keepsD)

text \<open>
  C25. After any sequence of awards, redemptions and balance queries, whichever statements fail,
  the points of every account are explained by its ledger: the balance is what was earned less
  what was redeemed and is never negative, the lifetime points are what was earned, and the tier
  is the one of the lifetime points.
\<close>

theorem points_ledger_explains:
  assumes "loyalty_ok s" and "s' = attempts (points_step parse) ops s" and "a \<in> set (loyalty_accounts s')"
  shows "a_points_balance a = sum_list (map signed_points (entries_of (a_id a) s')) \<and> 0 \<le> a_points_balance a \<and>
    a_lifetime_points a = sum_list (map earned_points (entries_of (a_id a) s')) \<and>
    a_tier a = CalculateTier (a_lifetime_points a)"
proof -
  have "loyalty_ok s'"
    unfolding assms(2) using keeps_points_step assms(1) by (rule attempts_keeps)
  with assms(3) have "explained s' a" by (simp add: loyalty_ok_def list_all_iff)
  then show ?thesis by (simp add: explained_def points_row_ok_def)
qed

definition sample_points :: world where
  "sample_points = attempts (points_step Some)
     [Award ''ada'' ''t0'' CategoryFlight 120000, Look ''bola'', Redeem ''ada'' 150 [], Redeem ''ada'' 50000 []]
     sample_world"

lemma loyalty_ok_sample: "loyalty_ok sample_world" "wallet_tables_ok sample_world" "loyalty_ok sample_points"
  by code_simp+

lemma points_ledger_explains_witness:
  "a_tier (hd (loyalty_accounts sample_points)) = TierSilver \<and>
   a_lifetime_points (hd (loyalty_accounts sample_points)) =
     sum_list (map earned_points (entries_of (a_id (hd (loyalty_accounts sample_points))) sample_points))"
proof -
  have "loyalty_accounts sample_points \<noteq> []" by code_simp
  then have "hd (loyalty_accounts sample_points) \<in> set (loyalty_accounts sample_points)" by simp
  from points_ledger_explains [OF loyalty_ok_sample(1) sample_points_def this]
  have "a_lifetime_points (hd (loyalty_accounts sample_points)) =
     sum_list (map earned_points (entries_of (a_id (hd (loyalty_accounts sample_points))) sample_points))" by simp
  moreover have "a_tier (hd (loyalty_accounts sample_points)) = TierSilver" by code_simp
  ultimately show ?thesis by blast
qed

lemma PointsToKobo_small: "\<bar>n\<bar> * 100 < 2 ^ 63 \<Longrightarrow> PointsToKobo n = n"
proof -
  assume n: "\<bar>n\<bar> * 100 < 2 ^ 63"
  then have "in_i64 (n * 100)" by (auto simp: in_i64_def abs_if split: if_splits)
  moreover have "n * 100 sdiv 100 = n" by (simp add: signed_divide_int_def sgn_mult abs_mult sgn_mult_abs)
  ultimately show ?thesis by (simp add: PointsToKobo_def i64_id)
qed

text \<open>
  A redemption that succeeds takes exactly its points, a positive multiple of 100 that the user
  had, and credits the user's wallet with them at the rate of one kobo a point, as long as the
  amount does not overflow; no other user's points or wallet change.
\<close>

theorem redemption_exact:
  assumes "loyalty_ok s" and "wallet_tables_ok s" and "parse u = Some uid" and "in_i64 n"
    and "run_state (RedeemPointsHandler parse u n narr) s = (Inr resp, s')"
  shows "\<exists>b a. points_of s uid = Some b \<and> 100 \<le> n \<and> n smod 100 = 0 \<and> n \<le> b \<and>
    points_of s' = (points_of s)(uid \<mapsto> b - n) \<and> rr_new_balance resp = b - n \<and>
    accounts s u = Some a \<and> accounts s' = (accounts s)(u \<mapsto> credit (rr_kobo_credit resp) a) \<and>
    (n * 100 < 2 ^ 63 \<longrightarrow> rr_kobo_credit resp = n)"
proof -
  from assms(3,5) have guards: "100 \<le> n" "n smod 100 = 0"
    and run: "run_state (RedeemPoints parse u n narr) s = (Inr resp, s')"
    by (auto simp: RedeemPointsHandler_def RedeemPoints_def split: if_splits)
  from run assms(3) guards(2) obtain ltx s1 v
    where r: "run_state (RedeemPointsRepo uid n (redeem_narration n (PointsToKobo n) narr)) s = (Inr ltx, s1)"
      and c: "run_state (credit_redemption u (PointsToKobo n) (redeem_narration n (PointsToKobo n) narr)) s1 = (Inr v, s')"
      and resp: "rr_new_balance resp = l_balance_after ltx" "rr_kobo_credit resp = PointsToKobo n"
    by (auto simp: RedeemPoints_def Let_def elim!: or_return_success)
  from RedeemPointsRepo_points [OF assms(1,4) r] obtain b where
    b: "points_of s uid = Some b" "n \<le> b" "l_balance_after ltx = b - n" "points_of s1 = (points_of s)(uid \<mapsto> b - n)"
    by blast
  from wallet_side_frame [OF RedeemPointsRepo_wallet_side [OF r]] assms(2)
  have side: "accounts s1 = accounts s" "wallet_tables_ok s1" by auto
  from credit_redemption_success [OF side(2) c] side(1) obtain a where
    "accounts s u = Some a" "accounts s' = (accounts s)(u \<mapsto> credit (PointsToKobo n) a)" by auto
  moreover from points_of_tables [OF credit_redemption_points [OF c]] have "points_of s' = points_of s1" .
  moreover have "n * 100 < 2 ^ 63 \<longrightarrow> PointsToKobo n = n"
    using guards(1) by (auto intro!: PointsToKobo_small)
  ultimately show ?thesis using guards b resp by simp
qed

lemma redemption_exact_witness:
  "points_of (snd (run_state (RedeemPointsHandler Some ''ada'' 500 []) sample_points)) ''ada'' = Some 11500 \<and>
   map_option ac_balance (accounts (snd (run_state (RedeemPointsHandler Some ''ada'' 500 []) sample_points)) ''ada'')
     = Some 100500"
proof -
  let ?run = "run_state (RedeemPointsHandler Some ''ada'' 500 []) sample_points"
  have "wallet_tables_ok sample_points" "in_i64 500" "succeeded (fst ?run)" by code_simp+
  then obtain r where "wallet_tables_ok sample_points" "in_i64 500" "?run = (Inr r, snd ?run)"
    by (cases "fst ?run") (auto simp: prod_eq_iff)
  from redemption_exact [OF loyalty_ok_sample(3) this(1) _ this(2,3)] obtain b a where
    "points_of sample_points ''ada'' = Some b" "points_of (snd ?run) = (points_of sample_points)(''ada'' \<mapsto> b - 500)"
    "accounts sample_points ''ada'' = Some a" "accounts (snd ?run) = (accounts sample_points)(''ada'' \<mapsto> credit 500 a)"
    by auto
  moreover have "points_of sample_points ''ada'' = Some 12000"
    "map_option ac_balance (accounts sample_points ''ada'') = Some 100000" by code_simp+
  ultimately show ?thesis by auto
qed

text \<open>
  A redemption can take the points and give nothing: the points are committed before the wallet
  is looked up and credited, so when either step fails the user is left without both.
\<close>

theorem redemption_can_lose_points:
  assumes "loyalty_ok s" and "wallet_tables_ok s" and "parse u = Some uid" and "in_i64 n"
    and "run_state (RedeemPointsHandler parse u n narr) s = (Inl e, s')"
    and "e = ErrMsg ''wallet not found'' \<or> e = Wrap ''wallet credit failed'' e'"
  shows "100 \<le> n \<and> accounts s' = accounts s \<and>
    (\<exists>b. points_of s uid = Some b \<and> points_of s' = (points_of s)(uid \<mapsto> b - n))"
proof -
  from assms(3,5,6) have guards: "100 \<le> n" "n smod 100 = 0"
    and run: "run_state (RedeemPoints parse u n narr) s = (Inl e, s')"
    by (auto simp: RedeemPointsHandler_def RedeemPoints_def split: if_splits)
  let ?k = "PointsToKobo n" let ?narr = "redeem_narration n ?k narr"
  from run assms(3) guards(2)
  have "run_state (or_return (RedeemPointsRepo uid n ?narr) (\<lambda>e. e) (\<lambda>ltx.
      or_return (credit_redemption u ?k ?narr) (\<lambda>e. e) (\<lambda>_.
        ok \<lparr>rr_points_redeemed = n, rr_kobo_credit = ?k, rr_ngn_credit = of_int ?k / 100,
            rr_new_balance = l_balance_after ltx\<rparr>))) s = (Inl e, s')"
    by (simp add: RedeemPoints_def Let_def)
  then show ?thesis
  proof (cases rule: or_return_cases)
    case (returned x)
    with RedeemPointsRepo_errors [OF returned(1)] assms(6) show ?thesis by auto
  next
    case (continued ltx s1)
    from continued(2) have c: "run_state (credit_redemption u ?k ?narr) s1 = (Inl e, s')"
      by (auto elim!: or_return_cases)
    from RedeemPointsRepo_points [OF assms(1,4) continued(1)] obtain b where
      b: "points_of s uid = Some b" "points_of s1 = (points_of s)(uid \<mapsto> b - n)" by blast
    from wallet_side_frame [OF RedeemPointsRepo_wallet_side [OF continued(1)]] credit_redemption_error [OF c]
    have "accounts s' = accounts s" by simp
    moreover from points_of_tables [OF credit_redemption_points [OF c]] have "points_of s' = points_of s1" .
    ultimately show ?thesis using guards(1) b by simp
  qed
qed

definition no_wallet :: world where
  "no_wallet = sample_points\<lparr>wallets := [], transactions := []\<rparr>"

lemma redemption_can_lose_points_witness:
  "points_of (snd (run_state (RedeemPointsHandler Some ''ada'' 500 []) no_wallet)) ''ada'' = Some 11500"
proof -
  let ?run = "run_state (RedeemPointsHandler Some ''ada'' 500 []) no_wallet"
  have "loyalty_ok no_wallet" "wallet_tables_ok no_wallet" "in_i64 500"
    "fst ?run = Inl (ErrMsg ''wallet not found'')" by code_simp+
  then have "\<exists>b. points_of no_wallet ''ada'' = Some b \<and> points_of (snd ?run) = (points_of no_wallet)(''ada'' \<mapsto> b - 500)"
    using redemption_can_lose_points [of no_wallet Some "''ada''" "''ada''" 500 "[]" _ "snd ?run"]
    by (metis prod.collapse)
  moreover have "points_of no_wallet ''ada'' = Some 12000" by code_simp
  ultimately show ?thesis by auto
qed

text \<open>
  The history of a user who has redeemed points cannot be read any more: the entry of the
  redemption has no category, which the query scans into a string, so every page that holds the
  entry is answered with an error.
\<close>

theorem redemption_breaks_history:
  assumes "parse u = Some uid" and "run_state (RedeemPointsHandler parse u n narr) s = (Inr resp, s')"
    and "0 < limit" and "limit \<le> 100"
    and "int (length (filter (\<lambda>t. l_user_id t = uid) (loyalty_transactions s))) < limit"
    and "run_state (GetHistory parse u 1 limit) s' = (r, s'')"
  shows "\<not> succeeded r"
proof -
  from assms(1,2) have run: "run_state (RedeemPoints parse u n narr) s = (Inr resp, s')"
    and guard: "n smod 100 = 0"
    by (auto simp: RedeemPointsHandler_def RedeemPoints_def split: if_splits)
  from run assms(1) guard obtain ltx s1 v narr'
    where r: "run_state (RedeemPointsRepo uid n narr') s = (Inr ltx, s1)"
      and c: "run_state (credit_redemption u (PointsToKobo n) narr') s1 = (Inr v, s')"
    by (auto simp: RedeemPoints_def Let_def elim!: or_return_success)
  from RedeemPointsRepo_success [OF r] have "l_user_id ltx = uid"
    and "loyalty_transactions s1 = loyalty_transactions s @ [ltx\<lparr>l_category := None\<rparr>]"
    by (auto simp: moved_def)
  moreover from credit_redemption_points [OF c] have "loyalty_transactions s' = loyalty_transactions s1"
    by (simp add: points_tables_def)
  ultimately have rows: "filter (\<lambda>t. l_user_id t = uid) (loyalty_transactions s') =
      filter (\<lambda>t. l_user_id t = uid) (loyalty_transactions s) @ [ltx\<lparr>l_category := None\<rparr>]"
    by simp
  let ?rows = "filter (\<lambda>t. l_user_id t = uid) (loyalty_transactions s')"
  have "set (page_of l_created_at limit 0 ?rows) = set ?rows"
    using assms(5) by (simp add: page_of_def rows)
  then have scan: "scan_history (page_of l_created_at limit 0 ?rows) = Inl (ErrDb ''cannot scan NULL into *string'')"
    by (auto simp: scan_history_def list_all_iff rows)
  have "i64 0 = 0" by (simp add: i64_id in_i64_def)
  with assms(1,3,4,6) scan show ?thesis
    by (auto simp: GetHistory_def ListLoyaltyTransactions_def Let_def run_or_return run_query_all run_statement
        split: if_splits)
qed

lemma redemption_breaks_history_witness:
  "\<not> succeeded (fst (run_state (GetHistory Some ''ada'' 1 20)
     (snd (run_state (RedeemPointsHandler Some ''ada'' 500 []) sample_points))))"
proof -
  let ?run = "run_state (RedeemPointsHandler Some ''ada'' 500 []) sample_points"
  have "succeeded (fst ?run)"
    "int (length (filter (\<lambda>t. l_user_id t = ''ada'') (loyalty_transactions sample_points))) < 20" by code_simp+
  then obtain r where "?run = (Inr r, snd ?run)"
    "int (length (filter (\<lambda>t. l_user_id t = ''ada'') (loyalty_transactions sample_points))) < 20"
    by (cases "fst ?run") (auto simp: prod_eq_iff)
  from redemption_breaks_history [OF _ this(1) _ _ this(2) surjective_pairing] show ?thesis by simp
qed

end
