(* ===== verification/Encoding.thy ===== *)
theory Encoding
  imports GoStrings
begin

text \<open>
  \<open>encoding/base64\<close> with padding, in the two alphabets the code uses, the lower-case
  hexadecimal of \<open>%x\<close>, and \<open>strings.Split\<close> and \<open>SplitN\<close> at one character. Bytes are
  the characters of HOL. The decoder is the one of Go: line breaks are skipped, anything
  after the padding is an error, and the unused bits of the last character are ignored.
\<close>

section \<open>Base64\<close>

definition std_alphabet :: string where
  "std_alphabet = ''ABCDEFGHIJKLMNOPQRSTUVWXYZabcdefghijklmnopqrstuvwxyz0123456789+/''"

definition url_alphabet :: string where
  "url_alphabet = ''ABCDEFGHIJKLMNOPQRSTUVWXYZabcdefghijklmnopqrstuvwxyz0123456789-_''"

fun digit_of :: "string \<Rightarrow> char \<Rightarrow> nat option" where
  "digit_of [] c = None"
| "digit_of (a # as) c = (if c = a then Some 0 else map_option Suc (digit_of as c))"

fun encode_bytes :: "string \<Rightarrow> nat list \<Rightarrow> string" where
  "encode_bytes al (x # y # z # bs) =
     [al ! (x div 4), al ! (x mod 4 * 16 + y div 16), al ! (y mod 16 * 4 + z div 64), al ! (z mod 64)]
     @ encode_bytes al bs"
| "encode_bytes al [x, y] = [al ! (x div 4), al ! (x mod 4 * 16 + y div 16), al ! (y mod 16 * 4), CHR ''='']"
| "encode_bytes al [x] = [al ! (x div 4), al ! (x mod 4 * 16), CHR ''='', CHR ''='']"
| "encode_bytes al [] = []"

fun decode_chars :: "string \<Rightarrow> string \<Rightarrow> nat list option" where
  "decode_chars al [] = Some []"
| "decode_chars al (a # b # c # d # cs) =
     (case (digit_of al a, digit_of al b) of
        (Some i, Some j) \<Rightarrow>
          if c = CHR ''='' \<and> d = CHR ''='' \<and> cs = [] then Some [i * 4 + j div 16]
          else (case digit_of al c of
            None \<Rightarrow> None
          | Some k \<Rightarrow>
              if d = CHR ''='' \<and> cs = [] then Some [i * 4 + j div 16, j mod 16 * 16 + k div 4]
              else (case (digit_of al d, decode_chars al cs) of
                (Some l, Some bs) \<Rightarrow> Some ([i * 4 + j div 16, j mod 16 * 16 + k div 4, k mod 4 * 64 + l] @ bs)
              | _ \<Rightarrow> None))
      | _ \<Rightarrow> None)"
| "decode_chars al _ = None"

definition EncodeToString :: "string \<Rightarrow> string \<Rightarrow> string" where
  "EncodeToString al s = encode_bytes al (map of_char s)"

definition DecodeString :: "string \<Rightarrow> string \<Rightarrow> string option" where
  "DecodeString al s =
     map_option (map char_of) (decode_chars al (filter (\<lambda>c. c \<noteq> CHR 0x0A \<and> c \<noteq> CHR 0x0D) s))"

text \<open>What a proof needs of an alphabet.\<close>

definition alphabet :: "string \<Rightarrow> bool" where
  "alphabet al \<longleftrightarrow> length al = 64 \<and> distinct al \<and> list_all (\<lambda>c. c \<notin> {CHR ''='', CHR 0x0A, CHR 0x0D}) al"

lemma alphabets [simp]: "alphabet std_alphabet" "alphabet url_alphabet"
  by code_simp+

lemma digit_of_nth: "distinct al \<Longrightarrow> v < length al \<Longrightarrow> digit_of al (al ! v) = Some v"
  by (induction al arbitrary: v) (auto simp: nth_Cons split: nat.splits)

lemma digit_of_None: "c \<notin> set al \<Longrightarrow> digit_of al c = None"
  by (induction al) auto

lemma alphabet_digits:
  assumes "alphabet al"
  shows "v < 64 \<Longrightarrow> digit_of al (al ! v) = Some v" "v < 64 \<Longrightarrow> al ! v \<noteq> CHR ''=''"
proof -
  from assms have len: "length al = 64" and dist: "distinct al" by (simp_all add: alphabet_def)
  show "v < 64 \<Longrightarrow> digit_of al (al ! v) = Some v" using digit_of_nth [OF dist] len by simp
  have "CHR ''='' \<notin> set al" using assms unfolding alphabet_def list_all_iff by blast
  then show "v < 64 \<Longrightarrow> al ! v \<noteq> CHR ''=''" using nth_mem [of v al] len by (metis)
qed

text \<open>Two adjacent digits share a byte; splitting and joining it are inverse.\<close>

lemma digits_join:
  fixes x y :: nat
  assumes "y < 256"
  shows "(x mod 4 * 16 + y div 16) div 16 = x mod 4" "(x mod 4 * 16 + y div 16) mod 16 = y div 16"
    "(x mod 16 * 4 + y div 64) div 4 = x mod 16" "(x mod 16 * 4 + y div 64) mod 4 = y div 64"
    "x div 4 * 4 + x mod 4 = x" "x div 16 * 16 + x mod 16 = x" "x div 64 * 64 + x mod 64 = x"
  using assms by (simp_all add: div_mult_mod_eq)

lemma digits_bounds:
  fixes x y :: nat
  assumes "x < 256" "y < 256"
  shows "x div 4 < 64" "x mod 4 * 16 + y div 16 < 64" "x mod 16 * 4 + y div 64 < 64" "x mod 64 < 64"
    "x mod 4 * 16 < 64" "x mod 16 * 4 < 64"
proof -
  have "x mod 4 < 4" "x mod 16 < 16" "y div 16 < 16" "y div 64 < 4" using assms by auto
  then show "x mod 4 * 16 + y div 16 < 64" "x mod 16 * 4 + y div 64 < 64" "x mod 4 * 16 < 64" "x mod 16 * 4 < 64"
    by linarith+
qed (use assms in auto)

lemma decode_encode_bytes:
  assumes "alphabet al" and "\<forall>b \<in> set bs. b < 256"
  shows "decode_chars al (encode_bytes al bs) = Some bs"
  using assms
proof (induction al bs rule: encode_bytes.induct)
  case (1 al x y z bs)
  then have b: "x < 256" "y < 256" "z < 256" and IH: "decode_chars al (encode_bytes al bs) = Some bs" by auto
  note d = alphabet_digits [OF "1.prems"(1)]
  note d1 = d [OF digits_bounds(1) [OF b(1) b(1)]] and d2 = d [OF digits_bounds(2) [OF b(1,2)]]
    and d3 = d [OF digits_bounds(3) [OF b(2,3)]] and d4 = d [OF digits_bounds(4) [OF b(3) b(3)]]
  note j = digits_join(1,2,5) [OF b(2), of x] digits_join(3,4,6) [OF b(3), of y] digits_join(7) [OF b(3), of z]
  show ?case
    by (simp only: encode_bytes.simps append_Cons append_Nil decode_chars.simps d1 d2 d3 d4 IH j
        option.case prod.case simp_thms if_False)
next
  case (2 al x y)
  then have b: "x < 256" "y < 256" by auto
  note d = alphabet_digits [OF "2.prems"(1)]
  note d1 = d [OF digits_bounds(1) [OF b(1) b(1)]] and d2 = d [OF digits_bounds(2) [OF b(1,2)]]
    and d3 = d [OF digits_bounds(6) [OF b(2) b(2)]]
  note j = digits_join(1,2,5) [OF b(2), of x] digits_join(6) [OF b(2), of y]
  have "y mod 16 * 4 div 4 = y mod 16" by simp
  then show ?case
    by (simp only: encode_bytes.simps decode_chars.simps d1 d2 d3 j option.case prod.case simp_thms if_False if_True)
next
  case (3 al x)
  then have b: "x < 256" by auto
  note d = alphabet_digits [OF "3.prems"(1)]
  note d1 = d [OF digits_bounds(1) [OF b b]] and d2 = d [OF digits_bounds(5) [OF b b]]
  have "x mod 4 * 16 div 16 = x mod 4" by simp
  then show ?case
    by (simp only: encode_bytes.simps decode_chars.simps d1 d2 digits_join(5) [OF b, of x] option.case prod.case
        simp_thms if_True)
qed simp

lemma set_encode_bytes:
  assumes "alphabet al" and "\<forall>b \<in> set bs. b < 256"
  shows "\<forall>c \<in> set (encode_bytes al bs). c = CHR ''='' \<or> c \<in> set al"
  using assms
proof (induction al bs rule: encode_bytes.induct)
  case (1 al x y z bs)
  then have b: "x < 256" "y < 256" "z < 256" and len: "length al = 64" by (auto simp: alphabet_def)
  note m = nth_mem [of _ al, unfolded len]
  note m [OF digits_bounds(1) [OF b(1) b(1)]] m [OF digits_bounds(2) [OF b(1,2)]]
    m [OF digits_bounds(3) [OF b(2,3)]] m [OF digits_bounds(4) [OF b(3) b(3)]]
  with 1 show ?case by (simp only: encode_bytes.simps set_append list.set) auto
next
  case (2 al x y)
  then have b: "x < 256" "y < 256" and len: "length al = 64" by (auto simp: alphabet_def)
  note m = nth_mem [of _ al, unfolded len]
  note m [OF digits_bounds(1) [OF b(1) b(1)]] m [OF digits_bounds(2) [OF b(1,2)]]
    m [OF digits_bounds(6) [OF b(2) b(2)]]
  then show ?case by (simp only: encode_bytes.simps list.set) blast
next
  case (3 al x)
  then have b: "x < 256" and len: "length al = 64" by (auto simp: alphabet_def)
  note m = nth_mem [of _ al, unfolded len]
  note m [OF digits_bounds(1) [OF b b]] m [OF digits_bounds(5) [OF b b]]
  then show ?case by (simp only: encode_bytes.simps list.set) blast
qed simp

lemma byte_bound: "\<forall>b \<in> set (map of_char s :: nat list). b < 256"
  by auto

text \<open>The round trip, in both alphabets.\<close>

lemma DecodeString_EncodeToString:
  assumes "alphabet al"
  shows "DecodeString al (EncodeToString al s) = Some s"
proof -
  have no: "CHR 0x0A \<notin> set al" "CHR 0x0D \<notin> set al"
    using assms unfolding alphabet_def list_all_iff by blast+
  have "\<forall>c \<in> set (EncodeToString al s). c \<noteq> CHR 0x0A \<and> c \<noteq> CHR 0x0D"
  proof
    fix c assume "c \<in> set (EncodeToString al s)"
    from bspec [OF set_encode_bytes [OF assms byte_bound [of s]] this [unfolded EncodeToString_def]]
    have "c = CHR ''='' \<or> c \<in> set al" .
    then show "c \<noteq> CHR 0x0A \<and> c \<noteq> CHR 0x0D"
    proof
      assume "c = CHR ''=''" then show ?thesis by simp
    next
      assume "c \<in> set al" with no show ?thesis by metis
    qed
  qed
  then have "filter (\<lambda>c. c \<noteq> CHR 0x0A \<and> c \<noteq> CHR 0x0D) (EncodeToString al s) = EncodeToString al s"
    unfolding filter_id_conv .
  moreover have "map (char_of :: nat \<Rightarrow> char) (map of_char s) = s" by (simp add: comp_def)
  ultimately show ?thesis
    using decode_encode_bytes [OF assms byte_bound [of s]] unfolding DecodeString_def EncodeToString_def
    by (simp only: option.map)
qed

section \<open>Hexadecimal\<close>

definition hex_digits :: string where
  "hex_digits = ''0123456789abcdef''"

definition hex_string :: "string \<Rightarrow> string" where
  "hex_string s = concat (map (\<lambda>c. [hex_digits ! (of_char c div 16), hex_digits ! (of_char c mod 16)]) s)"

section \<open>Splitting\<close>

fun split_at :: "char \<Rightarrow> string \<Rightarrow> string list" where
  "split_at sep [] = [[]]"
| "split_at sep (c # s) =
     (if c = sep then [] # split_at sep s
      else (case split_at sep s of [] \<Rightarrow> [[c]] | w # ws \<Rightarrow> (c # w) # ws))"

definition split_once :: "char \<Rightarrow> string \<Rightarrow> string list" where
  "split_once sep s =
     (case dropWhile (\<lambda>c. c \<noteq> sep) s of [] \<Rightarrow> [s] | _ # r \<Rightarrow> [takeWhile (\<lambda>c. c \<noteq> sep) s, r])"

lemma split_at_no_sep: "sep \<notin> set s \<Longrightarrow> split_at sep s = [s]"
  by (induction s) auto

lemma split_at_sep: "sep \<notin> set s \<Longrightarrow> split_at sep (s @ sep # r) = s # split_at sep r"
  by (induction s) auto

lemma split_once_sep: "sep \<notin> set s \<Longrightarrow> split_once sep (s @ sep # r) = [s, r]"
proof -
  assume "sep \<notin> set s"
  then have "dropWhile (\<lambda>c. c \<noteq> sep) (s @ sep # r) = sep # r" "takeWhile (\<lambda>c. c \<noteq> sep) (s @ sep # r) = s"
    by (induction s) auto
  then show ?thesis by (simp add: split_once_def)
qed

end
