(* ===== verification/Auth.thy ===== *)
theory Auth
  imports UserRepo Encoding
begin

text \<open>
  Accounts and tokens: \<open>pkg/jwt/jwt.go\<close>, the password and OTP helpers of \<open>pkg/crypto/hash.go\<close>,
  \<open>internal/services/auth/auth_service.go\<close> and \<open>internal/middleware/auth.go\<close>. Parameters are the
  JWT library (signing and parsing a token), bcrypt, the random bytes, the JSON decoder of the
  Google payload and the two message gateways; each is a function of the tick where it may
  answer differently each time.
\<close>

section \<open>Tokens\<close>

record claims =
  cl_user_id :: string
  cl_kyc_tier :: int
  cl_expires_at :: time
  cl_issued_at :: time
  cl_id :: string

text \<open>
  \<open>jm_sign\<close> is \<open>NewWithClaims(HS256, c).SignedString(secret)\<close>; \<open>jm_parse\<close> is \<open>ParseWithClaims\<close>
  at a given time, with the function that gives the key for a signing method, and answers with the
  claims and the token's \<open>Valid\<close>.
\<close>

record jwt_manager =
  jm_secret :: string
  jm_access_ttl :: int
  jm_refresh_ttl :: int
  jm_sign :: "string \<Rightarrow> claims \<Rightarrow> string res"
  jm_parse :: "(string \<Rightarrow> string res) \<Rightarrow> time \<Rightarrow> string \<Rightarrow> (claims \<times> bool) res"
  jm_numeric_date :: "time \<Rightarrow> time"

definition key_for :: "string \<Rightarrow> string \<Rightarrow> string res" where
  "key_for secret method =
     (if method \<in> {''HS256'', ''HS384'', ''HS512''} then Inr secret
      else Inl (ErrMsg ''unexpected signing method''))"

definition generate :: "jwt_manager \<Rightarrow> string \<Rightarrow> int \<Rightarrow> int \<Rightarrow> string program" where
  "generate m userID kycTier ttl = do {
     expires \<leftarrow> time_now;
     issued \<leftarrow> time_now;
     i \<leftarrow> uuid_new;
     State_Monad.return (jm_sign m (jm_secret m) \<lparr>cl_user_id = userID, cl_kyc_tier = kycTier,
       cl_expires_at = jm_numeric_date m (expires + ttl), cl_issued_at = jm_numeric_date m issued, cl_id = i\<rparr>)
   }"

definition GenerateAccessToken :: "jwt_manager \<Rightarrow> string \<Rightarrow> int \<Rightarrow> string program" where
  "GenerateAccessToken m userID kycTier = generate m userID kycTier (jm_access_ttl m)"

definition GenerateRefreshToken :: "jwt_manager \<Rightarrow> string \<Rightarrow> int \<Rightarrow> string program" where
  "GenerateRefreshToken m userID kycTier = generate m userID kycTier (jm_refresh_ttl m)"

definition Validate :: "jwt_manager \<Rightarrow> string \<Rightarrow> claims program" where
  "Validate m tokenString = do {
     now \<leftarrow> time_now;
     State_Monad.return (case jm_parse m (key_for (jm_secret m)) now tokenString of
         Inl e \<Rightarrow> Inl e
       | Inr (c, valid) \<Rightarrow> if valid then Inr c else Inl (ErrMsg ''invalid token''))
   }"

section \<open>The middleware\<close>

definition unauthorized :: "string \<Rightarrow> ('s, 'a) go" where
  "unauthorized msg = fail (ErrMsg msg)"

definition Auth :: "jwt_manager \<Rightarrow> string \<Rightarrow> claims program" where
  "Auth m header =
     (if header = [] then unauthorized ''authorization header is required''
      else case split_once CHR '' '' header of
        [scheme, token] \<Rightarrow>
          if ToLower scheme \<noteq> ''bearer''
          then unauthorized ''authorization header format must be: Bearer <token>''
          else or_return (Validate m token) (\<lambda>_. ErrMsg ''invalid or expired token'') ok
      | _ \<Rightarrow> unauthorized ''authorization header format must be: Bearer <token>'')"

text \<open>The argument is the \<open>kycTier\<close> the context holds, if the request went through \<open>Auth\<close>.\<close>

definition RequireKYC :: "int \<Rightarrow> int option \<Rightarrow> unit res" where
  "RequireKYC minTier tier =
     (case tier of
        None \<Rightarrow> Inl (ErrMsg ''unauthenticated'')
      | Some t \<Rightarrow> if t < minTier then Inl (ErrMsg ''KYC upgrade required for this operation'') else Inr ())"

section \<open>Passwords and codes\<close>

record auth_service =
  as_jwt :: jwt_manager
  as_bcrypt :: "nat \<Rightarrow> int \<Rightarrow> string \<Rightarrow> string res"
  as_compare :: "string \<Rightarrow> string \<Rightarrow> unit res"
  as_rand :: "nat \<Rightarrow> nat \<Rightarrow> nat list res"
  as_send_email :: "nat \<Rightarrow> string \<Rightarrow> string \<Rightarrow> string \<Rightarrow> unit res"
  as_send_sms :: "nat \<Rightarrow> string \<Rightarrow> string \<Rightarrow> string \<Rightarrow> unit res"
  as_json_strings :: "string \<Rightarrow> (string \<Rightarrow> string option) option"

definition HashPassword :: "auth_service \<Rightarrow> string \<Rightarrow> string program" where
  "HashPassword a plain = call (\<lambda>n. as_bcrypt a n 12 plain)"

definition CheckPassword :: "auth_service \<Rightarrow> string \<Rightarrow> string \<Rightarrow> unit res" where
  "CheckPassword a hash plain = as_compare a hash plain"

definition otp_digits :: "nat list \<Rightarrow> string" where
  "otp_digits b = map (\<lambda>v. char_of (48 + v mod 10)) b"

definition GenerateOTP :: "auth_service \<Rightarrow> nat \<Rightarrow> string program" where
  "GenerateOTP a digits =
     or_return (call (\<lambda>n. as_rand a n digits)) (\<lambda>e. e) (\<lambda>b. ok (otp_digits b))"

definition purpose_text :: "otp_purpose \<Rightarrow> string" where
  "purpose_text p = (case p of OTPPhoneVerify \<Rightarrow> ''phone_verify'' | OTPPINReset \<Rightarrow> ''pin_reset'' | OTPTxAuth \<Rightarrow> ''tx_auth'')"

section \<open>Requests\<close>

record register_request =
  rq_phone :: string
  rq_email :: string
  rq_password :: string
  rq_first_name :: string
  rq_last_name :: string

record login_request =
  lq_phone :: string
  lq_password :: string

record verify_phone_request =
  yq_phone :: string
  yq_otp :: string

record set_pin_request =
  pq_pin :: string
  pq_confirm_pin :: string

record kyc_upgrade_request =
  kq_bvn :: string
  kq_nin :: string

record update_profile_request =
  uq_first_name :: string
  uq_last_name :: string
  uq_email :: string

record token_pair =
  tk_access :: string
  tk_refresh :: string

section \<open>The service\<close>

definition otp_ttl :: "otp_purpose \<Rightarrow> int" where
  "otp_ttl purpose = (if purpose = OTPTxAuth then 5 else 10) * 60 * 1000"

definition sendOTP :: "auth_service \<Rightarrow> string \<Rightarrow> string \<Rightarrow> otp_purpose \<Rightarrow> unit program" where
  "sendOTP a phone email purpose =
     or_return (GenerateOTP a 6) (\<lambda>e. e) (\<lambda>otp.
     or_return (HashPassword a otp) (\<lambda>e. e) (\<lambda>hash. do {
       i \<leftarrow> uuid_new;
       now \<leftarrow> time_now;
       created \<leftarrow> time_now;
       or_return (CreateOTP \<lparr>o_id = i, o_phone = phone, o_hash = hash, o_purpose = purpose,
           o_expires_at = now + otp_ttl purpose, o_used = False, o_created_at = created\<rparr>) (\<lambda>e. e) (\<lambda>_.
       if email \<noteq> [] then call (\<lambda>n. as_send_email a n email otp (purpose_text purpose))
       else call (\<lambda>n. as_send_sms a n phone otp (purpose_text purpose)))
     }))"

definition generateTokenPair :: "auth_service \<Rightarrow> string \<Rightarrow> int \<Rightarrow> token_pair program" where
  "generateTokenPair a userID kycTier =
     or_return (GenerateAccessToken (as_jwt a) userID kycTier) (\<lambda>e. e) (\<lambda>access.
     or_return (GenerateRefreshToken (as_jwt a) userID kycTier) (\<lambda>e. e) (\<lambda>refresh.
     ok \<lparr>tk_access = access, tk_refresh = refresh\<rparr>))"

text \<open>The user and the wallet that registering creates, with the limit of an unverified user.\<close>

definition new_user ::
  "string \<Rightarrow> string \<Rightarrow> string \<Rightarrow> string \<Rightarrow> string \<Rightarrow> (world, user) state" where
  "new_user phone email hash firstName lastName = do {
     i \<leftarrow> uuid_new;
     created \<leftarrow> time_now;
     updated \<leftarrow> time_now;
     State_Monad.return \<lparr>u_id = i, u_phone = phone, u_email = email, u_password_hash = hash,
       u_first_name = firstName, u_last_name = lastName, u_kyc_tier = KYCTierUnverified, u_bvn = [],
       u_nin = [], u_is_active = True, u_pin_hash = [], u_created_at = created,
       u_updated_at = updated, u_deleted_at = None\<rparr>
   }"

definition new_wallet :: "uuid \<Rightarrow> (world, wallet) state" where
  "new_wallet userID = do {
     i \<leftarrow> uuid_new;
     created \<leftarrow> time_now;
     updated \<leftarrow> time_now;
     State_Monad.return \<lparr>w_id = i, w_user_id = userID, w_balance = 0, w_ledger_balance = 0,
       w_currency = NGN, w_daily_spend = 0, w_daily_limit = 5000000, w_created_at = created,
       w_updated_at = updated\<rparr>
   }"

text \<open>Both inserts, in this order and without a transaction; the answer is the user.\<close>

definition provision :: "string \<Rightarrow> string \<Rightarrow> string \<Rightarrow> string \<Rightarrow> string \<Rightarrow> user program" where
  "provision phone email hash firstName lastName = do {
     user \<leftarrow> new_user phone email hash firstName lastName;
     or_return (CreateUser user) (\<lambda>e. e) (\<lambda>_. do {
       wallet \<leftarrow> new_wallet (u_id user);
       or_return (CreateWallet wallet) (\<lambda>e. e) (\<lambda>_. ok user)
     })
   }"

definition Register :: "auth_service \<Rightarrow> register_request \<Rightarrow> string program" where
  "Register a req = do {
     existing \<leftarrow> FindByPhone (rq_phone req);
     if succeeded existing then fail (ErrMsg ''phone number is already registered'')
     else do {
       existingEmail \<leftarrow> FindByEmail (rq_email req);
       if succeeded existingEmail then fail (ErrMsg ''email is already registered'')
       else or_return (HashPassword a (rq_password req)) (\<lambda>e. e) (\<lambda>hash.
         or_return (provision (rq_phone req) (rq_email req) hash (rq_first_name req) (rq_last_name req))
           (\<lambda>e. e) (\<lambda>_. do {
         _ \<leftarrow> sendOTP a (rq_phone req) (rq_email req) OTPPhoneVerify;
         ok (''Registration successful. Enter the 6-digit code sent to '' @ rq_phone req)
       }))
     }
   }"

definition Login :: "auth_service \<Rightarrow> login_request \<Rightarrow> token_pair program" where
  "Login a req =
     or_return (FindByPhone (lq_phone req)) (\<lambda>_. ErrMsg ''invalid phone number or password'') (\<lambda>user.
     if \<not> u_is_active user
     then fail (ErrMsg (''account is suspended '' @ em_dash @ '' contact support''))
     else case CheckPassword a (u_password_hash user) (lq_password req) of
       Inl _ \<Rightarrow> fail (ErrMsg ''invalid phone number or password'')
     | Inr _ \<Rightarrow> generateTokenPair a (u_id user) (kyc_int (u_kyc_tier user)))"

definition decodeGoogleJWT :: "auth_service \<Rightarrow> string \<Rightarrow> (string \<Rightarrow> string option) option" where
  "decodeGoogleJWT a token =
     (case split_at CHR ''.'' token of
        _ # payload # _ \<Rightarrow>
          let pad = length payload mod 4;
              payload = (if pad \<noteq> 0 then payload @ replicate (4 - pad) CHR ''='' else payload)
          in (case DecodeString url_alphabet payload of
                None \<Rightarrow> None
              | Some bytes \<Rightarrow> as_json_strings a bytes)
      | _ \<Rightarrow> None)"

definition string_claim :: "(string \<Rightarrow> string option) \<Rightarrow> string \<Rightarrow> string" where
  "string_claim c k = (case c k of None \<Rightarrow> [] | Some v \<Rightarrow> v)"

definition GoogleLogin :: "auth_service \<Rightarrow> string \<Rightarrow> token_pair program" where
  "GoogleLogin a idToken =
     (case decodeGoogleJWT a idToken of
        None \<Rightarrow> fail (ErrMsg ''invalid google token'')
      | Some c \<Rightarrow>
          let email = string_claim c ''email''
          in if email = [] then fail (ErrMsg ''google token missing email'')
          else do {
            found \<leftarrow> FindByEmail email;
            case found of
              Inl _ \<Rightarrow> do {
                u \<leftarrow> uuid_new;
                or_return (provision (''+234'' @ take 10 u) email ''google_oauth_no_password''
                    (string_claim c ''given_name'') (string_claim c ''family_name'')) (\<lambda>e. e) (\<lambda>user.
                generateTokenPair a (u_id user) (kyc_int (u_kyc_tier user)))
              }
            | Inr user \<Rightarrow>
                if \<not> u_is_active user then fail (ErrMsg ''account is suspended'')
                else generateTokenPair a (u_id user) (kyc_int (u_kyc_tier user))
          })"

definition ResendOTP :: "auth_service \<Rightarrow> string \<Rightarrow> otp_purpose \<Rightarrow> unit program" where
  "ResendOTP a phone purpose = do {
     found \<leftarrow> FindByPhone phone;
     case found of
       Inl _ \<Rightarrow> ok ()
     | Inr user \<Rightarrow> sendOTP a phone (u_email user) purpose
   }"

definition VerifyPhone :: "auth_service \<Rightarrow> verify_phone_request \<Rightarrow> unit program" where
  "VerifyPhone a req =
     or_return (FindValid (yq_phone req) OTPPhoneVerify)
       (\<lambda>_. ErrMsg ''invalid or expired verification code'') (\<lambda>otp.
     case CheckPassword a (o_hash otp) (yq_otp req) of
       Inl _ \<Rightarrow> fail (ErrMsg ''invalid or expired verification code'')
     | Inr _ \<Rightarrow> or_return (MarkUsed (o_id otp)) (\<lambda>e. e) (\<lambda>_. ok ()))"

definition GetProfile :: "string \<Rightarrow> user program" where
  "GetProfile userID = FindByID userID"

definition UpdateProfile :: "string \<Rightarrow> update_profile_request \<Rightarrow> user program" where
  "UpdateProfile userID req = do {
     existing \<leftarrow> FindByEmail (uq_email req);
     if (case existing of Inr u \<Rightarrow> u_id u \<noteq> userID | Inl _ \<Rightarrow> False)
     then fail (ErrMsg ''email is already registered to another account'')
     else or_return (UpdateUserProfile userID (uq_first_name req) (uq_last_name req) (uq_email req))
       (\<lambda>e. e) (\<lambda>_. FindByID userID)
   }"

definition SetPIN :: "auth_service \<Rightarrow> string \<Rightarrow> set_pin_request \<Rightarrow> unit program" where
  "SetPIN a userID req =
     (if pq_pin req \<noteq> pq_confirm_pin req then fail (ErrMsg ''PINs do not match'')
      else or_return (HashPassword a (pq_pin req)) (\<lambda>e. e) (\<lambda>hash. UpdatePIN userID hash))"

text \<open>The \<open>switch\<close>: the new tier, its daily limit and the statement that stores the number.\<close>

definition upgrade_path :: "string \<Rightarrow> kyc_tier \<Rightarrow> kyc_upgrade_request \<Rightarrow> (kyc_tier \<times> int \<times> unit program) option" where
  "upgrade_path userID tier req =
     (if kq_nin req \<noteq> [] \<and> tier < KYCTierTwo
      then Some (KYCTierTwo, 50000000, UpdateNIN userID (kq_nin req))
      else if kq_bvn req \<noteq> [] \<and> tier < KYCTierOne
      then Some (KYCTierOne, 20000000, UpdateBVN userID (kq_bvn req))
      else None)"

definition UpgradeKYC :: "string \<Rightarrow> kyc_upgrade_request \<Rightarrow> kyc_tier program" where
  "UpgradeKYC userID req =
     or_return (FindByID userID) (\<lambda>e. e) (\<lambda>user.
     case upgrade_path userID (u_kyc_tier user) req of
       None \<Rightarrow> fail (ErrMsg (''no valid upgrade path '' @ em_dash @ '' check your current KYC tier''))
     | Some (newTier, newLimit, store_number) \<Rightarrow>
         or_return store_number (\<lambda>e. e) (\<lambda>_.
         or_return (UpdateKYCTier userID newTier) (\<lambda>e. e) (\<lambda>_.
         or_return (UpdateDailyLimit userID newLimit) (\<lambda>e. e) (\<lambda>_. ok newTier))))"

definition RefreshToken :: "auth_service \<Rightarrow> string \<Rightarrow> token_pair program" where
  "RefreshToken a refreshToken =
     or_return (Validate (as_jwt a) refreshToken) (\<lambda>_. ErrMsg ''invalid or expired refresh token'') (\<lambda>c.
     or_return (FindByID (cl_user_id c)) (\<lambda>_. ErrMsg ''user not found'') (\<lambda>user.
     if \<not> u_is_active user then fail (ErrMsg ''account suspended'')
     else generateTokenPair a (u_id user) (kyc_int (u_kyc_tier user))))"

definition GetUserByPhone :: "string \<Rightarrow> user program" where
  "GetUserByPhone phone = FindByPhone phone"

section \<open>The tables stay well-formed\<close>

definition users_ok :: "world \<Rightarrow> bool" where
  "users_ok s \<longleftrightarrow> list_all user_row_ok (users s) \<and> users_unique (users s)"

definition auth_ok :: "world \<Rightarrow> bool" where
  "auth_ok s \<longleftrightarrow> users_ok s \<and> wallet_tables_ok s \<and> otp_tables_ok s"

lemma on_tables_auth_ok [simp, keeps_intros]: "on_tables auth_ok"
  by (simp add: on_tables_def auth_ok_def users_ok_def otp_tables_ok_def wallet_tables_ok_def
      user_exists_def wallet_exists_def)

lemma keeps_auth_ok:
  "keeps users_ok m \<Longrightarrow> keeps wallet_tables_ok m \<Longrightarrow> keeps otp_tables_ok m \<Longrightarrow> keeps auth_ok m"
  by (simp add: keeps_def auth_ok_def)

lemma on_tables_users_ok [simp, keeps_intros]: "on_tables users_ok"
  by (simp add: on_tables_def users_ok_def)

lemma keeps_auth_CreateUser [keeps_intros]: "keeps auth_ok (CreateUser u)"
proof (rule keeps_auth_ok)
  show "keeps users_ok (CreateUser u)" "keeps otp_tables_ok (CreateUser u)"
    unfolding CreateUser_def
    by (rule keeps_exec, simp, auto simp: insert_user_def users_ok_def otp_tables_ok_def split: if_splits)+
qed (rule keeps_ok_CreateUser)

lemma keeps_auth_set_user:
  assumes "\<And>t u. u_id (f t u) = u_id u"
  shows "keeps auth_ok (set_user i f)"
proof (rule keeps_auth_ok)
  show "keeps users_ok (set_user i f)" "keeps otp_tables_ok (set_user i f)"
    unfolding set_user_def
    by (rule keeps_exec, simp, auto simp: update_users_def users_ok_def otp_tables_ok_def list_all_iff
        set_rows_def split: if_splits)+
qed (rule keeps_ok_set_user [OF assms])

lemma keeps_auth_user_updates [keeps_intros]:
  "keeps auth_ok (UpdateUserProfile i x y z)" "keeps auth_ok (UpdateKYCTier i t)" "keeps auth_ok (UpdatePIN i x)"
  "keeps auth_ok (UpdateBVN i x)" "keeps auth_ok (UpdateNIN i x)"
  by (auto simp: UpdateUserProfile_def UpdateKYCTier_def UpdatePIN_def UpdateBVN_def UpdateNIN_def
      intro!: keeps_auth_set_user)

lemma keeps_auth_wallets [keeps_intros]:
  "keeps auth_ok (CreateWallet w)" "keeps auth_ok (UpdateDailyLimit u n)"
proof -
  show "keeps auth_ok (CreateWallet w)"
  proof (rule keeps_auth_ok)
    show "keeps users_ok (CreateWallet w)" "keeps otp_tables_ok (CreateWallet w)"
      unfolding CreateWallet_def
      by (rule keeps_exec, simp, auto simp: insert_wallet_def users_ok_def otp_tables_ok_def split: if_splits)+
  qed (rule keeps_ok_CreateWallet)
  show "keeps auth_ok (UpdateDailyLimit u n)"
  proof (rule keeps_auth_ok)
    show "keeps users_ok (UpdateDailyLimit u n)" "keeps otp_tables_ok (UpdateDailyLimit u n)"
      unfolding UpdateDailyLimit_def
      by (rule keeps_exec, simp, auto simp: update_wallets_def users_ok_def otp_tables_ok_def split: if_splits)+
  qed (rule keeps_ok_UpdateDailyLimit)
qed

lemma otp_tokens_frame:
  assumes "\<And>s t. P (s\<lparr>otp_tokens := t\<rparr>) = P s" and "on_tables P"
  shows "keeps P (CreateOTP otp)" "keeps P (MarkUsed i)"
proof -
  show "keeps P (CreateOTP otp)" unfolding CreateOTP_def
    by (intro keeps_intros keeps_exec assms(2)) (auto simp: insert_otp_def assms split: if_splits)
  show "keeps P (MarkUsed i)" unfolding MarkUsed_def
    by (intro keeps_exec assms(2)) (auto simp: assms)
qed

lemma keeps_auth_otp [keeps_intros]: "keeps auth_ok (CreateOTP otp)" "keeps auth_ok (MarkUsed i)"
proof -
  have frame: "users_ok (s\<lparr>otp_tokens := t\<rparr>) = users_ok s"
    "wallet_tables_ok (s\<lparr>otp_tokens := t\<rparr>) = wallet_tables_ok s" for s t
    by (simp_all add: users_ok_def wallet_tables_ok_def user_exists_def wallet_exists_def)
  note f = otp_tokens_frame [where P = users_ok, OF frame(1)]
    otp_tokens_frame [where P = wallet_tables_ok, OF frame(2)]
  show "keeps auth_ok (CreateOTP otp)" "keeps auth_ok (MarkUsed i)"
    by (intro keeps_auth_ok f keeps_otp_CreateOTP keeps_otp_MarkUsed; simp)+
qed

lemma keeps_tokens [keeps_intros]:
  "on_tables P \<Longrightarrow> keeps P (generateTokenPair a i k)" "on_tables P \<Longrightarrow> keeps P (Validate m tok)"
  "on_tables P \<Longrightarrow> keeps P (HashPassword a p)" "on_tables P \<Longrightarrow> keeps P (GenerateOTP a n)"
  unfolding generateTokenPair_def GenerateAccessToken_def GenerateRefreshToken_def generate_def Validate_def
    HashPassword_def GenerateOTP_def
  by (intro keeps_intros; assumption)+

lemma keeps_auth_sendOTP [keeps_intros]: "keeps auth_ok (sendOTP a p e pu)"
  unfolding sendOTP_def by (intro keeps_intros)

lemma keeps_auth_provision [keeps_intros]: "keeps auth_ok (provision p e h f l)"
  unfolding provision_def new_user_def new_wallet_def by (intro keeps_intros)

lemma keeps_auth_UpgradeKYC [keeps_intros]: "keeps auth_ok (UpgradeKYC i k)"
proof -
  have store: "keeps auth_ok store" if "upgrade_path i tier k = Some (t, n, store)" for tier t n store
    using that by (auto simp: upgrade_path_def split: if_splits intro: keeps_auth_user_updates)
  show ?thesis
    unfolding UpgradeKYC_def
  proof (intro keeps_or_return keeps_user_queries on_tables_auth_ok)
    fix user
    show "keeps auth_ok (case upgrade_path i (u_kyc_tier user) k of
        None \<Rightarrow> fail (ErrMsg (''no valid upgrade path '' @ em_dash @ '' check your current KYC tier''))
      | Some (newTier, newLimit, store_number) \<Rightarrow>
          or_return store_number (\<lambda>e. e) (\<lambda>_. or_return (UpdateKYCTier i newTier) (\<lambda>e. e)
            (\<lambda>_. or_return (UpdateDailyLimit i newLimit) (\<lambda>e. e) (\<lambda>_. ok newTier))))"
    proof (cases "upgrade_path i (u_kyc_tier user) k")
      case (Some p)
      then obtain t n st where "p = (t, n, st)" "upgrade_path i (u_kyc_tier user) k = Some (t, n, st)"
        by (cases p) auto
      with store [of "u_kyc_tier user" t n st] Some show ?thesis by (simp, intro keeps_intros)
    qed (simp add: keeps_return)
  qed
qed

lemma keeps_auth_services [keeps_intros]:
  "keeps auth_ok (Register a r)" "keeps auth_ok (Login a l)" "keeps auth_ok (GoogleLogin a tok)"
  "keeps auth_ok (ResendOTP a ph pu)" "keeps auth_ok (VerifyPhone a v)" "keeps auth_ok (UpdateProfile i up)"
  "keeps auth_ok (SetPIN a i sp)" "keeps auth_ok (RefreshToken a tok)"
proof -
  show "keeps auth_ok (Register a r)" unfolding Register_def by (intro keeps_intros)
  show "keeps auth_ok (Login a l)" unfolding Login_def by (intro keeps_intros)
  show "keeps auth_ok (GoogleLogin a tok)" unfolding GoogleLogin_def Let_def by (intro keeps_intros)
  show "keeps auth_ok (ResendOTP a ph pu)" unfolding ResendOTP_def by (intro keeps_intros)
  show "keeps auth_ok (VerifyPhone a v)" unfolding VerifyPhone_def by (intro keeps_intros)
  show "keeps auth_ok (UpdateProfile i up)" unfolding UpdateProfile_def by (intro keeps_intros)
  show "keeps auth_ok (SetPIN a i sp)" unfolding SetPIN_def by (intro keeps_intros)
  show "keeps auth_ok (RefreshToken a tok)" unfolding RefreshToken_def by (intro keeps_intros)
qed

section \<open>Properties\<close>

datatype auth_op =
    DoRegister register_request
  | DoLogin login_request
  | DoGoogleLogin string
  | DoResendOTP string otp_purpose
  | DoVerifyPhone verify_phone_request
  | DoUpdateProfile string update_profile_request
  | DoSetPIN string set_pin_request
  | DoUpgradeKYC string kyc_upgrade_request
  | DoRefreshToken string

definition ignoring :: "(world, 'a) state \<Rightarrow> (world, unit) state" where
  "ignoring m = do { _ \<leftarrow> m; State_Monad.return () }"

fun auth_step :: "auth_service \<Rightarrow> auth_op \<Rightarrow> (world, unit) state" where
  "auth_step a (DoRegister r) = ignoring (Register a r)"
| "auth_step a (DoLogin r) = ignoring (Login a r)"
| "auth_step a (DoGoogleLogin t) = ignoring (GoogleLogin a t)"
| "auth_step a (DoResendOTP ph pu) = ignoring (ResendOTP a ph pu)"
| "auth_step a (DoVerifyPhone r) = ignoring (VerifyPhone a r)"
| "auth_step a (DoUpdateProfile u r) = ignoring (UpdateProfile u r)"
| "auth_step a (DoSetPIN u r) = ignoring (SetPIN a u r)"
| "auth_step a (DoUpgradeKYC u r) = ignoring (UpgradeKYC u r)"
| "auth_step a (DoRefreshToken t) = ignoring (RefreshToken a t)"

lemma keeps_auth_step: "keeps auth_ok (auth_step a op)"
  by (cases op) (auto simp: ignoring_def intro!: keeps_intros)

text \<open>
  Whatever clients send and whichever statements, hashes and messages fail, the accounts stay
  well-formed: identifiers, phone numbers and e-mail addresses are unique among the live users, every
  wallet belongs to a user and no user has two, and a phone number has at most one unused code
  per purpose.
\<close>

theorem accounts_well_formed:
  assumes "auth_ok s" and "s' = attempts (auth_step a) ops s"
  shows "distinct (map u_id (users s')) \<and> distinct (map u_phone (filter live (users s'))) \<and>
    distinct (map u_email (filter (\<lambda>u. live u \<and> u_email u \<noteq> []) (users s'))) \<and>
    list_all (\<lambda>w. user_exists (w_user_id w) s') (wallets s') \<and> distinct (map w_user_id (wallets s')) \<and>
    distinct (map (\<lambda>t. (o_phone t, o_purpose t)) (filter (\<lambda>t. \<not> o_used t) (otp_tokens s')))"
proof -
  have "auth_ok (attempts (auth_step a) ops s)"
    using assms(1) by (induction ops arbitrary: s) (auto dest: keepsD [OF keeps_auth_step])
  then show ?thesis
    by (auto simp: assms(2) auth_ok_def users_ok_def users_unique_def wallet_tables_ok_def wallets_unique_def
        otp_tables_ok_def list_all_iff)
qed

text \<open>Registration: what the two inserts leave behind on every path.\<close>

definition people :: "world \<Rightarrow> user list \<times> wallet list" where
  "people s = (users s, wallets s)"

lemma people_simps [simp]:
  "people (step s) = people s" "people (s\<lparr>otp_tokens := t\<rparr>) = people s" "on_tables (\<lambda>s. people s = c)"
  by (simp_all add: people_def on_tables_def)

lemma sendOTP_people: "people (snd (run_state (sendOTP a p e pu) s)) = people s"
proof -
  have "keeps (\<lambda>x. people x = people s) (sendOTP a p e pu)"
    unfolding sendOTP_def by (intro keeps_intros otp_tokens_frame people_simps) simp
  then show ?thesis by (auto dest: keepsD)
qed

definition unverified :: "string \<Rightarrow> string \<Rightarrow> string \<Rightarrow> user \<Rightarrow> bool" where
  "unverified phone email hash u \<longleftrightarrow> u_phone u = phone \<and> u_email u = email \<and> u_password_hash u = hash \<and>
     u_kyc_tier u = KYCTierUnverified \<and> u_is_active u \<and> live u"

definition empty_wallet_of :: "user \<Rightarrow> wallet \<Rightarrow> bool" where
  "empty_wallet_of u w \<longleftrightarrow> w_user_id w = u_id u \<and> w_balance w = 0 \<and> w_daily_spend w = 0 \<and> w_daily_limit w = 5000000"

lemma CreateUser_success:
  "run_state (CreateUser u) s = (Inr v, s') \<Longrightarrow> people s' = (users s @ [u\<lparr>u_deleted_at := None\<rparr>], wallets s)"
  by (auto simp: CreateUser_def insert_user_def people_def elim!: exec_success split: if_splits)

lemma CreateWallet_success: "run_state (CreateWallet w) s = (Inr v, s') \<Longrightarrow> people s' = (users s, wallets s @ [w])"
  by (auto simp: CreateWallet_def insert_wallet_def people_def elim!: exec_success split: if_splits)

lemma provision_cases:
  assumes "run_state (provision p e h f l) s = (r, s')"
  obtains (created) u w where "r = Inr u" "people s' = (users s @ [u], wallets s @ [w])"
      "unverified p e h u" "empty_wallet_of u w"
    | (stranded) err u where "r = Inl err" "people s' = (users s @ [u], wallets s)" "unverified p e h u"
    | (refused) err where "r = Inl err" "people s' = people s"
proof -
  let ?s3 = "step (step (step s))"
  obtain u where u: "run_state (new_user p e h f l) s = (u, ?s3)" and new: "unverified p e h u" "u_deleted_at u = None"
    by (simp add: new_user_def unverified_def live_def)
  from assms have "run_state (or_return (CreateUser u) (\<lambda>e. e) (\<lambda>_. do {
       wallet \<leftarrow> new_wallet (u_id u);
       or_return (CreateWallet wallet) (\<lambda>e. e) (\<lambda>_. ok u) })) ?s3 = (r, s')"
    unfolding provision_def run_bind_eq [OF u] .
  then show thesis
  proof (cases rule: or_return_cases)
    case (returned err)
    from exec_error [OF returned(1) [unfolded CreateUser_def]] have "s' = step ?s3" .
    with returned(2) show thesis by (intro refused) auto
  next
    case (continued v s4)
    have u': "u\<lparr>u_deleted_at := None\<rparr> = u" using new(2) by simp
    from CreateUser_success [OF continued(1)] have p4: "people s4 = (users s @ [u], wallets s)"
      by (simp add: u')
    let ?s7 = "step (step (step s4))"
    obtain w where w: "run_state (new_wallet (u_id u)) s4 = (w, ?s7)" and ew: "empty_wallet_of u w"
      by (simp add: new_wallet_def empty_wallet_of_def)
    from continued(2) have "run_state (or_return (CreateWallet w) (\<lambda>e. e) (\<lambda>_. ok u)) ?s7 = (r, s')"
      unfolding run_bind_eq [OF w] .
    then show thesis
    proof (cases rule: or_return_cases)
      case (returned err)
      from exec_error [OF returned(1) [unfolded CreateWallet_def]] have "s' = step ?s7" .
      with returned(2) p4 new show thesis by (intro stranded) auto
    next
      case (continued v s8)
      then have "people s' = (users ?s7, wallets ?s7 @ [w])" "r = Inr u"
        using CreateWallet_success [of w ?s7 v s8] by auto
      with p4 new ew show thesis by (intro created) (auto simp: people_def)
    qed
  qed
qed

lemma FindByPhone_state: "snd (run_state (FindByPhone p) s) = step s"
  and FindByEmail_state: "snd (run_state (FindByEmail p) s) = step s"
  by (auto simp: FindByPhone_def FindByEmail_def run_or_return run_query_row split: option.splits)

lemma Register_cases:
  assumes "run_state (Register a req) s = (r, s')"
  obtains (refused) err where "r = Inl err" "people s' = people s"
    | (stranded) err h u where "r = Inl err" "people s' = (users s @ [u], wallets s)"
        "unverified (rq_phone req) (rq_email req) h u"
    | (created) n h msg u w where "r = Inr msg" "people s' = (users s @ [u], wallets s @ [w])"
        "unverified (rq_phone req) (rq_email req) h u" "empty_wallet_of u w"
        "as_bcrypt a n 12 (rq_password req) = Inr h"
proof -
  obtain r1 where r1: "run_state (FindByPhone (rq_phone req)) s = (r1, step s)"
    using FindByPhone_state [of "rq_phone req" s] by (metis prod.collapse)
  obtain r2 where r2: "run_state (FindByEmail (rq_email req)) (step s) = (r2, step (step s))"
    using FindByEmail_state [of "rq_email req" "step s"] by (metis prod.collapse)
  let ?s2 = "step (step s)"
  let ?k = "\<lambda>hash. or_return (provision (rq_phone req) (rq_email req) hash (rq_first_name req) (rq_last_name req))
      (\<lambda>e. e) (\<lambda>_. do {
         _ \<leftarrow> sendOTP a (rq_phone req) (rq_email req) OTPPhoneVerify;
         ok (''Registration successful. Enter the 6-digit code sent to '' @ rq_phone req) })"
  show thesis
  proof (cases "succeeded r1 \<or> succeeded r2")
    case True
    with assms r1 r2 have "\<exists>err. r = Inl err \<and> people s' = people s"
      unfolding Register_def run_bind_eq [OF r1] by (auto split: if_splits)
    then obtain err where "r = Inl err" "people s' = people s" by blast
    then show thesis by (rule refused)
  next
    case False
    then have no: "succeeded r1 = False" "succeeded r2 = False" by auto
    from assms have "run_state (or_return (HashPassword a (rq_password req)) (\<lambda>e. e) ?k) ?s2 = (r, s')"
      unfolding Register_def run_bind_eq [OF r1] no(1) if_False run_bind_eq [OF r2] no(2) .
    then show thesis
    proof (cases rule: or_return_cases)
      case (returned err)
      then show thesis by (intro refused) (auto simp: HashPassword_def)
    next
      case (continued h s3)
      then have s3: "s3 = step ?s2" and h: "as_bcrypt a (tick ?s2) 12 (rq_password req) = Inr h"
        by (auto simp: HashPassword_def)
      from continued(2) show thesis
      proof (cases rule: or_return_cases)
        case (returned err)
        from returned(1) show thesis
        proof (cases rule: provision_cases)
          case (stranded err u)
          with returned(2) s3 show thesis by (intro that(2)) auto
        qed (use returned(2) s3 refused in auto)
      next
        case (continued u s4)
        from continued(1) show thesis
        proof (cases rule: provision_cases)
          case (created v w)
          obtain x s5 where x: "run_state (sendOTP a (rq_phone req) (rq_email req) OTPPhoneVerify) s4 = (x, s5)"
            by fastforce
          with sendOTP_people [of a "rq_phone req" "rq_email req" OTPPhoneVerify s4] have "people s5 = people s4" by simp
          with continued(2) x created s3 h show thesis
            by (intro that(3) [where h = h]) (auto simp: run_bind_eq [OF x])
        qed auto
      qed
    qed
  qed
qed

text \<open>A service whose hash prefixes the password, for the applications of the theorems.\<close>

definition sample_claims :: "string \<Rightarrow> claims" where
  "sample_claims i = \<lparr>cl_user_id = ''ada'', cl_kyc_tier = 0, cl_expires_at = 1700000009000,
     cl_issued_at = 1700000000000, cl_id = i\<rparr>"

definition sample_jwt :: jwt_manager where
  "sample_jwt = \<lparr>jm_secret = ''secret'', jm_access_ttl = 9000, jm_refresh_ttl = 9000,
     jm_sign = (\<lambda>_ c. if c = sample_claims (cl_id c) then Inr (''token.'' @ cl_id c) else Inl (ErrMsg ''sign'')),
     jm_parse = (\<lambda>_ now t. if prefix ''token.'' t \<and> now < 1700000009000 then Inr (sample_claims (drop 6 t), True)
                           else Inl (ErrMsg ''token is malformed'')),
     jm_numeric_date = (\<lambda>t. t div 1000 * 1000)\<rparr>"

definition sample_auth :: auth_service where
  "sample_auth = \<lparr>as_jwt = sample_jwt, as_bcrypt = (\<lambda>_ _ p. Inr (CHR ''#'' # p)),
     as_compare = (\<lambda>h p. if h = CHR ''#'' # p then Inr () else Inl (ErrMsg ''mismatch'')),
     as_rand = (\<lambda>n k. Inr (replicate k n)), as_send_email = (\<lambda>_ _ _ _. Inr ()),
     as_send_sms = (\<lambda>_ _ _ _. Inr ()),
     as_json_strings = (\<lambda>b. if b = ''{email: ada@x.ng}'' then Some [''email'' \<mapsto> ''ada@x.ng''] else None)\<rparr>"

definition sample_registration :: register_request where
  "sample_registration = \<lparr>rq_phone = ''+2348010000003'', rq_email = ''chi@x.ng'', rq_password = ''secret123'',
     rq_first_name = ''Chi'', rq_last_name = ''Obi''\<rparr>"

lemma auth_ok_sample: "auth_ok sample_world" by code_simp

definition registered_world :: world where
  "registered_world = snd (run_state (Register sample_auth sample_registration) sample_world)"

definition sample_verification :: verify_phone_request where
  "sample_verification = \<lparr>yq_phone = ''+2348010000003'', yq_otp = ''111111''\<rparr>"

text \<open>The registration is evaluated once for all samples that build on it.\<close>

lemma registered:
  "let r = run_state (Register sample_auth sample_registration) sample_world
   in succeeded (fst r) \<and> length (users (snd r)) = 3 \<and> otp_tables_ok (snd r) \<and>
      fst (run_state (VerifyPhone sample_auth sample_verification) (snd r)) = Inr ()"
  by code_simp

lemma registered_simps:
  "succeeded (fst (run_state (Register sample_auth sample_registration) sample_world))"
  "length (users registered_world) = 3" "otp_tables_ok registered_world"
  "fst (run_state (VerifyPhone sample_auth sample_verification) registered_world) = Inr ()"
  using registered by (simp_all add: registered_world_def Let_def)

lemma accounts_well_formed_witness:
  "distinct (map w_user_id (wallets (attempts (auth_step sample_auth)
     [DoRegister sample_registration, DoRegister sample_registration, DoResendOTP ''+2348010000003'' OTPPhoneVerify,
      DoUpdateProfile ''ada'' \<lparr>uq_first_name = ''A'', uq_last_name = ''B'', uq_email = ''bola@x.ng''\<rparr>] sample_world))) \<and>
   length (users registered_world) = 3"
proof -
  note registered_simps(2)
  with accounts_well_formed [OF auth_ok_sample refl, of sample_auth "[DoRegister sample_registration,
      DoRegister sample_registration, DoResendOTP ''+2348010000003'' OTPPhoneVerify,
      DoUpdateProfile ''ada'' \<lparr>uq_first_name = ''A'', uq_last_name = ''B'', uq_email = ''bola@x.ng''\<rparr>]"]
  show ?thesis by blast
qed

text \<open>
  A registration that succeeds creates exactly one user and one wallet: the user has the given
  phone number and e-mail address, is active and unverified and keeps only the hash of the
  password; the wallet is that user's, empty, with the daily limit of an unverified user.
\<close>

theorem registration_provisions:
  assumes "run_state (Register a req) s = (Inr msg, s')"
  shows "\<exists>u w h n. users s' = users s @ [u] \<and> wallets s' = wallets s @ [w] \<and>
    u_phone u = rq_phone req \<and> u_email u = rq_email req \<and> u_kyc_tier u = KYCTierUnverified \<and> u_is_active u \<and>
    u_password_hash u = h \<and> as_bcrypt a n 12 (rq_password req) = Inr h \<and>
    w_user_id w = u_id u \<and> w_balance w = 0 \<and> w_daily_limit w = 5000000"
  using assms
proof (cases rule: Register_cases)
  case (created n h m u w)
  then show ?thesis
    by (intro exI [of _ u] exI [of _ w] exI [of _ h] exI [of _ n])
      (auto simp: people_def unverified_def empty_wallet_of_def)
qed auto

lemma registration_provisions_witness:
  "\<exists>u w. users registered_world = users sample_world @ [u] \<and> wallets registered_world = wallets sample_world @ [w] \<and>
     u_phone u = ''+2348010000003'' \<and> w_user_id w = u_id u"
proof -
  from registered_simps(1) obtain msg where "run_state (Register sample_auth sample_registration) sample_world = (Inr msg, registered_world)"
    by (cases "fst (run_state (Register sample_auth sample_registration) sample_world)")
      (auto simp: registered_world_def prod_eq_iff)
  from registration_provisions [OF this] show ?thesis by (auto simp: sample_registration_def)
qed

text \<open>
  A registration that fails can leave a user without a wallet, since the two inserts are not one
  transaction; and it cannot be repeated, because the phone number is then taken.
\<close>

theorem registration_can_strand_user:
  assumes "run_state (Register a req) s = (Inl e, s')" and "users s' \<noteq> users s"
    and "users s2 = users s'" and "sql_ok s2 (tick s2)" and "rq_phone req2 = rq_phone req"
  shows "\<exists>u. users s' = users s @ [u] \<and> u_phone u = rq_phone req \<and> wallets s' = wallets s \<and>
    fst (run_state (Register b req2) s2) = Inl (ErrMsg ''phone number is already registered'')"
  using assms(1)
proof (cases rule: Register_cases)
  case (refused err)
  with assms(2) show ?thesis by (simp add: people_def)
next
  case (stranded err h u)
  then have u: "users s' = users s @ [u]" "wallets s' = wallets s" "u_phone u = rq_phone req" "live u"
    by (auto simp: people_def unverified_def)
  have "u \<in> set (users s2)" using u(1) assms(3) by simp
  with u(3,4) assms(5) have "find (\<lambda>u. u_phone u = rq_phone req2 \<and> live u) (users s2) \<noteq> None"
    by (auto simp: find_None_iff)
  then obtain x where "find (\<lambda>u. u_phone u = rq_phone req2 \<and> live u) (users s2) = Some x" by blast
  with assms(4) have "run_state (FindByPhone (rq_phone req2)) s2 = (Inr x, step s2)"
    by (simp add: FindByPhone_def run_or_return run_query_row)
  then have "fst (run_state (Register b req2) s2) = Inl (ErrMsg ''phone number is already registered'')"
    by (simp add: Register_def run_bind_eq)
  with u show ?thesis by blast
qed auto

definition flaky_world :: world where
  "flaky_world = sample_world\<lparr>sql_ok := (\<lambda>n. n \<noteq> 10)\<rparr>"

lemma registration_can_strand_user_witness:
  "fst (run_state (Register sample_auth sample_registration)
     (snd (run_state (Register sample_auth sample_registration) flaky_world))) =
   Inl (ErrMsg ''phone number is already registered'')"
proof -
  let ?run = "run_state (Register sample_auth sample_registration) flaky_world"
  have "\<not> succeeded (fst ?run)" "users (snd ?run) \<noteq> users flaky_world" "sql_ok (snd ?run) (tick (snd ?run))"
    by code_simp+
  then obtain e where "?run = (Inl e, snd ?run)" "users (snd ?run) \<noteq> users flaky_world"
    "sql_ok (snd ?run) (tick (snd ?run))"
    by (cases "fst ?run") (auto simp: prod_eq_iff)
  from registration_can_strand_user [OF this(1,2) refl this(3) refl] show ?thesis by blast
qed

section \<open>Codes\<close>

lemma FindValid_none:
  assumes "\<forall>t \<in> set (otp_tokens s). same_slot phone purpose t \<longrightarrow> o_used t"
  shows "\<exists>e. run_state (FindValid phone purpose) s = (Inl e, step s)"
proof -
  have "filter (otp_valid phone purpose n) (otp_tokens s) = []" for n
    using assms by (auto simp: filter_empty_conv otp_valid_def)
  then show ?thesis by (auto simp: FindValid_def run_or_return run_statement page_of_def)
qed

lemma VerifyPhone_success:
  assumes "otp_tables_ok s" and "run_state (VerifyPhone a req) s = (Inr v, s')"
  shows "\<forall>t \<in> set (otp_tokens s'). same_slot (yq_phone req) OTPPhoneVerify t \<longrightarrow> o_used t"
proof -
  from assms(2) obtain otp s1 where f: "run_state (FindValid (yq_phone req) OTPPhoneVerify) s = (Inr otp, s1)"
    and rest: "run_state (case CheckPassword a (o_hash otp) (yq_otp req) of
        Inl _ \<Rightarrow> fail (ErrMsg ''invalid or expired verification code'')
      | Inr _ \<Rightarrow> or_return (MarkUsed (o_id otp)) (\<lambda>e. e) (\<lambda>_. ok ())) s1 = (Inr v, s')"
    unfolding VerifyPhone_def by (rule or_return_success)
  from rest obtain s2 where "run_state (MarkUsed (o_id otp)) s1 = (Inr (), s2)" "s' = s2"
    by (auto split: sum.splits elim!: or_return_success)
  then have toks: "otp_tokens s' = set_rows (\<lambda>t. o_id t = o_id otp) (\<lambda>t. t\<lparr>o_used := True\<rparr>) (otp_tokens s1)"
    by (auto dest: MarkUsed_success)
  from FindValid_success [OF f] have s1: "s1 = step s" and otp: "otp \<in> set (otp_tokens s)"
    "same_slot (yq_phone req) OTPPhoneVerify otp" "\<not> o_used otp" by (auto simp: otp_valid_def)
  have "o_used t" if "t \<in> set (otp_tokens s')" "same_slot (yq_phone req) OTPPhoneVerify t" for t
  proof (rule ccontr)
    assume unused: "\<not> o_used t"
    with that toks s1 have t: "t \<in> set (otp_tokens s)" "o_id t \<noteq> o_id otp"
      by (auto simp: set_rows_def split: if_splits)
    have "distinct (map (\<lambda>t. (o_phone t, o_purpose t)) (filter (\<lambda>t. \<not> o_used t) (otp_tokens s)))"
      using assms(1) by (simp add: otp_tables_ok_def)
    then have "t = otp"
      by (rule unique_key) (use t unused otp that(2) in \<open>auto simp: same_slot_def\<close>)
    with t(2) show False by simp
  qed
  then show ?thesis by blast
qed

text \<open>
  C34. A code verifies a phone number once: after a verification has succeeded, every further attempt for
  that number is refused with the same answer as a wrong code, until a new code is created.
\<close>

theorem code_verifies_once:
  assumes "otp_tables_ok s" and "run_state (VerifyPhone a req) s = (Inr v, s1)"
    and "otp_tokens s2 = otp_tokens s1" and "yq_phone req2 = yq_phone req"
  shows "run_state (VerifyPhone b req2) s2 = (Inl (ErrMsg ''invalid or expired verification code''), step s2)"
proof -
  have "\<forall>t \<in> set (otp_tokens s2). same_slot (yq_phone req2) OTPPhoneVerify t \<longrightarrow> o_used t"
    using VerifyPhone_success [OF assms(1,2)] assms(3,4) by simp
  from FindValid_none [OF this] show ?thesis by (auto simp: VerifyPhone_def run_or_return)
qed

lemma code_verifies_once_witness:
  "fst (run_state (VerifyPhone sample_auth sample_verification)
     (snd (run_state (VerifyPhone sample_auth sample_verification) registered_world))) =
   Inl (ErrMsg ''invalid or expired verification code'')"
proof -
  let ?run = "run_state (VerifyPhone sample_auth sample_verification) registered_world"
  have "otp_tables_ok registered_world" "?run = (Inr (), snd ?run)" using registered_simps by (simp_all add: prod_eq_iff)
  from code_verifies_once [OF this refl refl] show ?thesis by simp
qed

section \<open>Google tokens\<close>

lemma length_encode_bytes: "length (encode_bytes al bs) mod 4 = 0"
  by (induction al bs rule: encode_bytes.induct) (simp_all add: mod_add_right_eq [symmetric])

lemma no_dot_encoded: "CHR ''.'' \<notin> set (EncodeToString url_alphabet s)"
proof
  assume "CHR ''.'' \<in> set (EncodeToString url_alphabet s)"
  from bspec [OF set_encode_bytes [OF alphabets(2) byte_bound] this [unfolded EncodeToString_def]]
  have "CHR ''.'' = CHR ''='' \<or> CHR ''.'' \<in> set url_alphabet" .
  moreover have "CHR ''.'' \<notin> set url_alphabet" by code_simp
  moreover have "CHR ''.'' \<noteq> CHR ''=''" by simp
  ultimately show False by blast
qed

lemma decodeGoogleJWT_forged:
  assumes "CHR ''.'' \<notin> set h"
  shows "decodeGoogleJWT a (h @ ''.'' @ EncodeToString url_alphabet payload @ ''.'' @ sig) = as_json_strings a payload"
proof -
  let ?p = "EncodeToString url_alphabet payload"
  have "\<exists>w ws. split_at CHR ''.'' sig = w # ws"
    by (cases sig) (auto split: list.splits)
  moreover have "split_at CHR ''.'' (h @ ''.'' @ ?p @ ''.'' @ sig) = h # ?p # split_at CHR ''.'' sig"
    using split_at_sep [OF assms, of "?p @ ''.'' @ sig"] split_at_sep [OF no_dot_encoded [of payload], of sig]
    by simp
  ultimately show ?thesis
    using length_encode_bytes [of url_alphabet "map of_char payload"]
    by (auto simp: decodeGoogleJWT_def DecodeString_EncodeToString EncodeToString_def [symmetric])
qed

text \<open>
  C40. Neither the header nor the signature of a Google token is looked at: whoever can write the
  JSON of a payload with a user's e-mail address is given tokens of that user, with any header and any
  signature.
\<close>

theorem forged_google_token_logs_in:
  assumes "CHR ''.'' \<notin> set header" and "as_json_strings a payload = Some c" and "c ''email'' = Some email"
    and "run_state (FindByEmail email) s = (Inr u, s1)" and "u_is_active u"
  shows "run_state (GoogleLogin a (header @ ''.'' @ EncodeToString url_alphabet payload @ ''.'' @ signature)) s =
    run_state (generateTokenPair a (u_id u) (kyc_int (u_kyc_tier u))) s1"
proof -
  have "email \<noteq> []"
  proof
    assume "email = []"
    with assms(4) show False
      by (auto simp: FindByEmail_def run_or_return run_query_row find_Some_iff split: if_splits option.splits)
  qed
  with assms(2,3,5) show ?thesis
    unfolding GoogleLogin_def decodeGoogleJWT_forged [OF assms(1)]
    by (simp add: string_claim_def assms(4))
qed

lemma forged_google_token_logs_in_witness:
  "\<exists>t. fst (run_state (GoogleLogin sample_auth
     (''eyJhbGciOiJub25lIn0'' @ ''.'' @ EncodeToString url_alphabet ''{email: ada@x.ng}'' @ ''.'' @ ''forged'')) sample_world)
     = Inr t \<and> prefix ''token.'' (tk_access t)"
proof -
  let ?ada = "sample_user ''ada'' ''+2348010000001'' ''ada@x.ng''"
  let ?c = "[''email'' \<mapsto> ''ada@x.ng'']"
  have dot: "CHR ''.'' \<notin> set ''eyJhbGciOiJub25lIn0''" by simp
  have json: "as_json_strings sample_auth ''{email: ada@x.ng}'' = Some ?c" by (simp add: sample_auth_def)
  have found: "run_state (FindByEmail ''ada@x.ng'') sample_world = (Inr ?ada, step sample_world)"
    by (simp add: FindByEmail_def run_or_return run_query_row sample_world_def empty_world_def live_def
        sample_user_def)
  have active: "u_is_active ?ada" by (simp add: sample_user_def)
  let ?r = "fst (run_state (generateTokenPair sample_auth (u_id ?ada) (kyc_int (u_kyc_tier ?ada))) (step sample_world))"
  have "case ?r of Inl _ \<Rightarrow> False | Inr t \<Rightarrow> prefix ''token.'' (tk_access t)" by code_simp
  then have "\<exists>t. ?r = Inr t \<and> prefix ''token.'' (tk_access t)" by (cases ?r) auto
  with forged_google_token_logs_in [OF dot json _ found active, of "''forged''"] show ?thesis by simp
qed

section \<open>Tokens\<close>

text \<open>What the JWT library documents: a token it signed is valid until it expires, and \<open>NewNumericDate\<close> truncates to seconds.\<close>

definition jwt_sound :: "jwt_manager \<Rightarrow> bool" where
  "jwt_sound m \<longleftrightarrow>
     (\<forall>c tok now. jm_sign m (jm_secret m) c = Inr tok \<longrightarrow> now < cl_expires_at c \<longrightarrow>
        jm_parse m (key_for (jm_secret m)) now tok = Inr (c, True)) \<and>
     (\<forall>t. jm_numeric_date m t \<le> t \<and> t - 1000 < jm_numeric_date m t)"

lemma generate_success:
  assumes "run_state (generate m u k ttl) s = (Inr tok, s')"
  shows "\<exists>c. jm_sign m (jm_secret m) c = Inr tok \<and> cl_user_id c = u \<and> cl_kyc_tier c = k \<and>
    cl_expires_at c = jm_numeric_date m (time_at s (tick s) + ttl) \<and> time_at s' = time_at s \<and> tick s < tick s'"
  using assms by (auto simp: generate_def)

lemma Validate_signed:
  assumes "jwt_sound m" and "jm_sign m (jm_secret m) c = Inr tok" and "time_at s (tick s) < cl_expires_at c"
  shows "run_state (Validate m tok) s = (Inr c, step s)"
  using assms by (simp add: Validate_def jwt_sound_def)

text \<open>
  C36. Both tokens of a pair name the user and the tier they were issued for: sent as a bearer token,
  either is accepted by the middleware as that user until its lifetime, truncated to seconds, is
  over. In particular the refresh token works as an access token.
\<close>

theorem token_pair_names_user:
  assumes "jwt_sound m" and "m = as_jwt a"
    and "run_state (generateTokenPair a u k) s = (Inr p, s')" and "\<forall>n. t0 \<le> time_at s n"
    and "tok = tk_access p \<and> ttl = jm_access_ttl m \<or> tok = tk_refresh p \<and> ttl = jm_refresh_ttl m"
    and "time_at s2 (tick s2) + 1000 \<le> t0 + ttl"
  shows "\<exists>c. run_state (Auth m (''Bearer '' @ tok)) s2 = (Inr c, step s2) \<and> cl_user_id c = u \<and> cl_kyc_tier c = k"
proof -
  from assms(3) obtain acc s1 ref where
    a: "run_state (generate (as_jwt a) u k (jm_access_ttl (as_jwt a))) s = (Inr acc, s1)" and
    r: "run_state (generate (as_jwt a) u k (jm_refresh_ttl (as_jwt a))) s1 = (Inr ref, s')" and
    p: "p = \<lparr>tk_access = acc, tk_refresh = ref\<rparr>"
    unfolding generateTokenPair_def GenerateAccessToken_def GenerateRefreshToken_def
    by (elim or_return_success) auto
  have "\<exists>c n. jm_sign m (jm_secret m) c = Inr tok \<and> cl_user_id c = u \<and> cl_kyc_tier c = k \<and>
      cl_expires_at c = jm_numeric_date m (time_at s n + ttl)"
  proof (cases "tok = tk_access p \<and> ttl = jm_access_ttl m")
    case True
    with generate_success [OF a] assms(2) p show ?thesis by auto
  next
    case False
    with assms(5) have "tok = ref" "ttl = jm_refresh_ttl m" using p by auto
    moreover have "time_at s1 = time_at s" using generate_success [OF a] by blast
    ultimately show ?thesis using generate_success [OF r] assms(2) by metis
  qed
  then obtain c n where c: "jm_sign m (jm_secret m) c = Inr tok" "cl_user_id c = u" "cl_kyc_tier c = k"
    and e: "cl_expires_at c = jm_numeric_date m (time_at s n + ttl)" by blast
  have "time_at s n + ttl - 1000 < cl_expires_at c" using assms(1) e by (simp add: jwt_sound_def)
  with assms(4,6) have "time_at s2 (tick s2) < cl_expires_at c" by (smt (verit))
  from Validate_signed [OF assms(1) c(1) this] have v: "run_state (Validate m tok) s2 = (Inr c, step s2)" .
  have "split_once CHR '' '' (''Bearer '' @ tok) = [''Bearer'', tok]"
    using split_once_sep [of "CHR '' ''" "''Bearer''" tok] by simp
  moreover have "ToLower ''Bearer'' = ''bearer''" by code_simp
  ultimately have "run_state (Auth m (''Bearer '' @ tok)) s2 = (Inr c, step s2)"
    unfolding Auth_def using v by (simp add: run_or_return)
  with c show ?thesis by blast
qed

lemma jwt_sound_sample: "jwt_sound sample_jwt"
proof -
  have "t - 1000 < t div 1000 * 1000 \<and> t div 1000 * 1000 \<le> t" for t :: int
    by (simp add: minus_mod_eq_div_mult [symmetric])
  moreover have "jm_parse sample_jwt kf now tok = Inr (c, True)"
    if "jm_sign sample_jwt (jm_secret sample_jwt) c = Inr tok" "now < cl_expires_at c" for c tok now kf
  proof -
    from that(1) have "c = sample_claims (cl_id c)" "tok = ''token.'' @ cl_id c"
      by (auto simp: sample_jwt_def split: if_splits)
    moreover from this(1) that(2) have "now < 1700000009000" by (metis claims.select_convs(3) sample_claims_def)
    ultimately show ?thesis by (simp add: sample_jwt_def)
  qed
  ultimately show ?thesis by (simp add: jwt_sound_def) (simp add: sample_jwt_def)
qed

lemma token_pair_names_user_witness:
  "\<exists>c. fst (run_state (Auth sample_jwt (''Bearer '' @ tk_refresh
      (case fst (run_state (generateTokenPair sample_auth ''ada'' 0) sample_world) of Inr p \<Rightarrow> p))) sample_world) = Inr c \<and>
    cl_user_id c = ''ada''"
proof -
  let ?run = "run_state (generateTokenPair sample_auth ''ada'' 0) sample_world"
  have "succeeded (fst ?run)" by code_simp
  then obtain p where p: "?run = (Inr p, snd ?run)" by (cases "fst ?run") (auto simp: prod_eq_iff)
  have m: "sample_jwt = as_jwt sample_auth" by (simp add: sample_auth_def)
  have t: "\<forall>n. 1700000000000 \<le> time_at sample_world n" by (simp add: sample_world_def empty_world_def)
  have now: "time_at sample_world (tick sample_world) + 1000 \<le> 1700000000000 + 9000"
    by (simp add: sample_world_def empty_world_def)
  have "tk_refresh p = tk_access p \<and> 9000 = jm_access_ttl sample_jwt \<or>
      tk_refresh p = tk_refresh p \<and> 9000 = jm_refresh_ttl sample_jwt" by (simp add: sample_jwt_def)
  from token_pair_names_user [OF jwt_sound_sample m p t this now] p show ?thesis by (metis fst_conv sum.case(2))
qed

section \<open>KYC\<close>

definition tier_limit :: "kyc_tier \<Rightarrow> int" where
  "tier_limit t = (if t = KYCTierTwo then 50000000 else 20000000)"

lemma set_user_success:
  assumes "run_state (set_user i f) s = (Inr v, s')"
  shows "\<exists>now. users s' = set_rows (\<lambda>u. u_id u = i) (\<lambda>u. (f now u)\<lparr>u_updated_at := now\<rparr>) (users s) \<and> wallets s' = wallets s"
proof -
  from assms obtain now where "update_users (\<lambda>u. u_id u = i) (\<lambda>u. (f now u)\<lparr>u_updated_at := now\<rparr>) (step s) = Some s'"
    unfolding set_user_def by (rule exec_success)
  then show ?thesis by (intro exI [of _ now]) (auto simp: update_users_def split: if_splits)
qed

lemma upgrade_path_cases:
  assumes "upgrade_path i tier k = Some (t, n, store)"
  shows "tier < t \<and> n = tier_limit t \<and> (store = UpdateNIN i (kq_nin k) \<or> store = UpdateBVN i (kq_bvn k))"
  using assms by (auto simp: upgrade_path_def tier_limit_def split: if_splits)

lemma set_user_tier:
  assumes "run_state (set_user i f) s = (Inr v, s')" and "\<And>t u. u_id (f t u) = u_id u \<and> u_deleted_at (f t u) = u_deleted_at u"
    and "find (\<lambda>u. u_id u = i \<and> live u) (users s) = Some x"
  shows "\<exists>now. find (\<lambda>u. u_id u = i \<and> live u) (users s') = Some ((f now x)\<lparr>u_updated_at := now\<rparr>) \<and> accounts s' = accounts s"
proof -
  from set_user_success [OF assms(1)] obtain now where
    u: "users s' = set_rows (\<lambda>u. u_id u = i) (\<lambda>u. (f now u)\<lparr>u_updated_at := now\<rparr>) (users s)" and w: "wallets s' = wallets s"
    by blast
  have "find (\<lambda>u. u_id u = i \<and> live u) (users s') =
      map_option (\<lambda>u. if u_id u = i then (f now u)\<lparr>u_updated_at := now\<rparr> else u) (Some x)"
    unfolding u assms(3) [symmetric] by (rule find_set_rows) (simp add: assms(2) live_def)
  moreover have "u_id x = i" using assms(3) by (auto dest: find_SomeD)
  ultimately show ?thesis using accounts_wallets [OF w] by (intro exI [of _ now]) simp
qed

lemma UpdateDailyLimit_success:
  assumes "run_state (UpdateDailyLimit i n) s = (Inr v, s')"
  shows "users s' = users s \<and>
    accounts s' = (\<lambda>u. if u = i then map_option (\<lambda>a. a\<lparr>ac_limit := n\<rparr>) (accounts s i) else accounts s u)"
proof -
  from assms obtain now where "update_wallets (\<lambda>x. w_user_id x = i)
      (\<lambda>x. x\<lparr>w_daily_limit := n, w_updated_at := now\<rparr>) (step s) = Some s'"
    unfolding UpdateDailyLimit_def by (rule exec_success)
  then have w: "wallets s' = set_rows (\<lambda>x. w_user_id x = i) (\<lambda>x. x\<lparr>w_daily_limit := n, w_updated_at := now\<rparr>) (wallets s)"
    and us: "users s' = users s" by (auto simp: update_wallets_def split: if_splits)
  have "wallet_of u s' = map_option (\<lambda>x. if w_user_id x = i then x\<lparr>w_daily_limit := n, w_updated_at := now\<rparr> else x)
      (wallet_of u s)" for u
    unfolding wallet_of_def w by (rule find_set_rows) simp
  moreover have "w_user_id x = u" if "wallet_of u s = Some x" for u x using wallet_ofD [OF that] by simp
  ultimately have "accounts s' u = (if u = i then map_option (\<lambda>a. a\<lparr>ac_limit := n\<rparr>) (accounts s i) else accounts s u)" for u
    by (cases "wallet_of u s") (auto simp: accounts_def account_of_def)
  with us show ?thesis by (simp add: fun_eq_iff)
qed

text \<open>
  A KYC upgrade that succeeds raises the tier of its user, to the one it answers, and gives the
  user's wallet that tier's daily limit; the wallets of other users stay as they are. No request
  lowers a tier.
\<close>

theorem upgrade_raises_tier:
  assumes "run_state (UpgradeKYC i req) s = (Inr t, s')"
  shows "\<exists>x x'. find (\<lambda>u. u_id u = i \<and> live u) (users s) = Some x \<and> find (\<lambda>u. u_id u = i \<and> live u) (users s') = Some x' \<and>
    u_kyc_tier x < t \<and> u_kyc_tier x' = t \<and>
    accounts s' = (\<lambda>u. if u = i then map_option (\<lambda>a. a\<lparr>ac_limit := tier_limit t\<rparr>) (accounts s i) else accounts s u)"
proof -
  from assms obtain x s1 where f: "run_state (FindByID i) s = (Inr x, s1)" and rest: "run_state
      (case upgrade_path i (u_kyc_tier x) req of
         None \<Rightarrow> fail (ErrMsg (''no valid upgrade path '' @ em_dash @ '' check your current KYC tier''))
       | Some (newTier, newLimit, store_number) \<Rightarrow>
           or_return store_number (\<lambda>e. e) (\<lambda>_. or_return (UpdateKYCTier i newTier) (\<lambda>e. e)
             (\<lambda>_. or_return (UpdateDailyLimit i newLimit) (\<lambda>e. e) (\<lambda>_. ok newTier)))) s1 = (Inr t, s')"
    unfolding UpgradeKYC_def by (rule or_return_success)
  from f have s1: "s1 = step s" and x: "find (\<lambda>u. u_id u = i \<and> live u) (users s) = Some x"
    by (auto simp: FindByID_def run_or_return run_query_row split: if_splits option.splits)
  from rest obtain n store v v3 v4 s2 s3 where path: "upgrade_path i (u_kyc_tier x) req = Some (t, n, store)"
    and st: "run_state store s1 = (Inr v, s2)" and kyc: "run_state (UpdateKYCTier i t) s2 = (Inr v3, s3)"
    and lim: "run_state (UpdateDailyLimit i n) s3 = (Inr v4, s')"
    by (auto split: option.splits elim!: or_return_success)
  note p = upgrade_path_cases [OF path]
  have x1: "find (\<lambda>u. u_id u = i \<and> live u) (users s1) = Some x" using x s1 by simp
  have "\<exists>y. find (\<lambda>u. u_id u = i \<and> live u) (users s2) = Some y \<and> accounts s2 = accounts s1"
    using p st by (auto simp: UpdateNIN_def UpdateBVN_def dest: set_user_tier [OF _ _ x1])
  then obtain y where y: "find (\<lambda>u. u_id u = i \<and> live u) (users s2) = Some y" "accounts s2 = accounts s1" by blast
  from set_user_tier [OF kyc [unfolded UpdateKYCTier_def] _ y(1)] obtain now where
    z: "find (\<lambda>u. u_id u = i \<and> live u) (users s3) = Some (y\<lparr>u_kyc_tier := t, u_updated_at := now\<rparr>)" "accounts s3 = accounts s2"
    by auto
  have n: "n = tier_limit t" "u_kyc_tier x < t" using p by blast+
  have acc: "accounts s3 = accounts s" using z(2) y(2) s1 by simp
  from UpdateDailyLimit_success [OF lim] have us: "users s' = users s3" and
    lim': "accounts s' = (\<lambda>u. if u = i then map_option (\<lambda>a. a\<lparr>ac_limit := tier_limit t\<rparr>) (accounts s i) else accounts s u)"
    unfolding n acc by blast+
  from z(1) x n(2) show ?thesis unfolding lim' us by simp
qed

lemma upgrade_raises_tier_witness:
  "map_option ac_limit (accounts (snd (run_state (UpgradeKYC ''ada'' \<lparr>kq_bvn = ''22222222222'', kq_nin = []\<rparr>) sample_world)) ''ada'')
     = Some 20000000"
proof -
  let ?run = "run_state (UpgradeKYC ''ada'' \<lparr>kq_bvn = ''22222222222'', kq_nin = []\<rparr>) sample_world"
  have "fst ?run = Inr KYCTierOne" by code_simp
  then have "?run = (Inr KYCTierOne, snd ?run)" by (simp add: prod_eq_iff)
  from upgrade_raises_tier [OF this] have "accounts (snd ?run) ''ada'' =
      map_option (\<lambda>a. a\<lparr>ac_limit := 20000000\<rparr>) (accounts sample_world ''ada'')"
    by (auto simp: tier_limit_def)
  moreover have "accounts sample_world ''ada'' \<noteq> None" by code_simp
  ultimately show ?thesis by (cases "accounts sample_world ''ada''") auto
qed

end
