(* ===== verification/RateLimit.thy ===== *)
theory RateLimit
  imports GoStrings
begin

text \<open>
  \<open>internal/middleware/ratelimit.go\<close>. Redis is a parameter: the pipeline of \<open>INCR\<close> and \<open>EXPIRE\<close>
  is a function of its state, the time, the key and the window that answers with the counter or an
  error. Times and windows are in milliseconds.
\<close>

section \<open>The middleware\<close>

type_synonym 'r pipeline = "'r \<Rightarrow> int \<Rightarrow> string \<Rightarrow> int \<Rightarrow> (int res \<times> 'r)"

datatype verdict = Next | TooManyRequests string

text \<open>The \<open>userID\<close> of the context is there if \<open>Auth\<close> ran before.\<close>

definition rate_key :: "string \<Rightarrow> string option \<Rightarrow> string" where
  "rate_key ip uid = (case uid of None \<Rightarrow> ''rl:'' @ ip | Some u \<Rightarrow> ''rl:'' @ u)"

definition RateLimit :: "'r pipeline \<Rightarrow> int \<Rightarrow> int \<Rightarrow> string \<Rightarrow> string option \<Rightarrow> int \<Rightarrow> 'r \<Rightarrow> verdict \<times> 'r" where
  "RateLimit exec_pipe limit window ip uid now r =
     (case exec_pipe r now (rate_key ip uid) window of
        (Inl _, r') \<Rightarrow> (Next, r')
      | (Inr v, r') \<Rightarrow>
          (if limit < v then TooManyRequests (show_int (window div 1000)) else Next, r'))"

text \<open>The requests of one client, at the given times.\<close>

fun serve :: "'r pipeline \<Rightarrow> int \<Rightarrow> int \<Rightarrow> string \<Rightarrow> string option \<Rightarrow> int list \<Rightarrow> 'r \<Rightarrow> verdict list \<times> 'r" where
  "serve p limit window ip uid [] r = ([], r)"
| "serve p limit window ip uid (t # ts) r =
     (case RateLimit p limit window ip uid t r of (v, r1) \<Rightarrow>
        (case serve p limit window ip uid ts r1 of (vs, r') \<Rightarrow> (v # vs, r')))"

section \<open>What Redis documents\<close>

text \<open>
  \<open>count r t k\<close> is the value of the counter \<open>k\<close> at time \<open>t\<close>, 0 when there is none. The pipeline
  adds one and lets the counter live for the window from now; it does not fail.
\<close>

definition redis_counts :: "'r pipeline \<Rightarrow> ('r \<Rightarrow> int \<Rightarrow> string \<Rightarrow> int) \<Rightarrow> bool" where
  "redis_counts p count \<longleftrightarrow>
     (\<forall>r now k w. \<exists>r'. p r now k w = (Inr (count r now k + 1), r') \<and>
        (\<forall>t \<ge> now. count r' t k = (if t < now + w then count r now k + 1 else 0)))"

text \<open>A sequence of times in which every request follows the one before within the window.\<close>

fun steady :: "int \<Rightarrow> int list \<Rightarrow> bool" where
  "steady window (t # u # ts) \<longleftrightarrow> t \<le> u \<and> u < t + window \<and> steady window (u # ts)"
| "steady window _ \<longleftrightarrow> True"

lemma serve_steady:
  assumes "redis_counts p count" and "steady window ts" and "ts \<noteq> [] \<longrightarrow> count r (hd ts) (rate_key ip uid) = c"
  shows "fst (serve p limit window ip uid ts r) =
    map (\<lambda>i. if limit < c + int i + 1 then TooManyRequests (show_int (window div 1000)) else Next) [0..<length ts]"
  using assms(2,3)
proof (induction ts arbitrary: r c)
  case Nil
  then show ?case by simp
next
  case (Cons t ts)
  let ?k = "rate_key ip uid"
  from assms(1) obtain r1 where p: "p r t ?k window = (Inr (c + 1), r1)"
    and later: "\<forall>u \<ge> t. count r1 u ?k = (if u < t + window then c + 1 else 0)"
    using Cons.prems(2) unfolding redis_counts_def by (metis list.discI list.sel(1))
  have st: "steady window ts" using Cons.prems(1) by (cases ts) auto
  have next_count: "ts \<noteq> [] \<longrightarrow> count r1 (hd ts) ?k = c + 1"
    using Cons.prems(1) later by (cases ts) auto
  show ?case
    using Cons.IH [OF st next_count] p
    by (auto simp: RateLimit_def upt_conv_Cons map_Suc_upt [symmetric] algebra_simps simp del: upt_Suc
        split: prod.splits)
qed

text \<open>
  C40. The limiter does not slide: a client whose requests follow each other within the window is served
  its first \<open>limit\<close> requests and refused every later one, however long it goes on and however
  few requests fall into any one window; and it is never served more than the limit that way.
\<close>

theorem steady_client_is_cut_off:
  assumes "redis_counts p count" and "steady window ts" and "count r (hd ts) (rate_key ip uid) = 0" and "0 \<le> limit"
  shows "fst (serve p limit window ip uid ts r) =
    replicate (min (nat limit) (length ts)) Next @
    replicate (length ts - nat limit) (TooManyRequests (show_int (window div 1000)))"
proof (rule nth_equalityI)
  from serve_steady [OF assms(1,2), of r ip uid 0 limit] assms(3)
  have eq: "fst (serve p limit window ip uid ts r) =
      map (\<lambda>i. if limit < 0 + int i + 1 then TooManyRequests (show_int (window div 1000)) else Next) [0..<length ts]"
    by blast
  then show "length (fst (serve p limit window ip uid ts r)) = length (replicate (min (nat limit) (length ts)) Next @
      replicate (length ts - nat limit) (TooManyRequests (show_int (window div 1000))))" by simp
  fix i assume "i < length (fst (serve p limit window ip uid ts r))"
  with eq assms(4) show "fst (serve p limit window ip uid ts r) ! i = (replicate (min (nat limit) (length ts)) Next @
      replicate (length ts - nat limit) (TooManyRequests (show_int (window div 1000)))) ! i"
    by (auto simp: nth_append)
qed

text \<open>A store of counters with their expiry, of which the documented behaviour is true.\<close>

definition sample_count :: "(string \<Rightarrow> int \<times> int) \<Rightarrow> int \<Rightarrow> string \<Rightarrow> int" where
  "sample_count r t k = (if t < snd (r k) then fst (r k) else 0)"

definition sample_pipeline :: "(string \<Rightarrow> int \<times> int) pipeline" where
  "sample_pipeline r now k w =
     (Inr (sample_count r now k + 1), r(k := (sample_count r now k + 1, now + w)))"

lemma steady_client_is_cut_off_witness:
  "fst (serve sample_pipeline 2 60000 ''10.0.0.1'' None [0, 40000, 80000, 120000] (\<lambda>_. (0, 0))) =
     [Next, Next, TooManyRequests (show_int 60), TooManyRequests (show_int 60)]"
proof -
  have "redis_counts sample_pipeline sample_count"
    by (simp add: redis_counts_def sample_pipeline_def sample_count_def)
  moreover have "steady 60000 [0, 40000, 80000, 120000]" by simp
  moreover have "sample_count (\<lambda>_. (0, 0)) (hd [0, 40000, 80000, 120000]) (rate_key ''10.0.0.1'' None) = 0"
    by (simp add: sample_count_def)
  ultimately show ?thesis
    using steady_client_is_cut_off [of sample_pipeline sample_count 60000 "[0, 40000, 80000, 120000]"
        "\<lambda>_. (0, 0)" "''10.0.0.1''" None 2] by (simp del: serve.simps)
qed

end
