(* ===== verification/TravelRepo.thy ===== *)
theory TravelRepo
  imports WalletRepo
begin

text \<open>
  \<open>internal/repository/postgres/travel_repo.go\<close> and \<open>dispatcher_repo.go\<close> on the tables
  \<open>travel_bookings\<close>, \<open>dispatcher_events\<close> and \<open>passenger_disruptions\<close>. A status or an
  event type is text to PostgreSQL, which accepts the labels of its enumeration type only.
\<close>

section \<open>Bookings\<close>

definition status_label :: "booking_status \<Rightarrow> bool" where
  "status_label st \<longleftrightarrow> booking_status_text st \<in> set booking_status_labels"

definition booking_row_ok :: "travel_booking \<Rightarrow> bool" where
  "booking_row_ok b \<longleftrightarrow>
     length (b_operator_code b) \<le> 50 \<and> length (b_operator_name b) \<le> 100 \<and> length (b_origin b) \<le> 100 \<and>
     length (b_destination b) \<le> 100 \<and> length (b_seat_number b) \<le> 10 \<and> length (b_vehicle_ref b) \<le> 100 \<and>
     length (b_passenger_name b) \<le> 200 \<and> length (b_passenger_phone b) \<le> 20 \<and>
     length (b_offline_cache_hash b) \<le> 64 \<and> 0 < b_price_paid b \<and> in_i64 (b_price_paid b) \<and>
     status_label (b_status b)"

definition booking_exists :: "uuid \<Rightarrow> world \<Rightarrow> bool" where
  "booking_exists i s \<longleftrightarrow> i \<in> set (map b_id (bookings s))"

definition insert_booking :: "travel_booking \<Rightarrow> world \<Rightarrow> world option" where
  "insert_booking b s =
     (if booking_row_ok b \<and> user_exists (b_user_id b) s \<and> tx_exists (b_transaction_id b) s \<and>
         \<not> booking_exists (b_id b) s
      then Some (s\<lparr>bookings := bookings s @ [b]\<rparr>) else None)"

definition CreateBooking :: "travel_booking \<Rightarrow> unit program" where
  "CreateBooking b = exec (\<lambda>_. insert_booking b)"

definition FindBookingByID :: "uuid \<Rightarrow> travel_booking program" where
  "FindBookingByID i =
     or_return (query_row (\<lambda>s. find (\<lambda>b. b_id b = i) (bookings s))) (Wrap ''scan booking'') ok"

definition ListByUser :: "uuid \<Rightarrow> travel_booking list program" where
  "ListByUser userID =
     query_all (\<lambda>s. sort_key b_departure_time (filter (\<lambda>b. b_user_id b = userID) (bookings s)))"

definition set_booking_status :: "uuid \<Rightarrow> booking_status \<Rightarrow> time \<Rightarrow> world \<Rightarrow> world option" where
  "set_booking_status i st now s =
     (if status_label st
      then Some (s\<lparr>bookings := set_rows (\<lambda>b. b_id b = i) (\<lambda>b. b\<lparr>b_status := st, b_updated_at := now\<rparr>) (bookings s)\<rparr>)
      else None)"

definition UpdateBookingStatus :: "uuid \<Rightarrow> booking_status \<Rightarrow> unit program" where
  "UpdateBookingStatus i st = do {
     _ \<leftarrow> time_now;
     exec (\<lambda>now. set_booking_status i st now)
   }"

text \<open>The constant for a cancelled booking is not a label of the database type.\<close>

lemma status_label_iff [simp]: "status_label st \<longleftrightarrow> st \<noteq> BookingCancelled"
  by (cases st) (simp_all add: status_label_def booking_status_labels_def)

section \<open>Disruptions\<close>

definition event_type_labels :: "string list" where
  "event_type_labels =
     [''vehicle_breakdown'', ''route_change'', ''double_booking'', ''schedule_change'', ''cancellation'']"

definition event_row_ok :: "dispatcher_event \<Rightarrow> bool" where
  "event_row_ok e \<longleftrightarrow>
     length (d_operator_code e) \<le> 50 \<and> d_event_type e \<in> set event_type_labels \<and> length (d_vehicle_ref e) \<le> 100 \<and>
     length (d_origin e) \<le> 100 \<and> length (d_destination e) \<le> 100 \<and> length (d_api_key_hash e) \<le> 64"

definition CreateEvent :: "dispatcher_event \<Rightarrow> unit program" where
  "CreateEvent e = exec (\<lambda>_ s.
     if event_row_ok e \<and> d_id e \<notin> set (map d_id (events s))
     then Some (s\<lparr>events := events s @ [e]\<rparr>) else None)"

definition two_hours :: int where
  "two_hours = 2 * 60 * 60 * 1000"

definition affected :: "string \<Rightarrow> string \<Rightarrow> string \<Rightarrow> string \<Rightarrow> time \<Rightarrow> travel_booking \<Rightarrow> bool" where
  "affected operatorCode vehicleRef origin destination departureTime b \<longleftrightarrow>
     b_operator_code b = operatorCode \<and> b_vehicle_ref b = vehicleRef \<and> b_origin b = origin \<and>
     b_destination b = destination \<and> departureTime - two_hours \<le> b_departure_time b \<and>
     b_departure_time b \<le> departureTime + two_hours \<and>
     b_status b \<in> {BookingConfirmed, BookingPending}"

definition FindAffectedBookings ::
  "string \<Rightarrow> string \<Rightarrow> string \<Rightarrow> string \<Rightarrow> time \<Rightarrow> travel_booking list program" where
  "FindAffectedBookings operatorCode vehicleRef origin destination departureTime =
     query_all (\<lambda>s. filter (affected operatorCode vehicleRef origin destination departureTime) (bookings s))"

definition insert_disruption :: "passenger_disruption \<Rightarrow> world \<Rightarrow> world option" where
  "insert_disruption d s =
     (if p_event_id d \<in> set (map d_id (events s)) \<and> booking_exists (p_booking_id d) s \<and>
         user_exists (p_user_id d) s \<and> p_id d \<notin> set (map p_id (disruptions s))
      then Some (s\<lparr>disruptions := disruptions s @ [d]\<rparr>) else None)"

definition CreateDisruption :: "passenger_disruption \<Rightarrow> unit program" where
  "CreateDisruption d = exec (\<lambda>_. insert_disruption d)"

definition pending_for :: "uuid \<Rightarrow> passenger_disruption \<Rightarrow> bool" where
  "pending_for bookingID d \<longleftrightarrow> p_booking_id d = bookingID \<and> p_resolution d = ResolutionPending"

definition FindDisruptionByBooking :: "uuid \<Rightarrow> passenger_disruption program" where
  "FindDisruptionByBooking bookingID =
     or_return
       (query_row (\<lambda>s. case page_of p_created_at 1 0 (filter (pending_for bookingID) (disruptions s)) of
          [] \<Rightarrow> None | d # _ \<Rightarrow> Some d))
       (Wrap ''disruption not found'') ok"

definition MarkNotified :: "uuid \<Rightarrow> unit program" where
  "MarkNotified eventID = do {
     now \<leftarrow> time_now;
     or_return (exec (\<lambda>t s. Some (s\<lparr>disruptions :=
         set_rows (\<lambda>d. p_event_id d = eventID \<and> p_resolution d = ResolutionPending)
           (\<lambda>d. d\<lparr>p_notified_at := Some now, p_updated_at := t\<rparr>) (disruptions s)\<rparr>))) (\<lambda>e. e) (\<lambda>_.
     exec (\<lambda>t s. Some (s\<lparr>events :=
         set_rows (\<lambda>e. d_id e = eventID) (\<lambda>e. e\<lparr>d_status := EventStatusNotified, d_updated_at := t\<rparr>) (events s)\<rparr>)))
   }"

definition resolve_rows ::
  "uuid \<Rightarrow> disruption_resolution \<Rightarrow> uuid option \<Rightarrow> uuid option \<Rightarrow> time \<Rightarrow> time \<Rightarrow> world \<Rightarrow> world option" where
  "resolve_rows disruptionID resolution newBookingID refundTxID now t s =
     (if (case newBookingID of None \<Rightarrow> True | Some i \<Rightarrow> booking_exists i s) \<and>
         (case refundTxID of None \<Rightarrow> True | Some i \<Rightarrow> tx_exists i s)
      then Some (s\<lparr>disruptions := set_rows (\<lambda>d. p_id d = disruptionID)
        (\<lambda>d. d\<lparr>p_resolution := resolution, p_new_booking_id := newBookingID, p_refund_tx_id := refundTxID,
               p_resolved_at := Some now, p_updated_at := t\<rparr>) (disruptions s)\<rparr>)
      else None)"

definition ResolveDisruption ::
  "uuid \<Rightarrow> disruption_resolution \<Rightarrow> uuid option \<Rightarrow> uuid option \<Rightarrow> unit program" where
  "ResolveDisruption disruptionID resolution newBookingID refundTxID = do {
     now \<leftarrow> time_now;
     exec (\<lambda>t. resolve_rows disruptionID resolution newBookingID refundTxID now t)
   }"

section \<open>Facts\<close>

lemma UpdateBookingStatus_cancelled:
  "\<exists>e. run_state (UpdateBookingStatus i BookingCancelled) s = (Inl e, s\<lparr>tick := tick s + 2\<rparr>)"
  by (simp add: UpdateBookingStatus_def run_exec set_booking_status_def step_def)

lemma quiet_query_row [intro]: "quiet (query_row q)"
  by (rule quietI [of _ 1]) (simp add: run_query_row step_def)

lemma quiet_travel_queries [intro]:
  "quiet (FindBookingByID i)" "quiet (FindDisruptionByBooking i)" "quiet (UpdateBookingStatus i BookingCancelled)"
proof -
  show "quiet (FindBookingByID i)" unfolding FindBookingByID_def by auto
  show "quiet (FindDisruptionByBooking i)" unfolding FindDisruptionByBooking_def by auto
  show "quiet (UpdateBookingStatus i BookingCancelled)"
    by (rule quietI [of _ 2]) (simp add: UpdateBookingStatus_def run_exec set_booking_status_def step_def)
qed

lemma FindBookingByID_success:
  "run_state (FindBookingByID i) s = (Inr b, s') \<Longrightarrow> find (\<lambda>b. b_id b = i) (bookings s) = Some b"
  by (auto simp: FindBookingByID_def run_or_return run_query_row split: if_splits option.splits)

lemma FindDisruptionByBooking_success:
  assumes "run_state (FindDisruptionByBooking i) s = (Inr d, s')"
  shows "d \<in> set (filter (pending_for i) (disruptions s))"
proof -
  from assms have "case page_of p_created_at 1 0 (filter (pending_for i) (disruptions s)) of [] \<Rightarrow> False | x # _ \<Rightarrow> x = d"
    by (auto simp: FindDisruptionByBooking_def run_or_return run_query_row split: if_splits option.splits list.splits)
  then have "d \<in> set (page_of p_created_at 1 0 (filter (pending_for i) (disruptions s)))"
    by (auto split: list.splits)
  then show ?thesis unfolding page_of_def by (metis in_set_takeD in_set_dropD set_sort)
qed

lemma FindDisruptionByBooking_none:
  "filter (pending_for i) (disruptions s) = [] \<Longrightarrow> \<exists>e. run_state (FindDisruptionByBooking i) s = (Inl e, step s)"
  by (simp add: FindDisruptionByBooking_def run_or_return run_query_row page_of_def)

lemma pending_resolved:
  assumes "\<And>d. p_booking_id (f d) = p_booking_id d \<and> p_resolution (f d) \<noteq> ResolutionPending"
  shows "filter (pending_for i) (set_rows (\<lambda>d. p_id d = k) f ds) = filter (\<lambda>d. p_id d \<noteq> k) (filter (pending_for i) ds)"
  by (induction ds) (auto simp: pending_for_def assms)

text \<open>The wallet's tables and those of the trips do not touch each other.\<close>

definition trips :: "world \<Rightarrow> travel_booking list \<times> passenger_disruption list" where
  "trips s = (bookings s, disruptions s)"

lemma trips_simps [simp]:
  "trips (step s) = trips s" "trips (s\<lparr>tick := k\<rparr>) = trips s" "on_tables (\<lambda>x. trips x = c)"
  by (simp_all add: trips_def on_tables_def)

lemma wallet_statements_trips:
  "trips (snd (run_state (CreditBalance w n) s)) = trips s"
  "trips (snd (run_state (InsertTransaction t) s)) = trips s"
proof -
  have "keeps (\<lambda>x. trips x = trips s) (CreditBalance w n)"
    unfolding CreditBalance_def
    by (rule keeps_exec) (auto simp: trips_def on_tables_def update_wallets_def split: if_splits)
  moreover have "keeps (\<lambda>x. trips x = trips s) (InsertTransaction t)"
    unfolding InsertTransaction_def
    by (rule keeps_exec) (auto simp: trips_def on_tables_def insert_transaction_def split: if_splits)
  ultimately show "trips (snd (run_state (CreditBalance w n) s)) = trips s"
    "trips (snd (run_state (InsertTransaction t) s)) = trips s" by (auto dest: keepsD)
qed

end
