(* ===== verification/Dispatcher.thy ===== *)
theory Dispatcher
  imports TravelRepo WalletService Encoding
begin

text \<open>
  \<open>internal/services/dispatcher/dispatcher_service.go\<close>: disruptions that operators report, and
  what a passenger can do about them. SHA-256, \<open>time.Parse\<close> with RFC 3339 and the SMS gateway
  are parameters.
\<close>

section \<open>Requests\<close>

record dispatch_event_request =
  dq_operator_code :: string
  dq_event_type :: string
  dq_vehicle_ref :: string
  dq_origin :: string
  dq_destination :: string
  dq_departure_time :: string
  dq_message :: string
  dq_api_key :: string

record dispatch_event_response =
  de_event_id :: string
  de_affected_bookings :: int
  de_sms_dispatched :: int

record reschedule_request =
  hq_new_vehicle_ref :: string
  hq_new_departure_time :: string
  hq_new_seat_number :: string

record dispatcher_service =
  dv_operator_keys :: "string \<rightharpoonup> string"
  dv_sha256 :: "string \<Rightarrow> string"
  dv_parse_rfc3339 :: "string \<Rightarrow> time option"
  dv_sms_disruption :: "nat \<Rightarrow> travel_booking \<Rightarrow> string \<Rightarrow> unit res"
  dv_sms_confirmation :: "nat \<Rightarrow> string \<Rightarrow> travel_booking \<Rightarrow> unit res"

section \<open>The service\<close>

definition hashAPIKey :: "dispatcher_service \<Rightarrow> string \<Rightarrow> string" where
  "hashAPIKey v key = hex_string (dv_sha256 v key)"

definition verifyOperatorKey :: "dispatcher_service \<Rightarrow> string \<Rightarrow> string \<Rightarrow> unit res" where
  "verifyOperatorKey v operatorCode apiKey =
     (case dv_operator_keys v operatorCode of
        None \<Rightarrow> Inl (ErrMsg (''unknown operator code: '' @ operatorCode))
      | Some expectedHash \<Rightarrow>
          if hashAPIKey v apiKey \<noteq> expectedHash
          then Inl (ErrMsg (''invalid API key for operator '' @ operatorCode)) else Inr ())"

definition new_event :: "dispatcher_service \<Rightarrow> dispatch_event_request \<Rightarrow> time \<Rightarrow> (world, dispatcher_event) state" where
  "new_event v req departure = do {
     i \<leftarrow> uuid_new;
     created \<leftarrow> time_now;
     updated \<leftarrow> time_now;
     State_Monad.return \<lparr>d_id = i, d_operator_code = dq_operator_code req, d_event_type = dq_event_type req,
       d_vehicle_ref = dq_vehicle_ref req, d_origin = dq_origin req, d_destination = dq_destination req,
       d_departure_time = departure, d_message = dq_message req, d_status = EventStatusOpen,
       d_api_key_hash = hashAPIKey v (dq_api_key req), d_created_at = created, d_updated_at = updated\<rparr>
   }"

definition new_disruption :: "uuid \<Rightarrow> travel_booking \<Rightarrow> (world, passenger_disruption) state" where
  "new_disruption eventID booking = do {
     i \<leftarrow> uuid_new;
     created \<leftarrow> time_now;
     updated \<leftarrow> time_now;
     State_Monad.return \<lparr>p_id = i, p_event_id = eventID, p_booking_id = b_id booking, p_user_id = b_user_id booking,
       p_resolution = ResolutionPending, p_new_booking_id = None, p_refund_tx_id = None, p_notified_at = None,
       p_resolved_at = None, p_created_at = created, p_updated_at = updated\<rparr>
   }"

text \<open>The body of the loop over the bookings, with the number of messages it sent.\<close>

definition disrupt :: "dispatcher_service \<Rightarrow> dispatch_event_request \<Rightarrow> uuid \<Rightarrow> travel_booking \<Rightarrow> (world, int) state" where
  "disrupt v req eventID booking = do {
     d \<leftarrow> new_disruption eventID booking;
     created \<leftarrow> CreateDisruption d;
     if \<not> succeeded created then State_Monad.return 0
     else do {
       _ \<leftarrow> UpdateBookingStatus (b_id booking) BookingRescheduled;
       if b_passenger_phone booking = [] then State_Monad.return 0
       else do {
         sent \<leftarrow> call (\<lambda>n. dv_sms_disruption v n booking (dq_message req));
         State_Monad.return (if succeeded sent then 1 else 0)
       }
     }
   }"

fun disrupt_all ::
  "dispatcher_service \<Rightarrow> dispatch_event_request \<Rightarrow> uuid \<Rightarrow> travel_booking list \<Rightarrow> int \<Rightarrow> (world, int) state" where
  "disrupt_all v req eventID [] smsSent = State_Monad.return smsSent"
| "disrupt_all v req eventID (booking # rest) smsSent = do {
     n \<leftarrow> disrupt v req eventID booking;
     disrupt_all v req eventID rest (smsSent + n)
   }"

definition HandleDispatchEvent :: "dispatcher_service \<Rightarrow> dispatch_event_request \<Rightarrow> dispatch_event_response program" where
  "HandleDispatchEvent v req =
     (case verifyOperatorKey v (dq_operator_code req) (dq_api_key req) of
        Inl e \<Rightarrow> fail e
      | Inr _ \<Rightarrow>
     (case dv_parse_rfc3339 v (dq_departure_time req) of
        None \<Rightarrow> fail (ErrMsg (''invalid departure_time format '' @ em_dash @
                  '' use RFC3339 (e.g. 2026-06-01T07:00:00+01:00)''))
      | Some departure \<Rightarrow> do {
          event \<leftarrow> new_event v req departure;
          or_return (CreateEvent event) (Wrap ''failed to record event'') (\<lambda>_.
          or_return (FindAffectedBookings (dq_operator_code req) (dq_vehicle_ref req) (dq_origin req)
              (dq_destination req) departure) (Wrap ''failed to find affected bookings'') (\<lambda>found.
          if found = []
          then ok \<lparr>de_event_id = d_id event, de_affected_bookings = 0, de_sms_dispatched = 0\<rparr>
          else do {
            smsSent \<leftarrow> disrupt_all v req (d_id event) found 0;
            _ \<leftarrow> MarkNotified (d_id event);
            ok \<lparr>de_event_id = d_id event, de_affected_bookings = int (length found),
                 de_sms_dispatched = smsSent\<rparr>
          }))
        }))"

text \<open>The checks that rescheduling and refunding begin with: the booking and its pending disruption.\<close>

definition disrupted_booking ::
  "uuid \<Rightarrow> uuid \<Rightarrow> string \<Rightarrow> (travel_booking \<times> passenger_disruption) program" where
  "disrupted_booking userID bookingID not_eligible =
     or_return (FindBookingByID bookingID) (\<lambda>_. ErrMsg ''booking not found'') (\<lambda>booking.
     if b_user_id booking \<noteq> userID then fail (ErrMsg ''unauthorized'')
     else if b_status booking \<noteq> BookingRescheduled then fail (ErrMsg not_eligible)
     else or_return (FindDisruptionByBooking (b_id booking))
       (\<lambda>_. ErrMsg ''no active disruption found for this booking'') (\<lambda>d. ok (booking, d)))"

definition replacement :: "travel_booking \<Rightarrow> reschedule_request \<Rightarrow> time \<Rightarrow> (world, travel_booking) state" where
  "replacement original req newDeparture = do {
     i \<leftarrow> uuid_new;
     created \<leftarrow> time_now;
     updated \<leftarrow> time_now;
     State_Monad.return (original\<lparr>b_id := i, b_departure_time := newDeparture,
       b_seat_number := hq_new_seat_number req, b_vehicle_ref := hq_new_vehicle_ref req,
       b_ticket_code := ''RSCH-'' @ b_ticket_code original, b_status := BookingConfirmed,
       b_offline_cache_hash := [], b_created_at := created, b_updated_at := updated\<rparr>)
   }"

definition RescheduleBooking :: "dispatcher_service \<Rightarrow> uuid \<Rightarrow> uuid \<Rightarrow> reschedule_request \<Rightarrow> travel_booking program" where
  "RescheduleBooking v userID bookingID req =
     or_return (disrupted_booking userID bookingID ''this booking is not eligible for rescheduling'') (\<lambda>e. e)
       (\<lambda>(original, disruption).
     case dv_parse_rfc3339 v (hq_new_departure_time req) of
       None \<Rightarrow> fail (ErrMsg ''invalid new_departure_time format'')
     | Some newDeparture \<Rightarrow> do {
         newBooking \<leftarrow> replacement original req newDeparture;
         or_return (CreateBooking newBooking) (Wrap ''failed to create rescheduled booking'') (\<lambda>_. do {
           _ \<leftarrow> UpdateBookingStatus bookingID BookingCancelled;
           _ \<leftarrow> ResolveDisruption (p_id disruption) ResolutionRescheduled (Some (b_id newBooking)) None;
           _ \<leftarrow> (if b_passenger_phone original \<noteq> []
                 then call (\<lambda>n. dv_sms_confirmation v n (b_passenger_phone original) newBooking)
                 else ok ());
           ok newBooking
         })
       })"

definition refund_tx :: "wallet \<Rightarrow> travel_booking \<Rightarrow> (world, transaction) state" where
  "refund_tx wallet booking = do {
     i \<leftarrow> uuid_new;
     u \<leftarrow> uuid_new;
     created \<leftarrow> time_now;
     updated \<leftarrow> time_now;
     State_Monad.return \<lparr>t_id = i, t_user_id = w_user_id wallet, t_wallet_id = w_id wallet,
       t_reference = ''DISP-REF-'' @ take 8 u, t_external_ref = [], t_type = TxTypeCredit,
       t_category = CategoryBusTravel, t_amount = b_price_paid booking, t_commission = 0, t_fee = 0,
       t_balance_before = w_balance wallet, t_balance_after = i64 (w_balance wallet + b_price_paid booking),
       t_status = TxSuccess, t_provider = ''dispatcher_refund'',
       t_narration = ''Disruption refund: '' @ b_origin booking @ '' '' @ right_arrow @ '' '' @ b_destination booking @
         '' ('' @ b_ticket_code booking @ '')'',
       t_meta = [], t_reversed_tx_id = None, t_created_at = created, t_updated_at = updated\<rparr>
   }"

definition RefundBooking :: "uuid \<Rightarrow> uuid \<Rightarrow> transaction program" where
  "RefundBooking userID bookingID =
     or_return (disrupted_booking userID bookingID ''this booking is not eligible for a refund'') (\<lambda>e. e)
       (\<lambda>(booking, disruption).
     or_return (FindByUserID userID) (\<lambda>_. ErrMsg ''wallet not found'') (\<lambda>wallet.
     or_return (CreditBalance (w_id wallet) (b_price_paid booking)) (Wrap ''refund credit failed'') (\<lambda>_. do {
       refundTx \<leftarrow> refund_tx wallet booking;
       or_return (InsertTransaction refundTx) (Wrap ''failed to record refund transaction'') (\<lambda>_. do {
         _ \<leftarrow> UpdateBookingStatus bookingID BookingCancelled;
         _ \<leftarrow> ResolveDisruption (p_id disruption) ResolutionRefunded None (Some (t_id refundTx));
         ok refundTx
       })
     })))"

section \<open>A sample disruption\<close>

definition sample_booking :: "uuid \<Rightarrow> booking_status \<Rightarrow> travel_booking" where
  "sample_booking i st = \<lparr>b_id = i, b_user_id = ''ada'', b_transaction_id = ''t0'', b_mode = TravelBus,
     b_operator_code = ''GIGM'', b_operator_name = ''GIGM'', b_origin = ''Lagos'', b_destination = ''Abuja'',
     b_departure_time = 1780000000000, b_seat_number = ''3A'', b_vehicle_ref = ''V1'', b_passenger_name = ''Ada'',
     b_passenger_phone = ''+2348010000001'', b_ticket_code = ''TK1'', b_status = st, b_offline_cache_hash = [],
     b_price_paid = 25000, b_created_at = 0, b_updated_at = 0\<rparr>"

definition booked_world :: world where
  "booked_world = sample_world\<lparr>bookings := [sample_booking ''b1'' BookingConfirmed, sample_booking ''b2'' BookingBoarded]\<rparr>"

definition sample_dispatcher :: dispatcher_service where
  "sample_dispatcher = \<lparr>dv_operator_keys = [''GIGM'' \<mapsto> hex_string ''key''], dv_sha256 = (\<lambda>k. k),
     dv_parse_rfc3339 = (\<lambda>_. Some 1780003600000), dv_sms_disruption = (\<lambda>_ _ _. Inr ()),
     dv_sms_confirmation = (\<lambda>_ _ _. Inr ())\<rparr>"

definition sample_event :: "string \<Rightarrow> dispatch_event_request" where
  "sample_event key = \<lparr>dq_operator_code = ''GIGM'', dq_event_type = ''vehicle_breakdown'', dq_vehicle_ref = ''V1'',
     dq_origin = ''Lagos'', dq_destination = ''Abuja'', dq_departure_time = ''2026-05-28T20:26:40Z'',
     dq_message = ''engine'', dq_api_key = key\<rparr>"

text \<open>The same bookings after a breakdown of the vehicle: a disruption of \<open>b1\<close> is pending.\<close>

definition sample_disruption :: passenger_disruption where
  "sample_disruption = \<lparr>p_id = ''p1'', p_event_id = ''e1'', p_booking_id = ''b1'', p_user_id = ''ada'',
     p_resolution = ResolutionPending, p_new_booking_id = None, p_refund_tx_id = None, p_notified_at = None,
     p_resolved_at = None, p_created_at = 0, p_updated_at = 0\<rparr>"

definition disrupted_world :: world where
  "disrupted_world = sample_world\<lparr>
     bookings := [sample_booking ''b1'' BookingRescheduled, sample_booking ''b2'' BookingBoarded],
     events := [\<lparr>d_id = ''e1'', d_operator_code = ''GIGM'', d_event_type = ''vehicle_breakdown'', d_vehicle_ref = ''V1'',
       d_origin = ''Lagos'', d_destination = ''Abuja'', d_departure_time = 1780000000000, d_message = ''engine'',
       d_status = EventStatusNotified, d_api_key_hash = ''k'', d_created_at = 0, d_updated_at = 0\<rparr>],
     disruptions := [sample_disruption]\<rparr>"

section \<open>Refunds\<close>

lemma quiet_disrupted_booking: "quiet (disrupted_booking u i m)"
  unfolding disrupted_booking_def by (intro quiet_or_return quiet_if quiet_travel_queries quiet_return)

lemma disrupted_booking_success:
  assumes "run_state (disrupted_booking u i m) s = (Inr (b, d), s')"
  shows "\<exists>k. s' = s\<lparr>tick := tick s + k\<rparr>" and "find (\<lambda>b. b_id b = i) (bookings s) = Some b"
    and "b_user_id b = u" and "b_status b = BookingRescheduled" and "d \<in> set (filter (pending_for i) (disruptions s))"
proof -
  show "\<exists>k. s' = s\<lparr>tick := tick s + k\<rparr>" by (rule quiet_run [OF quiet_disrupted_booking assms]) blast
  from assms obtain bk s1 where f: "run_state (FindBookingByID i) s = (Inr bk, s1)"
    and rest: "run_state (if b_user_id bk \<noteq> u then fail (ErrMsg ''unauthorized'')
      else if b_status bk \<noteq> BookingRescheduled then fail (ErrMsg m)
      else or_return (FindDisruptionByBooking (b_id bk)) (\<lambda>_. ErrMsg ''no active disruption found for this booking'')
        (\<lambda>d. ok (bk, d))) s1 = (Inr (b, d), s')"
    unfolding disrupted_booking_def by (rule or_return_success)
  from rest have "b = bk" "b_user_id b = u" "b_status b = BookingRescheduled"
    and d: "\<exists>s2. run_state (FindDisruptionByBooking (b_id bk)) s1 = (Inr d, s2)"
    by (auto split: if_splits elim!: or_return_success)
  moreover from FindBookingByID_success [OF f] have bk: "find (\<lambda>b. b_id b = i) (bookings s) = Some bk" .
  moreover have "b_id bk = i" using bk by (auto dest: find_SomeD)
  moreover have "disruptions s1 = disruptions s"
    by (rule quiet_run [OF quiet_travel_queries(1) f]) simp
  ultimately show "find (\<lambda>b. b_id b = i) (bookings s) = Some b" "b_user_id b = u" "b_status b = BookingRescheduled"
    by auto
  from d obtain s2 where "run_state (FindDisruptionByBooking (b_id bk)) s1 = (Inr d, s2)" by blast
  from FindDisruptionByBooking_success [OF this] \<open>disruptions s1 = disruptions s\<close> \<open>b_id bk = i\<close>
  show "d \<in> set (filter (pending_for i) (disruptions s))" by simp
qed

lemma refund_cases:
  assumes ok: "wallet_tables_ok s" and run: "run_state (RefundBooking u i) s = (r, s')"
  obtains (refused) e where "r = Inl e" "\<forall>e'. e \<noteq> Wrap ''failed to record refund transaction'' e'"
      "accounts s' = accounts s" "trips s' = trips s"
    | (unrecorded) e b a where "r = Inl (Wrap ''failed to record refund transaction'' e)"
      "find (\<lambda>b. b_id b = i) (bookings s) = Some b" "accounts s u = Some a"
      "accounts s' = (accounts s)(u \<mapsto> credit (b_price_paid b) a)" "trips s' = trips s"
    | (paid) tx b d a s1 v where "r = Inr tx"
      "find (\<lambda>b. b_id b = i) (bookings s) = Some b \<and> b_user_id b = u \<and> b_status b = BookingRescheduled" "accounts s u = Some a"
      "accounts s1 = (accounts s)(u \<mapsto> credit (b_price_paid b) a)" "trips s1 = trips s"
      "d \<in> set (filter (pending_for i) (disruptions s))" "tx_exists (t_id tx) s1" "sql_ok s1 = sql_ok s"
      "run_state (ResolveDisruption (p_id d) ResolutionRefunded None (Some (t_id tx))) s1 = (v, s')"
proof -
  let ?m = "''this booking is not eligible for a refund''"
  let ?settle = "\<lambda>d refundTx. or_return (InsertTransaction refundTx) (Wrap ''failed to record refund transaction'') (\<lambda>_. do {
         _ \<leftarrow> UpdateBookingStatus i BookingCancelled;
         _ \<leftarrow> ResolveDisruption (p_id d) ResolutionRefunded None (Some (t_id refundTx));
         ok refundTx })"
  from run show thesis
    unfolding RefundBooking_def
  proof (cases rule: or_return_cases)
    case (returned e)
    obtain k where k: "s' = s\<lparr>tick := tick s + k\<rparr>" by (rule quiet_run [OF quiet_disrupted_booking returned(1)])
    have "e \<noteq> Wrap ''failed to record refund transaction'' e'" for e'
      using returned(1) unfolding disrupted_booking_def
      by (auto elim!: or_return_cases split: if_splits)
    with returned(2) k show thesis by (intro refused) auto
  next
    case (continued bd s1)
    obtain b d where bd: "bd = (b, d)" by (cases bd)
    note c = disrupted_booking_success [OF continued(1) [unfolded bd]]
    from c(1) obtain k where s1: "s1 = s\<lparr>tick := tick s + k\<rparr>" by blast
    from continued(2) show thesis
      unfolding bd prod.case
    proof (cases rule: or_return_cases)
      case (returned e)
      with FindByUserID_state [of u s1] s1 show thesis by (intro refused) auto
    next
      case (continued w s2)
      from FindByUserID_success [OF continued(1)] have s2: "s2 = step s1" and w: "wallet_of u s1 = Some w" by auto
      have acc: "accounts s2 u = Some (account_of w)" "accounts s2 = accounts s" "wallet_tables_ok s2"
        using w ok s1 s2 by (simp_all add: accounts_def on_tables_step [OF on_tables_wallet_tables_ok])
      from continued(2) show thesis
      proof (cases rule: or_return_cases)
        case (returned e)
        from CreditBalance_error [OF returned(1)] have "accounts s' = accounts s2" by (rule accounts_wallets)
        moreover have "trips s' = trips s2" using wallet_statements_trips(1) returned(1) by (metis snd_conv)
        ultimately show thesis using returned(2) acc s1 s2 by (intro refused) auto
      next
        case (continued v s3)
        have a3: "accounts s3 = (accounts s)(u \<mapsto> credit (b_price_paid b) (account_of w))"
          using CreditBalance_success [OF acc(3,1), of "b_price_paid b" v s3] continued(1) acc(2) by simp
        have t3: "trips s3 = trips s"
          using wallet_statements_trips(1) [of "w_id w" "b_price_paid b" s2] continued(1) s1 s2 by simp
        obtain tx where tx: "run_state (refund_tx w b) s3 = (tx, step (step (step (step s3))))"
          by (simp add: refund_tx_def)
        let ?s4 = "step (step (step (step s3)))"
        from continued(2) have "run_state (?settle d tx) ?s4 = (r, s')"
          unfolding run_bind_eq [OF tx] .
        then show thesis
        proof (cases rule: or_return_cases)
          case (returned e)
          from returned(1) have "s' = step ?s4" unfolding InsertTransaction_def by (rule exec_error)
          with returned(2) a3 t3 c(2) acc(1,2) show thesis by (intro unrecorded) auto
        next
          case (continued v s5)
          have t5: "transactions s5 = transactions ?s4 @ [tx]" using InsertTransaction_success [OF continued(1)] by simp
          have frame: "trips s5 = trips ?s4" using wallet_statements_trips(2) [of tx ?s4] continued(1) by simp
          have a5: "accounts s5 = accounts ?s4"
            using continued(1) unfolding InsertTransaction_def
            by (auto elim!: exec_success simp: insert_transaction_def accounts_def wallet_of_def fun_eq_iff split: if_splits)
          have sq: "sql_ok s5 = sql_ok s"
            using continued(1) \<open>run_state (CreditBalance (w_id w) (b_price_paid b)) s2 = (Inr _, s3)\<close> s1 s2
            unfolding InsertTransaction_def CreditBalance_def
            by (auto elim!: exec_success simp: insert_transaction_def update_wallets_def split: if_splits)
          obtain e where upd: "run_state (UpdateBookingStatus i BookingCancelled) s5 = (Inl e, s5\<lparr>tick := tick s5 + 2\<rparr>)"
            using UpdateBookingStatus_cancelled [of i s5] by blast
          obtain v' where res: "run_state (ResolveDisruption (p_id d) ResolutionRefunded None (Some (t_id tx)))
              (s5\<lparr>tick := tick s5 + 2\<rparr>) = (v', s')" and r: "r = Inr tx"
            using continued(2) unfolding run_bind_eq [OF upd] by (auto split: prod.splits)
          show thesis
            by (rule paid [OF r _ _ _ _ c(5) _ _ res]) (use c(2,3,4) acc a3 t3 frame a5 t5 sq in \<open>auto simp: tx_exists_def\<close>)
        qed
      qed
    qed
  qed
qed

text \<open>Rescheduling and refunding find nothing to do once no disruption of the booking is pending.\<close>

lemma disrupted_booking_settled:
  assumes "filter (pending_for i) (disruptions s) = []"
  shows "\<exists>e. fst (run_state (disrupted_booking u i m) s) = Inl e"
proof (rule ccontr)
  assume "\<not> ?thesis"
  then obtain b d where "run_state (disrupted_booking u i m) s = (Inr (b, d), snd (run_state (disrupted_booking u i m) s))"
    by (cases "fst (run_state (disrupted_booking u i m) s)") (auto simp: prod_eq_iff)
  from disrupted_booking_success(5) [OF this] assms show False by simp
qed

lemma settled_requests_fail:
  assumes "filter (pending_for i) (disruptions s) = []"
  shows "\<not> succeeded (fst (run_state (RefundBooking u i) s)) \<and> accounts (snd (run_state (RefundBooking u i) s)) = accounts s"
    and "\<not> succeeded (fst (run_state (RescheduleBooking v u i req) s)) \<and> bookings (snd (run_state (RescheduleBooking v u i req) s)) = bookings s"
proof -
  have fails: "\<exists>e k. run_state (disrupted_booking u i m) s = (Inl e, s\<lparr>tick := tick s + k\<rparr>)" for m
  proof -
    obtain e where "run_state (disrupted_booking u i m) s = (Inl e, snd (run_state (disrupted_booking u i m) s))"
      using disrupted_booking_settled [OF assms, of u m] by (auto simp: prod_eq_iff)
    then show ?thesis by (metis quiet_run [OF quiet_disrupted_booking])
  qed
  from fails [of "''this booking is not eligible for a refund''"]
  show "\<not> succeeded (fst (run_state (RefundBooking u i) s)) \<and> accounts (snd (run_state (RefundBooking u i) s)) = accounts s"
    by (auto simp: RefundBooking_def run_or_return)
  from fails [of "''this booking is not eligible for rescheduling''"]
  show "\<not> succeeded (fst (run_state (RescheduleBooking v u i req) s)) \<and> bookings (snd (run_state (RescheduleBooking v u i req) s)) = bookings s"
    by (auto simp: RescheduleBooking_def run_or_return)
qed

lemma ResolveDisruption_accounts:
  "run_state (ResolveDisruption k res nb tx) s = (v, s') \<Longrightarrow> accounts s' = accounts s"
  by (auto simp: ResolveDisruption_def run_exec resolve_rows_def accounts_def wallet_of_def fun_eq_iff
      split: option.splits if_splits)

text \<open>
  C33. A refund is only ever answered with a transaction for the user's own booking, and then the user's
  wallet was credited with the price of the booking and with nothing else, and no other account has
  changed. If no statement of the database fails, it has also settled a pending disruption of the booking,
  so that every refund of a booking leaves fewer of them, and once none is left every request, by
  anybody, to refund or to reschedule the booking is refused and moves no money. A booking with one
  pending disruption is then refunded once. (The error of the statement that settles the disruption is
  ignored: where it fails, the refund can be had again.)
\<close>

theorem refund_settles_disruption:
  assumes "wallet_tables_ok s" and "run_state (RefundBooking u i) s = (Inr tx, s')"
  shows "(\<exists>b a. find (\<lambda>b. b_id b = i) (bookings s) = Some b \<and> b_user_id b = u \<and> accounts s u = Some a \<and>
      accounts s' = (accounts s)(u \<mapsto> credit (b_price_paid b) a)) \<and>
    (reliable s \<longrightarrow>
      length (filter (pending_for i) (disruptions s')) < length (filter (pending_for i) (disruptions s)) \<and>
      (filter (pending_for i) (disruptions s') = [] \<longrightarrow> disruptions s2 = disruptions s' \<longrightarrow>
         \<not> succeeded (fst (run_state (RefundBooking u2 i) s2)) \<and>
         accounts (snd (run_state (RefundBooking u2 i) s2)) = accounts s2 \<and>
         \<not> succeeded (fst (run_state (RescheduleBooking v u2 i req) s2))))"
  using assms
proof (cases rule: refund_cases)
  case (paid tx' b d a s1 r)
  have fewer: "length (filter (pending_for i) (disruptions s')) < length (filter (pending_for i) (disruptions s))"
    if "reliable s"
  proof -
    have rel: "sql_ok s1 n" for n using paid(8) that by simp
    let ?now = "time_at s1 (tick s1)" and ?t = "time_at (step s1) (Suc (tick (step s1)))"
    let ?f = "\<lambda>d. d\<lparr>p_resolution := ResolutionRefunded, p_new_booking_id := None, p_refund_tx_id := Some (t_id tx'),
        p_resolved_at := Some ?now, p_updated_at := ?t\<rparr>"
    have "s' = (step (step s1))\<lparr>disruptions := set_rows (\<lambda>x. p_id x = p_id d) ?f (disruptions s1)\<rparr>"
      using paid(9) rel paid(7) by (simp add: ResolveDisruption_def run_exec resolve_rows_def tx_exists_def)
    then have s': "disruptions s' = set_rows (\<lambda>x. p_id x = p_id d) ?f (disruptions s)"
      using paid(5) by (auto simp: trips_def)
    have "filter (pending_for i) (disruptions s') = filter (\<lambda>x. p_id x \<noteq> p_id d) (filter (pending_for i) (disruptions s))"
      unfolding s' by (rule pending_resolved) simp
    with length_filter_less [OF paid(6), of "\<lambda>x. p_id x \<noteq> p_id d"] show ?thesis by simp
  qed
  have "accounts s' = (accounts s)(u \<mapsto> credit (b_price_paid b) a)"
    using ResolveDisruption_accounts [OF paid(9)] paid(4) by simp
  with paid(2,3) fewer settled_requests_fail [of i s2] show ?thesis by simp
qed auto

lemma disrupted_world_ok: "wallet_tables_ok disrupted_world" "reliable disrupted_world"
    "length (filter (pending_for ''b1'') (disruptions disrupted_world)) \<le> 1"
  by (code_simp, simp add: disrupted_world_def reliable_def sample_world_def empty_world_def, code_simp)

lemma refund_settles_disruption_witness:
  "map_option ac_balance (accounts (snd (run_state (RefundBooking ''ada'' ''b1'') disrupted_world)) ''ada'') = Some 125000 \<and>
   \<not> succeeded (fst (run_state (RefundBooking ''ada'' ''b1'') (snd (run_state (RefundBooking ''ada'' ''b1'') disrupted_world))))"
proof -
  let ?run = "run_state (RefundBooking ''ada'' ''b1'') disrupted_world"
  have "succeeded (fst ?run)" by code_simp
  then obtain tx where "?run = (Inr tx, snd ?run)" by (cases "fst ?run") (auto simp: prod_eq_iff)
  note settled = refund_settles_disruption [OF disrupted_world_ok(1) this]
  have "length (filter (pending_for ''b1'') (disruptions (snd ?run))) < length (filter (pending_for ''b1'') (disruptions disrupted_world))"
    using settled disrupted_world_ok(2) by blast
  moreover have "length (filter (pending_for ''b1'') (disruptions disrupted_world)) = 1" by code_simp
  ultimately have "filter (pending_for ''b1'') (disruptions (snd ?run)) = []" by simp
  then have "\<not> succeeded (fst (run_state (RefundBooking ''ada'' ''b1'') (snd ?run)))"
    using settled disrupted_world_ok(2) by blast
  moreover from settled obtain b a where ba: "find (\<lambda>b. b_id b = ''b1'') (bookings disrupted_world) = Some b"
      "accounts disrupted_world ''ada'' = Some a"
      "accounts (snd ?run) = (accounts disrupted_world)(''ada'' \<mapsto> credit (b_price_paid b) a)" by blast
  have "map_option b_price_paid (find (\<lambda>b. b_id b = ''b1'') (bookings disrupted_world)) = Some 25000"
    "map_option ac_balance (accounts disrupted_world ''ada'') = Some 100000" by code_simp+
  with ba have "map_option ac_balance (accounts (snd ?run) ''ada'') = Some 125000" by auto
  ultimately show ?thesis by blast
qed

text \<open>
  A refund whose record cannot be stored is paid nevertheless: the request is answered with an error,
  the wallet has been credited, and the booking and its disruption are as before, so that the
  passenger can ask again.
\<close>

theorem unrecorded_refund_is_paid:
  assumes "wallet_tables_ok s"
    and "run_state (RefundBooking u i) s = (Inl (Wrap ''failed to record refund transaction'' e), s')"
  shows "\<exists>b a. find (\<lambda>b. b_id b = i) (bookings s) = Some b \<and> accounts s u = Some a \<and>
    accounts s' = (accounts s)(u \<mapsto> credit (b_price_paid b) a) \<and>
    bookings s' = bookings s \<and> disruptions s' = disruptions s"
  using assms by (cases rule: refund_cases) (auto simp: trips_def)

definition failing_at :: "nat \<Rightarrow> world \<Rightarrow> world" where
  "failing_at n s = s\<lparr>sql_ok := (\<lambda>k. k \<noteq> n)\<rparr>"

lemma unrecorded_refund_is_paid_witness:
  "map_option ac_balance (accounts (snd (run_state (RefundBooking ''ada'' ''b1'')
     (failing_at (tick disrupted_world + 8) disrupted_world))) ''ada'') = Some 125000"
proof -
  let ?s = "failing_at (tick disrupted_world + 8) disrupted_world"
  let ?run = "run_state (RefundBooking ''ada'' ''b1'') ?s"
  have "wallet_tables_ok ?s"
    "fst ?run = Inl (Wrap ''failed to record refund transaction'' (ErrDb ''connection''))" by code_simp+
  then have "wallet_tables_ok ?s"
    "?run = (Inl (Wrap ''failed to record refund transaction'' (ErrDb ''connection'')), snd ?run)" by (simp_all add: prod_eq_iff)
  from unrecorded_refund_is_paid [OF this] obtain b a where
    "find (\<lambda>b. b_id b = ''b1'') (bookings ?s) = Some b" "accounts ?s ''ada'' = Some a"
    "accounts (snd ?run) = (accounts ?s)(''ada'' \<mapsto> credit (b_price_paid b) a)" by blast
  moreover have "map_option b_price_paid (find (\<lambda>b. b_id b = ''b1'') (bookings ?s)) = Some 25000"
    "map_option ac_balance (accounts ?s ''ada'') = Some 100000" by code_simp+
  ultimately show ?thesis by auto
qed

section \<open>Rescheduling\<close>

lemma keeps_ResolveDisruption:
  "keeps (\<lambda>x. (bookings x, accounts x) = c) (ResolveDisruption i res nb tx)"
  unfolding ResolveDisruption_def
  by (intro keeps_bind keeps_time_now keeps_exec)
     (auto simp: on_tables_def resolve_rows_def accounts_def wallet_of_def split: if_splits)

lemma reschedule_cases:
  assumes run: "run_state (RescheduleBooking v u i req) s = (Inr nb, s')"
  obtains b where "find (\<lambda>b. b_id b = i) (bookings s) = Some b" "b_user_id b = u" "b_status b = BookingRescheduled"
    "bookings s' = bookings s @ [nb]" "accounts s' = accounts s" "b_id nb \<noteq> i"
    "b_status nb = BookingConfirmed" "b_transaction_id nb = b_transaction_id b" "b_price_paid nb = b_price_paid b"
    "b_ticket_code nb = ''RSCH-'' @ b_ticket_code b"
proof -
  let ?confirm = "\<lambda>original nb. if b_passenger_phone original \<noteq> []
     then call (\<lambda>n. dv_sms_confirmation v n (b_passenger_phone original) nb) else ok ()"
  from run obtain bd s1 where found: "run_state (disrupted_booking u i ''this booking is not eligible for rescheduling'') s = (Inr bd, s1)"
    and rest: "run_state ((\<lambda>(original, disruption).
       case dv_parse_rfc3339 v (hq_new_departure_time req) of
         None \<Rightarrow> fail (ErrMsg ''invalid new_departure_time format'')
       | Some newDeparture \<Rightarrow> do {
           newBooking \<leftarrow> replacement original req newDeparture;
           or_return (CreateBooking newBooking) (Wrap ''failed to create rescheduled booking'') (\<lambda>_. do {
             _ \<leftarrow> UpdateBookingStatus i BookingCancelled;
             _ \<leftarrow> ResolveDisruption (p_id disruption) ResolutionRescheduled (Some (b_id newBooking)) None;
             _ \<leftarrow> ?confirm original newBooking;
             ok newBooking
           })
         }) bd) s1 = (Inr nb, s')"
    unfolding RescheduleBooking_def by (rule or_return_success)
  obtain b d where bd: "bd = (b, d)" by (cases bd)
  note c = disrupted_booking_success [OF found [unfolded bd]]
  from c(1) obtain k where s1: "s1 = s\<lparr>tick := tick s + k\<rparr>" by blast
  from rest obtain t where t: "dv_parse_rfc3339 v (hq_new_departure_time req) = Some t"
    by (auto simp: bd split: option.splits)
  obtain rb where rb: "run_state (replacement b req t) s1 = (rb, step (step (step s1)))"
    and fields: "b_status rb = BookingConfirmed" "b_transaction_id rb = b_transaction_id b"
      "b_price_paid rb = b_price_paid b" "b_ticket_code rb = ''RSCH-'' @ b_ticket_code b"
    by (simp add: replacement_def)
  let ?s2 = "step (step (step s1))"
  from rest have "run_state (or_return (CreateBooking rb) (Wrap ''failed to create rescheduled booking'') (\<lambda>_. do {
      _ \<leftarrow> UpdateBookingStatus i BookingCancelled;
      _ \<leftarrow> ResolveDisruption (p_id d) ResolutionRescheduled (Some (b_id rb)) None;
      _ \<leftarrow> ?confirm b rb;
      ok rb })) ?s2 = (Inr nb, s')"
    unfolding bd prod.case t option.case run_bind_eq [OF rb] .
  then obtain s3 where ins: "run_state (CreateBooking rb) ?s2 = (Inr (), s3)"
    and last: "run_state (do {
      _ \<leftarrow> UpdateBookingStatus i BookingCancelled;
      _ \<leftarrow> ResolveDisruption (p_id d) ResolutionRescheduled (Some (b_id rb)) None;
      _ \<leftarrow> ?confirm b rb;
      ok rb }) s3 = (Inr nb, s')"
    by (auto elim!: or_return_success)
  from ins have s3: "s3 = (step ?s2)\<lparr>bookings := bookings s @ [rb]\<rparr>" "b_id rb \<notin> b_id ` set (bookings s)"
    unfolding CreateBooking_def s1
    by (auto elim!: exec_success simp: insert_booking_def booking_exists_def split: if_splits)
  then have w3: "bookings s3 = bookings s @ [rb]" "accounts s3 = accounts s"
    by (auto simp: s1 intro: accounts_wallets)
  obtain e where upd: "run_state (UpdateBookingStatus i BookingCancelled) s3 = (Inl e, s3\<lparr>tick := tick s3 + 2\<rparr>)"
    using UpdateBookingStatus_cancelled [of i s3] by blast
  have "keeps (\<lambda>x. (bookings x, accounts x) = (bookings s3, accounts s3)) (do {
      _ \<leftarrow> ResolveDisruption (p_id d) ResolutionRescheduled (Some (b_id rb)) None;
      _ \<leftarrow> ?confirm b rb;
      ok rb :: travel_booking program })"
    by (intro keeps_bind keeps_ResolveDisruption keeps_if keeps_call keeps_return)
       (auto simp: on_tables_def accounts_def wallet_of_def)
  from keepsD [OF this, of "s3\<lparr>tick := tick s3 + 2\<rparr>"] last
  have "bookings s' = bookings s3" "accounts s' = accounts s3" unfolding run_bind_eq [OF upd] by simp_all
  moreover have "nb = rb" using last by (auto split: prod.splits)
  moreover have "b \<in> set (bookings s)" "b_id b = i" using find_SomeD [OF c(2)] by simp_all
  then have "b_id rb \<noteq> i" using s3(2) by auto
  ultimately show thesis using that [OF c(2,3,4)] w3 fields by simp
qed

definition paid_by :: "uuid \<Rightarrow> world \<Rightarrow> int" where
  "paid_by tx s = (\<Sum>b \<leftarrow> filter (\<lambda>b. b_transaction_id b = tx \<and> b_status b \<noteq> BookingCancelled) (bookings s). b_price_paid b)"

text \<open>
  Rescheduling never cancels the original: when it succeeds the old booking is stored as it was,
  next to the confirmed replacement, so that the bookings that one payment backs are worth its
  amount once more than before. No money moves.
\<close>

theorem reschedule_keeps_original:
  assumes "run_state (RescheduleBooking v u i req) s = (Inr nb, s')"
  shows "\<exists>b. find (\<lambda>b. b_id b = i) (bookings s) = Some b \<and> find (\<lambda>b. b_id b = i) (bookings s') = Some b \<and>
    b_user_id b = u \<and> b_status b = BookingRescheduled \<and> b_status nb = BookingConfirmed \<and> b_id nb \<noteq> i \<and>
    b_ticket_code nb = ''RSCH-'' @ b_ticket_code b \<and>
    paid_by (b_transaction_id b) s' = paid_by (b_transaction_id b) s + b_price_paid b \<and> accounts s' = accounts s"
  using assms by (rule reschedule_cases) (auto simp: find_append paid_by_def)

definition sample_reschedule :: reschedule_request where
  "sample_reschedule = \<lparr>hq_new_vehicle_ref = ''V2'', hq_new_departure_time = ''2026-05-29T07:00:00Z'', hq_new_seat_number = ''1B''\<rparr>"

lemma reschedule_keeps_original_witness:
  "paid_by ''t0'' disrupted_world = 50000 \<and>
   paid_by ''t0'' (snd (run_state (RescheduleBooking sample_dispatcher ''ada'' ''b1'' sample_reschedule) disrupted_world)) = 75000"
proof -
  let ?run = "run_state (RescheduleBooking sample_dispatcher ''ada'' ''b1'' sample_reschedule) disrupted_world"
  have "succeeded (fst ?run)" by code_simp
  then obtain nb where "?run = (Inr nb, snd ?run)" by (cases "fst ?run") (auto simp: prod_eq_iff)
  from reschedule_keeps_original [OF this] obtain b where
    b: "find (\<lambda>b. b_id b = ''b1'') (bookings disrupted_world) = Some b"
      "paid_by (b_transaction_id b) (snd ?run) = paid_by (b_transaction_id b) disrupted_world + b_price_paid b" by blast
  have "map_option b_price_paid (find (\<lambda>b. b_id b = ''b1'') (bookings disrupted_world)) = Some 25000"
    "map_option b_transaction_id (find (\<lambda>b. b_id b = ''b1'') (bookings disrupted_world)) = Some ''t0''"
    "paid_by ''t0'' disrupted_world = 50000" by code_simp+
  with b show ?thesis by simp
qed

section \<open>Reports of operators\<close>

text \<open>What a report may do to a booking: nothing, or mark one that it affects.\<close>

definition marked :: "(travel_booking \<Rightarrow> bool) \<Rightarrow> travel_booking \<Rightarrow> travel_booking \<Rightarrow> bool" where
  "marked p b b' \<longleftrightarrow> b' = b \<or> p b \<and> b' = b\<lparr>b_status := BookingRescheduled, b_updated_at := b_updated_at b'\<rparr>"

lemma marked_iff:
  "marked p b b' \<longleftrightarrow> b' = b \<or> p b \<and> (\<exists>t. b' = b\<lparr>b_status := BookingRescheduled, b_updated_at := t\<rparr>)"
proof -
  have "b' = b\<lparr>b_status := BookingRescheduled, b_updated_at := b_updated_at b'\<rparr>"
    if "b' = b\<lparr>b_status := BookingRescheduled, b_updated_at := t\<rparr>" for t using that by simp
  then show ?thesis unfolding marked_def by blast
qed

definition reported :: "(travel_booking \<Rightarrow> bool) \<Rightarrow> world \<Rightarrow> world \<Rightarrow> bool" where
  "reported p s s' \<longleftrightarrow> accounts s' = accounts s \<and> transactions s' = transactions s \<and> users s' = users s \<and>
     list_all2 (marked p) (bookings s) (bookings s')"

lemma reported_refl [simp]: "reported p s s"
  by (simp add: reported_def marked_def list.rel_refl)

lemma on_tables_reported [simp]: "on_tables (reported p s)"
  by (simp add: on_tables_def reported_def accounts_def wallet_of_def)

lemma reported_bookings: "reported p s s' \<Longrightarrow> bookings x = bookings s' \<Longrightarrow> wallets x = wallets s' \<Longrightarrow>
    transactions x = transactions s' \<Longrightarrow> users x = users s' \<Longrightarrow> reported p s x"
  using accounts_wallets [of x s'] by (simp add: reported_def)

lemma marked_again:
  "marked p c x \<Longrightarrow> p c \<Longrightarrow> marked p c (x\<lparr>b_status := BookingRescheduled, b_updated_at := t\<rparr>)"
  by (auto simp: marked_iff)

lemma marked_id: "marked p c x \<Longrightarrow> b_id x = b_id c"
  by (auto simp: marked_iff)

lemma marked_rows:
  assumes "list_all2 (marked p) (bookings s) bs" and "distinct (map b_id (bookings s))"
    and "b \<in> set (bookings s)" and "p b"
  shows "list_all2 (marked p) (bookings s)
    (set_rows (\<lambda>x. b_id x = b_id b) (\<lambda>x. x\<lparr>b_status := BookingRescheduled, b_updated_at := t\<rparr>) bs)"
  unfolding list_all2_conv_all_nth
proof (intro conjI allI impI)
  show len: "length (bookings s) = length (set_rows (\<lambda>x. b_id x = b_id b)
      (\<lambda>x. x\<lparr>b_status := BookingRescheduled, b_updated_at := t\<rparr>) bs)"
    using assms(1) by (simp add: list_all2_lengthD)
  fix n assume n: "n < length (bookings s)"
  with assms(1) have "marked p (bookings s ! n) (bs ! n)" "n < length bs"
    by (auto simp: list_all2_conv_all_nth)
  moreover have "p (bookings s ! n)" if "b_id (bookings s ! n) = b_id b"
    using unique_key [OF assms(2) nth_mem [OF n] assms(3) that] assms(4) by metis
  ultimately show "marked p (bookings s ! n) (set_rows (\<lambda>x. b_id x = b_id b)
      (\<lambda>x. x\<lparr>b_status := BookingRescheduled, b_updated_at := t\<rparr>) bs ! n)"
    by (simp add: set_rows_def marked_id marked_again)
qed

lemma keeps_disrupt:
  assumes "distinct (map b_id (bookings s))" and "b \<in> set (bookings s)" and "p b"
  shows "keeps (reported p s) (disrupt v req e b)"
proof -
  have "keeps (reported p s) (CreateDisruption d)" for d
    unfolding CreateDisruption_def
    by (rule keeps_exec) (auto simp: insert_disruption_def intro: reported_bookings split: if_splits)
  moreover have "keeps (reported p s) (UpdateBookingStatus (b_id b) BookingRescheduled)"
    unfolding UpdateBookingStatus_def
  proof (intro keeps_bind keeps_time_now on_tables_reported, rule keeps_exec [OF on_tables_reported])
    fix t x x' assume r: "reported p s x" and "set_booking_status (b_id b) BookingRescheduled t x = Some x'"
    then have "x' = x\<lparr>bookings := set_rows (\<lambda>x. b_id x = b_id b)
        (\<lambda>x. x\<lparr>b_status := BookingRescheduled, b_updated_at := t\<rparr>) (bookings x)\<rparr>"
      by (auto simp: set_booking_status_def)
    with r show "reported p s x'"
      using marked_rows [of p s "bookings x", OF _ assms] by (auto simp: reported_def accounts_def wallet_of_def fun_eq_iff)
  qed
  ultimately show ?thesis
    unfolding disrupt_def new_disruption_def by (intro keeps_intros) auto
qed

lemma keeps_disrupt_all:
  assumes "distinct (map b_id (bookings s))" and "\<forall>b \<in> set found. b \<in> set (bookings s) \<and> p b"
  shows "keeps (reported p s) (disrupt_all v req e found n)"
  using assms(2)
  by (induction found arbitrary: n) (auto intro!: keeps_intros keeps_disrupt [OF assms(1)])

text \<open>
  C38. A report of an operator moves no money and touches no transaction and no user; a booking is either left
  as it was or, if it is one of those that the report describes, marked \<open>rescheduled\<close>. A report
  without a valid key or departure time changes nothing at all.
\<close>

theorem dispatch_marks_affected_only:
  assumes "distinct (map b_id (bookings s))" and "run_state (HandleDispatchEvent v req) s = (r, s')"
  shows "if succeeded (verifyOperatorKey v (dq_operator_code req) (dq_api_key req)) \<and>
            dv_parse_rfc3339 v (dq_departure_time req) \<noteq> None
    then reported (affected (dq_operator_code req) (dq_vehicle_ref req) (dq_origin req) (dq_destination req)
           (the (dv_parse_rfc3339 v (dq_departure_time req)))) s s'
    else s' = s \<and> \<not> succeeded r"
proof (cases "succeeded (verifyOperatorKey v (dq_operator_code req) (dq_api_key req)) \<and>
    dv_parse_rfc3339 v (dq_departure_time req) \<noteq> None")
  case False
  with assms(2) show ?thesis by (auto simp: HandleDispatchEvent_def split: sum.splits option.splits)
next
  case True
  then obtain t where t: "dv_parse_rfc3339 v (dq_departure_time req) = Some t" by auto
  let ?p = "affected (dq_operator_code req) (dq_vehicle_ref req) (dq_origin req) (dq_destination req) t"
  obtain ev s1 where ev: "run_state (new_event v req t) s = (ev, s1)" and s1: "s1 = step (step (step s))"
    by (simp add: new_event_def)
  let ?k = "\<lambda>ev. \<lambda>found. if found = [] then ok \<lparr>de_event_id = d_id ev, de_affected_bookings = 0, de_sms_dispatched = 0\<rparr>
      else do { smsSent \<leftarrow> disrupt_all v req (d_id ev) found 0; _ \<leftarrow> MarkNotified (d_id ev);
        ok \<lparr>de_event_id = d_id ev, de_affected_bookings = int (length found), de_sms_dispatched = smsSent\<rparr> }"
  have rest: "run_state (or_return (CreateEvent ev) (Wrap ''failed to record event'') (\<lambda>_.
      or_return (FindAffectedBookings (dq_operator_code req) (dq_vehicle_ref req) (dq_origin req)
        (dq_destination req) t) (Wrap ''failed to find affected bookings'') (?k ev))) s1 = (r, s')"
    using assms(2) True unfolding HandleDispatchEvent_def t option.case
    by (cases "verifyOperatorKey v (dq_operator_code req) (dq_api_key req)") (simp_all add: ev)
  have mark: "keeps (reported ?p s) (MarkNotified e)" for e unfolding MarkNotified_def
    by (intro keeps_intros on_tables_reported keeps_exec) (auto intro: reported_bookings)
  have "keeps (reported ?p s) (CreateEvent ev)" unfolding CreateEvent_def
    by (rule keeps_exec) (auto intro: reported_bookings split: if_splits)
  moreover have "reported ?p s s1" unfolding s1 by (intro reported_bookings [OF reported_refl]) simp_all
  ultimately have e1: "reported ?p s (snd (run_state (CreateEvent ev) s1))" by (rule keepsD)
  from rest have "reported ?p s s'"
  proof (cases rule: or_return_cases)
    case (returned e)
    with e1 show ?thesis by simp
  next
    case (continued x s2)
    then have s2: "reported ?p s s2" "bookings s2 = bookings s"
      using e1 by (auto elim!: exec_success simp: CreateEvent_def s1 split: if_splits)
    from continued(2) show ?thesis
    proof (cases rule: or_return_cases)
      case (returned e)
      then have "s' = step s2" by (auto simp: FindAffectedBookings_def run_query_all split: if_splits)
      with s2 show ?thesis by (simp add: on_tables_step)
    next
      case (continued found s3)
      then have s3: "s3 = step s2" and found: "found = filter ?p (bookings s)"
        using s2(2) by (auto simp: FindAffectedBookings_def run_query_all split: if_splits)
      have "keeps (reported ?p s) (?k ev found)"
        by (intro keeps_if keeps_return keeps_bind mark keeps_disrupt_all [OF assms(1)]) (simp add: found)
      from keeps_run [OF this continued(2)] s2(1) s3 show ?thesis by (simp add: on_tables_step)
    qed
  qed
  with True t show ?thesis by simp
qed

lemma dispatch_marks_affected_only_witness:
  "map b_status (bookings (snd (run_state (HandleDispatchEvent sample_dispatcher (sample_event ''key'')) booked_world))) =
     [BookingRescheduled, BookingBoarded] \<and>
   accounts (snd (run_state (HandleDispatchEvent sample_dispatcher (sample_event ''key'')) booked_world)) = accounts booked_world \<and>
   snd (run_state (HandleDispatchEvent sample_dispatcher (sample_event ''guess'')) booked_world) = booked_world"
proof -
  let ?run = "\<lambda>k. run_state (HandleDispatchEvent sample_dispatcher (sample_event k)) booked_world"
  have d: "distinct (map b_id (bookings booked_world))" by code_simp
  have "succeeded (verifyOperatorKey sample_dispatcher ''GIGM'' ''key'')"
    "\<not> succeeded (verifyOperatorKey sample_dispatcher ''GIGM'' ''guess'')"
    "dv_parse_rfc3339 sample_dispatcher t = Some 1780003600000" for t
    by (code_simp, code_simp, simp add: sample_dispatcher_def)
  with dispatch_marks_affected_only [OF d prod.collapse [symmetric], of sample_dispatcher "sample_event ''key''"]
    dispatch_marks_affected_only [OF d prod.collapse [symmetric], of sample_dispatcher "sample_event ''guess''"]
  have "accounts (snd (?run ''key'')) = accounts booked_world" "snd (?run ''guess'') = booked_world"
    by (simp_all add: sample_event_def reported_def)
  moreover have "map b_status (bookings (snd (?run ''key''))) = [BookingRescheduled, BookingBoarded]" by code_simp
  ultimately show ?thesis by simp
qed

end
