(* ===== verification/Operators.thy ===== *)
theory Operators
  imports Store Encoding Loyalty Dates
begin

text \<open>
  Bus and flight operators: the search results of \<open>internal/models/travel.go\<close>, the interfaces of
  \<open>internal/services/travel/operators/operator.go\<close> and the sandbox adapter of
  \<open>travu_adapter.go\<close> that \<open>cmd/api/main.go\<close> installs for every bus operator. An operation of
  an operator is a function of the tick, since it may answer differently each time. \<open>float64\<close>
  values are kept as the rationals they stand for.
\<close>

section \<open>Offers\<close>

record seat =
  se_number :: string
  se_available :: bool
  se_class :: string

record seat_row =
  sr_row :: int
  sr_seats :: "seat list"

record bus_search_result =
  bs_operator_code :: string
  bs_operator_name :: string
  bs_origin :: string
  bs_destination :: string
  bs_departure_time :: time
  bs_arrival_time :: time
  bs_price_kobo :: int
  bs_price_ngn :: rat
  bs_seats_available :: int
  bs_vehicle_ref :: string
  bs_vehicle_class :: string
  bs_seat_layout :: "seat_row list"
  bs_rating :: rat

record flight_search_result =
  fs_flight_number :: string
  fs_airline :: string
  fs_origin :: string
  fs_destination :: string
  fs_departure_time :: time
  fs_arrival_time :: time
  fs_duration :: string
  fs_cabin_class :: string
  fs_price_kobo :: int
  fs_price_ngn :: rat
  fs_seats_available :: int
  fs_gds_ref :: string
  fs_stops :: int

section \<open>Interfaces\<close>

record bus_search_request =
  br_origin :: string
  br_destination :: string
  br_departure_date :: string

record flight_search_request =
  fr_origin :: string
  fr_destination :: string
  fr_departure_date :: string
  fr_cabin_class :: string
  fr_adults :: int

record passenger_info =
  ps_full_name :: string
  ps_email :: string
  ps_phone :: string

record bus_operator =
  bo_code :: string
  bo_name :: string
  bo_search :: "nat \<Rightarrow> bus_search_request \<Rightarrow> bus_search_result list res"
  bo_hold :: "nat \<Rightarrow> string \<Rightarrow> string \<Rightarrow> string res"
  bo_confirm :: "nat \<Rightarrow> string \<Rightarrow> passenger_info \<Rightarrow> string res"
  bo_cancel :: "nat \<Rightarrow> string \<Rightarrow> unit res"

text \<open>\<open>PriceOffer\<close> answers a pointer, which may be nil.\<close>

record flight_operator =
  fo_code :: string
  fo_search :: "nat \<Rightarrow> flight_search_request \<Rightarrow> flight_search_result list res"
  fo_price_offer :: "nat \<Rightarrow> string \<Rightarrow> flight_search_result option res"
  fo_book :: "nat \<Rightarrow> string \<Rightarrow> passenger_info \<Rightarrow> string res"

section \<open>The sandbox adapter\<close>

record travu_adapter =
  ta_op_code :: string
  ta_op_name :: string

text \<open>
  \<open>time.Parse("2006-01-02 15:04", date + " 08:00")\<close>: blanks before the hour are skipped, so that
  blanks at the end of the date do no harm.
\<close>

definition travu_departure :: "string \<Rightarrow> time" where
  "travu_departure date =
     (case parse_date (rev (dropWhile (\<lambda>c. c = CHR '' '') (rev date))) of
        None \<Rightarrow> zero_time | Some t \<Rightarrow> t + hours 8)"

definition sandbox_seat :: "string \<Rightarrow> bool \<Rightarrow> seat" where
  "sandbox_seat n available = \<lparr>se_number = n, se_available = available, se_class = []\<rparr>"

definition travu_search :: "travu_adapter \<Rightarrow> bus_search_request \<Rightarrow> bus_search_result list res" where
  "travu_search t req =
     (let departureTime = travu_departure (br_departure_date req); arrivalTime = departureTime + hours 6
      in Inr [\<lparr>bs_operator_code = ta_op_code t, bs_operator_name = ta_op_name t,
        bs_origin = br_origin req, bs_destination = br_destination req,
        bs_departure_time = departureTime, bs_arrival_time = arrivalTime,
        bs_price_kobo = 3500000, bs_price_ngn = 35000, bs_seats_available = 12,
        bs_vehicle_ref = ''VEH-'' @ ta_op_code t @ ''-01'', bs_vehicle_class = ''Executive Premium'',
        bs_seat_layout =
          [\<lparr>sr_row = 0, sr_seats = [sandbox_seat ''1A'' True, sandbox_seat ''1B'' False]\<rparr>,
           \<lparr>sr_row = 0, sr_seats = [sandbox_seat ''2A'' True, sandbox_seat ''2B'' True]\<rparr>],
        bs_rating = 47 / 10\<rparr>])"

text \<open>\<open>clock n\<close> is what \<open>time.Now()\<close> reads at tick \<open>n\<close>.\<close>

definition travu_hold :: "(nat \<Rightarrow> time) \<Rightarrow> travu_adapter \<Rightarrow> nat \<Rightarrow> string \<Rightarrow> string \<Rightarrow> string res" where
  "travu_hold clock t n vehicleRef seatNumber =
     Inr (''HOLD-REF-'' @ ta_op_code t @ ''-'' @ show_int (clock n smod 10000))"

definition travu_confirm :: "(nat \<Rightarrow> time) \<Rightarrow> travu_adapter \<Rightarrow> nat \<Rightarrow> string \<Rightarrow> passenger_info \<Rightarrow> string res" where
  "travu_confirm clock t n holdRef passenger =
     Inr (''TKT-'' @ ta_op_code t @ ''-'' @ show_int (clock n smod 100000))"

definition travu_cancel :: "travu_adapter \<Rightarrow> string \<Rightarrow> unit res" where
  "travu_cancel t holdRef = Inr ()"

definition NewTravuBusAdapter :: "string \<Rightarrow> string \<Rightarrow> travu_adapter" where
  "NewTravuBusAdapter opCode opName = \<lparr>ta_op_code = opCode, ta_op_name = opName\<rparr>"

definition NewSandboxBusOperator :: "(nat \<Rightarrow> time) \<Rightarrow> string \<Rightarrow> string \<Rightarrow> bus_operator" where
  "NewSandboxBusOperator clock opCode opName =
     (let t = NewTravuBusAdapter opCode opName
      in \<lparr>bo_code = ta_op_code t, bo_name = ta_op_name t, bo_search = (\<lambda>_. travu_search t),
          bo_hold = travu_hold clock t, bo_confirm = travu_confirm clock t, bo_cancel = (\<lambda>_. travu_cancel t)\<rparr>)"

definition buildBusOperators :: "(nat \<Rightarrow> time) \<Rightarrow> bus_operator list" where
  "buildBusOperators clock =
     [NewSandboxBusOperator clock ''GIGM'' ''God is Good Motors'', NewSandboxBusOperator clock ''ABC'' ''ABC Transport'']"

end
