(* ===== verification/Tickets.thy ===== *)
theory Tickets
  imports Store Encoding
begin

text \<open>
  Offline tickets: \<open>pkg/crypto/qr.go\<close>. HMAC-SHA256, SHA-256 and the JSON of a ticket are
  parameters. The envelope is a map of two strings without characters that JSON escapes, so its
  text is written out; reading an envelope is a parameter again, since a scanner may be shown any
  text.
\<close>

section \<open>Tickets\<close>

record ticket =
  tt_booking_id :: string
  tt_ticket_code :: string
  tt_passenger_name :: string
  tt_route :: string
  tt_departure_time :: time
  tt_seat_number :: string
  tt_operator_name :: string
  tt_issued_at :: time

record qr_codec =
  qr_marshal :: "ticket \<Rightarrow> string res"
  qr_unmarshal :: "string \<Rightarrow> ticket option"
  qr_envelope :: "string \<Rightarrow> (string \<Rightarrow> string) option"
  qr_hmac :: "string \<Rightarrow> string \<Rightarrow> string"
  qr_sha256 :: "string \<Rightarrow> string"

definition generateHMAC :: "qr_codec \<Rightarrow> string \<Rightarrow> string \<Rightarrow> string" where
  "generateHMAC c data secret = hex_string (qr_hmac c secret data)"

definition envelope_text :: "string \<Rightarrow> string \<Rightarrow> string" where
  "envelope_text d s = [CHR ''{'', CHR 0x22, CHR ''d'', CHR 0x22, CHR '':'', CHR 0x22] @ d @
     [CHR 0x22, CHR '','', CHR 0x22, CHR ''s'', CHR 0x22, CHR '':'', CHR 0x22] @ s @ [CHR 0x22, CHR ''}'']"

text \<open>The payload of the QR code and the hash that is stored with the booking.\<close>

definition GenerateOfflineQRPayload :: "qr_codec \<Rightarrow> ticket \<Rightarrow> string \<Rightarrow> (string \<times> string) program" where
  "GenerateOfflineQRPayload c t secret = do {
     now \<leftarrow> time_now;
     State_Monad.return (case qr_marshal c (t\<lparr>tt_issued_at := now\<rparr>) of
         Inl e \<Rightarrow> Inl (Wrap ''marshal ticket'' e)
       | Inr data \<Rightarrow>
           let qrPayload = EncodeToString url_alphabet
                 (envelope_text (EncodeToString std_alphabet data) (generateHMAC c data secret))
           in Inr (qrPayload, hex_string (qr_sha256 c qrPayload)))
   }"

definition VerifyOfflineQRPayload :: "qr_codec \<Rightarrow> string \<Rightarrow> string \<Rightarrow> ticket res" where
  "VerifyOfflineQRPayload c qrPayload secret =
     (case DecodeString url_alphabet qrPayload of
        None \<Rightarrow> Inl (ErrMsg ''invalid QR payload encoding'')
      | Some raw \<Rightarrow>
          (case qr_envelope c raw of
             None \<Rightarrow> Inl (ErrMsg ''malformed QR envelope'')
           | Some envelope \<Rightarrow>
               (case DecodeString std_alphabet (envelope ''d'') of
                  None \<Rightarrow> Inl (ErrMsg ''malformed ticket data'')
                | Some data \<Rightarrow>
                    if generateHMAC c data secret \<noteq> envelope ''s''
                    then Inl (ErrMsg (''QR signature invalid '' @ em_dash @ '' possible forgery''))
                    else (case qr_unmarshal c data of
                      None \<Rightarrow> Inl (ErrMsg ''corrupt ticket data'')
                    | Some t \<Rightarrow> Inr t))))"

section \<open>Facts\<close>

text \<open>
  What is assumed of \<open>encoding/json\<close>: the text of a ticket reads back as the ticket, and the
  text of an envelope as its two strings.
\<close>

definition json_sound :: "qr_codec \<Rightarrow> bool" where
  "json_sound c \<longleftrightarrow>
     (\<forall>t data. qr_marshal c t = Inr data \<longrightarrow> qr_unmarshal c data = Some t) \<and>
     (\<forall>data sig. \<exists>f. qr_envelope c (envelope_text (EncodeToString std_alphabet data) (hex_string sig)) = Some f \<and>
        f ''d'' = EncodeToString std_alphabet data \<and> f ''s'' = hex_string sig)"

text \<open>
  C39. A ticket that was issued is read back from its QR code as it was issued, with the time of
  issue, by a scanner that has the secret.
\<close>

theorem ticket_round_trip:
  assumes "json_sound c" and "run_state (GenerateOfflineQRPayload c t secret) s = (Inr (payload, hash), s')"
  shows "VerifyOfflineQRPayload c payload secret = Inr (t\<lparr>tt_issued_at := time_at s (tick s)\<rparr>)"
proof -
  let ?t = "t\<lparr>tt_issued_at := time_at s (tick s)\<rparr>"
  from assms(2) obtain data where data: "qr_marshal c ?t = Inr data" and
    payload: "payload = EncodeToString url_alphabet
      (envelope_text (EncodeToString std_alphabet data) (generateHMAC c data secret))"
    by (auto simp: GenerateOfflineQRPayload_def Let_def split: sum.splits)
  from assms(1) obtain f where "qr_envelope c (envelope_text (EncodeToString std_alphabet data) (generateHMAC c data secret)) = Some f"
    "f ''d'' = EncodeToString std_alphabet data" "f ''s'' = generateHMAC c data secret"
    unfolding json_sound_def generateHMAC_def by blast
  moreover have "qr_unmarshal c data = Some ?t" using assms(1) data by (simp add: json_sound_def)
  ultimately show ?thesis
    by (simp add: VerifyOfflineQRPayload_def payload DecodeString_EncodeToString)
qed

text \<open>
  A scanner accepts nothing but signed data: whatever text is presented, a ticket is only read
  from data that comes with its own HMAC under the secret.
\<close>

lemma accepted_tickets_are_signed:
  assumes "VerifyOfflineQRPayload c payload secret = Inr t"
  shows "\<exists>raw envelope data. DecodeString url_alphabet payload = Some raw \<and> qr_envelope c raw = Some envelope \<and>
    DecodeString std_alphabet (envelope ''d'') = Some data \<and> envelope ''s'' = generateHMAC c data secret \<and>
    qr_unmarshal c data = Some t"
  using assms by (auto simp: VerifyOfflineQRPayload_def split: option.splits if_splits)

text \<open>A codec for one ticket that parses envelopes, to apply the theorem to.\<close>

definition sample_ticket :: ticket where
  "sample_ticket = \<lparr>tt_booking_id = ''b1'', tt_ticket_code = ''TK1'', tt_passenger_name = ''Ada'',
     tt_route = ''LOS-ABV'', tt_departure_time = 0, tt_seat_number = ''3A'', tt_operator_name = ''GIGM'',
     tt_issued_at = 1700000000000\<rparr>"

definition quoted :: "string \<Rightarrow> string" where
  "quoted s = takeWhile (\<lambda>c. c \<noteq> CHR 0x22) s"

definition sample_codec :: qr_codec where
  "sample_codec = \<lparr>
     qr_marshal = (\<lambda>t. if t = sample_ticket then Inr ''{tc: TK1}'' else Inl (ErrMsg ''json'')),
     qr_unmarshal = (\<lambda>_. Some sample_ticket),
     qr_envelope = (\<lambda>raw. let d = quoted (drop 6 raw)
       in Some (\<lambda>k. if k = ''d'' then d else quoted (drop (length d + 13) raw))),
     qr_hmac = (\<lambda>secret data. secret @ data), qr_sha256 = (\<lambda>s. take 4 s)\<rparr>"

lemma quoted_append: "CHR 0x22 \<notin> set s \<Longrightarrow> quoted (s @ CHR 0x22 # r) = s"
  unfolding quoted_def by (induction s) auto

lemma no_quote_encoded: "CHR 0x22 \<notin> set (EncodeToString std_alphabet s)"
proof
  assume "CHR 0x22 \<in> set (EncodeToString std_alphabet s)"
  from bspec [OF set_encode_bytes [OF alphabets(1) byte_bound] this [unfolded EncodeToString_def]]
  have "CHR 0x22 = CHR ''='' \<or> CHR 0x22 \<in> set std_alphabet" .
  moreover have "CHR 0x22 \<notin> set std_alphabet" by code_simp
  moreover have "CHR 0x22 \<noteq> CHR ''=''" by simp
  ultimately show False by blast
qed

lemma no_quote_hex: "CHR 0x22 \<notin> set (hex_string s)"
proof -
  have "CHR 0x22 \<notin> set hex_digits" "length hex_digits = 16" by code_simp+
  moreover have "(of_char c :: nat) div 16 < 16" "(of_char c :: nat) mod 16 < 16" for c
  proof -
    have "(of_char c :: nat) < 256" by simp
    then show "(of_char c :: nat) div 16 < 16" by (simp add: div_less_iff_less_mult)
  qed simp
  ultimately have "hex_digits ! (of_char c div 16) \<noteq> CHR 0x22" "hex_digits ! (of_char c mod 16) \<noteq> CHR 0x22" for c
    by (metis nth_mem)+
  then have "CHR 0x22 \<notin> set [hex_digits ! (of_char c div 16), hex_digits ! (of_char c mod 16)]" for c
    by (metis empty_iff list.set(1) set_ConsD)
  then show ?thesis unfolding hex_string_def set_concat set_map by blast
qed

lemma json_sound_sample: "json_sound sample_codec"
proof -
  have "\<exists>f. qr_envelope sample_codec (envelope_text d h) = Some f \<and> f ''d'' = d \<and> f ''s'' = h"
    if "CHR 0x22 \<notin> set d" "CHR 0x22 \<notin> set h" for d h
  proof -
    have drop1: "drop 6 (envelope_text d h) = d @ CHR 0x22 # [CHR '','', CHR 0x22, CHR ''s'', CHR 0x22, CHR '':'', CHR 0x22]
        @ h @ [CHR 0x22, CHR ''}'']" by (simp add: envelope_text_def)
    have "drop (length d + 7) (drop 6 (envelope_text d h)) = h @ [CHR 0x22, CHR ''}'']"
      unfolding drop1 by simp
    then have drop2: "drop (length d + 13) (envelope_text d h) = h @ CHR 0x22 # [CHR ''}'']"
      by (simp add: add.commute)
    show ?thesis
      using quoted_append [OF that(1)] quoted_append [OF that(2)] drop1 drop2
      by (auto simp: sample_codec_def Let_def)
  qed
  then show ?thesis
    using no_quote_encoded no_quote_hex by (simp add: json_sound_def) (auto simp: sample_codec_def split: if_splits)
qed

lemma ticket_round_trip_witness:
  "\<exists>payload. VerifyOfflineQRPayload sample_codec payload ''k'' = Inr sample_ticket"
proof -
  let ?run = "run_state (GenerateOfflineQRPayload sample_codec sample_ticket ''k'') sample_world"
  have "succeeded (fst ?run)" by code_simp
  then obtain p h where "?run = (Inr (p, h), snd ?run)" by (cases "fst ?run") (auto simp: prod_eq_iff)
  from ticket_round_trip [OF json_sound_sample this] have
    "VerifyOfflineQRPayload sample_codec p ''k'' = Inr (sample_ticket\<lparr>tt_issued_at := 1700000000000\<rparr>)"
    by (simp add: sample_world_def empty_world_def)
  then show ?thesis by (auto simp: sample_ticket_def)
qed

end
