(* ===== verification/Travel.thy ===== *)
theory Travel
  imports Operators Tickets TravelRepo Reconciliation "HOL-Library.Multiset"
begin

text \<open>
  \<open>internal/services/travel/travel_service.go\<close>: searching and booking buses and flights. The
  search cache in MongoDB, the order in which concurrent searches answer, the permutation that
  \<open>sort.Slice\<close> chooses and the SMS gateway are parameters.
\<close>

section \<open>The service\<close>

record bus_book_request =
  xb_origin :: string
  xb_destination :: string
  xb_operator_code :: string
  xb_vehicle_ref :: string
  xb_seat_number :: string
  xb_departure_date :: string
  xb_passenger :: passenger_info

record flight_book_request =
  xf_gds_ref :: string
  xf_passenger :: passenger_info

record booking_response =
  rs_booking :: travel_booking
  rs_offline_qr :: string
  rs_sms_sent :: bool

text \<open>The values a MongoDB document holds or, read back into an interface, may hold.\<close>

datatype bson =
    BString string
  | BInt64 int
  | BInt32 int
  | BGoInt int
  | BDouble rat
  | BGoTime time
  | BDateTime time
  | BSeats "seat_row list"
  | BArray "bson list"

type_synonym document = "(string \<times> bson) list"

record travel_service =
  tv_bus_operators :: "bus_operator list"
  tv_flight_operators :: "flight_operator list"
  tv_get_cache :: "nat \<Rightarrow> string \<Rightarrow> document list res"
  tv_set_cache :: "nat \<Rightarrow> string \<Rightarrow> document list \<Rightarrow> unit res"
  tv_print :: "bson \<Rightarrow> string"
  tv_completion :: "nat \<Rightarrow> nat list"
  tv_sort_bus :: "bus_search_result list \<Rightarrow> bus_search_result list"
  tv_sort_flights :: "flight_search_result list \<Rightarrow> flight_search_result list"
  tv_sms :: "nat \<Rightarrow> string \<Rightarrow> string \<Rightarrow> string \<Rightarrow> time \<Rightarrow> unit res"
  tv_loyalty :: bool
  tv_qr :: qr_codec
  tv_qr_secret :: string

definition route :: "string \<Rightarrow> string \<Rightarrow> string" where
  "route origin destination = origin @ '' '' @ right_arrow @ '' '' @ destination"

section \<open>The search cache\<close>

definition encode_bus_result :: "bus_search_result \<Rightarrow> document" where
  "encode_bus_result r =
     [(''operator_code'', BString (bs_operator_code r)), (''operator_name'', BString (bs_operator_name r)),
      (''origin'', BString (bs_origin r)), (''destination'', BString (bs_destination r)),
      (''departure_time'', BGoTime (bs_departure_time r)), (''arrival_time'', BGoTime (bs_arrival_time r)),
      (''price_kobo'', BInt64 (bs_price_kobo r)), (''price_ngn'', BDouble (bs_price_ngn r)),
      (''seats_available'', BGoInt (bs_seats_available r)), (''vehicle_ref'', BString (bs_vehicle_ref r)),
      (''vehicle_class'', BString (bs_vehicle_class r)), (''rating'', BDouble (bs_rating r)),
      (''seat_layout'', BSeats (bs_seat_layout r))]"

definition encodeBusResults :: "bus_search_result list \<Rightarrow> document list" where
  "encodeBusResults results = map encode_bus_result results"

text \<open>\<open>fmt.Sprintf("%v", m[key])\<close>.\<close>

definition sprint_v :: "(bson \<Rightarrow> string) \<Rightarrow> document \<Rightarrow> string \<Rightarrow> string" where
  "sprint_v print m key =
     (case map_of m key of None \<Rightarrow> ''<nil>'' | Some (BString s) \<Rightarrow> s | Some b \<Rightarrow> print b)"

definition decode_price :: "document \<Rightarrow> bus_search_result \<Rightarrow> bus_search_result" where
  "decode_price m r =
     (case map_of m ''price_kobo'' of
        Some (BInt64 p) \<Rightarrow> r\<lparr>bs_price_kobo := p, bs_price_ngn := ngn_of p\<rparr>
      | Some (BInt32 p) \<Rightarrow> r\<lparr>bs_price_kobo := p, bs_price_ngn := ngn_of p\<rparr>
      | Some (BDouble p) \<Rightarrow> r\<lparr>bs_price_kobo := int64_of p, bs_price_ngn := float64 (p / 100)\<rparr>
      | _ \<Rightarrow> r)"

definition decode_seats :: "document \<Rightarrow> bus_search_result \<Rightarrow> bus_search_result" where
  "decode_seats m r =
     (case map_of m ''seats_available'' of
        Some (BInt32 n) \<Rightarrow> r\<lparr>bs_seats_available := n\<rparr>
      | Some (BInt64 n) \<Rightarrow> r\<lparr>bs_seats_available := n\<rparr>
      | Some (BDouble n) \<Rightarrow> r\<lparr>bs_seats_available := int64_of n\<rparr>
      | _ \<Rightarrow> r)"

definition decode_rating :: "document \<Rightarrow> bus_search_result \<Rightarrow> bus_search_result" where
  "decode_rating m r = (case map_of m ''rating'' of Some (BDouble q) \<Rightarrow> r\<lparr>bs_rating := q\<rparr> | _ \<Rightarrow> r)"

definition decode_times :: "document \<Rightarrow> bus_search_result \<Rightarrow> bus_search_result" where
  "decode_times m r =
     (let r1 = (case map_of m ''departure_time'' of Some (BGoTime t) \<Rightarrow> r\<lparr>bs_departure_time := t\<rparr> | _ \<Rightarrow> r)
      in case map_of m ''arrival_time'' of Some (BGoTime t) \<Rightarrow> r1\<lparr>bs_arrival_time := t\<rparr> | _ \<Rightarrow> r1)"

definition decode_bus_result :: "(bson \<Rightarrow> string) \<Rightarrow> document \<Rightarrow> bus_search_result" where
  "decode_bus_result print m =
     decode_times m (decode_rating m (decode_seats m (decode_price m
       \<lparr>bs_operator_code = sprint_v print m ''operator_code'', bs_operator_name = sprint_v print m ''operator_name'',
        bs_origin = sprint_v print m ''origin'', bs_destination = sprint_v print m ''destination'',
        bs_departure_time = zero_time, bs_arrival_time = zero_time, bs_price_kobo = 0, bs_price_ngn = 0,
        bs_seats_available = 0, bs_vehicle_ref = sprint_v print m ''vehicle_ref'',
        bs_vehicle_class = sprint_v print m ''vehicle_class'', bs_seat_layout = [], bs_rating = 0\<rparr>)))"

definition decodeBusResults :: "(bson \<Rightarrow> string) \<Rightarrow> document list \<Rightarrow> bus_search_result list" where
  "decodeBusResults print raw = map (decode_bus_result print) raw"

section \<open>Searching\<close>

definition cache_key :: "bus_search_request \<Rightarrow> string" where
  "cache_key req = ''bus:'' @ br_origin req @ '':'' @ br_destination req @ '':'' @ br_departure_date req"

text \<open>The searches append their results under a mutex, in the order in which they answer.\<close>

definition in_order :: "nat list \<Rightarrow> 'a list \<Rightarrow> 'a list" where
  "in_order order xs = map (\<lambda>i. xs ! i) (filter (\<lambda>i. i < length xs) order)"

fun gather :: "('o \<Rightarrow> nat \<Rightarrow> 'r list res) \<Rightarrow> 'o list \<Rightarrow> 'r list \<Rightarrow> (world, 'r list) state" where
  "gather search [] all = State_Monad.return all"
| "gather search (op # ops) all = do {
     r \<leftarrow> call (search op);
     gather search ops (case r of Inl _ \<Rightarrow> all | Inr results \<Rightarrow> all @ results)
   }"

definition SearchBus :: "travel_service \<Rightarrow> bus_search_request \<Rightarrow> bus_search_result list program" where
  "SearchBus v req = do {
     cached \<leftarrow> call (\<lambda>n. tv_get_cache v n (cache_key req));
     case cached of
       Inr docs \<Rightarrow> ok (decodeBusResults (tv_print v) docs)
     | Inl _ \<Rightarrow> do {
         order \<leftarrow> call (tv_completion v);
         found \<leftarrow> gather (\<lambda>op n. bo_search op n req) (in_order order (tv_bus_operators v)) [];
         if found = [] then fail (ErrMsg ''no trips found for this route and date'')
         else do {
           let all = tv_sort_bus v found;
           _ \<leftarrow> call (\<lambda>n. tv_set_cache v n (cache_key req) (encodeBusResults all));
           ok all
         }
       }
   }"

definition SearchFlights :: "travel_service \<Rightarrow> flight_search_request \<Rightarrow> flight_search_result list program" where
  "SearchFlights v req = do {
     let req1 = (if fr_adults req = 0 then req\<lparr>fr_adults := 1\<rparr> else req);
     let req2 = (if fr_cabin_class req1 = [] then req1\<lparr>fr_cabin_class := ''economy''\<rparr> else req1);
     order \<leftarrow> call (tv_completion v);
     found \<leftarrow> gather (\<lambda>op n. fo_search op n req2) (in_order order (tv_flight_operators v)) [];
     if found = [] then fail (ErrMsg ''no flights found for this route and date'')
     else ok (tv_sort_flights v found)
   }"

section \<open>Live offers\<close>

definition findBusOperator :: "travel_service \<Rightarrow> string \<Rightarrow> bus_operator option" where
  "findBusOperator v code = find (\<lambda>op. bo_code op = code) (tv_bus_operators v)"

definition findFlightOperator :: "travel_service \<Rightarrow> string \<Rightarrow> flight_operator option" where
  "findFlightOperator v code = find (\<lambda>op. fo_code op = code) (tv_flight_operators v)"

definition seatIsAvailable :: "seat_row list \<Rightarrow> string \<Rightarrow> bool" where
  "seatIsAvailable layout seatNumber =
     (if layout = [] then True
      else case find (\<lambda>s. se_number s = seatNumber) (concat (map sr_seats layout)) of
             Some s \<Rightarrow> se_available s | None \<Rightarrow> False)"

fun pick_offer :: "bus_book_request \<Rightarrow> bus_search_result list \<Rightarrow> bus_search_result res" where
  "pick_offer req [] = Inl (ErrMsg ''selected trip is no longer available'')"
| "pick_offer req (result # results) =
     (if bs_vehicle_ref result \<noteq> xb_vehicle_ref req then pick_offer req results
      else if \<not> seatIsAvailable (bs_seat_layout result) (xb_seat_number req)
      then Inl (ErrMsg ''selected seat is no longer available'')
      else if bs_price_kobo result \<le> 0
      then Inl (ErrMsg ''operator returned invalid fare for selected trip'')
      else Inr result)"

definition search_request_of :: "bus_book_request \<Rightarrow> bus_search_request" where
  "search_request_of req = \<lparr>br_origin = xb_origin req, br_destination = xb_destination req,
     br_departure_date = xb_departure_date req\<rparr>"

definition findLiveBusOffer :: "bus_operator \<Rightarrow> bus_book_request \<Rightarrow> bus_search_result program" where
  "findLiveBusOffer op req =
     or_return (call (\<lambda>n. bo_search op n (search_request_of req)))
       (Wrap ''could not validate live bus inventory'') (\<lambda>results.
     State_Monad.return (pick_offer req results))"

definition firstNonZeroTime :: "time \<Rightarrow> time \<Rightarrow> time" where
  "firstNonZeroTime primary fallback = (if primary \<noteq> zero_time then primary else fallback)"

section \<open>Booking\<close>

definition travel_tx ::
  "wallet \<Rightarrow> string \<Rightarrow> service_category \<Rightarrow> int \<Rightarrow> string \<Rightarrow> string \<Rightarrow> (world, transaction) state" where
  "travel_tx wallet ref_prefix category price provider narration = do {
     txID \<leftarrow> uuid_new;
     u \<leftarrow> uuid_new;
     created \<leftarrow> time_now;
     updated \<leftarrow> time_now;
     State_Monad.return \<lparr>t_id = txID, t_user_id = w_user_id wallet, t_wallet_id = w_id wallet,
       t_reference = ref_prefix @ take 8 u, t_external_ref = [], t_type = TxTypeDebit, t_category = category,
       t_amount = price, t_commission = 0, t_fee = 0, t_balance_before = w_balance wallet,
       t_balance_after = i64 (w_balance wallet - price), t_status = TxProcessing, t_provider = provider,
       t_narration = narration, t_meta = [], t_reversed_tx_id = None, t_created_at = created, t_updated_at = updated\<rparr>
   }"

text \<open>
  Steps 4 and 5 of both flows: record the payment, let the operator confirm, settle the record.
  \<open>release\<close> is what else happens when the record cannot be stored.
\<close>

definition purchase ::
  "wallet \<Rightarrow> transaction \<Rightarrow> unit program \<Rightarrow> string program \<Rightarrow> string \<Rightarrow> string \<Rightarrow> string program" where
  "purchase wallet tx release confirm not_recorded not_confirmed = do {
     inserted \<leftarrow> InsertTransaction tx;
     case inserted of
       Inl e \<Rightarrow> do {
         _ \<leftarrow> CreditBalance (w_id wallet) (t_amount tx);
         _ \<leftarrow> release;
         fail (Wrap not_recorded e)
       }
     | Inr _ \<Rightarrow> do {
         confirmed \<leftarrow> confirm;
         case confirmed of
           Inl _ \<Rightarrow> do {
             _ \<leftarrow> CreditBalance (w_id wallet) (t_amount tx);
             _ \<leftarrow> UpdateTransactionStatus (t_reference tx) TxReversed [];
             fail (ErrMsg not_confirmed)
           }
         | Inr ticketCode \<Rightarrow> do {
             _ \<leftarrow> UpdateTransactionStatus (t_reference tx) TxSuccess ticketCode;
             ok ticketCode
           }
       }
   }"

text \<open>
  Steps 3 to 5 of both flows: take the fare, record it and buy the ticket. \<open>release\<close> gives back
  what the operator holds, \<open>finish\<close> goes on with the identifier of the record and the ticket code.
\<close>

definition charge ::
  "string \<Rightarrow> wallet \<Rightarrow> int \<Rightarrow> (world, transaction) state \<Rightarrow> unit program \<Rightarrow> string program \<Rightarrow> string \<Rightarrow> string \<Rightarrow>
     (uuid \<Rightarrow> string \<Rightarrow> 'a program) \<Rightarrow> 'a program" where
  "charge userID wallet price make_tx release confirm not_recorded not_confirmed finish = do {
     debited \<leftarrow> DebitWithLock NoTx userID price;
     case debited of
       Inl e \<Rightarrow> do {
         _ \<leftarrow> release;
         fail e
       }
     | Inr _ \<Rightarrow> do {
         tx \<leftarrow> make_tx;
         or_return (purchase wallet tx release confirm not_recorded not_confirmed) (\<lambda>e. e) (finish (t_id tx))
       }
   }"

text \<open>The QR code of the ticket; the booking it names is a new identifier each time.\<close>

definition ticket_qr ::
  "travel_service \<Rightarrow> string \<Rightarrow> string \<Rightarrow> string \<Rightarrow> time \<Rightarrow> string \<Rightarrow> string \<Rightarrow> (string \<times> string) program" where
  "ticket_qr v ticketCode name rt departure seatNumber operatorName = do {
     i \<leftarrow> uuid_new;
     GenerateOfflineQRPayload (tv_qr v)
       \<lparr>tt_booking_id = i, tt_ticket_code = ticketCode, tt_passenger_name = name, tt_route = rt,
        tt_departure_time = departure, tt_seat_number = seatNumber, tt_operator_name = operatorName,
        tt_issued_at = zero_time\<rparr> (tv_qr_secret v)
   }"

text \<open>Steps 8 and 9: tell the passenger, award points.\<close>

definition announce_booking ::
  "travel_service \<Rightarrow> string \<Rightarrow> service_category \<Rightarrow> travel_booking \<Rightarrow> string \<Rightarrow> time \<Rightarrow> booking_response program" where
  "announce_booking v userID category booking qrPayload departure = do {
     smsSent \<leftarrow> (if b_passenger_phone booking \<noteq> []
                 then do {
                   r \<leftarrow> call (\<lambda>n. tv_sms v n (b_passenger_phone booking) (b_ticket_code booking)
                     (route (b_origin booking) (b_destination booking)) departure);
                   State_Monad.return (succeeded r)
                 }
                 else State_Monad.return False);
     _ \<leftarrow> (if tv_loyalty v
           then spawn (AwardPointsJob userID (b_transaction_id booking) category (b_price_paid booking))
           else State_Monad.return ());
     ok \<lparr>rs_booking = booking, rs_offline_qr = qrPayload, rs_sms_sent = smsSent\<rparr>
   }"

text \<open>
  Steps 7 to 9: the booking is stored, and announced whether or not that worked. \<open>draft\<close> is the
  booking without identifier and time stamps.
\<close>

definition persist_booking ::
  "travel_service \<Rightarrow> string \<Rightarrow> service_category \<Rightarrow> travel_booking \<Rightarrow> string \<Rightarrow> time \<Rightarrow> booking_response program" where
  "persist_booking v userID category draft qrPayload departure = do {
     i \<leftarrow> uuid_new;
     created \<leftarrow> time_now;
     updated \<leftarrow> time_now;
     let booking = draft\<lparr>b_id := i, b_created_at := created, b_updated_at := updated\<rparr>;
     _ \<leftarrow> CreateBooking booking;
     announce_booking v userID category booking qrPayload departure
   }"

definition bus_draft :: "bus_operator \<Rightarrow> bus_book_request \<Rightarrow> wallet \<Rightarrow> uuid \<Rightarrow> bus_search_result \<Rightarrow> time \<Rightarrow> string \<Rightarrow> string \<Rightarrow> travel_booking" where
  "bus_draft op req wallet txID offer departure ticketCode qrHash =
     \<lparr>b_id = [], b_user_id = w_user_id wallet, b_transaction_id = txID, b_mode = TravelBus,
      b_operator_code = xb_operator_code req, b_operator_name = bo_name op, b_origin = xb_origin req,
      b_destination = xb_destination req, b_departure_time = firstNonZeroTime (bs_departure_time offer) departure,
      b_seat_number = xb_seat_number req, b_vehicle_ref = xb_vehicle_ref req,
      b_passenger_name = ps_full_name (xb_passenger req), b_passenger_phone = ps_phone (xb_passenger req),
      b_ticket_code = ticketCode, b_status = BookingConfirmed, b_offline_cache_hash = qrHash,
      b_price_paid = bs_price_kobo offer, b_created_at = zero_time, b_updated_at = zero_time\<rparr>"

text \<open>Steps 6 to 9 of a bus booking: a QR code that cannot be made is replaced by the ticket code.\<close>

definition finish_bus ::
  "travel_service \<Rightarrow> string \<Rightarrow> bus_operator \<Rightarrow> bus_book_request \<Rightarrow> wallet \<Rightarrow> bus_search_result \<Rightarrow> uuid \<Rightarrow> string \<Rightarrow>
     booking_response program" where
  "finish_bus v userID op req wallet offer txID ticketCode = do {
     let departure = date_or_zero (xb_departure_date req);
     qr \<leftarrow> ticket_qr v ticketCode (ps_full_name (xb_passenger req)) (route (xb_origin req) (xb_destination req))
       departure (xb_seat_number req) (bo_name op);
     let (qrPayload, qrHash) = (case qr of Inl _ \<Rightarrow> (ticketCode, []) | Inr q \<Rightarrow> q);
     persist_booking v userID CategoryBusTravel (bus_draft op req wallet txID offer departure ticketCode qrHash)
       qrPayload departure
   }"

definition quote_go :: "string \<Rightarrow> string" where
  "quote_go s = [CHR 0x22] @ s @ [CHR 0x22]"

text \<open>Steps 3 to 9: pay for the live offer and book it.\<close>

definition pay_bus ::
  "travel_service \<Rightarrow> string \<Rightarrow> bus_operator \<Rightarrow> bus_book_request \<Rightarrow> string \<Rightarrow> bus_search_result \<Rightarrow> booking_response program" where
  "pay_bus v userID op req holdRef offer =
     or_return (FindByUserID userID) (\<lambda>_. ErrMsg ''wallet not found'') (\<lambda>wallet.
     charge userID wallet (bs_price_kobo offer)
       (travel_tx wallet ''FB-BUS-'' CategoryBusTravel (bs_price_kobo offer) (xb_operator_code req)
         (''Bus: '' @ ps_full_name (xb_passenger req) @ '' '' @ right_arrow @ '' '' @ xb_origin req @ '', '' @
          xb_destination req @ '' ('' @ xb_operator_code req @ '')''))
       (call (\<lambda>n. bo_cancel op n holdRef))
       (call (\<lambda>n. bo_confirm op n holdRef (xb_passenger req)))
       ''could not record bus transaction'' (''operator booking failed '' @ em_dash @ '' wallet refunded'')
       (finish_bus v userID op req wallet offer))"

definition BookBus :: "travel_service \<Rightarrow> string \<Rightarrow> bus_book_request \<Rightarrow> booking_response program" where
  "BookBus v userID req =
     (case findBusOperator v (xb_operator_code req) of
        None \<Rightarrow> fail (ErrMsg (''operator '' @ quote_go (xb_operator_code req) @ '' not supported''))
      | Some op \<Rightarrow>
          or_return (call (\<lambda>n. bo_hold op n (xb_vehicle_ref req) (xb_seat_number req)))
            (Wrap ''seat hold failed'') (\<lambda>holdRef. do {
            offer \<leftarrow> findLiveBusOffer op req;
            case offer of
              Inl e \<Rightarrow> do {
                _ \<leftarrow> call (\<lambda>n. bo_cancel op n holdRef);
                fail e
              }
            | Inr offer \<Rightarrow> pay_bus v userID op req holdRef offer
          }))"

definition flight_draft :: "flight_book_request \<Rightarrow> wallet \<Rightarrow> uuid \<Rightarrow> flight_search_result \<Rightarrow> string \<Rightarrow> string \<Rightarrow> travel_booking" where
  "flight_draft req wallet txID offer ticketCode qrHash =
     \<lparr>b_id = [], b_user_id = w_user_id wallet, b_transaction_id = txID, b_mode = TravelFlight,
      b_operator_code = fs_airline offer, b_operator_name = fs_airline offer, b_origin = fs_origin offer,
      b_destination = fs_destination offer, b_departure_time = fs_departure_time offer,
      b_seat_number = [], b_vehicle_ref = [],
      b_passenger_name = ps_full_name (xf_passenger req), b_passenger_phone = ps_phone (xf_passenger req),
      b_ticket_code = ticketCode, b_status = BookingConfirmed, b_offline_cache_hash = qrHash,
      b_price_paid = fs_price_kobo offer, b_created_at = zero_time, b_updated_at = zero_time\<rparr>"

definition finish_flight ::
  "travel_service \<Rightarrow> string \<Rightarrow> flight_book_request \<Rightarrow> wallet \<Rightarrow> flight_search_result \<Rightarrow> uuid \<Rightarrow> string \<Rightarrow>
     booking_response program" where
  "finish_flight v userID req wallet offer txID ticketCode = do {
     qr \<leftarrow> ticket_qr v ticketCode (ps_full_name (xf_passenger req)) (route (fs_origin offer) (fs_destination offer))
       (fs_departure_time offer) [] (fs_airline offer);
     let (qrPayload, qrHash) = (case qr of Inl _ \<Rightarrow> ([], []) | Inr q \<Rightarrow> q);
     persist_booking v userID CategoryFlight (flight_draft req wallet txID offer ticketCode qrHash)
       qrPayload (fs_departure_time offer)
   }"

definition pay_flight ::
  "travel_service \<Rightarrow> string \<Rightarrow> flight_operator \<Rightarrow> flight_book_request \<Rightarrow> wallet \<Rightarrow> flight_search_result \<Rightarrow>
     booking_response program" where
  "pay_flight v userID op req wallet offer =
     charge userID wallet (fs_price_kobo offer)
       (travel_tx wallet ''FB-FLIGHT-'' CategoryFlight (fs_price_kobo offer) (fo_code op)
         (''Flight: '' @ fs_origin offer @ '' '' @ right_arrow @ '' '' @ fs_destination offer @ '' ('' @ fs_airline offer @ '')''))
       (ok ())
       (call (\<lambda>n. fo_book op n (xf_gds_ref req) (xf_passenger req)))
       ''could not record flight transaction'' (''GDS booking failed '' @ em_dash @ '' wallet refunded'')
       (finish_flight v userID req wallet offer)"

definition BookFlight :: "travel_service \<Rightarrow> string \<Rightarrow> flight_book_request \<Rightarrow> booking_response program" where
  "BookFlight v userID req =
     (case findFlightOperator v ''AMADEUS'' of
        None \<Rightarrow> fail (ErrMsg ''no flight operator available'')
      | Some op \<Rightarrow>
          or_return (FindByUserID userID) (\<lambda>_. ErrMsg ''wallet not found'') (\<lambda>wallet. do {
            priced \<leftarrow> call (\<lambda>n. fo_price_offer op n (xf_gds_ref req));
            case priced of
              Inr (Some offer) \<Rightarrow> pay_flight v userID op req wallet offer
            | _ \<Rightarrow> fail (ErrMsg (''could not confirm flight price '' @ em_dash @ '' please search again''))
          }))"

definition GetMyBookings :: "string \<Rightarrow> travel_booking list program" where
  "GetMyBookings userID = ListByUser userID"

definition GetBooking :: "uuid \<Rightarrow> travel_booking program" where
  "GetBooking bookingID = FindBookingByID bookingID"

section \<open>Offers that are booked\<close>

lemma pick_offer_success:
  "pick_offer req rs = Inr offer \<Longrightarrow> offer \<in> set rs \<and> bs_vehicle_ref offer = xb_vehicle_ref req \<and>
     seatIsAvailable (bs_seat_layout offer) (xb_seat_number req) \<and> 0 < bs_price_kobo offer"
  by (induction rs) (auto split: if_splits)

lemma quiet_findLiveBusOffer [intro]: "quiet (findLiveBusOffer op req)"
  unfolding findLiveBusOffer_def by (intro quiet_or_return quiet_call quiet_return)

lemma findLiveBusOffer_success:
  "run_state (findLiveBusOffer op req) s = (Inr offer, s') \<Longrightarrow>
     \<exists>rs. bo_search op (tick s) (search_request_of req) = Inr rs \<and> pick_offer req rs = Inr offer"
  by (auto simp: findLiveBusOffer_def run_or_return split: prod.splits sum.splits)

section \<open>Paying for a ticket\<close>

lemma travel_tx_run:
  obtains t where "run_state (travel_tx w p c n pr na) s = (t, s\<lparr>tick := tick s + 4\<rparr>)"
    and "t_id t = uuid_at s (tick s)" "t_user_id t = w_user_id w" "t_wallet_id t = w_id w" "t_amount t = n"
  by (simp add: travel_tx_def step_def)

text \<open>What a statement of the wallet repository leaves alone.\<close>

definition trip_frame :: "world \<Rightarrow> travel_booking list \<times> user list \<times> (nat \<Rightarrow> bool)" where
  "trip_frame s = (bookings s, users s, sql_ok s)"

lemma trip_frame_simps [simp]:
  "trip_frame (step s) = trip_frame s" "trip_frame (s\<lparr>tick := k\<rparr>) = trip_frame s"
  "on_tables (\<lambda>s. trip_frame s = c)"
  by (simp_all add: trip_frame_def on_tables_def)

lemma trip_frame_bank:
  assumes "bank_frame s' = bank_frame s"
  shows "trip_frame s' = trip_frame s"
proof -
  have "sql_ok s' = sql_ok s" using arg_cong [OF assms, of sql_ok] by (simp add: bank_frame_def)
  with bank_frameD [OF assms] show ?thesis by (simp add: trip_frame_def)
qed

lemma trip_frame_run:
  assumes "\<And>c. keeps (\<lambda>s. bank_frame s = c) m" and "run_state m s = (r, s')"
  shows "trip_frame s' = trip_frame s"
  by (rule trip_frame_bank, rule keeps_run [OF assms refl])

lemma trip_frame_reliable: "trip_frame s' = trip_frame s \<Longrightarrow> reliable s' = reliable s"
  by (simp add: trip_frame_def reliable_def)

lemma quiet_run_trips:
  assumes "quiet m" and "run_state m s = (v, s')"
  shows "trip_frame s' = trip_frame s" and "tables s' = tables s"
  by (rule quiet_run [OF assms], simp add: tables_def trip_frame_def)+

text \<open>Giving the fare back.\<close>

lemma giving_back:
  assumes ok: "wallet_tables_ok s" and a: "accounts s u = Some a"
    and run: "run_state (CreditBalance (ac_wallet a) n) s = (c, s')"
  shows "accounts s' = (if succeeded c then (accounts s)(u \<mapsto> credit n a) else accounts s)"
    and "reliable s \<Longrightarrow> can_credit n a \<Longrightarrow> succeeded c"
proof -
  show "accounts s' = (if succeeded c then (accounts s)(u \<mapsto> credit n a) else accounts s)"
    using CreditBalance_success [OF ok a] accounts_wallets [OF CreditBalance_error] run by (cases c) auto
  show "succeeded c" if "reliable s" "can_credit n a"
    using run_CreditBalance [OF ok that(1) a that(2)] run by auto
qed

lemma purchase_run:
  assumes ok: "wallet_tables_ok s" and a: "accounts s u = Some a" and w: "w_id wal = ac_wallet a"
    and q: "quiet release" "quiet confirm"
    and run: "run_state (purchase wal tx release confirm m1 m2) s = (r, s')"
  shows "trip_frame s' = trip_frame s" and "wallet_tables_ok s'"
    and "succeeded r \<Longrightarrow> accounts s' = accounts s \<and> tx_exists (t_id tx) s'"
    and "\<not> succeeded r \<Longrightarrow> accounts s' = accounts s \<or> accounts s' = (accounts s)(u \<mapsto> credit (t_amount tx) a)"
    and "\<not> succeeded r \<Longrightarrow> reliable s \<Longrightarrow> can_credit (t_amount tx) a \<Longrightarrow>
      accounts s' = (accounts s)(u \<mapsto> credit (t_amount tx) a)"
proof -
  let ?n = "t_amount tx"
  have frame: "keeps (\<lambda>s. bank_frame s = c) (purchase wal tx release confirm m1 m2)" for c
    unfolding purchase_def
    by (intro keeps_intros keeps_quiet [OF _ q(1)] keeps_quiet [OF _ q(2)] on_tables_frames)
  show "trip_frame s' = trip_frame s" by (rule trip_frame_run [OF frame run])
  have "keeps wallet_tables_ok (purchase wal tx release confirm m1 m2)"
    unfolding purchase_def
    by (intro keeps_intros keeps_quiet [OF _ q(1)] keeps_quiet [OF _ q(2)] on_tables_wallet_tables_ok)
  from keeps_run [OF this run ok] show "wallet_tables_ok s'" .
  obtain i s1 where ins: "run_state (InsertTransaction tx) s = (i, s1)"
    by (cases "run_state (InsertTransaction tx) s")
  have a1: "accounts s1 = accounts s" and ok1: "wallet_tables_ok s1" and rel1: "reliable s1 = reliable s"
    using accounts_wallets [of s1 s] tx_frameD [OF keeps_run [OF keeps_tx_frame(1) ins refl]]
      keeps_run [OF keeps_ok_InsertTransaction ins ok] by simp_all
  from run ins have rest: "run_state (case i of
       Inl e \<Rightarrow> do { _ \<leftarrow> CreditBalance (w_id wal) ?n; _ \<leftarrow> release; fail (Wrap m1 e) }
     | Inr _ \<Rightarrow> do {
         confirmed \<leftarrow> confirm;
         case confirmed of
           Inl _ \<Rightarrow> do { _ \<leftarrow> CreditBalance (w_id wal) ?n; _ \<leftarrow> UpdateTransactionStatus (t_reference tx) TxReversed []; fail (ErrMsg m2) }
         | Inr code \<Rightarrow> do { _ \<leftarrow> UpdateTransactionStatus (t_reference tx) TxSuccess code; ok code } }) s1 = (r, s')"
    unfolding purchase_def by (simp only: run_bind_eq)
  have undone: "accounts s' = accounts s2 \<and> \<not> succeeded r \<Longrightarrow>
      run_state (CreditBalance (w_id wal) ?n) t = (c, s2) \<Longrightarrow> accounts t = accounts s \<Longrightarrow>
      wallet_tables_ok t \<Longrightarrow> reliable t = reliable s \<Longrightarrow>
      (succeeded r \<longrightarrow> accounts s' = accounts s \<and> tx_exists (t_id tx) s') \<and>
      (\<not> succeeded r \<longrightarrow> accounts s' = accounts s \<or> accounts s' = (accounts s)(u \<mapsto> credit ?n a)) \<and>
      (\<not> succeeded r \<longrightarrow> reliable s \<longrightarrow> can_credit ?n a \<longrightarrow> accounts s' = (accounts s)(u \<mapsto> credit ?n a))" for t c s2
    using giving_back [of t u a ?n c s2] a w by auto
  have "(succeeded r \<longrightarrow> accounts s' = accounts s \<and> tx_exists (t_id tx) s') \<and>
      (\<not> succeeded r \<longrightarrow> accounts s' = accounts s \<or> accounts s' = (accounts s)(u \<mapsto> credit ?n a)) \<and>
      (\<not> succeeded r \<longrightarrow> reliable s \<longrightarrow> can_credit ?n a \<longrightarrow> accounts s' = (accounts s)(u \<mapsto> credit ?n a))"
  proof (cases i)
    case (Inl e)
    with rest obtain c s2 v where c: "run_state (CreditBalance (w_id wal) ?n) s1 = (c, s2)"
      and v: "run_state release s2 = (v, s')" and r: "r = Inl (Wrap m1 e)"
      by (auto split: prod.splits)
    from tables_eqD(1) [OF quiet_run_trips(2) [OF q(1) v]] r c a1 ok1 rel1 show ?thesis
      by (intro undone [OF _ c]) simp_all
  next
    case (Inr x)
    then have tx: "tx_exists (t_id tx) s1"
      using InsertTransaction_success ins by (auto simp: tx_exists_def)
    obtain cf s2 where cf: "run_state confirm s1 = (cf, s2)" by (cases "run_state confirm s1")
    note same = tables_eqD [OF quiet_run_trips(2) [OF q(2) cf]] trip_frame_reliable [OF quiet_run_trips(1) [OF q(2) cf]]
    show ?thesis
    proof (cases cf)
      case (Inl e)
      with rest Inr cf obtain c s3 v where c: "run_state (CreditBalance (w_id wal) ?n) s2 = (c, s3)"
        and v: "run_state (UpdateTransactionStatus (t_reference tx) TxReversed []) s3 = (v, s')" and r: "r = Inl (ErrMsg m2)"
        by (auto split: prod.splits)
      have "wallets s' = wallets s3" by (rule keeps_run [OF keeps_wallets_tx(2) v refl])
      from accounts_wallets [OF this] r c same a1 ok1 rel1 show ?thesis
        by (intro undone [OF _ c]) simp_all
    next
      case (Inr code)
      with rest \<open>i = Inr x\<close> cf obtain v where
        v: "run_state (UpdateTransactionStatus (t_reference tx) TxSuccess code) s2 = (v, s')" and r: "r = Inr code"
        by (auto split: prod.splits)
      have "wallets s' = wallets s2" by (rule keeps_run [OF keeps_wallets_tx(2) v refl])
      moreover have "map t_id (transactions s') = map t_id (transactions s2)"
      proof (cases v)
        case (Inl e)
        with UpdateTransactionStatus_error v show ?thesis by metis
      next
        case (Inr x)
        with v show ?thesis by (auto elim!: UpdateTransactionStatus_success simp: map_set_rows)
      qed
      then have "tx_exists (t_id tx) s'" using tx same(2) by (simp add: tx_exists_def flip: set_map)
      ultimately show ?thesis using accounts_wallets [of s' s2] same a1 r by simp
    qed
  qed
  then show "succeeded r \<Longrightarrow> accounts s' = accounts s \<and> tx_exists (t_id tx) s'"
    "\<not> succeeded r \<Longrightarrow> accounts s' = accounts s \<or> accounts s' = (accounts s)(u \<mapsto> credit ?n a)"
    "\<not> succeeded r \<Longrightarrow> reliable s \<Longrightarrow> can_credit ?n a \<Longrightarrow> accounts s' = (accounts s)(u \<mapsto> credit ?n a)"
    by blast+
qed

lemma can_credit_debit:
  "wallet_tables_ok s \<Longrightarrow> accounts s u = Some a \<Longrightarrow> can_credit n (debit n a)"
  by (drule (1) accounts_row_ok) (simp add: can_credit_def)

lemma charge_cases:
  assumes ok: "wallet_tables_ok s" and a: "accounts s u = Some a" and w: "w_id wal = ac_wallet a"
    and q: "quiet release" "quiet confirm"
    and make: "\<And>x. \<exists>t k. run_state make_tx x = (t, x\<lparr>tick := tick x + k\<rparr>) \<and> t_amount t = n"
    and run: "run_state (charge u wal n make_tx release confirm m1 m2 finish) s = (r, s')"
  obtains (untouched) e where "r = Inl e" "accounts s' = accounts s" "trip_frame s' = trip_frame s"
    | (charged) e where "r = Inl e" "can_debit n a" "accounts s' = (accounts s)(u \<mapsto> debit n a)"
      "trip_frame s' = trip_frame s" "\<not> reliable s"
    | (refunded) e where "r = Inl e" "can_debit n a" "accounts s' = (accounts s)(u \<mapsto> credit n (debit n a))"
      "trip_frame s' = trip_frame s"
    | (bought) i code s1 where "can_debit n a" "accounts s1 = (accounts s)(u \<mapsto> debit n a)"
      "trip_frame s1 = trip_frame s" "wallet_tables_ok s1" "tx_exists i s1" "run_state (finish i code) s1 = (r, s')"
proof -
  obtain d s2 where d: "run_state (DebitWithLock NoTx u n) s = (d, s2)" by (cases "run_state (DebitWithLock NoTx u n) s")
  have t2: "trip_frame s2 = trip_frame s" by (rule trip_frame_run [OF keeps_bank_frame(4) d])
  show thesis
  proof (cases d)
    case (Inl e)
    with run d obtain v where v: "run_state release s2 = (v, s')" and r: "r = Inl e"
      by (auto simp: charge_def split: prod.splits)
    have "accounts s2 = accounts s" using DebitWithLock_error d Inl accounts_wallets by blast
    with quiet_run_trips [OF q(1) v] tables_eqD(1) [of s' s2] t2 r show thesis by (intro untouched) simp_all
  next
    case (Inr x)
    from DebitWithLock_success [OF ok d [unfolded Inr]] a
    have can: "can_debit n a" and a2: "accounts s2 = (accounts s)(u \<mapsto> debit n a)" by auto
    have ok2: "wallet_tables_ok s2" by (rule keeps_run [OF keeps_ok_DebitWithLock d ok])
    from make [of s2] obtain t k where t: "run_state make_tx s2 = (t, s2\<lparr>tick := tick s2 + k\<rparr>)" "t_amount t = n" by blast
    let ?s3 = "s2\<lparr>tick := tick s2 + k\<rparr>"
    from run d t Inr have rest: "run_state (or_return (purchase wal t release confirm m1 m2) (\<lambda>e. e) (finish (t_id t))) ?s3 = (r, s')"
      by (simp add: charge_def)
    have s3: "wallet_tables_ok ?s3" "accounts ?s3 u = Some (debit n a)" "w_id wal = ac_wallet (debit n a)"
      using ok2 a2 w by simp_all
    have cc: "can_credit (t_amount t) (debit n a)" using can_credit_debit [OF ok a] t(2) by simp
    have rel: "reliable ?s3 = reliable s" using trip_frame_reliable [OF t2] by simp
    from rest show thesis
    proof (cases rule: or_return_cases)
      case (returned e)
      note p = purchase_run [OF s3 q returned(1)]
      consider "accounts s' = (accounts s)(u \<mapsto> credit n (debit n a))" |
        "accounts s' = (accounts s)(u \<mapsto> debit n a)" "\<not> reliable s"
        using p(4,5) cc a2 t(2) rel by fastforce
      then show thesis
        using returned(2) can p(1) t2 by cases (rule refunded charged; simp)+
    next
      case (continued code s4)
      note p = purchase_run [OF s3 q continued(1)]
      show thesis by (rule bought [OF can _ _ p(2) _ continued(2)]) (use p(1,3) t2 a2 in simp_all)
    qed
  qed
qed

section \<open>Storing the booking\<close>

definition acceptable :: "travel_booking \<Rightarrow> world \<Rightarrow> bool" where
  "acceptable b s \<longleftrightarrow> booking_row_ok b \<and> user_exists (b_user_id b) s \<and> \<not> booking_exists (b_id b) s"

lemma CreateBooking_run:
  assumes "run_state (CreateBooking b) s = (r, s')" and "tx_exists (b_transaction_id b) s"
  shows "accounts s' = accounts s" and "\<not> acceptable b s \<Longrightarrow> bookings s' = bookings s"
    and "bookings s' = bookings s \<or> bookings s' = bookings s @ [b]"
    and "reliable s \<Longrightarrow> acceptable b s \<Longrightarrow> bookings s' = bookings s @ [b]"
  using assms
  by (auto simp: CreateBooking_def run_exec insert_booking_def acceptable_def tx_exists_def booking_exists_def
      user_exists_def accounts_def wallet_of_def fun_eq_iff split: if_splits)

lemma persist_booking_run:
  assumes run: "run_state (persist_booking v u cat draft qr dep) s = (r, s')" and tx: "tx_exists (b_transaction_id draft) s"
  obtains resp i t1 t2 where "r = Inr resp"
    "rs_booking resp = draft\<lparr>b_id := i, b_created_at := t1, b_updated_at := t2\<rparr>" "accounts s' = accounts s"
    "bookings s' = bookings s \<or> bookings s' = bookings s @ [rs_booking resp]"
    "\<not> acceptable (rs_booking resp) s \<Longrightarrow> bookings s' = bookings s"
    "reliable s \<Longrightarrow> acceptable (rs_booking resp) s \<Longrightarrow> bookings s' = bookings s @ [rs_booking resp]"
proof -
  let ?s3 = "step (step (step s))"
  define b where "b = draft\<lparr>b_id := uuid_at s (tick s), b_created_at := time_at (step s) (tick (step s)),
      b_updated_at := time_at (step (step s)) (tick (step (step s)))\<rparr>"
  obtain c s4 where c: "run_state (CreateBooking b) ?s3 = (c, s4)" by (cases "run_state (CreateBooking b) ?s3")
  have "tx_exists (b_transaction_id b) ?s3" using tx by (simp add: b_def tx_exists_def)
  note cr = CreateBooking_run [OF c this]
  let ?rest = "announce_booking v u cat b qr dep"
  from run have rest: "run_state ?rest s4 = (r, s')"
    unfolding persist_booking_def Let_def run_bind_eq [OF run_uuid_new] run_bind_eq [OF run_time_now]
      b_def [symmetric] run_bind_eq [OF c] .
  have "keeps (\<lambda>x. (accounts x, bookings x) = (accounts s4, bookings s4)) ?rest"
    unfolding announce_booking_def
    by (intro keeps_intros) (auto simp: on_tables_def accounts_def wallet_of_def fun_eq_iff)
  from keeps_run [OF this rest refl] have same: "accounts s' = accounts s4" "bookings s' = bookings s4" by simp_all
  obtain resp where "r = Inr resp" "rs_booking resp = b"
    using rest by (auto simp: announce_booking_def split: prod.splits if_splits)
  moreover have "acceptable b ?s3 = acceptable b s" by (simp add: acceptable_def user_exists_def booking_exists_def)
  ultimately show thesis using that [of resp] cr same by (simp add: b_def)
qed

lemma quiet_ticket_qr [intro]: "quiet (ticket_qr v c n rt d sn o')"
  unfolding ticket_qr_def GenerateOfflineQRPayload_def by (intro quiet_bind) auto

lemma acceptable_tick [simp]: "acceptable b (s\<lparr>tick := k\<rparr>) = acceptable b s"
  by (simp add: acceptable_def user_exists_def booking_exists_def)

text \<open>The end of both flows, on a database that knows the payment \<open>i\<close>.\<close>

lemma booked_run:
  assumes run: "run_state (do { qr \<leftarrow> ticket_qr v c n rt d sn o';
      persist_booking v u cat (draft (snd (f qr))) (fst (f qr)) dep }) s = (r, s')"
    and tx: "\<And>h. b_transaction_id (draft h) = i" "tx_exists i s"
  obtains resp h j t1 t2 where "r = Inr resp"
    "rs_booking resp = (draft h)\<lparr>b_id := j, b_created_at := t1, b_updated_at := t2\<rparr>" "accounts s' = accounts s"
    "bookings s' = bookings s \<or> bookings s' = bookings s @ [rs_booking resp]"
    "\<not> acceptable (rs_booking resp) s \<Longrightarrow> bookings s' = bookings s"
    "reliable s \<Longrightarrow> acceptable (rs_booking resp) s \<Longrightarrow> bookings s' = bookings s @ [rs_booking resp]"
proof -
  obtain q s1 where q: "run_state (ticket_qr v c n rt d sn o') s = (q, s1)" by (cases "run_state (ticket_qr v c n rt d sn o') s")
  obtain k where s1: "s1 = s\<lparr>tick := tick s + k\<rparr>" by (rule quiet_run [OF quiet_ticket_qr q])
  have "run_state (persist_booking v u cat (draft (snd (f q))) (fst (f q)) dep) s1 = (r, s')"
    using run unfolding run_bind_eq [OF q] .
  moreover have "tx_exists (b_transaction_id (draft (snd (f q)))) s1" using tx by (simp add: s1 tx_exists_def)
  ultimately show thesis
    by (rule persist_booking_run) (rule that, assumption, assumption, simp_all add: s1)
qed

lemma finish_bus_run:
  assumes "run_state (finish_bus v u op req wal offer i code) s = (r, s')" and "tx_exists i s"
  obtains resp where "r = Inr resp" "b_price_paid (rs_booking resp) = bs_price_kobo offer" "accounts s' = accounts s"
    "b_passenger_phone (rs_booking resp) = ps_phone (xb_passenger req)"
    "bookings s' = bookings s \<or> bookings s' = bookings s @ [rs_booking resp]"
    "\<not> acceptable (rs_booking resp) s \<Longrightarrow> bookings s' = bookings s"
    "reliable s \<Longrightarrow> acceptable (rs_booking resp) s \<Longrightarrow> bookings s' = bookings s @ [rs_booking resp]"
  using assms unfolding finish_bus_def Let_def case_prod_unfold
  by (elim booked_run) (auto simp: bus_draft_def)

lemma finish_flight_run:
  assumes "run_state (finish_flight v u req wal offer i code) s = (r, s')" and "tx_exists i s"
  obtains resp where "r = Inr resp" "b_price_paid (rs_booking resp) = fs_price_kobo offer" "accounts s' = accounts s"
    "bookings s' = bookings s \<or> bookings s' = bookings s @ [rs_booking resp]"
    "\<not> acceptable (rs_booking resp) s \<Longrightarrow> bookings s' = bookings s"
    "reliable s \<Longrightarrow> acceptable (rs_booking resp) s \<Longrightarrow> bookings s' = bookings s @ [rs_booking resp]"
  using assms unfolding finish_flight_def Let_def case_prod_unfold
  by (elim booked_run) (auto simp: flight_draft_def)

section \<open>What a booking does\<close>

text \<open>
  A booking that fails leaves the accounts as they were or gives back what it took, an amount with
  \<open>fare\<close>; only when a statement fails can that amount stay with the service.
\<close>

definition given_back :: "(int \<Rightarrow> bool) \<Rightarrow> uuid \<Rightarrow> world \<Rightarrow> world \<Rightarrow> bool" where
  "given_back fare u s s' \<longleftrightarrow> accounts s' = accounts s \<or>
     (\<exists>a n. fare n \<and> accounts s u = Some a \<and> can_debit n a \<and>
        (accounts s' = (accounts s)(u \<mapsto> credit n (debit n a)) \<or>
         \<not> reliable s \<and> accounts s' = (accounts s)(u \<mapsto> debit n a)))"

lemma trip_frame_bookings: "trip_frame s' = trip_frame s \<Longrightarrow> bookings s' = bookings s \<and> users s' = users s"
  by (simp add: trip_frame_def)

lemma acceptable_frame: "trip_frame s' = trip_frame s \<Longrightarrow> acceptable b s' = acceptable b s"
  by (simp add: trip_frame_def acceptable_def user_exists_def booking_exists_def)

lemma travel_tx_make: "\<exists>t k. run_state (travel_tx w p c n pr na) x = (t, x\<lparr>tick := tick x + k\<rparr>) \<and> t_amount t = n"
  by (rule travel_tx_run [of w p c n pr na x]) blast

text \<open>
  The offers that a booking can be for, asked of the operator in the second of its external calls:
  a trip of the vehicle with the seat free and a positive fare, and the flight whose price was confirmed.
\<close>

definition quoted_bus :: "travel_service \<Rightarrow> bus_book_request \<Rightarrow> nat \<Rightarrow> bus_search_result \<Rightarrow> bool" where
  "quoted_bus v req n offer \<longleftrightarrow> (\<exists>op rs. findBusOperator v (xb_operator_code req) = Some op \<and>
     bo_search op n (search_request_of req) = Inr rs \<and> offer \<in> set rs \<and>
     bs_vehicle_ref offer = xb_vehicle_ref req \<and> seatIsAvailable (bs_seat_layout offer) (xb_seat_number req) \<and>
     0 < bs_price_kobo offer)"

definition quoted_flight :: "travel_service \<Rightarrow> flight_book_request \<Rightarrow> nat \<Rightarrow> flight_search_result \<Rightarrow> bool" where
  "quoted_flight v req n offer \<longleftrightarrow> (\<exists>op. findFlightOperator v ''AMADEUS'' = Some op \<and>
     fo_price_offer op n (xf_gds_ref req) = Inr (Some offer))"

abbreviation bus_fare :: "travel_service \<Rightarrow> bus_book_request \<Rightarrow> world \<Rightarrow> int \<Rightarrow> bool" where
  "bus_fare v req s n \<equiv> \<exists>offer. quoted_bus v req (Suc (tick s)) offer \<and> n = bs_price_kobo offer"

abbreviation flight_fare :: "travel_service \<Rightarrow> flight_book_request \<Rightarrow> world \<Rightarrow> int \<Rightarrow> bool" where
  "flight_fare v req s n \<equiv> \<exists>offer. quoted_flight v req (Suc (tick s)) offer \<and> n = fs_price_kobo offer"

text \<open>Paying and booking, for both flows.\<close>

lemma pay_cases:
  assumes ok: "wallet_tables_ok s" and u: "wallet_of u s = Some wal" and q: "quiet release" "quiet confirm"
    and run: "run_state (charge u wal n (travel_tx wal p cat n pr na) release confirm m1 m2 finish) s = (r, s')"
    and finish: "\<And>i code x r' x'. run_state (finish i code) x = (r', x') \<Longrightarrow> tx_exists i x \<Longrightarrow>
      \<exists>resp. r' = Inr resp \<and> good resp \<and> accounts x' = accounts x \<and>
        (\<not> acceptable (rs_booking resp) x \<longrightarrow> bookings x' = bookings x) \<and>
        (reliable x \<longrightarrow> acceptable (rs_booking resp) x \<longrightarrow> bookings x' = bookings x @ [rs_booking resp])"
    and "fare n"
  obtains (failed) e where "r = Inl e" "given_back fare u s s'" "bookings s' = bookings s"
    | (booked) resp a where "r = Inr resp" "good resp" "accounts s u = Some a" "can_debit n a"
      "accounts s' = (accounts s)(u \<mapsto> debit n a)"
      "\<not> acceptable (rs_booking resp) s \<Longrightarrow> bookings s' = bookings s"
      "reliable s \<Longrightarrow> acceptable (rs_booking resp) s \<Longrightarrow> bookings s' = bookings s @ [rs_booking resp]"
proof -
  have a: "accounts s u = Some (account_of wal)" "w_id wal = ac_wallet (account_of wal)"
    using u by (simp_all add: accounts_def)
  show thesis
    using ok a q travel_tx_make run
  proof (cases rule: charge_cases)
    case (untouched e)
    then show thesis by (intro failed) (auto simp: given_back_def dest: trip_frame_bookings)
  next
    case (charged e)
    with a \<open>fare n\<close> show thesis by (intro failed) (auto simp: given_back_def dest: trip_frame_bookings)
  next
    case (refunded e)
    with a \<open>fare n\<close> show thesis by (intro failed) (auto simp: given_back_def dest: trip_frame_bookings)
  next
    case (bought i code s1)
    from finish [OF bought(6,5)] obtain resp where f: "r = Inr resp" "good resp" "accounts s' = accounts s1"
      "\<not> acceptable (rs_booking resp) s1 \<longrightarrow> bookings s' = bookings s1"
      "reliable s1 \<longrightarrow> acceptable (rs_booking resp) s1 \<longrightarrow> bookings s' = bookings s1 @ [rs_booking resp]" by blast
    note fr = trip_frame_bookings [OF bought(3)] trip_frame_reliable [OF bought(3)] acceptable_frame [OF bought(3)]
    show thesis using bought(1,2) f fr by (intro booked [OF f(1,2) a(1)]) auto
  qed
qed

lemma given_back_tick: "given_back fare u (s\<lparr>tick := k\<rparr>) s' = given_back fare u s s'"
  by (simp add: given_back_def)

lemma BookBus_cases:
  assumes ok: "wallet_tables_ok s" and run: "run_state (BookBus v u req) s = (r, s')"
  obtains (failed) e where "r = Inl e" "given_back (bus_fare v req s) u s s'" "bookings s' = bookings s"
    | (booked) resp offer a where "r = Inr resp"
      "quoted_bus v req (Suc (tick s)) offer" "accounts s u = Some a" "can_debit (bs_price_kobo offer) a"
      "accounts s' = (accounts s)(u \<mapsto> debit (bs_price_kobo offer) a)"
      "b_price_paid (rs_booking resp) = bs_price_kobo offer"
      "b_passenger_phone (rs_booking resp) = ps_phone (xb_passenger req)"
      "\<not> acceptable (rs_booking resp) s \<Longrightarrow> bookings s' = bookings s"
      "reliable s \<Longrightarrow> acceptable (rs_booking resp) s \<Longrightarrow> bookings s' = bookings s @ [rs_booking resp]"
proof (cases "findBusOperator v (xb_operator_code req)")
  case None
  with run show thesis by (intro failed) (auto simp: BookBus_def given_back_def)
next
  case (Some op)
  have quiet_end: thesis if "r = Inl e" "s' = s\<lparr>tick := k\<rparr>" for e k
    using that by (intro failed) (auto simp: given_back_def)
  from run show thesis
    unfolding BookBus_def Some option.case
  proof (cases rule: or_return_cases)
    case (returned e)
    then show thesis by (intro quiet_end) (auto simp: step_def)
  next
    case (continued hold s1)
    then have s1: "s1 = step s" by simp
    obtain ro s2 where o: "run_state (findLiveBusOffer op req) s1 = (ro, s2)" by (cases "run_state (findLiveBusOffer op req) s1")
    obtain k where s2: "s2 = s1\<lparr>tick := tick s1 + k\<rparr>" by (rule quiet_run [OF quiet_findLiveBusOffer o])
    show thesis
    proof (cases ro)
      case (Inl e)
      with continued(2) o s1 s2 show thesis by (intro quiet_end) (auto simp: step_def)
    next
      case (Inr offer)
      from findLiveBusOffer_success [OF o [unfolded Inr]] obtain rs where
        "bo_search op (tick s1) (search_request_of req) = Inr rs" "pick_offer req rs = Inr offer" by blast
      with Some pick_offer_success have live: "quoted_bus v req (Suc (tick s)) offer"
        unfolding quoted_bus_def by (intro exI [of _ op] exI [of _ rs]) (simp add: s1)
      have pay: "run_state (pay_bus v u op req hold offer) s2 = (r, s')"
        using continued(2) unfolding run_bind_eq [OF o] Inr sum.case .
      then show thesis
        unfolding pay_bus_def
      proof (cases rule: or_return_cases)
        case (returned e)
        with FindByUserID_state [of u s2] s1 s2 show thesis by (intro quiet_end) (auto simp: step_def)
      next
        case (continued wal s3)
        from FindByUserID_success [OF continued(1)] have s3: "s3 = step s2" and w: "wallet_of u s3 = Some wal" by simp_all
        have eq: "s3 = s\<lparr>tick := tick s3\<rparr>" by (simp add: s3 s2 s1 step_def)
        have ok3: "wallet_tables_ok s3" by (subst eq) (simp add: ok)
        let ?good = "\<lambda>resp. b_price_paid (rs_booking resp) = bs_price_kobo offer \<and>
          b_passenger_phone (rs_booking resp) = ps_phone (xb_passenger req)"
        have same: "accounts s3 = accounts s" "bookings s3 = bookings s" "acceptable b s3 = acceptable b s"
          "reliable s3 = reliable s" "given_back fare u s3 x = given_back fare u s x" for b x fare
          by (subst eq, simp add: given_back_tick)+
        show thesis
        proof (rule pay_cases [OF ok3 w quiet_call quiet_call continued(2), of ?good])
          show "\<exists>resp. r' = Inr resp \<and> ?good resp \<and> accounts x' = accounts x \<and>
              (\<not> acceptable (rs_booking resp) x \<longrightarrow> bookings x' = bookings x) \<and>
              (reliable x \<longrightarrow> acceptable (rs_booking resp) x \<longrightarrow> bookings x' = bookings x @ [rs_booking resp])"
            if "run_state (finish_bus v u op req wal offer i code) x = (r', x')" "tx_exists i x" for i code x r' x'
            using that by (rule finish_bus_run) blast
          show thesis if "r = Inl e" "given_back (bus_fare v req s) u s3 s'" "bookings s' = bookings s3" for e
            using that unfolding same by (rule failed)
          show thesis if "r = Inr resp" "?good resp" "accounts s3 u = Some a" "can_debit (bs_price_kobo offer) a"
            "accounts s' = (accounts s3)(u \<mapsto> debit (bs_price_kobo offer) a)"
            "\<not> acceptable (rs_booking resp) s3 \<Longrightarrow> bookings s' = bookings s3"
            "reliable s3 \<Longrightarrow> acceptable (rs_booking resp) s3 \<Longrightarrow> bookings s' = bookings s3 @ [rs_booking resp]" for resp a
            using that unfolding same by (intro booked [OF _ live]) auto
          show "bus_fare v req s (bs_price_kobo offer)" using live by blast
        qed
      qed
    qed
  qed
qed

lemma BookFlight_cases:
  assumes ok: "wallet_tables_ok s" and run: "run_state (BookFlight v u req) s = (r, s')"
  obtains (failed) e where "r = Inl e" "given_back (flight_fare v req s) u s s'" "bookings s' = bookings s"
    | (booked) resp offer a where "r = Inr resp"
      "quoted_flight v req (Suc (tick s)) offer"
      "accounts s u = Some a" "can_debit (fs_price_kobo offer) a"
      "accounts s' = (accounts s)(u \<mapsto> debit (fs_price_kobo offer) a)"
      "b_price_paid (rs_booking resp) = fs_price_kobo offer"
      "\<not> acceptable (rs_booking resp) s \<Longrightarrow> bookings s' = bookings s"
      "reliable s \<Longrightarrow> acceptable (rs_booking resp) s \<Longrightarrow> bookings s' = bookings s @ [rs_booking resp]"
proof (cases "findFlightOperator v ''AMADEUS''")
  case None
  with run show thesis by (intro failed) (auto simp: BookFlight_def given_back_def)
next
  case (Some op)
  have quiet_end: thesis if "r = Inl e" "s' = s\<lparr>tick := k\<rparr>" for e k
    using that by (intro failed) (auto simp: given_back_def)
  from run show thesis
    unfolding BookFlight_def Some option.case
  proof (cases rule: or_return_cases)
    case (returned e)
    with FindByUserID_state [of u s] show thesis by (intro quiet_end) (auto simp: step_def)
  next
    case (continued wal s1)
    from FindByUserID_success [OF continued(1)] have s1: "s1 = step s" and w: "wallet_of u s = Some wal" by simp_all
    show thesis
    proof (cases "\<exists>offer. fo_price_offer op (tick s1) (xf_gds_ref req) = Inr (Some offer)")
      case False
      with continued(2) s1 show thesis
        by (intro quiet_end) (auto simp: step_def split: sum.splits option.splits)
    next
      case True
      then obtain offer where live: "fo_price_offer op (tick s1) (xf_gds_ref req) = Inr (Some offer)" by blast
      with Some have quoted: "quoted_flight v req (Suc (tick s)) offer" by (simp add: quoted_flight_def s1)
      let ?s2 = "step s1"
      have pay: "run_state (pay_flight v u op req wal offer) ?s2 = (r, s')"
        using continued(2) live by simp
      have s2: "wallet_tables_ok ?s2" "wallet_of u ?s2 = Some wal"
        using ok w by (simp_all add: s1 on_tables_step)
      have same: "accounts ?s2 = accounts s" "bookings ?s2 = bookings s" "acceptable b ?s2 = acceptable b s"
        "reliable ?s2 = reliable s" "given_back fare u ?s2 x = given_back fare u s x" for b x fare
        by (simp_all add: s1 given_back_def acceptable_def user_exists_def booking_exists_def)
      let ?good = "\<lambda>resp. b_price_paid (rs_booking resp) = fs_price_kobo offer"
      show thesis
      proof (rule pay_cases [OF s2 quiet_return quiet_call pay [unfolded pay_flight_def], of ?good])
        show "\<exists>resp. r' = Inr resp \<and> ?good resp \<and> accounts x' = accounts x \<and>
            (\<not> acceptable (rs_booking resp) x \<longrightarrow> bookings x' = bookings x) \<and>
            (reliable x \<longrightarrow> acceptable (rs_booking resp) x \<longrightarrow> bookings x' = bookings x @ [rs_booking resp])"
          if "run_state (finish_flight v u req wal offer i code) x = (r', x')" "tx_exists i x" for i code x r' x'
          using that by (rule finish_flight_run) blast
        show thesis if "r = Inl e" "given_back (flight_fare v req s) u ?s2 s'" "bookings s' = bookings ?s2" for e
          using that unfolding same by (rule failed)
        show thesis if "r = Inr resp" "?good resp" "accounts ?s2 u = Some a" "can_debit (fs_price_kobo offer) a"
          "accounts s' = (accounts ?s2)(u \<mapsto> debit (fs_price_kobo offer) a)"
          "\<not> acceptable (rs_booking resp) ?s2 \<Longrightarrow> bookings s' = bookings ?s2"
          "reliable ?s2 \<Longrightarrow> acceptable (rs_booking resp) ?s2 \<Longrightarrow> bookings s' = bookings ?s2 @ [rs_booking resp]" for resp a
          using that unfolding same by (intro booked [OF _ quoted]) auto
        show "flight_fare v req s (fs_price_kobo offer)" using quoted by blast
      qed
    qed
  qed
qed

section \<open>A sample service\<close>

definition sample_offer :: "string \<Rightarrow> int \<Rightarrow> flight_search_result" where
  "sample_offer i price = \<lparr>fs_flight_number = ''P47121'', fs_airline = ''Air Peace'', fs_origin = ''LOS'',
     fs_destination = ''ABV'', fs_departure_time = 1780000000000, fs_arrival_time = 1780004500000,
     fs_duration = ''PT1H15M'', fs_cabin_class = ''economy'', fs_price_kobo = price, fs_price_ngn = of_int price / 100,
     fs_seats_available = 4, fs_gds_ref = i, fs_stops = 0\<rparr>"

definition sample_flights :: flight_operator where
  "sample_flights = \<lparr>fo_code = ''AMADEUS'', fo_search = (\<lambda>_ _. Inr [sample_offer ''1'' 4500000]),
     fo_price_offer = (\<lambda>_ i. Inr (Some (sample_offer i 4500000))), fo_book = (\<lambda>_ _ _. Inr ''ORDER-1'')\<rparr>"

definition sample_travel :: travel_service where
  "sample_travel = \<lparr>tv_bus_operators = buildBusOperators (\<lambda>n. 1700000000000 + int n), tv_flight_operators = [sample_flights],
     tv_get_cache = (\<lambda>_ _. Inl ErrNoRows), tv_set_cache = (\<lambda>_ _ _. Inr ()), tv_print = (\<lambda>_. ''?''),
     tv_completion = (\<lambda>_. [1, 0]), tv_sort_bus = sort_key bs_price_kobo, tv_sort_flights = sort_key fs_price_kobo,
     tv_sms = (\<lambda>_ _ _ _ _. Inr ()), tv_loyalty = True, tv_qr = sample_codec, tv_qr_secret = ''secret''\<rparr>"

definition traveller :: "string \<Rightarrow> passenger_info" where
  "traveller phone = \<lparr>ps_full_name = ''Ada A'', ps_email = ''ada@x.ng'', ps_phone = phone\<rparr>"

definition sample_trip :: "string \<Rightarrow> string \<Rightarrow> bus_book_request" where
  "sample_trip seatNumber phone = \<lparr>xb_origin = ''Lagos'', xb_destination = ''Abuja'', xb_operator_code = ''ABC'',
     xb_vehicle_ref = ''VEH-ABC-01'', xb_seat_number = seatNumber, xb_departure_date = ''2026-06-01'',
     xb_passenger = traveller phone\<rparr>"

definition rich_world :: world where
  "rich_world = sample_world\<lparr>wallets := [sample_wallet ''wa'' ''ada'' 9000000, sample_wallet ''wb'' ''bola'' 9000000]\<rparr>"

lemma rich_world_ok: "wallet_tables_ok rich_world" "reliable rich_world"
  by (code_simp, simp add: rich_world_def reliable_def sample_world_def empty_world_def)

section \<open>Booking buses and flights\<close>

text \<open>
  C26. A bus booking that succeeds takes exactly the fare that the operator quotes for the vehicle when it
  is asked for live offers during the booking, for a seat that is free in that answer, whatever fare the
  request or an earlier search had, and no other account changes. One that fails makes no booking and
  leaves every account as it was, or the traveller's as after taking that fare and giving it back; if a
  statement of the database fails, and only then, it can keep that fare, once.
\<close>

theorem bus_booking_charges_live_fare:
  assumes "wallet_tables_ok s" and "run_state (BookBus v u req) s = (r, s')"
  shows "case r of
      Inl e \<Rightarrow> given_back (\<lambda>n. \<exists>offer. quoted_bus v req (Suc (tick s)) offer \<and> n = bs_price_kobo offer) u s s' \<and>
        bookings s' = bookings s
    | Inr resp \<Rightarrow> \<exists>offer a. quoted_bus v req (Suc (tick s)) offer \<and>
        b_price_paid (rs_booking resp) = bs_price_kobo offer \<and>
        accounts s u = Some a \<and> can_debit (bs_price_kobo offer) a \<and>
        accounts s' = (accounts s)(u \<mapsto> debit (bs_price_kobo offer) a)"
  using assms
proof (cases rule: BookBus_cases)
  case (booked resp offer a)
  then show ?thesis by (simp, intro exI conjI) auto
qed simp

lemma bus_booking_charges_live_fare_witness:
  "map_option ac_balance (accounts (snd (run_state (BookBus sample_travel ''ada'' (sample_trip ''1A'' ''+2348010000001'')) rich_world)) ''ada'')
     = Some 5500000"
proof -
  let ?run = "run_state (BookBus sample_travel ''ada'' (sample_trip ''1A'' ''+2348010000001'')) rich_world"
  have "succeeded (fst ?run)" by code_simp
  then obtain resp where "?run = (Inr resp, snd ?run)" by (cases "fst ?run") (auto simp: prod_eq_iff)
  from bus_booking_charges_live_fare [OF rich_world_ok(1) this] obtain offer a where
    o: "quoted_bus sample_travel (sample_trip ''1A'' ''+2348010000001'') (Suc (tick rich_world)) offer" and a: "accounts rich_world ''ada'' = Some a"
    "accounts (snd ?run) = (accounts rich_world)(''ada'' \<mapsto> debit (bs_price_kobo offer) a)"
    by auto
  have "bs_price_kobo offer = 3500000"
    using o by (auto simp: quoted_bus_def sample_trip_def findBusOperator_def sample_travel_def buildBusOperators_def NewSandboxBusOperator_def
        NewTravuBusAdapter_def travu_search_def Let_def)
  moreover have "map_option ac_balance (accounts rich_world ''ada'') = Some 9000000" by code_simp
  ultimately show ?thesis using a by auto
qed

text \<open>
  C27. On a healthy database a ticket that was bought is stored if the row is acceptable to the schema; if it
  is not, say because the passenger's phone number is longer than 20 characters, the request
  succeeds all the same: the fare is taken and the booking is nowhere.
\<close>

theorem bought_ticket_may_be_lost:
  assumes "wallet_tables_ok s" and "reliable s" and "run_state (BookBus v u req) s = (Inr resp, s')"
  shows "(\<exists>a. accounts s u = Some a \<and> accounts s' = (accounts s)(u \<mapsto> debit (b_price_paid (rs_booking resp)) a)) \<and>
    bookings s' = (if acceptable (rs_booking resp) s then bookings s @ [rs_booking resp] else bookings s) \<and>
    (20 < length (ps_phone (xb_passenger req)) \<longrightarrow> bookings s' = bookings s)"
  using assms(1,3)
proof (cases rule: BookBus_cases)
  case (booked resp' offer a)
  have "\<not> acceptable (rs_booking resp) s" if "20 < length (ps_phone (xb_passenger req))"
    using that booked(1,7) by (auto simp: acceptable_def booking_row_ok_def)
  with booked assms(2) show ?thesis by auto
qed simp

lemma bought_ticket_may_be_lost_witness:
  "map_option ac_balance (accounts (snd (run_state (BookBus sample_travel ''ada'' (sample_trip ''1A'' ''+234 801 000 0001 (mum)'')) rich_world)) ''ada'')
     = Some 5500000 \<and>
   bookings (snd (run_state (BookBus sample_travel ''ada'' (sample_trip ''1A'' ''+234 801 000 0001 (mum)'')) rich_world)) = []"
proof -
  let ?req = "sample_trip ''1A'' ''+234 801 000 0001 (mum)''"
  let ?run = "run_state (BookBus sample_travel ''ada'' ?req) rich_world"
  have "case fst ?run of Inl _ \<Rightarrow> False | Inr resp \<Rightarrow> b_price_paid (rs_booking resp) = 3500000" by code_simp
  then obtain resp where run: "?run = (Inr resp, snd ?run)" and n: "b_price_paid (rs_booking resp) = 3500000"
    by (cases "fst ?run") (auto simp: prod_eq_iff)
  have "20 < length (ps_phone (xb_passenger ?req))" by code_simp
  with bought_ticket_may_be_lost [OF rich_world_ok run] n obtain a where "accounts rich_world ''ada'' = Some a"
    "accounts (snd ?run) = (accounts rich_world)(''ada'' \<mapsto> debit 3500000 a)" "bookings (snd ?run) = bookings rich_world" by auto
  moreover have "map_option ac_balance (accounts rich_world ''ada'') = Some 9000000" "bookings rich_world = []"
    by (code_simp, simp add: rich_world_def sample_world_def empty_world_def)
  ultimately show ?thesis by auto
qed

text \<open>
  C28. A flight booking that succeeds takes exactly the price that was confirmed just before; one that fails
  leaves every account as it was or gives that price back, unless a statement fails.
\<close>

theorem flight_booking_charges_confirmed_price:
  assumes "wallet_tables_ok s" and "run_state (BookFlight v u req) s = (r, s')"
  shows "case r of
      Inl e \<Rightarrow> given_back (\<lambda>n. \<exists>offer. quoted_flight v req (Suc (tick s)) offer \<and> n = fs_price_kobo offer) u s s' \<and>
        bookings s' = bookings s
    | Inr resp \<Rightarrow> \<exists>op offer a. findFlightOperator v ''AMADEUS'' = Some op \<and>
        fo_price_offer op (Suc (tick s)) (xf_gds_ref req) = Inr (Some offer) \<and>
        b_price_paid (rs_booking resp) = fs_price_kobo offer \<and>
        accounts s u = Some a \<and> can_debit (fs_price_kobo offer) a \<and>
        accounts s' = (accounts s)(u \<mapsto> debit (fs_price_kobo offer) a)"
  using assms
proof (cases rule: BookFlight_cases)
  case (booked resp offer a)
  then show ?thesis unfolding quoted_flight_def by (simp, blast)
qed simp

lemma flight_booking_charges_confirmed_price_witness:
  "map_option ac_balance (accounts (snd (run_state (BookFlight sample_travel ''ada''
     \<lparr>xf_gds_ref = ''1'', xf_passenger = traveller []\<rparr>) rich_world)) ''ada'') = Some 4500000"
proof -
  let ?run = "run_state (BookFlight sample_travel ''ada'' \<lparr>xf_gds_ref = ''1'', xf_passenger = traveller []\<rparr>) rich_world"
  have "succeeded (fst ?run)" by code_simp
  then obtain resp where "?run = (Inr resp, snd ?run)" by (cases "fst ?run") (auto simp: prod_eq_iff)
  from flight_booking_charges_confirmed_price [OF rich_world_ok(1) this] obtain op offer a where
    "findFlightOperator sample_travel ''AMADEUS'' = Some op" "fo_price_offer op (Suc (tick rich_world)) ''1'' = Inr (Some offer)"
    "accounts rich_world ''ada'' = Some a"
    "accounts (snd ?run) = (accounts rich_world)(''ada'' \<mapsto> debit (fs_price_kobo offer) a)" by auto
  moreover from this(1,2) have "fs_price_kobo offer = 4500000"
    by (auto simp: findFlightOperator_def sample_travel_def sample_flights_def sample_offer_def)
  moreover have "map_option ac_balance (accounts rich_world ''ada'') = Some 9000000" by code_simp
  ultimately show ?thesis by auto
qed

lemma sandbox_simps [simp]:
  "bo_code (NewSandboxBusOperator clock i n) = i" "bo_name (NewSandboxBusOperator clock i n) = n"
  "bo_search (NewSandboxBusOperator clock i n) k = travu_search (NewTravuBusAdapter i n)"
  "bo_hold (NewSandboxBusOperator clock i n) = travu_hold clock (NewTravuBusAdapter i n)"
  "ta_op_code (NewTravuBusAdapter i n) = i" "ta_op_name (NewTravuBusAdapter i n) = n"
  by (simp_all add: NewSandboxBusOperator_def NewTravuBusAdapter_def Let_def)

text \<open>
  The bus operators that are installed never sell out: for a vehicle and seat of theirs, whatever has
  been booked before, the hold is granted, the seat is free and the fare is 35,000 naira, so that only the
  wallet decides. The same seat is sold as often as it is paid for.
\<close>

theorem sandbox_never_sells_out:
  assumes "tv_bus_operators v = buildBusOperators clock" and "xb_operator_code req \<in> {''GIGM'', ''ABC''}"
    and "xb_vehicle_ref req = ''VEH-'' @ xb_operator_code req @ ''-01''"
    and "xb_seat_number req \<in> {''1A'', ''2A'', ''2B''}"
  shows "\<exists>op offer. bs_price_kobo offer = 3500000 \<and> (\<forall>s. \<exists>hold.
    run_state (BookBus v u req) s = run_state (pay_bus v u op req hold offer) (step (step s)))"
proof -
  let ?op = "NewSandboxBusOperator clock (xb_operator_code req)
    (if xb_operator_code req = ''GIGM'' then ''God is Good Motors'' else ''ABC Transport'')"
  have op: "findBusOperator v (xb_operator_code req) = Some ?op"
    using assms(1,2) by (auto simp: findBusOperator_def buildBusOperators_def)
  obtain offer where offer: "\<And>n. bo_search ?op n (search_request_of req) = Inr [offer]" "bs_price_kobo offer = 3500000"
    "pick_offer req [offer] = Inr offer"
    using assms(3,4) by (auto simp: travu_search_def Let_def seatIsAvailable_def sandbox_seat_def)
  have "\<exists>h. run_state (BookBus v u req) s = run_state (pay_bus v u ?op req h offer) (step (step s))" for s
  proof -
    obtain h where "bo_hold ?op (tick s) (xb_vehicle_ref req) (xb_seat_number req) = Inr h"
      by (simp add: travu_hold_def)
    with op offer show ?thesis
      by (intro exI [of _ h]) (simp add: BookBus_def run_or_return findLiveBusOffer_def)
  qed
  with offer(2) show ?thesis by blast
qed

lemma sandbox_never_sells_out_witness:
  "\<exists>op offer. bs_price_kobo offer = 3500000 \<and> (\<forall>s. \<exists>hold. run_state (BookBus sample_travel ''bola'' (sample_trip ''1A'' [])) s =
     run_state (pay_bus sample_travel ''bola'' op (sample_trip ''1A'' []) hold offer) (step (step s)))"
  by (rule sandbox_never_sells_out [of _ "\<lambda>n. 1700000000000 + int n"]) (simp_all add: sample_travel_def sample_trip_def)

section \<open>Searching\<close>

text \<open>What \<open>sort.Slice\<close> promises: a permutation, in order.\<close>

definition sorts_by :: "('r \<Rightarrow> int) \<Rightarrow> ('r list \<Rightarrow> 'r list) \<Rightarrow> bool" where
  "sorts_by price f \<longleftrightarrow> (\<forall>rs. mset (f rs) = mset rs \<and> sorted (map price (f rs)))"

text \<open>
  The results of all operators that answer, one operator after the other, the first asked at tick \<open>n\<close>.
\<close>

fun all_results :: "('o \<Rightarrow> nat \<Rightarrow> 'r list res) \<Rightarrow> nat \<Rightarrow> 'o list \<Rightarrow> 'r list" where
  "all_results search n [] = []"
| "all_results search n (op # ops) =
     (case search op n of Inl _ \<Rightarrow> [] | Inr rs \<Rightarrow> rs) @ all_results search (Suc n) ops"

lemma gather_run:
  "run_state (gather search ops found) s = (found @ all_results search (tick s) ops, s\<lparr>tick := tick s + length ops\<rparr>)"
proof (induction ops arbitrary: found s)
  case (Cons op ops)
  show ?case by (cases "search op (tick s)") (simp_all add: Cons.IH step_def)
qed simp

lemma in_order_mset: "mset order = mset [0..<length xs] \<Longrightarrow> mset (in_order order xs) = mset xs"
proof -
  assume o: "mset order = mset [0..<length xs]"
  from mset_eq_setD [OF o] have "filter (\<lambda>i. i < length xs) order = order" by auto
  then have "mset (in_order order xs) = image_mset (\<lambda>i. xs ! i) (mset order)" by (simp add: in_order_def)
  also have "\<dots> = mset (map (\<lambda>i. xs ! i) [0..<length xs])" using o by simp
  finally show ?thesis by (simp add: map_nth)
qed

text \<open>
  C29. A bus search is answered from the cache whenever the cache has an answer, and then no operator is
  asked. Otherwise every operator is asked once, in some order: the answer has every trip of every operator
  that answers, once each and the cheapest first, whatever the operators that fail do; the search fails
  if and only if no trip was found.
\<close>

theorem search_finds_cheapest_first:
  assumes "\<And>n. mset (tv_completion v n) = mset [0..<length (tv_bus_operators v)]"
    and "sorts_by bs_price_kobo (tv_sort_bus v)"
  shows "case tv_get_cache v (tick s) (cache_key req) of
      Inr docs \<Rightarrow> run_state (SearchBus v req) s = (Inr (decodeBusResults (tv_print v) docs), step s)
    | Inl _ \<Rightarrow> \<exists>ops. mset ops = mset (tv_bus_operators v) \<and>
        (case fst (run_state (SearchBus v req) s) of
           Inl e \<Rightarrow> all_results (\<lambda>op n. bo_search op n req) (tick s + 2) ops = []
         | Inr rs \<Rightarrow> rs \<noteq> [] \<and> sorted (map bs_price_kobo rs) \<and>
             mset rs = mset (all_results (\<lambda>op n. bo_search op n req) (tick s + 2) ops))"
proof (cases "tv_get_cache v (tick s) (cache_key req)")
  case (Inr docs)
  then show ?thesis by (simp add: SearchBus_def)
next
  case (Inl e)
  let ?ops = "in_order (tv_completion v (tick (step s))) (tv_bus_operators v)"
  have ops: "mset ?ops = mset (tv_bus_operators v)" by (rule in_order_mset [OF assms(1)])
  let ?all = "all_results (\<lambda>op n. bo_search op n req) (tick s + 2) ?ops"
  have g: "run_state (gather (\<lambda>op n. bo_search op n req) ?ops []) (step (step s)) =
      (?all, (step (step s))\<lparr>tick := tick (step (step s)) + length ?ops\<rparr>)"
    unfolding gather_run by simp
  have "case fst (run_state (SearchBus v req) s) of
      Inl e \<Rightarrow> ?all = []
    | Inr rs \<Rightarrow> rs \<noteq> [] \<and> sorted (map bs_price_kobo rs) \<and> mset rs = mset ?all"
  proof (cases "?all = []")
    case True
    with g Inl show ?thesis by (simp add: SearchBus_def)
  next
    case False
    moreover from assms(2) have s: "mset (tv_sort_bus v ?all) = mset ?all" "sorted (map bs_price_kobo (tv_sort_bus v ?all))"
      by (simp_all add: sorts_by_def)
    moreover have "fst (run_state (SearchBus v req) s) = Inr (tv_sort_bus v ?all)"
      using g Inl False by (simp add: SearchBus_def Let_def)
    moreover have "tv_sort_bus v ?all \<noteq> []" using s(1) False by (metis mset_zero_iff)
    ultimately show ?thesis by simp
  qed
  with ops Inl show ?thesis by (simp, intro exI [of _ ?ops]) simp
qed

definition lagos_abuja :: bus_search_request where
  "lagos_abuja = \<lparr>br_origin = ''Lagos'', br_destination = ''Abuja'', br_departure_date = ''2026-06-01''\<rparr>"

lemma search_finds_cheapest_first_witness:
  "\<exists>rs. fst (run_state (SearchBus sample_travel lagos_abuja) sample_world) = Inr rs \<and>
     set (map bs_operator_code rs) = {''GIGM'', ''ABC''} \<and> sorted (map bs_price_kobo rs)"
proof -
  have "mset (tv_completion sample_travel n) = mset [0..<length (tv_bus_operators sample_travel)]"
    "sorts_by bs_price_kobo (tv_sort_bus sample_travel)" for n
    by (auto simp: sample_travel_def buildBusOperators_def sorts_by_def upt_conv_Cons)
  note found = search_finds_cheapest_first [OF this, of lagos_abuja sample_world]
  let ?search = "\<lambda>op n. bo_search op n lagos_abuja"
  have "tv_get_cache sample_travel n k = Inl ErrNoRows" for n k by (simp add: sample_travel_def)
  with found obtain ops where ops: "mset ops = mset (tv_bus_operators sample_travel)"
    and rs: "case fst (run_state (SearchBus sample_travel lagos_abuja) sample_world) of
           Inl e \<Rightarrow> all_results ?search (tick sample_world + 2) ops = []
         | Inr rs \<Rightarrow> rs \<noteq> [] \<and> sorted (map bs_price_kobo rs) \<and>
             mset rs = mset (all_results ?search (tick sample_world + 2) ops)"
    by auto
  have codes: "map bs_operator_code (all_results ?search n ops) = map bo_code ops"
    if "set ops \<subseteq> set (tv_bus_operators sample_travel)" for n ops
    using that
    by (induction ops arbitrary: n)
      (auto simp: sample_travel_def buildBusOperators_def travu_search_def NewSandboxBusOperator_def Let_def)
  have set: "set ops = set (tv_bus_operators sample_travel)" using ops by (rule mset_eq_setD)
  then have all: "set (map bs_operator_code (all_results ?search n ops)) = {''GIGM'', ''ABC''}" for n
    by (subst codes) (auto simp: sample_travel_def buildBusOperators_def NewSandboxBusOperator_def Let_def)
  then have "all_results ?search n ops \<noteq> []" for n by (metis list.simps(8) list.set(1) insert_not_empty)
  with rs obtain r where r: "fst (run_state (SearchBus sample_travel lagos_abuja) sample_world) = Inr r"
    "mset r = mset (all_results ?search (tick sample_world + 2) ops)" "sorted (map bs_price_kobo r)"
    by (auto split: sum.splits)
  from mset_eq_setD [OF r(2)] all [of "tick sample_world + 2"] have "set (map bs_operator_code r) = {''GIGM'', ''ABC''}"
    by simp
  with r show ?thesis by simp
qed

section \<open>Cached results\<close>

text \<open>
  What the MongoDB driver documents of a value that is stored from a Go interface and read back into
  one: strings, 64-bit integers and doubles stay what they are, an \<open>int\<close> becomes one of the
  two integers of BSON, \<open>time.Time\<close> becomes \<open>primitive.DateTime\<close>.
\<close>

definition driver_reads :: "(bson \<Rightarrow> bson) \<Rightarrow> bool" where
  "driver_reads f \<longleftrightarrow> (\<forall>s. f (BString s) = BString s) \<and> (\<forall>i. f (BInt64 i) = BInt64 i) \<and>
     (\<forall>q. f (BDouble q) = BDouble q) \<and> (\<forall>i. f (BGoInt i) \<in> {BInt32 i, BInt64 i}) \<and> (\<forall>t. f (BGoTime t) = BDateTime t)"

text \<open>
  C30. A search that is answered from the cache tells the same operators, routes, vehicles, prices and ratings
  as the search that filled it, but no departure, no arrival and no seats: the driver reads times back as a
  type that the decoder does not look for, and the decoder never looks at the seats.
\<close>

theorem cached_results_forget_times_and_seats:
  assumes "driver_reads f" and "list_all (\<lambda>r. bs_price_ngn r = ngn_of (bs_price_kobo r)) rs"
  shows "decodeBusResults print (map (map (map_prod id f)) (encodeBusResults rs)) =
    map (\<lambda>r. r\<lparr>bs_departure_time := zero_time, bs_arrival_time := zero_time, bs_seat_layout := []\<rparr>) rs"
proof -
  have "decode_bus_result print (map (map_prod id f) (encode_bus_result r)) =
      r\<lparr>bs_departure_time := zero_time, bs_arrival_time := zero_time, bs_seat_layout := []\<rparr>"
    if "bs_price_ngn r = ngn_of (bs_price_kobo r)" for r
  proof -
    from assms(1) consider "f (BGoInt (bs_seats_available r)) = BInt32 (bs_seats_available r)" |
      "f (BGoInt (bs_seats_available r)) = BInt64 (bs_seats_available r)" by (auto simp: driver_reads_def)
    then show ?thesis
      using assms(1) that
      by cases (simp_all add: driver_reads_def encode_bus_result_def decode_bus_result_def decode_price_def decode_seats_def
          decode_rating_def decode_times_def sprint_v_def Let_def)
  qed
  with assms(2) show ?thesis by (simp add: decodeBusResults_def encodeBusResults_def list_all_iff)
qed

definition sample_driver :: "bson \<Rightarrow> bson" where
  "sample_driver b = (case b of BGoInt i \<Rightarrow> BInt32 i | BGoTime t \<Rightarrow> BDateTime t | BSeats _ \<Rightarrow> BArray [] | _ \<Rightarrow> b)"

lemma cached_results_forget_times_and_seats_witness:
  "case travu_search (NewTravuBusAdapter ''ABC'' ''ABC Transport'') lagos_abuja of Inl _ \<Rightarrow> False
   | Inr rs \<Rightarrow> map (\<lambda>r. (bs_vehicle_ref r, bs_price_kobo r, bs_departure_time r = zero_time, bs_seat_layout r))
       (decodeBusResults (\<lambda>_. []) (map (map (map_prod id sample_driver)) (encodeBusResults rs))) =
       [(''VEH-ABC-01'', 3500000, True, [])]"
proof -
  obtain rs where rs: "travu_search (NewTravuBusAdapter ''ABC'' ''ABC Transport'') lagos_abuja = Inr rs"
    by (simp add: travu_search_def Let_def)
  moreover have "ngn_of 3500000 = 35000" by code_simp
  ultimately have ngn: "list_all (\<lambda>r. bs_price_ngn r = ngn_of (bs_price_kobo r)) rs"
    by (auto simp: travu_search_def Let_def)
  have "driver_reads sample_driver" by (simp add: driver_reads_def sample_driver_def)
  from cached_results_forget_times_and_seats [OF this ngn, of "\<lambda>_. []"] rs show ?thesis
    by (auto simp: travu_search_def Let_def)
qed

end
