(* ===== verification/Json.thy ===== *)
theory Json
  imports Float64 "HOL-Library.AList"
begin

text \<open>
  Go's \<open>encoding/json\<close> and the \<open>net/http\<close> client, as the clients of the payment, bill and flight
  services use them: parsing a body, decoding it field by field into a struct or into
  \<open>map[string]any\<close>, and one request with its response. The request itself, which a remote service
  answers, is a parameter.
\<close>

section \<open>Values\<close>

text \<open>A number keeps its text, which an integer field and a float field read differently.\<close>

datatype json =
    JNull
  | JBool bool
  | JNum string
  | JStr string
  | JArr "json list"
  | JObj "(string \<times> json) list"

section \<open>Strings\<close>

definition hex_value :: "char \<Rightarrow> nat option" where
  "hex_value c =
     (if is_digit c then Some (of_char c - 48)
      else if in_range CHR ''a'' CHR ''f'' c then Some (of_char c - 87)
      else if in_range CHR ''A'' CHR ''F'' c then Some (of_char c - 55) else None)"

fun hex4 :: "string \<Rightarrow> nat option" where
  "hex4 [a, b, c, d] =
     (case (hex_value a, hex_value b, hex_value c, hex_value d) of
        (Some w, Some x, Some y, Some z) \<Rightarrow> Some (((w * 16 + x) * 16 + y) * 16 + z)
      | _ \<Rightarrow> None)"
| "hex4 _ = None"

definition utf8 :: "nat \<Rightarrow> string" where
  "utf8 r = map char_of
     (if r < 128 then [r]
      else if r < 2048 then [192 + r div 64, 128 + r mod 64]
      else if r < 65536 then [224 + r div 4096, 128 + r div 64 mod 64, 128 + r mod 64]
      else [240 + r div 262144, 128 + r div 4096 mod 64, 128 + r div 64 mod 64, 128 + r mod 64])"

definition replacement_rune :: nat where
  "replacement_rune = 65533"

text \<open>
  The rune of \<open>\uXXXX\<close> and the text behind it: a high and a low surrogate are one rune, a surrogate
  without its other half is the replacement character.
\<close>

definition unicode_escape :: "nat \<Rightarrow> string \<Rightarrow> string \<times> string" where
  "unicode_escape r s =
     (if r < 55296 \<or> 57344 \<le> r then (utf8 r, s)
      else case (if take 2 s = [CHR 0x5C, CHR ''u''] then hex4 (take 4 (drop 2 s)) else None) of
        Some r2 \<Rightarrow>
          if r < 56320 \<and> 56320 \<le> r2 \<and> r2 < 57344
          then (utf8 (65536 + (r - 55296) * 1024 + (r2 - 56320)), drop 6 s) else (utf8 replacement_rune, s)
      | None \<Rightarrow> (utf8 replacement_rune, s))"

lemma length_unicode_escape [simp]: "length (snd (unicode_escape r s)) \<le> length s"
  by (auto simp: unicode_escape_def split: option.splits)

definition simple_escape :: "char \<Rightarrow> char option" where
  "simple_escape c = map_of
     [(CHR 0x22, CHR 0x22), (CHR 0x5C, CHR 0x5C), (CHR ''/'', CHR ''/''), (CHR ''b'', CHR 0x08),
      (CHR ''f'', CHR 0x0C), (CHR ''n'', CHR 0x0A), (CHR ''r'', CHR 0x0D), (CHR ''t'', CHR 0x09)] c"

text \<open>The text of a string literal up to its closing quote, and what follows it.\<close>

function parse_string :: "string \<Rightarrow> (string \<times> string) option" where
  "parse_string s =
     (case s of
        [] \<Rightarrow> None
      | c # cs \<Rightarrow>
          if c = CHR 0x22 then Some ([], cs)
          else if c = CHR 0x5C then
            (case cs of
               [] \<Rightarrow> None
             | d # ds \<Rightarrow>
                 if d = CHR ''u'' then
                   (case hex4 (take 4 ds) of
                      None \<Rightarrow> None
                    | Some r \<Rightarrow>
                        map_option (\<lambda>(t, rest). (fst (unicode_escape r (drop 4 ds)) @ t, rest))
                          (parse_string (snd (unicode_escape r (drop 4 ds)))))
                 else (case simple_escape d of
                     None \<Rightarrow> None
                   | Some e \<Rightarrow> map_option (\<lambda>(t, rest). (e # t, rest)) (parse_string ds)))
          else if of_char c < (32 :: nat) then None
          else map_option (\<lambda>(t, rest). (c # t, rest)) (parse_string cs))"
  by pat_completeness auto
termination
  by (relation "measure length") (auto intro: le_less_trans [OF length_unicode_escape])

declare parse_string.simps [simp del]

section \<open>Numbers\<close>

text \<open>
  The text of a number: an optional minus, no leading zeros, digits after a point, an exponent with
  digits.
\<close>

definition take_digits :: "string \<Rightarrow> (string \<times> string) option" where
  "take_digits s =
     (if takeWhile is_digit s = [] then None else Some (takeWhile is_digit s, dropWhile is_digit s))"

definition take_whole :: "string \<Rightarrow> (string \<times> string) option" where
  "take_whole s =
     (case s of
        [] \<Rightarrow> None
      | c # cs \<Rightarrow> if c = CHR ''0'' then Some ([c], cs) else take_digits s)"

definition take_point :: "string \<Rightarrow> (string \<times> string) option" where
  "take_point s =
     (case s of
        c # cs \<Rightarrow> if c = CHR ''.'' then map_option (\<lambda>(d, r). (c # d, r)) (take_digits cs) else Some ([], s)
      | [] \<Rightarrow> Some ([], []))"

definition take_power :: "string \<Rightarrow> (string \<times> string) option" where
  "take_power s =
     (case s of
        c # cs \<Rightarrow>
          if c \<in> {CHR ''e'', CHR ''E''}
          then (let sign = (case cs of d # ds \<Rightarrow> if d \<in> {CHR ''+'', CHR ''-''} then [d] else [] | [] \<Rightarrow> [])
                in map_option (\<lambda>(d, r). (c # sign @ d, r)) (take_digits (drop (length sign) cs)))
          else Some ([], s)
      | [] \<Rightarrow> Some ([], []))"

definition parse_number :: "string \<Rightarrow> (string \<times> string) option" where
  "parse_number s =
     (let sign = (case s of c # _ \<Rightarrow> if c = CHR ''-'' then [c] else [] | [] \<Rightarrow> [])
      in Option.bind (take_whole (drop (length sign) s)) (\<lambda>(whole, s1).
         Option.bind (take_point s1) (\<lambda>(point, s2).
         map_option (\<lambda>(power, s3). (sign @ whole @ point @ power, s3)) (take_power s2))))"

section \<open>Bodies\<close>

definition skip_ws :: "string \<Rightarrow> string" where
  "skip_ws s = dropWhile (\<lambda>c. c \<in> {CHR 0x20, CHR 0x09, CHR 0x0A, CHR 0x0D}) s"

definition expect :: "char \<Rightarrow> string \<Rightarrow> string option" where
  "expect c s = (case skip_ws s of d # ds \<Rightarrow> if d = c then Some ds else None | [] \<Rightarrow> None)"

definition literal :: "string \<Rightarrow> json \<Rightarrow> string \<Rightarrow> (json \<times> string) option" where
  "literal text j s = (if prefix text s then Some (j, drop (length text) s) else None)"

text \<open>
  A value, the elements behind the first of an array, and the members of an object, with the nesting
  and the number of values bounded by the fuel; a body of \<open>n\<close> characters has at most \<open>n\<close> values,
  since each of them takes a character.
\<close>

fun parse_value :: "nat \<Rightarrow> string \<Rightarrow> (json \<times> string) option"
  and parse_elements :: "nat \<Rightarrow> string \<Rightarrow> (json list \<times> string) option"
  and parse_members :: "nat \<Rightarrow> string \<Rightarrow> ((string \<times> json) list \<times> string) option" where
  "parse_value 0 s = None"
| "parse_value (Suc n) s =
     (case skip_ws s of
        [] \<Rightarrow> None
      | c # cs \<Rightarrow>
          if c = CHR 0x22 then map_option (map_prod JStr id) (parse_string cs)
          else if c = CHR ''['' then
            (case expect CHR '']'' cs of
               Some r \<Rightarrow> Some (JArr [], r)
             | None \<Rightarrow> map_option (map_prod JArr id) (parse_elements n cs))
          else if c = CHR ''{'' then
            (case expect CHR ''}'' cs of
               Some r \<Rightarrow> Some (JObj [], r)
             | None \<Rightarrow> map_option (map_prod JObj id) (parse_members n cs))
          else if c = CHR ''n'' then literal ''null'' JNull (c # cs)
          else if c = CHR ''t'' then literal ''true'' (JBool True) (c # cs)
          else if c = CHR ''f'' then literal ''false'' (JBool False) (c # cs)
          else map_option (map_prod JNum id) (parse_number (c # cs)))"
| "parse_elements 0 s = None"
| "parse_elements (Suc n) s =
     Option.bind (parse_value n s) (\<lambda>(v, s1).
       case expect CHR '']'' s1 of
         Some r \<Rightarrow> Some ([v], r)
       | None \<Rightarrow> Option.bind (expect CHR '','' s1) (\<lambda>s2.
           map_option (map_prod (Cons v) id) (parse_elements n s2)))"
| "parse_members 0 s = None"
| "parse_members (Suc n) s =
     Option.bind (expect CHR 0x22 s) (\<lambda>s0.
     Option.bind (parse_string s0) (\<lambda>(key, s1).
     Option.bind (expect CHR '':'' s1) (\<lambda>s2.
     Option.bind (parse_value n s2) (\<lambda>(v, s3).
       case expect CHR ''}'' s3 of
         Some r \<Rightarrow> Some ([(key, v)], r)
       | None \<Rightarrow> Option.bind (expect CHR '','' s3) (\<lambda>s4.
           map_option (map_prod (Cons (key, v)) id) (parse_members n s4))))))"

definition parse_json :: "string \<Rightarrow> json option" where
  "parse_json s =
     (case parse_value (2 * length s + 2) s of
        None \<Rightarrow> None
      | Some (j, rest) \<Rightarrow> if skip_ws rest = [] then Some j else None)"

section \<open>Decoding\<close>

text \<open>
  A decoder updates the value it decodes into, as \<open>json.Unmarshal\<close> does: \<open>null\<close> leaves it alone, and
  a value of another type is an error.
\<close>

type_synonym 'a dec = "json \<Rightarrow> 'a \<Rightarrow> 'a option"

definition d_string :: "string dec" where
  "d_string j x = (case j of JNull \<Rightarrow> Some x | JStr s \<Rightarrow> Some s | _ \<Rightarrow> None)"

definition d_bool :: "bool dec" where
  "d_bool j x = (case j of JNull \<Rightarrow> Some x | JBool b \<Rightarrow> Some b | _ \<Rightarrow> None)"

definition d_float :: "rat dec" where
  "d_float j x =
     (case j of
        JNull \<Rightarrow> Some x
      | JNum t \<Rightarrow> (case ParseFloat t of Inl _ \<Rightarrow> None | Inr q \<Rightarrow> Some q)
      | _ \<Rightarrow> None)"

text \<open>An integer field accepts digits only: neither a point nor an exponent, and 64 bits.\<close>

definition d_int :: "int dec" where
  "d_int j x =
     (case j of
        JNull \<Rightarrow> Some x
      | JNum t \<Rightarrow>
          (let (sign, ds) = take_sign t; n = sign * number ds
           in if all_digits ds \<and> in_i64 n then Some n else None)
      | _ \<Rightarrow> None)"

text \<open>\<open>json.RawMessage\<close> keeps the value undecoded; it is empty if the field is absent.\<close>

definition d_raw :: "json option dec" where
  "d_raw j x = Some (Some j)"

fun d_elements :: "'a dec \<Rightarrow> 'a \<Rightarrow> json list \<Rightarrow> 'a list option" where
  "d_elements d z [] = Some []"
| "d_elements d z (j # js) =
     Option.bind (d j z) (\<lambda>x. map_option (Cons x) (d_elements d z js))"

definition d_list :: "'a dec \<Rightarrow> 'a \<Rightarrow> 'a list dec" where
  "d_list d z j x =
     (case j of JNull \<Rightarrow> Some [] | JArr js \<Rightarrow> d_elements d z js | _ \<Rightarrow> None)"

text \<open>\<open>map[string]T\<close>: the last value of a key counts.\<close>

fun d_entries :: "'a dec \<Rightarrow> 'a \<Rightarrow> (string \<times> json) list \<Rightarrow> (string \<times> 'a) list \<Rightarrow> (string \<times> 'a) list option" where
  "d_entries d z [] m = Some m"
| "d_entries d z ((k, j) # kvs) m =
     Option.bind (d j z) (\<lambda>x. d_entries d z kvs (AList.update k x m))"

definition d_map :: "'a dec \<Rightarrow> 'a \<Rightarrow> (string \<times> 'a) list dec" where
  "d_map d z j m = (case j of JNull \<Rightarrow> Some [] | JObj kvs \<Rightarrow> d_entries d z kvs m | _ \<Rightarrow> None)"

text \<open>
  A struct is given by its fields: the name of the tag and the decoder into the field. A key of the
  object belongs to the field it is equal to but for the case of its letters; other keys are skipped.
\<close>

type_synonym 'r field = "string \<times> 'r dec"

definition fld :: "string \<Rightarrow> ('r \<Rightarrow> 'a) \<Rightarrow> (('a \<Rightarrow> 'a) \<Rightarrow> 'r \<Rightarrow> 'r) \<Rightarrow> 'a dec \<Rightarrow> 'r field" where
  "fld name get upd d = (name, \<lambda>j r. map_option (\<lambda>x. upd (\<lambda>_. x) r) (d j (get r)))"

fun find_field :: "'r field list \<Rightarrow> string \<Rightarrow> 'r dec option" where
  "find_field [] key = None"
| "find_field ((name, d) # fs) key = (if EqualFold name key then Some d else find_field fs key)"

fun d_members :: "'r field list \<Rightarrow> (string \<times> json) list \<Rightarrow> 'r \<Rightarrow> 'r option" where
  "d_members fs [] r = Some r"
| "d_members fs ((k, j) # kvs) r =
     (case find_field fs k of
        None \<Rightarrow> d_members fs kvs r
      | Some d \<Rightarrow> Option.bind (d j r) (d_members fs kvs))"

definition d_struct :: "'r field list \<Rightarrow> 'r dec" where
  "d_struct fs j r = (case j of JNull \<Rightarrow> Some r | JObj kvs \<Rightarrow> d_members fs kvs r | _ \<Rightarrow> None)"

definition Unmarshal :: "'a dec \<Rightarrow> 'a \<Rightarrow> string \<Rightarrow> 'a res" where
  "Unmarshal d z body =
     (case parse_json body of
        None \<Rightarrow> Inl (ErrMsg ''json: syntax error'')
      | Some j \<Rightarrow>
          (case d j z of
             None \<Rightarrow> Inl (ErrMsg ''json: cannot unmarshal'')
           | Some x \<Rightarrow> Inr x))"

section \<open>Values of any type\<close>

text \<open>
  Go's \<open>any\<close>, as far as it is sent or decoded: what a request body is made of, and what
  \<open>map[string]any\<close> is decoded to, where every number is a \<open>float64\<close>. \<open>ARaw\<close> is a \<open>json.RawMessage\<close>. Objects are lists of members
  without a second key; \<open>json.Marshal\<close> sorts a map by its keys, so their order is of no account.
\<close>

datatype any =
    ANil
  | ABool bool
  | AInt int
  | AFloat rat
  | AStr string
  | ASlice "any list"
  | AMap "(string \<times> any) list"
  | ARaw json

fun to_any :: "json \<Rightarrow> any option"
  and to_anys :: "json list \<Rightarrow> any list option"
  and to_members :: "(string \<times> json) list \<Rightarrow> (string \<times> any) list \<Rightarrow> (string \<times> any) list option" where
  "to_any JNull = Some ANil"
| "to_any (JBool b) = Some (ABool b)"
| "to_any (JNum t) = (case ParseFloat t of Inl _ \<Rightarrow> None | Inr q \<Rightarrow> Some (AFloat q))"
| "to_any (JStr s) = Some (AStr s)"
| "to_any (JArr js) = map_option ASlice (to_anys js)"
| "to_any (JObj kvs) = map_option AMap (to_members kvs [])"
| "to_anys [] = Some []"
| "to_anys (j # js) = Option.bind (to_any j) (\<lambda>a. map_option (Cons a) (to_anys js))"
| "to_members [] m = Some m"
| "to_members ((k, j) # kvs) m = Option.bind (to_any j) (\<lambda>a. to_members kvs (AList.update k a m))"

section \<open>HTTP\<close>

record http_request =
  hq_method :: string
  hq_url :: string
  hq_headers :: "(string \<times> string) list"
  hq_body :: "any option"

text \<open>A response whose body cannot be read has no body.\<close>

record http_response =
  hs_status :: int
  hs_body :: "string option"

text \<open>
  What a request runs into: \<open>http.NewRequestWithContext\<close>, which refuses an address that is none, and
  \<open>client.Do\<close>, which answers differently each time.
\<close>

record transport =
  tp_new_request :: "string \<Rightarrow> string \<Rightarrow> goerr option"
  tp_do :: "nat \<Rightarrow> http_request \<Rightarrow> http_response res"

definition status_ok :: "int \<Rightarrow> bool" where
  "status_ok c \<longleftrightarrow> 200 \<le> c \<and> c < 300"

text \<open>Go's \<open>v, err := r; if err != nil { return w(err) }; k(v)\<close> on a result that is known.\<close>

definition and_then :: "'a res \<Rightarrow> (goerr \<Rightarrow> goerr) \<Rightarrow> ('a \<Rightarrow> 'b res) \<Rightarrow> 'b res" where
  "and_then r w k = (case r of Inl e \<Rightarrow> Inl (w e) | Inr v \<Rightarrow> k v)"

lemma and_then_simps [simp]: "and_then (Inl e) w k = Inl (w e)" "and_then (Inr v) w k = k v"
  by (simp_all add: and_then_def)

lemma and_then_Inr: "and_then r w k = Inr y \<longleftrightarrow> (\<exists>v. r = Inr v \<and> k v = Inr y)"
  by (auto simp: and_then_def split: sum.splits)

text \<open>One request up to its response, with the three ways it can fail.\<close>

definition exchange ::
  "transport \<Rightarrow> nat \<Rightarrow> http_request \<Rightarrow> (goerr \<Rightarrow> goerr) \<Rightarrow> (goerr \<Rightarrow> goerr) \<Rightarrow> (goerr \<Rightarrow> goerr) \<Rightarrow>
     (int \<times> string) res" where
  "exchange tr n req build sent read =
     (case tp_new_request tr (hq_method req) (hq_url req) of
        Some e \<Rightarrow> Inl (build e)
      | None \<Rightarrow> and_then (tp_do tr n req) sent (\<lambda>resp.
          case hs_body resp of
            None \<Rightarrow> Inl (read (ErrMsg ''unexpected EOF''))
          | Some body \<Rightarrow> Inr (hs_status resp, body)))"

section \<open>Addresses\<close>

text \<open>\<open>url.PathEscape\<close> and \<open>url.QueryEscape\<close>.\<close>

text \<open>Letters, digits and \<open>-_.~\<close>.\<close>

definition unreserved :: "char \<Rightarrow> bool" where
  "unreserved c \<longleftrightarrow>
     (let n = of_char c :: nat
      in if 97 \<le> n then n \<le> 122 \<or> n = 126
         else if 65 \<le> n then n \<le> 90 \<or> n = 95
         else if 48 \<le> n then n \<le> 57 else n = 45 \<or> n = 46)"

definition upper_hex :: "nat \<Rightarrow> char" where
  "upper_hex d = char_of (if d < 10 then 48 + d else 55 + d)"

definition percent :: "char \<Rightarrow> string" where
  "percent c = [CHR ''%'', upper_hex (of_char c div 16), upper_hex (of_char c mod 16)]"

definition PathEscape :: "string \<Rightarrow> string" where
  "PathEscape s = concat (map (\<lambda>c. if unreserved c \<or> c \<in> set ''$&+=:@'' then [c] else percent c) s)"

definition QueryEscape :: "string \<Rightarrow> string" where
  "QueryEscape s = concat (map (\<lambda>c. if unreserved c then [c] else if c = CHR '' '' then ''+'' else percent c) s)"

text \<open>\<open>url.Values.Encode\<close> of single values, given in the order of their keys.\<close>

definition Encode :: "(string \<times> string) list \<Rightarrow> string" where
  "Encode vs = join_with ''&'' (map (\<lambda>(k, v). QueryEscape k @ ''='' @ QueryEscape v) vs)"

definition trim_slashes :: "string \<Rightarrow> string" where
  "trim_slashes s = rev (dropWhile (\<lambda>c. c = CHR ''/'') (rev s))"

text \<open>A network in which each address has one answer.\<close>

definition sample_transport :: "(string \<times> string) list \<Rightarrow> transport" where
  "sample_transport answers = \<lparr>tp_new_request = (\<lambda>_ _. None), tp_do = (\<lambda>_ req.
     case map_of answers (hq_url req) of
       None \<Rightarrow> Inl (ErrMsg ''no such host'')
     | Some body \<Rightarrow> Inr \<lparr>hs_status = 200, hs_body = Some body\<rparr>)\<rparr>"

end
