(* ===== verification/Webhooks.thy ===== *)
theory Webhooks
  imports WalletService Json Encoding
begin

text \<open>
  \<open>internal/handlers/webhooks/webhook_handler.go\<close>: the callbacks with which Flutterwave and Monnify
  report a wallet funding. The signature is checked on the raw body, the body is decoded, and the
  amount, which the gateways send in naira, is settled in kobo. HMAC-SHA256 is a parameter.
\<close>

section \<open>Requests and replies\<close>

record webhook_handler =
  wh_loyalty :: bool
  wh_flutterwave_secret :: string
  wh_monnify_secret :: string
  wh_hmac_sha256 :: "string \<Rightarrow> string \<Rightarrow> string"

text \<open>A body that cannot be read is \<open>None\<close>; a header that is missing reads as the empty string.\<close>

record webhook_request =
  wq_headers :: "(string \<times> string) list"
  wq_body :: "string option"

definition GetHeader :: "webhook_request \<Rightarrow> string \<Rightarrow> string" where
  "GetHeader req name = (case map_of (wq_headers req) name of None \<Rightarrow> [] | Some v \<Rightarrow> v)"

record reply =
  rp_status :: int
  rp_received :: bool
  rp_error :: "goerr option"

definition refused :: "int \<Rightarrow> string \<Rightarrow> reply" where
  "refused status msg = \<lparr>rp_status = status, rp_received = False, rp_error = Some (ErrMsg msg)\<rparr>"

definition received :: "goerr option \<Rightarrow> reply" where
  "received e = \<lparr>rp_status = 200, rp_received = True, rp_error = e\<rparr>"

section \<open>Events\<close>

record flutterwave_customer =
  fc_email :: string
  fc_phone :: string

record flutterwave_event_data =
  fv_id :: int
  fv_tx_ref :: string
  fv_flw_ref :: string
  fv_amount :: rat
  fv_currency :: string
  fv_status :: string
  fv_customer :: flutterwave_customer

record flutterwave_event =
  fe_event :: string
  fe_data :: flutterwave_event_data

definition zero_flutterwave_event :: flutterwave_event where
  "zero_flutterwave_event = \<lparr>fe_event = [], fe_data = \<lparr>fv_id = 0, fv_tx_ref = [], fv_flw_ref = [],
     fv_amount = 0, fv_currency = [], fv_status = [], fv_customer = \<lparr>fc_email = [], fc_phone = []\<rparr>\<rparr>\<rparr>"

definition d_flutterwave_event :: "flutterwave_event dec" where
  "d_flutterwave_event = d_struct [
     fld ''event'' fe_event fe_event_update d_string,
     fld ''data'' fe_data fe_data_update (d_struct [
       fld ''id'' fv_id fv_id_update d_int,
       fld ''tx_ref'' fv_tx_ref fv_tx_ref_update d_string,
       fld ''flw_ref'' fv_flw_ref fv_flw_ref_update d_string,
       fld ''amount'' fv_amount fv_amount_update d_float,
       fld ''currency'' fv_currency fv_currency_update d_string,
       fld ''status'' fv_status fv_status_update d_string,
       fld ''customer'' fv_customer fv_customer_update (d_struct [
         fld ''email'' fc_email fc_email_update d_string,
         fld ''phone_number'' fc_phone fc_phone_update d_string])])]"

record monnify_event_data =
  mv_transaction_reference :: string
  mv_payment_reference :: string
  mv_amount_paid :: rat
  mv_total_payable :: rat
  mv_paid_on :: string
  mv_payment_status :: string
  mv_payment_description :: string

record monnify_event =
  me_event_type :: string
  me_event_data :: monnify_event_data

definition zero_monnify_event :: monnify_event where
  "zero_monnify_event = \<lparr>me_event_type = [], me_event_data = \<lparr>mv_transaction_reference = [],
     mv_payment_reference = [], mv_amount_paid = 0, mv_total_payable = 0, mv_paid_on = [],
     mv_payment_status = [], mv_payment_description = []\<rparr>\<rparr>"

definition d_monnify_event :: "monnify_event dec" where
  "d_monnify_event = d_struct [
     fld ''eventType'' me_event_type me_event_type_update d_string,
     fld ''eventData'' me_event_data me_event_data_update (d_struct [
       fld ''transactionReference'' mv_transaction_reference mv_transaction_reference_update d_string,
       fld ''paymentReference'' mv_payment_reference mv_payment_reference_update d_string,
       fld ''amountPaid'' mv_amount_paid mv_amount_paid_update d_float,
       fld ''totalPayable'' mv_total_payable mv_total_payable_update d_float,
       fld ''paidOn'' mv_paid_on mv_paid_on_update d_string,
       fld ''paymentStatus'' mv_payment_status mv_payment_status_update d_string,
       fld ''paymentDescription'' mv_payment_description mv_payment_description_update d_string])]"

section \<open>Handlers\<close>

definition verifyMonnifySignature :: "webhook_handler \<Rightarrow> string \<Rightarrow> string \<Rightarrow> string \<Rightarrow> bool" where
  "verifyMonnifySignature h body secret signature \<longleftrightarrow>
     (if secret = [] then True else hex_string (wh_hmac_sha256 h secret body) = signature)"

definition settle_reply ::
  "webhook_handler \<Rightarrow> string \<Rightarrow> string \<Rightarrow> int \<Rightarrow> (world, reply) state" where
  "settle_reply h reference externalRef amountKobo = do {
     r \<leftarrow> ProcessFundingWebhook (wh_loyalty h) reference externalRef amountKobo;
     State_Monad.return (case r of Inl e \<Rightarrow> received (Some e) | Inr _ \<Rightarrow> received None)
   }"

definition Flutterwave :: "webhook_handler \<Rightarrow> webhook_request \<Rightarrow> (world, reply) state" where
  "Flutterwave h req =
     (case wq_body req of
        None \<Rightarrow> State_Monad.return (refused 400 ''could not read request body'')
      | Some rawBody \<Rightarrow>
          (let sig = GetHeader req ''verif-hash''
           in if sig \<noteq> wh_flutterwave_secret h \<and> wh_flutterwave_secret h \<noteq> []
              then State_Monad.return (refused 401 ''invalid signature'')
              else (case Unmarshal d_flutterwave_event zero_flutterwave_event rawBody of
                Inl _ \<Rightarrow> State_Monad.return (refused 400 ''malformed webhook payload'')
              | Inr event \<Rightarrow>
                  if fe_event event \<noteq> ''charge.completed'' \<or> fv_status (fe_data event) \<noteq> ''successful''
                  then State_Monad.return (received None)
                  else settle_reply h (fv_tx_ref (fe_data event)) (fv_flw_ref (fe_data event))
                         (kobo_of (fv_amount (fe_data event))))))"

definition Monnify :: "webhook_handler \<Rightarrow> webhook_request \<Rightarrow> (world, reply) state" where
  "Monnify h req =
     (case wq_body req of
        None \<Rightarrow> State_Monad.return (refused 400 ''could not read request body'')
      | Some rawBody \<Rightarrow>
          (let sig = GetHeader req ''monnify-signature''
           in if \<not> verifyMonnifySignature h rawBody (wh_monnify_secret h) sig
              then State_Monad.return (refused 401 ''invalid signature'')
              else (case Unmarshal d_monnify_event zero_monnify_event rawBody of
                Inl _ \<Rightarrow> State_Monad.return (refused 400 ''malformed webhook payload'')
              | Inr event \<Rightarrow>
                  if me_event_type event \<noteq> ''SUCCESSFUL_TRANSACTION'' \<or> mv_payment_status (me_event_data event) \<noteq> ''PAID''
                  then State_Monad.return (received None)
                  else settle_reply h (mv_transaction_reference (me_event_data event))
                         (mv_payment_reference (me_event_data event)) (kobo_of (mv_amount_paid (me_event_data event))))))"

text \<open>A delivery is a request to one of the two endpoints.\<close>

datatype delivery = ToFlutterwave webhook_request | ToMonnify webhook_request

fun deliver :: "webhook_handler \<Rightarrow> delivery \<Rightarrow> (world, reply) state" where
  "deliver h (ToFlutterwave req) = Flutterwave h req"
| "deliver h (ToMonnify req) = Monnify h req"

fun deliver_all :: "webhook_handler \<Rightarrow> delivery list \<Rightarrow> world \<Rightarrow> world" where
  "deliver_all h [] s = s"
| "deliver_all h (d # ds) s = deliver_all h ds (snd (run_state (deliver h d) s))"

section \<open>What a delivery claims\<close>

text \<open>
  The payment that a delivery reports: our reference, the one of the gateway, and the amount in kobo.
  A delivery that is not signed, not readable or about something else reports none.
\<close>

definition reports :: "webhook_handler \<Rightarrow> delivery \<Rightarrow> (string \<times> string \<times> int) option" where
  "reports h d =
     (case d of
        ToFlutterwave req \<Rightarrow>
          (case wq_body req of
             None \<Rightarrow> None
           | Some body \<Rightarrow>
               if wh_flutterwave_secret h \<notin> {[], GetHeader req ''verif-hash''} then None
               else (case Unmarshal d_flutterwave_event zero_flutterwave_event body of
                 Inl _ \<Rightarrow> None
               | Inr e \<Rightarrow>
                   if fe_event e = ''charge.completed'' \<and> fv_status (fe_data e) = ''successful''
                   then Some (fv_tx_ref (fe_data e), fv_flw_ref (fe_data e), kobo_of (fv_amount (fe_data e))) else None))
      | ToMonnify req \<Rightarrow>
          (case wq_body req of
             None \<Rightarrow> None
           | Some body \<Rightarrow>
               if \<not> verifyMonnifySignature h body (wh_monnify_secret h) (GetHeader req ''monnify-signature'') then None
               else (case Unmarshal d_monnify_event zero_monnify_event body of
                 Inl _ \<Rightarrow> None
               | Inr e \<Rightarrow>
                   if me_event_type e = ''SUCCESSFUL_TRANSACTION'' \<and> mv_payment_status (me_event_data e) = ''PAID''
                   then Some (mv_transaction_reference (me_event_data e), mv_payment_reference (me_event_data e),
                     kobo_of (mv_amount_paid (me_event_data e))) else None)))"

lemma deliver_reports:
  "snd (run_state (deliver h d) s) =
     (case reports h d of
        None \<Rightarrow> s
      | Some (r, x, n) \<Rightarrow> snd (run_state (ProcessFundingWebhook (wh_loyalty h) r x n) s))"
proof (cases d)
  case (ToFlutterwave req)
  then show ?thesis
    by (cases "wq_body req"; cases "Unmarshal d_flutterwave_event zero_flutterwave_event (the (wq_body req))")
      (auto simp: reports_def Flutterwave_def settle_reply_def Let_def split: sum.split prod.split)
next
  case (ToMonnify req)
  then show ?thesis
    by (cases "wq_body req"; cases "Unmarshal d_monnify_event zero_monnify_event (the (wq_body req))")
      (auto simp: reports_def Monnify_def settle_reply_def Let_def split: sum.split prod.split)
qed

lemma deliver_all_attempts:
  "deliver_all h ds s = attempts (\<lambda>(r, x, n). ProcessFundingWebhook (wh_loyalty h) r x n)
     (List.map_filter (reports h) ds) s"
  by (induction ds arbitrary: s) (auto simp: deliver_reports map_filter_simps split: option.splits)

lemma deliver_replies:
  assumes "reports h d = Some p"
  shows "rp_status (fst (run_state (deliver h d) s)) = 200"
  using assms by (cases d) (auto simp: reports_def Flutterwave_def Monnify_def settle_reply_def Let_def received_def
      split: option.splits sum.splits prod.splits if_splits)

section \<open>The books\<close>

text \<open>What a user's successful transactions add up to, and the part of the balance they do not explain.\<close>

definition settled_sum :: "uuid \<Rightarrow> world \<Rightarrow> int" where
  "settled_sum u s = sum_list (map (\<lambda>t. if t_user_id t = u \<and> t_status t = TxSuccess then t_amount t else 0)
     (transactions s))"

definition unexplained :: "world \<Rightarrow> uuid \<Rightarrow> int option" where
  "unexplained s u = map_option (\<lambda>a. ac_balance a - settled_sum u s) (accounts s u)"

text \<open>The transactions but for what a settlement writes.\<close>

definition orders :: "world \<Rightarrow> (string \<times> uuid \<times> int) list" where
  "orders s = map (\<lambda>t. (t_reference t, t_user_id t, t_amount t)) (transactions s)"

lemma settlement_books:
  assumes ok: "wallet_tables_ok s" and run: "run_state (ProcessFundingWebhook b r x n) s = (res, s')"
  shows "unexplained s' u = unexplained s u \<and> orders s' = orders s \<and> (\<forall>k. settled_tx s k \<longrightarrow> settled_tx s' k)"
  using ProcessFundingWebhook_cases [OF assms]
proof (elim disjE conjE exE)
  assume "accounts s' = accounts s" "transactions s' = transactions s"
  then show ?thesis
    by (simp add: unexplained_def settled_sum_def orders_def settled_tx_def tx_by_ref_def)
next
  fix t a g
  assume t: "tx_by_ref r s = Some t" "t_status t = TxPending" "t_amount t = n"
    and a: "accounts s (t_user_id t) = Some a" "accounts s' = (accounts s)(t_user_id t \<mapsto> credit n a)"
    and g: "transactions s' = set_rows (\<lambda>t. t_reference t = r) g (transactions s)" "settles g"
    and st: "settled_tx s' r"
  have r: "t \<in> set (transactions s)" "t_reference t = r"
    using t(1) by (auto simp: tx_by_ref_def dest: find_SomeD)
  have d: "distinct (map t_reference (transactions s))"
    using ok by (simp add: wallet_tables_ok_def transactions_unique_def)
  have "settled_sum u s' = settled_sum u s + (if t_user_id t = u then n else 0)"
    using sum_list_set_rows [OF d r(1), of g "\<lambda>t. if t_user_id t = u \<and> t_status t = TxSuccess then t_amount t else 0"]
      g t r(2) by (simp add: settled_sum_def settles_def)
  then have "unexplained s' u = unexplained s u"
    using a by (simp add: unexplained_def credit_def)
  moreover have "orders s' = orders s"
    unfolding orders_def g(1) by (rule map_set_rows) (use g(2) in \<open>simp add: settles_def\<close>)
  moreover have "settled_tx s' k" if "settled_tx s k" for k
  proof (cases "k = r")
    case False
    then have "tx_by_ref k s' = tx_by_ref k s"
      using g find_set_rows [of "\<lambda>t. t_reference t = r" "\<lambda>t. t_reference t = k" g "transactions s"]
      by (cases "tx_by_ref k s") (auto simp: tx_by_ref_def settles_def dest: find_SomeD)
    with that show ?thesis by (simp add: settled_tx_def)
  qed (simp add: st)
  ultimately show ?thesis by blast
qed

lemma deliver_books:
  assumes "wallet_tables_ok s" and s'_def: "s' = snd (run_state (deliver h d) s)"
  shows "wallet_tables_ok s' \<and> unexplained s' u = unexplained s u \<and> orders s' = orders s \<and>
    (\<forall>k. settled_tx s k \<longrightarrow> settled_tx s' k)"
proof (cases "reports h d")
  case (Some p)
  then obtain r x n where p: "reports h d = Some (r, x, n)" by (cases p) simp
  let ?m = "ProcessFundingWebhook (wh_loyalty h) r x n"
  have "run_state ?m s = (fst (run_state ?m s), s')" by (simp add: s'_def deliver_reports p)
  from settlement_books [OF assms(1) this] keeps_run [OF keeps_ok_ProcessFundingWebhook this assms(1)]
  show ?thesis by blast
qed (use assms in \<open>simp add: deliver_reports\<close>)

section \<open>Properties of the webhooks\<close>

text \<open>
  C8. However the gateways call back: any sequence of requests to both endpoints, repeated, forged,
  malformed or out of order, and under any failure of the database, changes a balance by exactly the
  amounts of the fundings that it settles, changes the owner and the amount of none, and unsettles
  none.
\<close>

theorem webhooks_keep_books:
  assumes "wallet_tables_ok s"
  shows "let s' = deliver_all h ds s
    in wallet_tables_ok s' \<and> unexplained s' u = unexplained s u \<and> orders s' = orders s \<and>
       (\<forall>k. settled_tx s k \<longrightarrow> settled_tx s' k)"
  using assms
proof (induction ds arbitrary: s)
  case (Cons d ds)
  from deliver_books [OF Cons.prems refl, of h d u] Cons.IH [of "snd (run_state (deliver h d) s)"]
  show ?case by (simp add: Let_def)
qed simp

text \<open>A handler, and a report of each gateway about one reference.\<close>

definition sample_handler :: webhook_handler where
  "sample_handler = \<lparr>wh_loyalty = False, wh_flutterwave_secret = ''flw'', wh_monnify_secret = ''mny'',
     wh_hmac_sha256 = (\<lambda>k b. k)\<rparr>"

definition flutterwave_report :: "string \<Rightarrow> string \<Rightarrow> delivery" where
  "flutterwave_report sig amount = ToFlutterwave \<lparr>wq_headers = [(''verif-hash'', sig)], wq_body = Some
     (''{\"event\":\"charge.completed\",\"data\":{\"tx_ref\":\"FUND-INIT-1\",\"flw_ref\":\"FLW-1\",\"status\":\"successful\",\"amount\":''
      @ amount @ ''}}'')\<rparr>"

definition monnify_report :: "string \<Rightarrow> string \<Rightarrow> delivery" where
  "monnify_report sig amount = ToMonnify \<lparr>wq_headers = [(''monnify-signature'', sig)], wq_body = Some
     (''{\"eventType\":\"SUCCESSFUL_TRANSACTION\",\"eventData\":{\"transactionReference\":\"FUND-INIT-1\",\"paymentStatus\":\"PAID\",\"amountPaid\":''
      @ amount @ ''}}'')\<rparr>"

definition ordered_world :: "int \<Rightarrow> world" where
  "ordered_world n = sample_world\<lparr>transactions :=
     [sample_tx ''t0'' ''bola'' ''wb'' ''FUND-INIT-1'' TxTypeCredit n TxPending]\<rparr>"

lemma ordered_tables_ok: "wallet_tables_ok (ordered_world 12813)" "wallet_tables_ok (ordered_world 12814)"
  by code_simp+

text \<open>128.14 naira are read as 12813 kobo.\<close>

lemma sample_reports [simp]:
  "reports sample_handler (flutterwave_report ''forged'' a) = None"
  "reports sample_handler (flutterwave_report ''flw'' ''128.14'') = Some (''FUND-INIT-1'', ''FLW-1'', 12813)"
  "reports sample_handler (monnify_report (hex_string ''mny'') ''128.14'') = Some (''FUND-INIT-1'', [], 12813)"
  by (simp add: reports_def sample_handler_def flutterwave_report_def GetHeader_def) code_simp+

lemma webhooks_keep_books_witness:
  "let s' = deliver_all sample_handler [flutterwave_report ''forged'' ''128.14'', flutterwave_report ''flw'' ''128.14'',
       monnify_report (hex_string ''mny'') ''128.14'', flutterwave_report ''flw'' ''128.14''] (ordered_world 12813)
   in settled_sum ''bola'' s' = 12813 \<and> map_option ac_balance (accounts s' ''bola'') = Some 32813"
proof -
  let ?ds = "[flutterwave_report ''forged'' ''128.14'', flutterwave_report ''flw'' ''128.14'',
       monnify_report (hex_string ''mny'') ''128.14'', flutterwave_report ''flw'' ''128.14'']"
  let ?xs = "[(''FUND-INIT-1'', ''FLW-1'', 12813), (''FUND-INIT-1'', [], 12813), (''FUND-INIT-1'', ''FLW-1'', 12813)]"
  have "deliver_all sample_handler ?ds (ordered_world 12813) =
      attempts (\<lambda>(r, x, n). ProcessFundingWebhook False r x n) ?xs (ordered_world 12813)"
    by (simp add: deliver_all_attempts map_filter_simps) (simp add: sample_handler_def)
  moreover have "settled_sum ''bola'' (attempts (\<lambda>(r, x, n). ProcessFundingWebhook False r x n) ?xs (ordered_world 12813)) = 12813"
    by code_simp
  moreover have "unexplained (ordered_world 12813) ''bola'' = Some 20000" by code_simp
  ultimately show ?thesis
    using webhooks_keep_books [OF ordered_tables_ok(1), of sample_handler ?ds "''bola''"]
    by (auto simp: Let_def unexplained_def)
qed

text \<open>Carrying the secret, or a MAC of the body under it.\<close>

definition signed :: "webhook_handler \<Rightarrow> delivery \<Rightarrow> bool" where
  "signed h d =
     (case d of
        ToFlutterwave req \<Rightarrow> GetHeader req ''verif-hash'' = wh_flutterwave_secret h
      | ToMonnify req \<Rightarrow>
          (case wq_body req of
             None \<Rightarrow> False
           | Some body \<Rightarrow> GetHeader req ''monnify-signature'' = hex_string (wh_hmac_sha256 h (wh_monnify_secret h) body)))"

lemma reports_signed:
  assumes "reports h d = Some p" and "wh_flutterwave_secret h \<noteq> []" and "wh_monnify_secret h \<noteq> []"
  shows "signed h d"
  using assms by (cases d) (auto simp: reports_def signed_def verifyMonnifySignature_def split: option.splits if_splits)

text \<open>
  C9. With both secrets set, a wallet changes only if a request with the gateway's signature reports
  an order of its user with the amount that was ordered; without one, no sequence of requests moves
  money.
\<close>

theorem only_signed_reports_credit:
  assumes "wallet_tables_ok s" and "wh_flutterwave_secret h \<noteq> []" and "wh_monnify_secret h \<noteq> []"
    and "accounts (deliver_all h ds s) u \<noteq> accounts s u"
  shows "\<exists>d r x n. d \<in> set ds \<and> signed h d \<and> reports h d = Some (r, x, n) \<and> (r, u, n) \<in> set (orders s)"
  using assms
proof (induction ds arbitrary: s)
  case (Cons d ds)
  let ?s1 = "snd (run_state (deliver h d) s)"
  note one = deliver_books [OF Cons.prems(1) refl, of h d u]
  show ?case
  proof (cases "accounts ?s1 u = accounts s u")
    case True
    with Cons.prems one Cons.IH [of ?s1] show ?thesis by auto
  next
    case False
    then obtain r x n where rep: "reports h d = Some (r, x, n)"
      by (auto simp: deliver_reports split: option.splits prod.splits)
    let ?m = "ProcessFundingWebhook (wh_loyalty h) r x n"
    have "run_state ?m s = (fst (run_state ?m s), ?s1)" by (simp add: deliver_reports rep)
    from ProcessFundingWebhook_cases [OF Cons.prems(1) this] False obtain t a where
      t: "tx_by_ref r s = Some t" "t_amount t = n" and u: "t_user_id t = u"
      by (auto split: if_splits)
    then have "(r, u, n) \<in> set (orders s)"
      by (force simp: orders_def tx_by_ref_def dest: find_SomeD)
    with rep reports_signed [OF rep Cons.prems(2,3)] show ?thesis by auto
  qed
qed simp

lemma only_signed_reports_credit_witness:
  "\<exists>d r x n. d \<in> set [flutterwave_report ''forged'' ''128.14'', monnify_report (hex_string ''mny'') ''128.14''] \<and>
     signed sample_handler d \<and> reports sample_handler d = Some (r, x, n) \<and>
     (r, ''bola'', n) \<in> set (orders (ordered_world 12813))"
proof (rule only_signed_reports_credit [OF ordered_tables_ok(1)])
  let ?ds = "[flutterwave_report ''forged'' ''128.14'', monnify_report (hex_string ''mny'') ''128.14'']"
  have "deliver_all sample_handler ?ds (ordered_world 12813) =
      attempts (\<lambda>(r, x, n). ProcessFundingWebhook False r x n) [(''FUND-INIT-1'', [], 12813)] (ordered_world 12813)"
    by (simp add: deliver_all_attempts map_filter_simps) (simp add: sample_handler_def)
  moreover have "map_option ac_balance (accounts (attempts (\<lambda>(r, x, n). ProcessFundingWebhook False r x n)
      [(''FUND-INIT-1'', [], 12813)] (ordered_world 12813)) ''bola'') \<noteq>
    map_option ac_balance (accounts (ordered_world 12813) ''bola'')" by code_simp
  ultimately show "accounts (deliver_all sample_handler ?ds (ordered_world 12813)) ''bola'' \<noteq>
      accounts (ordered_world 12813) ''bola''" by auto
qed (simp_all add: sample_handler_def)

text \<open>
  C10. A funding that is paid but reported with an amount that reads as another number of kobo is never
  credited: whatever is reported about it and however often, nothing changes, and every report is
  answered with status 200, upon which the gateway stops repeating it. Amounts such as 128.14 naira
  are read as one kobo less than they are.
\<close>

theorem misread_amount_strands_funding:
  assumes "wallet_tables_ok s" and "tx_by_ref r s = Some t"
    and "list_all (\<lambda>d. case reports h d of None \<Rightarrow> False | Some (r', x, n) \<Rightarrow> r' = r \<and> n \<noteq> t_amount t) ds"
  shows "accounts (deliver_all h ds s) = accounts s \<and> transactions (deliver_all h ds s) = transactions s \<and>
    list_all (\<lambda>d. rp_status (fst (run_state (deliver h d) s')) = 200) ds"
  using assms
proof (induction ds arbitrary: s)
  case (Cons d ds)
  from Cons.prems(3) obtain x n where rep: "reports h d = Some (r, x, n)" and n: "n \<noteq> t_amount t"
    by (auto split: option.splits)
  let ?m = "ProcessFundingWebhook (wh_loyalty h) r x n" and ?s1 = "snd (run_state (deliver h d) s)"
  have run: "run_state ?m s = (fst (run_state ?m s), ?s1)" by (simp add: deliver_reports rep)
  from ProcessFundingWebhook_cases [OF Cons.prems(1) this] Cons.prems(2) n
  have same: "accounts ?s1 = accounts s" "transactions ?s1 = transactions s" by auto
  have "wallet_tables_ok ?s1" using keeps_run [OF keeps_ok_ProcessFundingWebhook run Cons.prems(1)] .
  from Cons.IH [OF this] Cons.prems same deliver_replies [OF rep] show ?case
    by (simp add: tx_by_ref_def)
qed simp

lemma misread_amount_strands_funding_witness:
  "accounts (deliver_all sample_handler [flutterwave_report ''flw'' ''128.14'', monnify_report (hex_string ''mny'') ''128.14'']
     (ordered_world 12814)) = accounts (ordered_world 12814)"
proof -
  have "tx_by_ref ''FUND-INIT-1'' (ordered_world 12814) =
      Some (sample_tx ''t0'' ''bola'' ''wb'' ''FUND-INIT-1'' TxTypeCredit 12814 TxPending)" by code_simp
  from misread_amount_strands_funding [OF ordered_tables_ok(2) this, of sample_handler
      "[flutterwave_report ''flw'' ''128.14'', monnify_report (hex_string ''mny'') ''128.14'']"]
  show ?thesis by (simp add: sample_tx_def)
qed

text \<open>
  C0. An amount of \<open>n\<close> kobo that Flutterwave reports as naira with two decimals is read as \<open>n\<close> or as
  one kobo less, never as more.
\<close>

theorem reported_amount_within_a_kobo:
  assumes "0 < n" and "n < 2 ^ 51"
  shows "\<exists>e. d_flutterwave_event (JObj [(''event'', JStr ''charge.completed''), (''data'', JObj [(''tx_ref'', JStr r),
      (''flw_ref'', JStr x), (''amount'', JNum (show_kobo n)), (''status'', JStr ''successful'')])]) zero_flutterwave_event = Some e \<and>
    fv_tx_ref (fe_data e) = r \<and> fv_flw_ref (fe_data e) = x \<and> kobo_of (fv_amount (fe_data e)) \<in> {n - 1, n}"
proof -
  have "kobo_of (float64 (of_int n / 100)) \<in> {n - 1, n}" using assms by (rule kobo_of_float64)
  moreover have "ParseFloat (show_kobo n) = Inr (float64 (of_int n / 100))"
    using assms by (intro ParseFloat_show_kobo) simp_all
  ultimately show ?thesis
    by (simp add: d_flutterwave_event_def zero_flutterwave_event_def d_struct_def fld_def d_string_def d_float_def
        to_lower_char_def in_range_def)
qed

lemma reported_amount_within_a_kobo_witness:
  "kobo_of (float64 (12814 / 100)) = 12813 \<and>
   (\<exists>e. d_flutterwave_event (JObj [(''event'', JStr ''charge.completed''), (''data'', JObj [(''tx_ref'', JStr ''R''),
      (''flw_ref'', JStr ''X''), (''amount'', JNum (show_kobo 12814)), (''status'', JStr ''successful'')])]) zero_flutterwave_event = Some e \<and>
    fv_tx_ref (fe_data e) = ''R'' \<and> fv_flw_ref (fe_data e) = ''X'' \<and> kobo_of (fv_amount (fe_data e)) \<in> {12814 - 1, 12814})"
proof
  show "kobo_of (float64 (12814 / 100)) = 12813" by code_simp
qed (rule reported_amount_within_a_kobo; simp)

end
