(* ===== verification/BillClients.thy ===== *)
theory BillClients
  imports Utilities Json Encoding
begin

text \<open>
  The two bill aggregators behind the payments: \<open>flutterwave_client.go\<close> and \<open>monnify_client.go\<close> of
  \<open>internal/services/utilities\<close>. A client sends one request per operation and decodes its answer; each
  is a \<open>bill_provider\<close>, the interface against which payments are modelled.
\<close>

section \<open>Flutterwave: messages\<close>

record flutterwave_payment_request =
  fq_tx_ref :: string
  fq_amount :: rat
  fq_currency :: string
  fq_redirect_url :: string
  fq_customer_email :: string
  fq_customer_phone :: string
  fq_customer_name :: string
  fq_user_id :: string

text \<open>An answer has a status, a message and data.\<close>

record 'd flutterwave_response =
  fx_status :: string
  fx_message :: string
  fx_data :: 'd

definition zero_response :: "'d \<Rightarrow> 'd flutterwave_response" where
  "zero_response z = \<lparr>fx_status = [], fx_message = [], fx_data = z\<rparr>"

definition d_response :: "'d dec \<Rightarrow> 'd flutterwave_response dec" where
  "d_response d = d_struct [
     fld ''status'' fx_status fx_status_update d_string,
     fld ''message'' fx_message fx_message_update d_string,
     fld ''data'' fx_data fx_data_update d]"

text \<open>The data of a payment is a link.\<close>

definition d_link :: "string dec" where
  "d_link = d_struct [(''link'', d_string)]"

record flutterwave_bill_data =
  fb_reference :: string
  fb_tx_ref :: string
  fb_batch_reference :: string
  fb_code :: string
  fb_amount :: "json option"
  fb_fee :: "json option"
  fb_recharge_token :: string

definition zero_bill_data :: flutterwave_bill_data where
  "zero_bill_data = \<lparr>fb_reference = [], fb_tx_ref = [], fb_batch_reference = [], fb_code = [],
     fb_amount = None, fb_fee = None, fb_recharge_token = []\<rparr>"

definition d_bill_data :: "flutterwave_bill_data dec" where
  "d_bill_data = d_struct [
     fld ''reference'' fb_reference fb_reference_update d_string,
     fld ''tx_ref'' fb_tx_ref fb_tx_ref_update d_string,
     fld ''batch_reference'' fb_batch_reference fb_batch_reference_update d_string,
     fld ''code'' fb_code fb_code_update d_string,
     fld ''amount'' fb_amount fb_amount_update d_raw,
     fld ''fee'' fb_fee fb_fee_update d_raw,
     fld ''recharge_token'' fb_recharge_token fb_recharge_token_update d_string]"

record flutterwave_bill_status_data =
  fs_currency :: string
  fs_customer_id :: string
  fs_amount :: "json option"
  fs_fee :: "json option"
  fs_product :: string
  fs_product_name :: string
  fs_customer_reference :: string
  fs_country :: string
  fs_flw_ref :: string
  fs_tx_ref :: string
  fs_extra :: "json option"
  fs_product_details :: string

definition zero_bill_status_data :: flutterwave_bill_status_data where
  "zero_bill_status_data = \<lparr>fs_currency = [], fs_customer_id = [], fs_amount = None, fs_fee = None, fs_product = [],
     fs_product_name = [], fs_customer_reference = [], fs_country = [], fs_flw_ref = [], fs_tx_ref = [],
     fs_extra = None, fs_product_details = []\<rparr>"

definition d_bill_status_data :: "flutterwave_bill_status_data dec" where
  "d_bill_status_data = d_struct [
     fld ''currency'' fs_currency fs_currency_update d_string,
     fld ''customer_id'' fs_customer_id fs_customer_id_update d_string,
     fld ''amount'' fs_amount fs_amount_update d_raw,
     fld ''fee'' fs_fee fs_fee_update d_raw,
     fld ''product'' fs_product fs_product_update d_string,
     fld ''product_name'' fs_product_name fs_product_name_update d_string,
     fld ''customer_reference'' fs_customer_reference fs_customer_reference_update d_string,
     fld ''country'' fs_country fs_country_update d_string,
     fld ''flw_ref'' fs_flw_ref fs_flw_ref_update d_string,
     fld ''tx_ref'' fs_tx_ref fs_tx_ref_update d_string,
     fld ''extra'' fs_extra fs_extra_update d_raw,
     fld ''product_details'' fs_product_details fs_product_details_update d_string]"

section \<open>Flutterwave: one request\<close>

text \<open>What \<open>json.Marshal\<close> makes of an answer that is stored as raw message is a parameter.\<close>

record flutterwave_client =
  fw_base_url :: string
  fw_secret_key :: string
  fw_transport :: transport
  fw_marshal_bill :: "flutterwave_bill_data flutterwave_response \<Rightarrow> string"
  fw_marshal_status :: "flutterwave_bill_status_data flutterwave_response \<Rightarrow> string"

definition NewFlutterwaveClient ::
  "string \<Rightarrow> string \<Rightarrow> transport \<Rightarrow> (flutterwave_bill_data flutterwave_response \<Rightarrow> string) \<Rightarrow>
     (flutterwave_bill_status_data flutterwave_response \<Rightarrow> string) \<Rightarrow> flutterwave_client" where
  "NewFlutterwaveClient secretKey baseURL tr mb ms =
     \<lparr>fw_base_url = trim_slashes baseURL, fw_secret_key = secretKey, fw_transport = tr,
      fw_marshal_bill = mb, fw_marshal_status = ms\<rparr>"

definition flutterwave_request :: "flutterwave_client \<Rightarrow> string \<Rightarrow> string \<Rightarrow> any option \<Rightarrow> http_request" where
  "flutterwave_request c method path payload =
     \<lparr>hq_method = method, hq_url = fw_base_url c @ path,
      hq_headers = [(''Authorization'', ''Bearer '' @ fw_secret_key c), (''Content-Type'', ''application/json''),
        (''Accept'', ''application/json'')], hq_body = payload\<rparr>"

definition flutterwave_failure :: "int \<Rightarrow> string \<Rightarrow> goerr" where
  "flutterwave_failure status body =
     (let plain = ErrMsg (''flutterwave bills api returned '' @ show_int status)
      in case Unmarshal (d_response (\<lambda>_. Some)) (zero_response ()) body of
        Inl _ \<Rightarrow> plain
      | Inr apiErr \<Rightarrow>
          if fx_message apiErr \<noteq> []
          then ErrMsg (''flutterwave bills api returned '' @ show_int status @ '': '' @ fx_message apiErr) else plain)"

definition flutterwave_do ::
  "flutterwave_client \<Rightarrow> nat \<Rightarrow> string \<Rightarrow> string \<Rightarrow> any option \<Rightarrow> 'd dec \<Rightarrow> 'd \<Rightarrow> 'd flutterwave_response res" where
  "flutterwave_do c n method path payload d z =
     and_then (exchange (fw_transport c) n (flutterwave_request c method path payload)
         (Wrap ''build flutterwave request'') (Wrap ''call flutterwave bills api'') (Wrap ''read flutterwave response''))
       (\<lambda>e. e) (\<lambda>(status, body).
     if \<not> status_ok status then Inl (flutterwave_failure status body)
     else and_then (Unmarshal (d_response d) (zero_response z) body) (Wrap ''decode flutterwave response'') Inr)"

definition flutterwave_validate :: "flutterwave_client \<Rightarrow> unit res" where
  "flutterwave_validate c =
     (if TrimSpace (fw_secret_key c) = [] then Inl (ErrMsg ''flutterwave secret key is not configured'')
      else if TrimSpace (fw_base_url c) = [] then Inl (ErrMsg ''flutterwave base url is not configured'')
      else Inr ())"

section \<open>Flutterwave: bills\<close>

definition flutterwaveBillType :: "service_category \<Rightarrow> string" where
  "flutterwaveBillType category =
     (if category = CategoryAirtime then ''AIRTIME''
      else if category = CategoryData then ''MOBILEDATA''
      else if category = CategoryElectricity then ''UTILITYBILLS''
      else if category = CategoryBetting then ''BETTING''
      else ToUpper (category_text category))"

text \<open>\<open>payload[key] = value\<close> for the metadata, but for the keys that are only ours.\<close>

fun put_meta :: "meta \<Rightarrow> (string \<times> any) list \<Rightarrow> (string \<times> any) list" where
  "put_meta [] p = p"
| "put_meta ((key, v) # m) p =
     (let p = put_meta m p
      in if key \<in> {''plan_code'', ''network'', ''meter_type'', ''platform''} then p
         else AList.update key (AStr v) p)"

text \<open>\<open>if v != "" { payload[k1] = v; payload[k2] = v }\<close>.\<close>

definition put_unless_empty :: "string list \<Rightarrow> string \<Rightarrow> (string \<times> any) list \<Rightarrow> (string \<times> any) list" where
  "put_unless_empty keys v p = (if v = [] then p else fold (\<lambda>k. AList.update k (AStr v)) keys p)"

definition category_fields :: "service_category \<Rightarrow> meta \<Rightarrow> (string \<times> any) list \<Rightarrow> (string \<times> any) list" where
  "category_fields category m p =
     (if category = CategoryData then
        put_unless_empty [''customer'', ''customer_id''] (stringFromMeta m ''phone'')
          (put_unless_empty [''biller_code''] (stringFromMeta m ''biller_code'')
            (if stringFromMeta m ''item_code'' \<noteq> [] then put_unless_empty [''item_code''] (stringFromMeta m ''item_code'') p
             else put_unless_empty [''item_code''] (stringFromMeta m ''plan_code'') p))
      else if category = CategoryElectricity then
        put_unless_empty [''biller_code''] (stringFromMeta m ''biller_code'')
          (put_unless_empty [''customer'', ''customer_id''] (stringFromMeta m ''meter_number'') p)
      else if category = CategoryBetting then
        put_unless_empty [''biller_code''] (stringFromMeta m ''biller_code'')
          (put_unless_empty [''customer'', ''customer_id''] (stringFromMeta m ''customer_id'') p)
      else p)"

definition bill_payload :: "bill_purchase_params \<Rightarrow> (string \<times> any) list" where
  "bill_payload params =
     category_fields (bp_category params) (bp_meta params) (put_meta (bp_meta params)
       [(''country'', AStr ''NG''), (''customer'', AStr (bp_customer_id params)),
        (''customer_id'', AStr (bp_customer_id params)), (''amount'', AFloat (ngn_of (bp_amount params))),
        (''recurrence'', AStr ''ONCE''), (''type'', AStr (flutterwaveBillType (bp_category params))),
        (''reference'', AStr (bp_reference params))])"

text \<open>The first of the references that is not empty.\<close>

definition bill_reference :: "flutterwave_bill_data \<Rightarrow> string" where
  "bill_reference d =
     (if fb_reference d \<noteq> [] then fb_reference d
      else if fb_tx_ref d \<noteq> [] then fb_tx_ref d else fb_batch_reference d)"

definition flutterwave_PurchaseBill ::
  "flutterwave_client \<Rightarrow> nat \<Rightarrow> bill_purchase_params \<Rightarrow> unified_bill_response res" where
  "flutterwave_PurchaseBill c n params =
     and_then (flutterwave_validate c) (\<lambda>e. e) (\<lambda>_.
     and_then (flutterwave_do c n ''POST'' ''/bills'' (Some (AMap (bill_payload params))) d_bill_data zero_bill_data)
       (\<lambda>e. e) (\<lambda>response.
     if fx_status response \<noteq> ''success''
     then Inl (ErrMsg (''flutterwave bill payment failed: '' @ fx_message response))
     else Inr \<lparr>ub_external_reference = bill_reference (fx_data response),
        ub_recharge_token = fb_recharge_token (fx_data response), ub_status = ''success'',
        ub_raw_message = fw_marshal_bill c response\<rparr>))"

definition flutterwave_CheckBillStatus ::
  "flutterwave_client \<Rightarrow> nat \<Rightarrow> string \<Rightarrow> unified_bill_response res" where
  "flutterwave_CheckBillStatus c n reference =
     and_then (flutterwave_validate c) (\<lambda>e. e) (\<lambda>_.
     if TrimSpace reference = [] then Inl (ErrMsg ''flutterwave bill reference is required'')
     else and_then (flutterwave_do c n ''GET'' (''/bills/'' @ reference) None d_bill_status_data zero_bill_status_data)
       (\<lambda>e. e) (\<lambda>response.
     Inr \<lparr>ub_external_reference = fs_flw_ref (fx_data response), ub_recharge_token = [],
        ub_status = (if fx_status response = ''success'' then ''success'' else ''pending''),
        ub_raw_message = fw_marshal_status c response\<rparr>))"

definition flutterwave_provider :: "flutterwave_client \<Rightarrow> bill_provider" where
  "flutterwave_provider c =
     \<lparr>PurchaseBill = flutterwave_PurchaseBill c, CheckBillStatus = flutterwave_CheckBillStatus c\<rparr>"

section \<open>Flutterwave: payments\<close>

definition payment_payload :: "flutterwave_payment_request \<Rightarrow> any" where
  "payment_payload req = AMap
     [(''tx_ref'', AStr (fq_tx_ref req)), (''amount'', AStr (show_fixed2 (fq_amount req))),
      (''currency'', AStr (fq_currency req)), (''redirect_url'', AStr (fq_redirect_url req)),
      (''customer'', AMap [(''email'', AStr (fq_customer_email req)), (''phonenumber'', AStr (fq_customer_phone req)),
        (''name'', AStr (fq_customer_name req))]),
      (''meta'', AMap [(''user_id'', AStr (fq_user_id req))]),
      (''customizations'', AMap [(''title'', AStr ''Flip Bills Wallet Funding''),
        (''description'', AStr ''Fund your Flip Bills wallet''), (''logo'', AStr [])])]"

definition flutterwave_InitializePayment ::
  "flutterwave_client \<Rightarrow> nat \<Rightarrow> flutterwave_payment_request \<Rightarrow> string flutterwave_response res" where
  "flutterwave_InitializePayment c n req =
     and_then (flutterwave_validate c) (\<lambda>e. e) (\<lambda>_.
     if fq_tx_ref req = [] \<or> fq_amount req \<le> 0 then Inl (ErrMsg ''invalid payment request'')
     else and_then (flutterwave_do c n ''POST'' ''/payments'' (Some (payment_payload req)) d_link [])
       (\<lambda>e. e) (\<lambda>resp.
     if fx_status resp \<noteq> ''success''
     then Inl (ErrMsg (''flutterwave payment initialization failed: '' @ fx_message resp))
     else Inr resp))"

section \<open>Monnify\<close>

record monnify_client =
  mc_api_key :: string
  mc_secret_key :: string
  mc_base_url :: string
  mc_transport :: transport

definition monnifyServiceType :: "service_category \<Rightarrow> string" where
  "monnifyServiceType category =
     (if category = CategoryAirtime then ''AIRTIME''
      else if category = CategoryData then ''DATA''
      else if category = CategoryElectricity then ''ELECTRICITY''
      else [])"

definition monnifyBasicAuth :: "string \<Rightarrow> string \<Rightarrow> string" where
  "monnifyBasicAuth apiKey secretKey = EncodeToString std_alphabet (apiKey @ '':'' @ secretKey)"

record 'b monnify_response =
  mr_successful :: bool
  mr_message :: string
  mr_body :: 'b

record monnify_purchase_body =
  mp_unique_reference :: string
  mp_recharge_token :: string

record monnify_status_body =
  ms_status :: string
  ms_customer_reference :: string
  ms_product_name :: string

definition zero_monnify :: "'b \<Rightarrow> 'b monnify_response" where
  "zero_monnify z = \<lparr>mr_successful = False, mr_message = [], mr_body = z\<rparr>"

definition d_monnify_purchase :: "monnify_purchase_body monnify_response dec" where
  "d_monnify_purchase = d_struct [
     fld ''requestSuccessful'' mr_successful mr_successful_update d_bool,
     fld ''responseMessage'' mr_message mr_message_update d_string,
     fld ''responseBody'' mr_body mr_body_update (d_struct [
       fld ''uniqueReference'' mp_unique_reference mp_unique_reference_update d_string,
       fld ''rechargeToken'' mp_recharge_token mp_recharge_token_update d_string])]"

definition d_monnify_status :: "monnify_status_body monnify_response dec" where
  "d_monnify_status = d_struct [
     fld ''requestSuccessful'' mr_successful mr_successful_update d_bool,
     fld ''responseBody'' mr_body mr_body_update (d_struct [
       fld ''status'' ms_status ms_status_update d_string,
       fld ''customerReference'' ms_customer_reference ms_customer_reference_update d_string,
       fld ''productName'' ms_product_name ms_product_name_update d_string])]"

text \<open>The error of \<open>io.ReadAll\<close> is ignored; a body that breaks off is taken as empty, which is no JSON.\<close>

definition monnify_exchange :: "monnify_client \<Rightarrow> nat \<Rightarrow> http_request \<Rightarrow> string \<Rightarrow> string res" where
  "monnify_exchange m n req what =
     (case tp_new_request (mc_transport m) (hq_method req) (hq_url req) of
        Some e \<Rightarrow> Inl e
      | None \<Rightarrow> and_then (tp_do (mc_transport m) n req) (Wrap (''monnify '' @ what)) (\<lambda>resp.
          Inr (case hs_body resp of None \<Rightarrow> [] | Some body \<Rightarrow> body)))"

definition monnify_headers :: "monnify_client \<Rightarrow> (string \<times> string) list" where
  "monnify_headers m = [(''Authorization'', ''Basic '' @ monnifyBasicAuth (mc_api_key m) (mc_secret_key m))]"

definition monnify_PurchaseBill ::
  "monnify_client \<Rightarrow> nat \<Rightarrow> bill_purchase_params \<Rightarrow> unified_bill_response res" where
  "monnify_PurchaseBill m n params =
     (if mc_api_key m = [] then Inl (ErrMsg ''monnify fallback: api key not configured'')
      else let serviceType = monnifyServiceType (bp_category params)
        in if serviceType = [] then Inl (ErrMsg (''monnify fallback: unsupported category '' @ [CHR 0x22] @ category_text (bp_category params) @ [CHR 0x22]))
        else and_then (monnify_exchange m n \<lparr>hq_method = ''POST'',
              hq_url = mc_base_url m @ ''/api/v1/bills-payment/bills/pay'',
              hq_headers = (''Content-Type'', ''application/json'') # monnify_headers m,
              hq_body = Some (AMap [(''amount'', AFloat (ngn_of (bp_amount params))), (''serviceType'', AStr serviceType),
                (''uniqueReference'', AStr (bp_reference params)), (''device'', AStr (bp_customer_id params))])\<rparr> ''PurchaseBill'')
            (\<lambda>e. e) (\<lambda>respBody.
          and_then (Unmarshal d_monnify_purchase
              (zero_monnify \<lparr>mp_unique_reference = [], mp_recharge_token = []\<rparr>) respBody)
            (Wrap ''monnify PurchaseBill decode'') (\<lambda>result.
          if \<not> mr_successful result then Inl (ErrMsg (''monnify PurchaseBill failed: '' @ mr_message result))
          else Inr \<lparr>ub_external_reference = mp_unique_reference (mr_body result),
            ub_recharge_token = mp_recharge_token (mr_body result), ub_status = ''success'', ub_raw_message = respBody\<rparr>)))"

definition monnify_CheckBillStatus :: "monnify_client \<Rightarrow> nat \<Rightarrow> string \<Rightarrow> unified_bill_response res" where
  "monnify_CheckBillStatus m n reference =
     and_then (monnify_exchange m n \<lparr>hq_method = ''GET'',
         hq_url = mc_base_url m @ ''/api/v1/bills-payment/bills/'' @ reference,
         hq_headers = monnify_headers m, hq_body = None\<rparr> ''CheckBillStatus'') (\<lambda>e. e) (\<lambda>respBody.
     and_then (Unmarshal d_monnify_status
         (zero_monnify \<lparr>ms_status = [], ms_customer_reference = [], ms_product_name = []\<rparr>) respBody)
       (Wrap ''monnify CheckBillStatus decode'') (\<lambda>result.
     Inr \<lparr>ub_external_reference = ms_customer_reference (mr_body result), ub_recharge_token = [],
       ub_status = (if mr_successful result \<and> ms_status (mr_body result) = ''PAID'' then ''success'' else ''pending''),
       ub_raw_message = respBody\<rparr>))"

definition monnify_provider :: "monnify_client \<Rightarrow> bill_provider" where
  "monnify_provider m =
     \<lparr>PurchaseBill = monnify_PurchaseBill m, CheckBillStatus = monnify_CheckBillStatus m\<rparr>"

section \<open>Properties of the clients\<close>

lemma map_of_update: "map_of (AList.update k v p) k' = (if k' = k then Some v else map_of p k')"
  by (simp add: update_conv)

lemma map_of_put_unless_empty:
  "map_of (put_unless_empty ks v p) k = (if v \<noteq> [] \<and> k \<in> set ks then Some (AStr v) else map_of p k)"
proof -
  have "map_of (fold (\<lambda>k. AList.update k (AStr v)) ks p) k = (if k \<in> set ks then Some (AStr v) else map_of p k)" for p
    by (induction ks arbitrary: p) (auto simp: map_of_update)
  then show ?thesis by (simp add: put_unless_empty_def)
qed

lemma map_of_put_meta_None:
  "list_all (\<lambda>(k', v). k' \<noteq> k) m \<Longrightarrow> map_of (put_meta m p) k = map_of p k"
  by (induction m) (auto simp: Let_def map_of_update)

text \<open>The keys that say what is bought, for whom and for how much.\<close>

definition order_keys :: "string list" where
  "order_keys = [''country'', ''customer'', ''amount'', ''recurrence'', ''type'', ''reference'']"

text \<open>
  C15. The request to Flutterwave orders what the payment is about, whatever metadata accompanies it:
  unless the metadata has a key of the order itself, it asks for the amount in naira, under the
  reference of the transaction, for the customer named in the metadata.
\<close>

theorem bill_request_orders_payment:
  assumes "list_all (\<lambda>(k, v). k \<notin> set order_keys) m"
    and "category \<in> {CategoryAirtime, CategoryData, CategoryElectricity, CategoryBetting}"
  shows "let p = bill_payload \<lparr>bp_category = category, bp_reference = ref,
      bp_customer_id = customerIDFromMeta category m, bp_amount = amount, bp_meta = m\<rparr>
    in map_of p ''amount'' = Some (AFloat (ngn_of amount)) \<and> map_of p ''reference'' = Some (AStr ref) \<and>
       map_of p ''type'' = Some (AStr (flutterwaveBillType category)) \<and> map_of p ''country'' = Some (AStr ''NG'') \<and>
       map_of p ''customer'' = Some (AStr (customerIDFromMeta category m))"
proof -
  have m: "map_of (put_meta m p) k = map_of p k" if "k \<in> set order_keys" for k p
    using assms(1) that by (intro map_of_put_meta_None) (auto simp: list_all_iff)
  have "\<forall>p. map_of (put_meta m p) ''amount'' = map_of p ''amount'' \<and> map_of (put_meta m p) ''reference'' = map_of p ''reference'' \<and>
      map_of (put_meta m p) ''type'' = map_of p ''type'' \<and> map_of (put_meta m p) ''country'' = map_of p ''country'' \<and>
      map_of (put_meta m p) ''customer'' = map_of p ''customer''"
    by (intro allI conjI m) (simp_all add: order_keys_def)
  note kept = this [rule_format]
  show ?thesis
    using assms(2)
    by (elim insertE emptyE; simp add: kept Let_def bill_payload_def category_fields_def map_of_put_unless_empty customerIDFromMeta_def)
qed

lemma bill_request_orders_payment_witness:
  "map_of (bill_payload \<lparr>bp_category = CategoryData, bp_reference = ''FB-1'', bp_customer_id = ''0801'', bp_amount = 50000,
     bp_meta = [(''phone'', ''0801''), (''network'', ''MTN''), (''plan_code'', ''M1''), (''item_code'', ''M1''), (''biller_code'', ''BIL1'')]\<rparr>)
     ''amount'' = Some (AFloat 500)"
proof -
  let ?m = "[(''phone'', ''0801''), (''network'', ''MTN''), (''plan_code'', ''M1''), (''item_code'', ''M1''), (''biller_code'', ''BIL1'')]"
  have "list_all (\<lambda>(k, v). k \<notin> set order_keys) ?m" by (simp add: order_keys_def)
  moreover have "ngn_of 50000 = 500" by code_simp
  moreover have "customerIDFromMeta CategoryData ?m = ''0801''" by (simp add: customerIDFromMeta_def stringFromMeta_def)
  ultimately show ?thesis
    using bill_request_orders_payment [of ?m CategoryData "''FB-1''" 50000] by (simp add: Let_def)
qed

text \<open>
  C16. A bill counts as delivered as soon as Flutterwave answers a lookup of it: with status "success" of
  the answer itself and any data, a failed or pending state of the bill among them, polling ends at the
  first attempt.
\<close>

theorem answered_lookup_delivers:
  assumes "flutterwave_validate c = Inr ()" and "TrimSpace ref \<noteq> []"
    and "\<forall>m u. tp_new_request (fw_transport c) m u = None"
    and "tp_do (fw_transport c) (tick s) (flutterwave_request c ''GET'' (''/bills/'' @ ref) None)
      = Inr \<lparr>hs_status = 200, hs_body = Some body\<rparr>"
    and "parse_json body = Some (JObj [(''status'', JStr ''success''), (''message'', JStr msg), (''data'', JObj kvs)])"
    and "d_bill_status_data (JObj kvs) zero_bill_status_data = Some d"
  shows "\<exists>st. run_state (confirmProviderDelivery polls (flutterwave_provider c) ref ext) s = (Inr st, step s) \<and>
    ub_status st = ''success''"
proof -
  have dec: "Unmarshal (d_response d_bill_status_data) (zero_response zero_bill_status_data) body =
      Inr \<lparr>fx_status = ''success'', fx_message = msg, fx_data = d\<rparr>"
    using assms(5,6) by (simp add: Unmarshal_def d_response_def zero_response_def d_struct_def fld_def d_string_def
        to_lower_char_def in_range_def)
  have "flutterwave_do c (tick s) ''GET'' (''/bills/'' @ ref) None d_bill_status_data zero_bill_status_data =
      Inr \<lparr>fx_status = ''success'', fx_message = msg, fx_data = d\<rparr>"
    using assms(3,4) dec by (simp add: flutterwave_do_def exchange_def status_ok_def)
  with assms(1,2) have "flutterwave_CheckBillStatus c (tick s) ref =
      Inr \<lparr>ub_external_reference = fs_flw_ref d, ub_recharge_token = [], ub_status = ''success'',
        ub_raw_message = fw_marshal_status c \<lparr>fx_status = ''success'', fx_message = msg, fx_data = d\<rparr>\<rparr>"
    by (simp add: flutterwave_CheckBillStatus_def)
  then show ?thesis
    by (simp add: confirmProviderDelivery_def check_delivery_def check_status_def flutterwave_provider_def call_def)
qed

definition failed_bill_client :: flutterwave_client where
  "failed_bill_client = NewFlutterwaveClient ''key'' ''https://f'' (sample_transport [(''https://f/bills/FB-1'',
     ''{\"status\":\"success\",\"message\":\"ok\",\"data\":{\"status\":\"failed\",\"flw_ref\":\"F1\"}}'')]) (\<lambda>_. []) (\<lambda>_. [])"

lemma answered_lookup_delivers_witness:
  "\<exists>st. run_state (confirmProviderDelivery 3 (flutterwave_provider failed_bill_client) ''FB-1'' ''X'') sample_world =
     (Inr st, step sample_world) \<and> ub_status st = ''success''"
proof (rule answered_lookup_delivers)
  show "flutterwave_validate failed_bill_client = Inr ()" by code_simp
  show "TrimSpace ''FB-1'' \<noteq> []" by code_simp
  show "\<forall>m u. tp_new_request (fw_transport failed_bill_client) m u = None"
    by (simp add: failed_bill_client_def NewFlutterwaveClient_def sample_transport_def)
  show "tp_do (fw_transport failed_bill_client) (tick sample_world)
      (flutterwave_request failed_bill_client ''GET'' (''/bills/'' @ ''FB-1'') None) = Inr \<lparr>hs_status = 200, hs_body = Some
     ''{\"status\":\"success\",\"message\":\"ok\",\"data\":{\"status\":\"failed\",\"flw_ref\":\"F1\"}}''\<rparr>"
    by (simp add: failed_bill_client_def NewFlutterwaveClient_def sample_transport_def flutterwave_request_def trim_slashes_def)
  show "parse_json ''{\"status\":\"success\",\"message\":\"ok\",\"data\":{\"status\":\"failed\",\"flw_ref\":\"F1\"}}'' =
      Some (JObj [(''status'', JStr ''success''), (''message'', JStr ''ok''),
        (''data'', JObj [(''status'', JStr ''failed''), (''flw_ref'', JStr ''F1'')])])"
    by code_simp
  show "d_bill_status_data (JObj [(''status'', JStr ''failed''), (''flw_ref'', JStr ''F1'')]) zero_bill_status_data =
      Some (zero_bill_status_data\<lparr>fs_flw_ref := ''F1''\<rparr>)"
    by (simp add: d_bill_status_data_def zero_bill_status_data_def d_struct_def fld_def d_string_def to_lower_char_def in_range_def)
qed

text \<open>
  C14. A payment link asks for exactly the amount: \<open>n\<close> kobo, which reach the client as naira in a
  \<open>float64\<close>, are sent as the decimal text of \<open>n\<close> kobo, and that text, reported back by the gateway, is
  read as \<open>n\<close> or as one kobo less.
\<close>

theorem payment_link_asks_exactly:
  assumes "0 < n" and "n < 2 ^ 51" and "fq_amount req = ngn_of n"
  shows "(\<exists>kvs. payment_payload req = AMap kvs \<and> map_of kvs ''amount'' = Some (AStr (show_kobo n)) \<and>
      map_of kvs ''tx_ref'' = Some (AStr (fq_tx_ref req))) \<and>
    (\<exists>q. ParseFloat (show_kobo n) = Inr q \<and> kobo_of q \<in> {n - 1, n})"
  using assms ngn_of_kobo [of n] ParseFloat_show_kobo [of n] kobo_of_float64 [of n]
  by (simp add: payment_payload_def show_fixed2_def)

lemma payment_link_asks_exactly_witness:
  "\<exists>kvs. payment_payload \<lparr>fq_tx_ref = ''FB-1'', fq_amount = ngn_of 12814, fq_currency = ''NGN'', fq_redirect_url = [],
     fq_customer_email = [], fq_customer_phone = [], fq_customer_name = [], fq_user_id = ''ada''\<rparr> = AMap kvs \<and>
     map_of kvs ''amount'' = Some (AStr ''128.14'')"
proof -
  have "show_kobo 12814 = ''128.14''" by code_simp
  then show ?thesis
    using payment_link_asks_exactly [of 12814 "\<lparr>fq_tx_ref = ''FB-1'', fq_amount = ngn_of 12814, fq_currency = ''NGN'',
      fq_redirect_url = [], fq_customer_email = [], fq_customer_phone = [], fq_customer_name = [], fq_user_id = ''ada''\<rparr>"]
    by auto
qed

end
