(* ===== verification/Catalog.thy ===== *)
theory Catalog
  imports BillClients
begin

text \<open>
  The catalogue of bills: fetching it from Flutterwave (\<open>FetchCatalog\<close> of \<open>flutterwave_client.go\<close>) and
  mapping it to what the application offers (\<open>catalog.go\<close>), with the fixed catalogue as a fallback. Go
  maps are lists of entries with one entry per key.
\<close>

section \<open>Flutterwave's catalogue\<close>

record flutterwave_bill_category =
  ca_id :: int
  ca_name :: string
  ca_code :: string
  ca_label :: string
  ca_category :: string

record flutterwave_biller =
  bl_id :: int
  bl_name :: string
  bl_biller_code :: string
  bl_code :: string
  bl_label_name :: string
  bl_country :: string
  bl_category :: string

record flutterwave_bill_item =
  it_id :: int
  it_name :: string
  it_item_code :: string
  it_code :: string
  it_biller_code :: string
  it_amount :: "json option"
  it_fee :: "json option"
  it_validity :: string
  it_description :: string

definition d_category :: "flutterwave_bill_category dec" where
  "d_category = d_struct [
     fld ''id'' ca_id ca_id_update d_int,
     fld ''name'' ca_name ca_name_update d_string,
     fld ''code'' ca_code ca_code_update d_string,
     fld ''label'' ca_label ca_label_update d_string,
     fld ''category'' ca_category ca_category_update d_string]"

definition d_biller :: "flutterwave_biller dec" where
  "d_biller = d_struct [
     fld ''id'' bl_id bl_id_update d_int,
     fld ''name'' bl_name bl_name_update d_string,
     fld ''biller_code'' bl_biller_code bl_biller_code_update d_string,
     fld ''code'' bl_code bl_code_update d_string,
     fld ''label_name'' bl_label_name bl_label_name_update d_string,
     fld ''country'' bl_country bl_country_update d_string,
     fld ''category'' bl_category bl_category_update d_string]"

definition d_item :: "flutterwave_bill_item dec" where
  "d_item = d_struct [
     fld ''id'' it_id it_id_update d_int,
     fld ''name'' it_name it_name_update d_string,
     fld ''item_code'' it_item_code it_item_code_update d_string,
     fld ''code'' it_code it_code_update d_string,
     fld ''biller_code'' it_biller_code it_biller_code_update d_string,
     fld ''amount'' it_amount it_amount_update d_raw,
     fld ''fee'' it_fee it_fee_update d_raw,
     fld ''validity'' it_validity it_validity_update d_string,
     fld ''description'' it_description it_description_update d_string]"

definition zero_category :: flutterwave_bill_category where
  "zero_category = \<lparr>ca_id = 0, ca_name = [], ca_code = [], ca_label = [], ca_category = []\<rparr>"

definition zero_biller :: flutterwave_biller where
  "zero_biller = \<lparr>bl_id = 0, bl_name = [], bl_biller_code = [], bl_code = [], bl_label_name = [],
     bl_country = [], bl_category = []\<rparr>"

definition zero_item :: flutterwave_bill_item where
  "zero_item = \<lparr>it_id = 0, it_name = [], it_item_code = [], it_code = [], it_biller_code = [],
     it_amount = None, it_fee = None, it_validity = [], it_description = []\<rparr>"

text \<open>The first text that is not blank, trimmed, or else the number.\<close>

fun first_code :: "string list \<Rightarrow> int \<Rightarrow> string" where
  "first_code [] i = show_int i"
| "first_code (v # vs) i = (if TrimSpace v \<noteq> [] then TrimSpace v else first_code vs i)"

definition category_code :: "flutterwave_bill_category \<Rightarrow> string" where
  "category_code c = first_code [ca_code c, ca_category c, ca_label c, ca_name c] (ca_id c)"

definition SearchText :: "flutterwave_bill_category \<Rightarrow> string" where
  "SearchText c = join_with '' '' [ca_code c, ca_category c, ca_label c, ca_name c]"

definition biller_code :: "flutterwave_biller \<Rightarrow> string" where
  "biller_code b = first_code [bl_biller_code b, bl_code b, bl_name b] (bl_id b)"

definition item_code :: "flutterwave_bill_item \<Rightarrow> string" where
  "item_code i = first_code [it_item_code i, it_code i, it_name i] (it_id i)"

text \<open>The price is a JSON number or its text; anything else is no price.\<close>

definition AmountKobo :: "flutterwave_bill_item \<Rightarrow> int" where
  "AmountKobo i =
     (case it_amount i of
        None \<Rightarrow> 0
      | Some raw \<Rightarrow>
          (case d_float raw 0 of
             Some n \<Rightarrow> kobo_of n
           | None \<Rightarrow>
               (case d_string raw [] of
                  Some t \<Rightarrow> (case ParseFloat (TrimSpace t) of Inr parsed \<Rightarrow> kobo_of parsed | Inl _ \<Rightarrow> 0)
                | None \<Rightarrow> 0)))"

section \<open>Categories\<close>

definition containsAny :: "string \<Rightarrow> string list \<Rightarrow> bool" where
  "containsAny value needles \<longleftrightarrow> list_ex (\<lambda>needle. Contains (ToLower value) (ToLower needle)) needles"

definition isAirtimeCategory :: "flutterwave_bill_category \<Rightarrow> bool" where
  "isAirtimeCategory c \<longleftrightarrow> containsAny (SearchText c) [''airtime'']"

definition isDataCategory :: "flutterwave_bill_category \<Rightarrow> bool" where
  "isDataCategory c \<longleftrightarrow> containsAny (SearchText c) [''data'', ''mobiledata'', ''mobile data'']"

definition isElectricityCategory :: "flutterwave_bill_category \<Rightarrow> bool" where
  "isElectricityCategory c \<longleftrightarrow> containsAny (SearchText c) [''utility'', ''electric'', ''power'']"

definition isBettingCategory :: "flutterwave_bill_category \<Rightarrow> bool" where
  "isBettingCategory c \<longleftrightarrow> containsAny (SearchText c) [''bet'', ''gaming'']"

definition isRelevantFlutterwaveCategory :: "flutterwave_bill_category \<Rightarrow> bool" where
  "isRelevantFlutterwaveCategory c \<longleftrightarrow>
     isAirtimeCategory c \<or> isDataCategory c \<or> isElectricityCategory c \<or> isBettingCategory c"

definition displayCode :: "string \<Rightarrow> string" where
  "displayCode code = (let code = TrimSpace code in if code = [] then ''UNKNOWN'' else ToUpper code)"

section \<open>Fetching\<close>

record flutterwave_catalog =
  fc_categories :: "flutterwave_bill_category list"
  fc_billers :: "(string \<times> flutterwave_biller list) list"
  fc_items :: "(string \<times> flutterwave_bill_item list) list"

text \<open>
  The loops over billers and categories; a request that fails skips its biller or category. The first
  argument numbers the requests, which may each be answered differently.
\<close>

fun fetch_items ::
  "flutterwave_client \<Rightarrow> nat \<Rightarrow> flutterwave_biller list \<Rightarrow> flutterwave_catalog \<Rightarrow> flutterwave_catalog \<times> nat" where
  "fetch_items c n [] cat = (cat, n)"
| "fetch_items c n (b # bs) cat =
     fetch_items c (Suc n) bs
       (case flutterwave_do c n ''GET'' (''/billers/'' @ PathEscape (biller_code b) @ ''/items'') None (d_list d_item zero_item) [] of
          Inl _ \<Rightarrow> cat
        | Inr r \<Rightarrow>
            if fx_status r = ''success''
            then cat\<lparr>fc_items := AList.update (biller_code b) (fx_data r) (fc_items cat)\<rparr> else cat)"

fun fetch_billers ::
  "flutterwave_client \<Rightarrow> nat \<Rightarrow> flutterwave_bill_category list \<Rightarrow> flutterwave_catalog \<Rightarrow> flutterwave_catalog \<times> nat" where
  "fetch_billers c n [] cat = (cat, n)"
| "fetch_billers c n (k # ks) cat =
     (if \<not> isRelevantFlutterwaveCategory k then fetch_billers c n ks cat
      else case flutterwave_do c n ''GET'' (''/bills/'' @ PathEscape (category_code k) @ ''/billers?country='' @ QueryEscape ''NG'')
             None (d_list d_biller zero_biller) [] of
        Inl _ \<Rightarrow> fetch_billers c (Suc n) ks cat
      | Inr r \<Rightarrow>
          if fx_status r \<noteq> ''success'' then fetch_billers c (Suc n) ks cat
          else (let cat = cat\<lparr>fc_billers := AList.update (category_code k) (fx_data r) (fc_billers cat)\<rparr>
                in if isDataCategory k
                   then (let (cat, n) = fetch_items c (Suc n) (fx_data r) cat in fetch_billers c n ks cat)
                   else fetch_billers c (Suc n) ks cat))"

definition FetchCatalog :: "flutterwave_client \<Rightarrow> nat \<Rightarrow> flutterwave_catalog res" where
  "FetchCatalog c n =
     and_then (flutterwave_validate c) (\<lambda>e. e) (\<lambda>_.
     and_then (flutterwave_do c n ''GET'' (''/top-bill-categories?country='' @ QueryEscape ''NG'') None (d_list d_category zero_category) [])
       (\<lambda>e. e) (\<lambda>r.
     if fx_status r \<noteq> ''success''
     then Inl (ErrMsg (''flutterwave bill categories lookup failed: '' @ fx_message r))
     else Inr (fst (fetch_billers c (Suc n) (fx_data r)
       \<lparr>fc_categories = fx_data r, fc_billers = [], fc_items = []\<rparr>))))"

section \<open>The catalogue of the application\<close>

record catalog_item =
  ci_code :: string
  ci_name :: string
  ci_category :: string
  ci_biller_code :: string
  ci_item_code :: string
  ci_label_name :: string

record data_plan =
  dp_code :: string
  dp_network :: string
  dp_name :: string
  dp_amount :: int
  dp_validity :: string
  dp_description :: string
  dp_category :: string
  dp_biller_code :: string
  dp_item_code :: string

record vas_catalog =
  vc_source :: string
  vc_airtime_networks :: "catalog_item list"
  vc_data_plans :: "data_plan list"
  vc_electricity_discos :: "catalog_item list"
  vc_betting_providers :: "catalog_item list"

definition empty_catalog :: vas_catalog where
  "empty_catalog = \<lparr>vc_source = [], vc_airtime_networks = [], vc_data_plans = [], vc_electricity_discos = [],
     vc_betting_providers = []\<rparr>"

definition isEmpty :: "vas_catalog \<Rightarrow> bool" where
  "isEmpty c \<longleftrightarrow> vc_airtime_networks c = [] \<and> vc_data_plans c = [] \<and> vc_electricity_discos c = [] \<and>
     vc_betting_providers c = []"

definition named :: "string \<Rightarrow> string \<Rightarrow> catalog_item" where
  "named code name = \<lparr>ci_code = code, ci_name = name, ci_category = [], ci_biller_code = [], ci_item_code = [],
     ci_label_name = []\<rparr>"

definition fixed_plan :: "string \<Rightarrow> string \<Rightarrow> string \<Rightarrow> int \<Rightarrow> data_plan" where
  "fixed_plan code network name amount = \<lparr>dp_code = code, dp_network = network, dp_name = name, dp_amount = amount,
     dp_validity = ''30 days'', dp_description = [], dp_category = [], dp_biller_code = [], dp_item_code = []\<rparr>"

definition fallbackCatalog :: vas_catalog where
  "fallbackCatalog = \<lparr>vc_source = ''fallback'',
     vc_airtime_networks = [named ''MTN'' ''MTN Nigeria'', named ''GLO'' ''Globacom'',
       named ''AIRTEL'' ''Airtel Nigeria'', named ''9MOBILE'' ''9mobile''],
     vc_data_plans = [fixed_plan ''MTN_1GB_30D'' ''MTN'' ''1GB'' 50000, fixed_plan ''MTN_2GB_30D'' ''MTN'' ''2GB'' 100000,
       fixed_plan ''GLO_1GB_30D'' ''GLO'' ''1GB'' 50000, fixed_plan ''AIRTEL_1GB_30D'' ''AIRTEL'' ''1GB'' 50000,
       fixed_plan ''9MOBILE_1GB_30D'' ''9MOBILE'' ''1GB'' 50000],
     vc_electricity_discos = [named ''IKEDC'' ''Ikeja Electric'', named ''EKEDC'' ''Eko Electricity Distribution'',
       named ''AEDC'' ''Abuja Electricity Distribution'', named ''PHED'' ''Port Harcourt Electricity Distribution'',
       named ''KEDCO'' ''Kano Electricity Distribution'', named ''IBEDC'' ''Ibadan Electricity Distribution'',
       named ''BEDC'' ''Benin Electricity Distribution'', named ''EEDC'' ''Enugu Electricity Distribution'',
       named ''JED'' ''Jos Electricity Distribution'', named ''KAEDCO'' ''Kaduna Electric'',
       named ''YEDC'' ''Yola Electricity Distribution''],
     vc_betting_providers = [named ''BET9JA'' ''Bet9ja'', named ''SPORTYBET'' ''SportyBet'', named ''BETKING'' ''BetKing'',
       named ''NAIRABET'' ''NairaBET'', named ''1XBET'' ''1xBet'']\<rparr>"

definition biller_item :: "string \<Rightarrow> flutterwave_biller \<Rightarrow> catalog_item" where
  "biller_item categoryCode b = \<lparr>ci_code = displayCode (biller_code b), ci_name = bl_name b, ci_category = categoryCode,
     ci_biller_code = biller_code b, ci_item_code = [], ci_label_name = bl_label_name b\<rparr>"

definition item_plan :: "string \<Rightarrow> flutterwave_biller \<Rightarrow> flutterwave_bill_item \<Rightarrow> data_plan" where
  "item_plan categoryCode b i = \<lparr>dp_code = item_code i, dp_network = bl_name b, dp_name = it_name i,
     dp_amount = AmountKobo i, dp_validity = it_validity i, dp_description = it_description i,
     dp_category = categoryCode, dp_biller_code = biller_code b, dp_item_code = item_code i\<rparr>"

text \<open>A key that a map does not have reads as nil.\<close>

definition entry_list :: "(string \<times> 'a list) list \<Rightarrow> string \<Rightarrow> 'a list" where
  "entry_list m k = (case map_of m k of None \<Rightarrow> [] | Some xs \<Rightarrow> xs)"

definition map_category :: "flutterwave_catalog \<Rightarrow> flutterwave_bill_category \<Rightarrow> vas_catalog \<Rightarrow> vas_catalog" where
  "map_category cat k out =
     (let code = category_code k; billers = entry_list (fc_billers cat) code
      in if isAirtimeCategory k then out\<lparr>vc_airtime_networks := vc_airtime_networks out @ map (biller_item code) billers\<rparr>
         else if isDataCategory k then out\<lparr>vc_data_plans := vc_data_plans out @
           concat (map (\<lambda>b. map (item_plan code b) (entry_list (fc_items cat) (biller_code b))) billers)\<rparr>
         else if isElectricityCategory k then out\<lparr>vc_electricity_discos := vc_electricity_discos out @ map (biller_item code) billers\<rparr>
         else if isBettingCategory k then out\<lparr>vc_betting_providers := vc_betting_providers out @ map (biller_item code) billers\<rparr>
         else out)"

definition mapFlutterwaveCatalog :: "flutterwave_catalog \<Rightarrow> vas_catalog" where
  "mapFlutterwaveCatalog cat = fold (map_category cat) (fc_categories cat) empty_catalog"

text \<open>The aggregator is a Flutterwave client or does not offer a catalogue.\<close>

definition GetCatalog :: "flutterwave_client option \<Rightarrow> nat \<Rightarrow> vas_catalog" where
  "GetCatalog bills n =
     (case bills of
        None \<Rightarrow> fallbackCatalog
      | Some provider \<Rightarrow>
          (case FetchCatalog provider n of
             Inl _ \<Rightarrow> fallbackCatalog
           | Inr catalog \<Rightarrow>
               (let mapped = mapFlutterwaveCatalog catalog
                in if isEmpty mapped then fallbackCatalog else mapped\<lparr>vc_source := ''flutterwave''\<rparr>)))"

section \<open>Properties of the catalogue\<close>

text \<open>The kind a category counts as: the first that its texts mention.\<close>

datatype kind = KAirtime | KData | KElectricity | KBetting | KOther

definition kind_of :: "flutterwave_bill_category \<Rightarrow> kind" where
  "kind_of k = (if isAirtimeCategory k then KAirtime else if isDataCategory k then KData
     else if isElectricityCategory k then KElectricity else if isBettingCategory k then KBetting else KOther)"

definition listed :: "flutterwave_catalog \<Rightarrow> kind \<Rightarrow> catalog_item list" where
  "listed cat c = concat (map (\<lambda>k. map (biller_item (category_code k)) (entry_list (fc_billers cat) (category_code k)))
     (filter (\<lambda>k. kind_of k = c) (fc_categories cat)))"

definition listed_plans :: "flutterwave_catalog \<Rightarrow> data_plan list" where
  "listed_plans cat = concat (map (\<lambda>k. concat (map (\<lambda>b. map (item_plan (category_code k) b)
     (entry_list (fc_items cat) (biller_code b))) (entry_list (fc_billers cat) (category_code k))))
     (filter (\<lambda>k. kind_of k = KData) (fc_categories cat)))"

lemma fold_map_category:
  "fold (map_category cat) ks out = out\<lparr>
     vc_airtime_networks := vc_airtime_networks out @ listed (cat\<lparr>fc_categories := ks\<rparr>) KAirtime,
     vc_data_plans := vc_data_plans out @ listed_plans (cat\<lparr>fc_categories := ks\<rparr>),
     vc_electricity_discos := vc_electricity_discos out @ listed (cat\<lparr>fc_categories := ks\<rparr>) KElectricity,
     vc_betting_providers := vc_betting_providers out @ listed (cat\<lparr>fc_categories := ks\<rparr>) KBetting\<rparr>"
  by (induction ks arbitrary: out)
    (simp_all add: listed_def listed_plans_def map_category_def kind_of_def Let_def)

text \<open>
  C18. The application offers exactly what Flutterwave lists: if the fetch succeeds and finds a biller or a
  plan of one of the four kinds, each biller of a category in the list of the category's kind and each
  item of a data category as a plan, in the order of the categories; and the fixed catalogue exactly if
  there is no client, the fetch fails or nothing of the four kinds was found. It never offers nothing.
\<close>

theorem catalog_lists_what_was_fetched:
  "GetCatalog bills n =
     (case map_option (\<lambda>c. FetchCatalog c n) bills of
        Some (Inr cat) \<Rightarrow>
          (let shown = \<lparr>vc_source = ''flutterwave'', vc_airtime_networks = listed cat KAirtime,
             vc_data_plans = listed_plans cat, vc_electricity_discos = listed cat KElectricity,
             vc_betting_providers = listed cat KBetting\<rparr>
           in if vc_airtime_networks shown @ vc_electricity_discos shown @ vc_betting_providers shown = [] \<and>
                vc_data_plans shown = [] then fallbackCatalog else shown)
      | _ \<Rightarrow> fallbackCatalog) \<and>
   \<not> isEmpty (GetCatalog bills n)"
proof -
  have mapped: "mapFlutterwaveCatalog cat = \<lparr>vc_source = [], vc_airtime_networks = listed cat KAirtime,
     vc_data_plans = listed_plans cat, vc_electricity_discos = listed cat KElectricity,
     vc_betting_providers = listed cat KBetting\<rparr>" for cat
    by (simp add: mapFlutterwaveCatalog_def fold_map_category empty_catalog_def)
  have "\<not> isEmpty fallbackCatalog" by (simp add: isEmpty_def fallbackCatalog_def)
  then show ?thesis
    by (auto simp: GetCatalog_def Let_def mapped isEmpty_def split: option.split sum.split)
qed

lemma show_kobo_no_space: "0 \<le> n \<Longrightarrow> TrimSpace (show_kobo n) = show_kobo n"
proof (rule TrimSpace_no_space)
  assume n: "0 \<le> n"
  have d: "\<not> is_space c" if "is_digit c" for c
    using that by (auto simp: is_space_def is_digit_def in_range_def)
  have "list_all is_digit (show_dec (n div 100))" using show_dec_digits [of "n div 100"] n by simp
  moreover have "is_digit (digit_char (n div 10 mod 10))" "is_digit (digit_char (n mod 10))"
    using n by (simp_all add: is_digit_char)
  ultimately show "\<forall>c \<in> set (show_kobo n). \<not> is_space c"
    using n d by (auto simp: show_kobo_def Let_def list_all_iff is_space_def)
qed

text \<open>
  C0. A plan of \<open>n\<close> kobo is offered at \<open>n\<close> or at one kobo less, whether Flutterwave sends its price as a
  number or as text.
\<close>

theorem plan_price_within_a_kobo:
  assumes "0 < n" and "n < 2 ^ 51" and "it_amount i \<in> {Some (JNum (show_kobo n)), Some (JStr (show_kobo n))}"
  shows "dp_amount (item_plan code b i) = kobo_of (float64 (of_int n / 100)) \<and>
    dp_amount (item_plan code b i) \<in> {n - 1, n}"
  using assms(3) ParseFloat_show_kobo [of n] kobo_of_float64 [OF assms(1,2)] show_kobo_no_space [of n] assms(1,2)
  by (auto simp: item_plan_def AmountKobo_def d_float_def d_string_def)

lemma plan_price_within_a_kobo_witness:
  "dp_amount (item_plan ''DATA'' zero_biller (zero_item\<lparr>it_amount := Some (JStr ''128.14'')\<rparr>)) = 12813"
proof -
  have "show_kobo 12814 = ''128.14''" by code_simp
  moreover have "kobo_of (float64 (12814 / 100)) = 12813" by code_simp
  ultimately show ?thesis
    using plan_price_within_a_kobo [of 12814 "zero_item\<lparr>it_amount := Some (JStr ''128.14'')\<rparr>" "''DATA''" zero_biller]
    by simp
qed

end
