(* ===== verification/PaymentClients.thy ===== *)
theory PaymentClients
  imports Providers Json Encoding Dates
begin

text \<open>
  The payment providers behind the router: \<open>internal/providers/paystack/client.go\<close> and
  \<open>internal/providers/opay/client.go\<close>. Both decode answers into \<open>map[string]any\<close>, where every number is
  a \<open>float64\<close>. HMAC-SHA512 and the bytes \<open>json.Marshal\<close> makes of a body are parameters.
\<close>

section \<open>Answers\<close>

text \<open>A method that may panic, as a type assertion without a second result does.\<close>

datatype 'a attempt = Returns "'a res" | Panics string

definition try_then :: "'a attempt \<Rightarrow> (goerr \<Rightarrow> goerr) \<Rightarrow> ('a \<Rightarrow> 'b attempt) \<Rightarrow> 'b attempt" where
  "try_then m w k =
     (case m of
        Panics p \<Rightarrow> Panics p
      | Returns r \<Rightarrow> (case r of Inl e \<Rightarrow> Returns (Inl (w e)) | Inr v \<Rightarrow> k v))"

type_synonym members = "(string \<times> any) list"

definition d_object :: "members dec" where
  "d_object j m = (case j of JNull \<Rightarrow> Some [] | JObj kvs \<Rightarrow> to_members kvs m | _ \<Rightarrow> None)"

definition strVal :: "members \<Rightarrow> string \<Rightarrow> string" where
  "strVal m key = (case map_of m key of Some (AStr s) \<Rightarrow> s | _ \<Rightarrow> [])"

text \<open>\<open>m[key].(map[string]any)\<close>, without and with a second result.\<close>

definition must_object :: "members \<Rightarrow> string \<Rightarrow> members attempt" where
  "must_object m key =
     (case map_of m key of
        Some (AMap d) \<Rightarrow> Returns (Inr d)
      | _ \<Rightarrow> Panics ''interface conversion: interface {} is not map[string]interface {}'')"

definition get_object :: "members \<Rightarrow> string \<Rightarrow> members" where
  "get_object m key = (case map_of m key of Some (AMap d) \<Rightarrow> d | _ \<Rightarrow> [])"

definition decode_object :: "string \<Rightarrow> string \<Rightarrow> members res" where
  "decode_object name body =
     and_then (Unmarshal d_object [] body) (Wrap (name @ '': decode error'')) Inr"

section \<open>Paystack\<close>

record paystack_client =
  py_secret_key :: string
  py_base_url :: string
  py_transport :: transport
  py_hmac_sha512 :: "string \<Rightarrow> string \<Rightarrow> string"

definition NewPaystack :: "string \<Rightarrow> string \<Rightarrow> transport \<Rightarrow> (string \<Rightarrow> string \<Rightarrow> string) \<Rightarrow> paystack_client" where
  "NewPaystack secretKey baseURL tr hmac =
     \<lparr>py_secret_key = secretKey, py_base_url = (if baseURL = [] then ''https://api.paystack.co'' else baseURL),
      py_transport = tr, py_hmac_sha512 = hmac\<rparr>"

definition paystack_do :: "paystack_client \<Rightarrow> nat \<Rightarrow> http_request \<Rightarrow> members res" where
  "paystack_do c n req =
     and_then (exchange (py_transport c) n req (\<lambda>e. e) (\<lambda>e. e) (\<lambda>e. e)) (\<lambda>e. e) (\<lambda>(status, rawBody).
     and_then (decode_object ''paystack'' rawBody) (\<lambda>e. e) (\<lambda>result.
     if map_of result ''status'' \<noteq> Some (ABool True)
     then Inl (ErrMsg (''paystack API error: '' @ strVal result ''message'')) else Inr result))"

definition paystack_post :: "paystack_client \<Rightarrow> nat \<Rightarrow> string \<Rightarrow> members \<Rightarrow> members res" where
  "paystack_post c n path body = paystack_do c n
     \<lparr>hq_method = ''POST'', hq_url = py_base_url c @ path,
      hq_headers = [(''Authorization'', ''Bearer '' @ py_secret_key c), (''Content-Type'', ''application/json'')],
      hq_body = Some (AMap body)\<rparr>"

definition paystack_get :: "paystack_client \<Rightarrow> nat \<Rightarrow> string \<Rightarrow> members res" where
  "paystack_get c n path = paystack_do c n
     \<lparr>hq_method = ''GET'', hq_url = py_base_url c @ path,
      hq_headers = [(''Authorization'', ''Bearer '' @ py_secret_key c)], hq_body = None\<rparr>"

text \<open>\<open>resp["data"].(map[string]any)\<close> of an answer.\<close>

definition data_of :: "members res \<Rightarrow> string \<Rightarrow> members attempt" where
  "data_of r msg = try_then (Returns r) (Wrap (''paystack: '' @ msg)) (\<lambda>resp. must_object resp ''data'')"

definition paystack_InitializePayment :: "paystack_client \<Rightarrow> nat \<Rightarrow> payment_request \<Rightarrow> payment_response attempt" where
  "paystack_InitializePayment c n req =
     try_then (data_of (paystack_post c n ''/transaction/initialize''
         [(''reference'', AStr (pq_reference req)), (''amount'', AInt (pq_amount_kobo req)), (''email'', AStr (pq_email req)),
          (''callback_url'', AStr (pq_callback_url req)), (''metadata'', AMap (map (map_prod id AStr) (pq_metadata req))),
          (''currency'', AStr ''NGN'')]) ''InitializePayment'') (\<lambda>e. e) (\<lambda>data.
     Returns (Inr \<lparr>pr_authorization_url = strVal data ''authorization_url'', pr_reference = strVal data ''reference'',
       pr_access_code = strVal data ''access_code'', pr_provider_name = ''paystack''\<rparr>))"

definition float_member :: "members \<Rightarrow> string \<Rightarrow> rat" where
  "float_member m key = (case map_of m key of Some (AFloat q) \<Rightarrow> q | _ \<Rightarrow> 0)"

definition paystack_VerifyTransaction :: "paystack_client \<Rightarrow> nat \<Rightarrow> string \<Rightarrow> verification_response attempt" where
  "paystack_VerifyTransaction c n reference =
     try_then (data_of (paystack_get c n (''/transaction/verify/'' @ reference)) ''VerifyTransaction'') (\<lambda>e. e) (\<lambda>data.
     let s = strVal data ''paid_at''
     in Returns (Inr \<lparr>vr_reference = reference, vr_amount_kobo = int64_of (float_member data ''amount''),
       vr_status = strVal data ''status'', vr_channel = strVal data ''channel'',
       vr_paid_at = (if s = [] then zero_time else rfc3339_or_zero s), vr_provider_ref = strVal data ''id''\<rparr>))"

definition paystack_CreateVirtualAccount ::
  "paystack_client \<Rightarrow> nat \<Rightarrow> virtual_account_request \<Rightarrow> virtual_account_response attempt" where
  "paystack_CreateVirtualAccount c n req =
     try_then (data_of (paystack_post c n ''/customer'' [(''email'', AStr (vq_email req)),
         (''first_name'', AStr (vq_full_name req)), (''phone'', AStr (vq_phone_number req))])
         ''CreateVirtualAccount (customer)'') (\<lambda>e. e) (\<lambda>custData.
     try_then (data_of (paystack_post c (Suc n) ''/dedicated_account''
         [(''customer'', AStr (strVal custData ''customer_code'')), (''preferred_bank'', AStr ''test-bank'')])
         ''CreateVirtualAccount (dva)'') (\<lambda>e. e) (\<lambda>dvaData.
     Returns (Inr \<lparr>va_account_number = strVal dvaData ''account_number'', va_account_name = strVal dvaData ''account_name'',
       va_bank_name = strVal (get_object dvaData ''bank'') ''name'', va_provider_ref = strVal dvaData ''id''\<rparr>)))"

definition recipient_body :: "transfer_request \<Rightarrow> members" where
  "recipient_body req = [(''type'', AStr ''nuban''), (''name'', AStr (tq_account_name req)),
     (''account_number'', AStr (tq_account_number req)), (''bank_code'', AStr (tq_bank_code req)), (''currency'', AStr ''NGN'')]"

definition transfer_body :: "transfer_request \<Rightarrow> string \<Rightarrow> members" where
  "transfer_body req recipCode = [(''source'', AStr ''balance''), (''amount'', AInt (tq_amount_kobo req)),
     (''recipient'', AStr recipCode), (''reason'', AStr (tq_narration req)), (''reference'', AStr (tq_reference req))]"

definition paystack_Transfer :: "paystack_client \<Rightarrow> nat \<Rightarrow> transfer_request \<Rightarrow> transfer_response attempt" where
  "paystack_Transfer c n req =
     try_then (data_of (paystack_post c n ''/transferrecipient'' (recipient_body req)) ''Transfer (recipient)'') (\<lambda>e. e) (\<lambda>recipData.
     try_then (data_of (paystack_post c (Suc n) ''/transfer'' (transfer_body req (strVal recipData ''recipient_code'')))
         ''Transfer (initiate)'') (\<lambda>e. e) (\<lambda>xferData.
     Returns (Inr \<lparr>tp_reference = tq_reference req, tp_status = strVal xferData ''status'',
       tp_provider_ref = strVal xferData ''id''\<rparr>)))"

definition paystack_PurchaseBill :: "bill_request \<Rightarrow> bill_response res" where
  "paystack_PurchaseBill req =
     Inl (ErrMsg (''paystack: PurchaseBill not supported '' @ em_dash @ '' use OPay or Flutterwave''))"

text \<open>Each element of the list of banks must be an object.\<close>

fun bank_list :: "any list \<Rightarrow> bank_info list attempt" where
  "bank_list [] = Returns (Inr [])"
| "bank_list (b # bs) =
     (case b of
        AMap bm \<Rightarrow> try_then (bank_list bs) (\<lambda>e. e) (\<lambda>banks.
          Returns (Inr (\<lparr>bi_name = strVal bm ''name'', bi_code = strVal bm ''code''\<rparr> # banks)))
      | _ \<Rightarrow> Panics ''interface conversion: interface {} is not map[string]interface {}'')"

definition paystack_GetBanks :: "paystack_client \<Rightarrow> nat \<Rightarrow> bank_info list attempt" where
  "paystack_GetBanks c n =
     try_then (Returns (paystack_get c n ''/bank'')) (Wrap ''paystack: GetBanks'') (\<lambda>resp.
     bank_list (case map_of resp ''data'' of Some (ASlice l) \<Rightarrow> l | _ \<Rightarrow> []))"

definition paystack_ResolveAccount :: "paystack_client \<Rightarrow> nat \<Rightarrow> string \<Rightarrow> string \<Rightarrow> account_info attempt" where
  "paystack_ResolveAccount c n accountNumber bankCode =
     try_then (data_of (paystack_get c n (''/bank/resolve?account_number='' @ accountNumber @ ''&bank_code='' @ bankCode))
         ''ResolveAccount'') (\<lambda>e. e) (\<lambda>data.
     Returns (Inr \<lparr>ai_account_name = strVal data ''account_name'', ai_account_number = strVal data ''account_number''\<rparr>))"

definition paystack_HealthCheck :: "paystack_client \<Rightarrow> nat \<Rightarrow> bool" where
  "paystack_HealthCheck c n = succeeded (paystack_get c n ''/bank'')"

definition paystack_VerifyWebhookSignature :: "paystack_client \<Rightarrow> string \<Rightarrow> string \<Rightarrow> bool" where
  "paystack_VerifyWebhookSignature c payload signature \<longleftrightarrow>
     hex_string (py_hmac_sha512 c (py_secret_key c) payload) = signature"

section \<open>OPay\<close>

record opay_client =
  op_secret_key :: string
  op_public_key :: string
  op_merchant_id :: string
  op_base_url :: string
  op_transport :: transport
  op_hmac_sha512 :: "string \<Rightarrow> string \<Rightarrow> string"
  op_marshal :: "any \<Rightarrow> string"

definition NewOPay :: "string \<Rightarrow> string \<Rightarrow> string \<Rightarrow> string \<Rightarrow> transport \<Rightarrow> (string \<Rightarrow> string \<Rightarrow> string) \<Rightarrow>
    (any \<Rightarrow> string) \<Rightarrow> opay_client" where
  "NewOPay secretKey publicKey merchantID baseURL tr hmac marshal =
     \<lparr>op_secret_key = secretKey, op_public_key = publicKey, op_merchant_id = merchantID,
      op_base_url = (if baseURL = [] then ''https://api.opay.inc'' else baseURL), op_transport = tr,
      op_hmac_sha512 = hmac, op_marshal = marshal\<rparr>"

definition opay_request :: "opay_client \<Rightarrow> string \<Rightarrow> members \<Rightarrow> http_request" where
  "opay_request c path body = \<lparr>hq_method = ''POST'', hq_url = op_base_url c @ path,
     hq_headers = [(''Authorization'', ''Bearer '' @ op_public_key c), (''MerchantId'', op_merchant_id c),
       (''Signature'', hex_string (op_hmac_sha512 c (op_secret_key c) (op_marshal c (AMap body)))),
       (''Content-Type'', ''application/json'')], hq_body = Some (AMap body)\<rparr>"

definition opay_do :: "opay_client \<Rightarrow> nat \<Rightarrow> http_request \<Rightarrow> members res" where
  "opay_do c n req =
     and_then (exchange (op_transport c) n req (\<lambda>e. e) (\<lambda>e. e) (\<lambda>e. e)) (\<lambda>e. e) (\<lambda>(status, rawBody).
     and_then (decode_object ''opay'' rawBody) (\<lambda>e. e) (\<lambda>result.
     if strVal result ''code'' \<noteq> ''00000''
     then Inl (ErrMsg (''opay API error: '' @ strVal result ''message'')) else Inr result))"

text \<open>The extras may replace any other member of the body.\<close>

definition opay_bill_body :: "bill_request \<Rightarrow> members" where
  "opay_bill_body req =
     foldr (\<lambda>(k, v). AList.update k (AStr v)) (bq_extras req)
       [(''reference'', AStr (bq_reference req)), (''service_type'', AStr (bq_service_type req)),
        (''service_code'', AStr (bq_service_code req)), (''customer'', AStr (bq_customer req)),
        (''amount'', AInt (bq_amount_kobo req sdiv 100)), (''phone'', AStr (bq_phone_number req))]"

definition opay_PurchaseBill :: "opay_client \<Rightarrow> nat \<Rightarrow> bill_request \<Rightarrow> bill_response res" where
  "opay_PurchaseBill c n req =
     and_then (opay_do c n (opay_request c ''/api/v1/bills/purchase'' (opay_bill_body req))) (Wrap ''opay: PurchaseBill'') (\<lambda>resp.
     let data = get_object resp ''data''
     in Inr \<lparr>bs_reference = bq_reference req,
          bs_status = (if strVal data ''status'' = ''successful'' then ''success'' else ''failed''),
          bs_token = strVal data ''token'', bs_provider_ref = strVal data ''transaction_id''\<rparr>)"

text \<open>The other methods are stubs.\<close>

definition opay_stub :: "string \<Rightarrow> 'a res" where
  "opay_stub msg = Inl (ErrMsg (''opay: '' @ msg))"

definition opay_provider :: "opay_client \<Rightarrow> payment_provider" where
  "opay_provider c = \<lparr>pp_name = ''opay'',
     pp_initialize_payment = (\<lambda>_ _. opay_stub ''InitializePayment not fully implemented''),
     pp_verify_transaction = (\<lambda>_ _. opay_stub ''VerifyTransaction not implemented''),
     pp_create_virtual_account = (\<lambda>_ _. opay_stub ''CreateVirtualAccount not implemented''),
     pp_transfer = (\<lambda>_ _. opay_stub ''Transfer not implemented''),
     pp_purchase_bill = opay_PurchaseBill c,
     pp_get_banks = (\<lambda>_. opay_stub ''GetBanks not implemented''),
     pp_resolve_account = (\<lambda>_ _ _. opay_stub ''ResolveAccount not implemented''),
     pp_health_check = (\<lambda>_. True)\<rparr>"

definition opay_VerifyWebhookSignature :: "opay_client \<Rightarrow> string \<Rightarrow> string \<Rightarrow> bool" where
  "opay_VerifyWebhookSignature c payload signature \<longleftrightarrow>
     hex_string (op_hmac_sha512 c (op_secret_key c) payload) = signature"

section \<open>Properties of the providers\<close>

lemma try_then_Returns [simp]:
  "try_then (Returns (Inl e)) w k = Returns (Inl (w e))" "try_then (Returns (Inr v)) w k = k v"
  "try_then (Panics p) w k = Panics p"
  by (simp_all add: try_then_def)

text \<open>What \<open>data\<close> is when it is no object.\<close>

definition has_data :: "members \<Rightarrow> bool" where
  "has_data m \<longleftrightarrow> (case map_of m ''data'' of Some (AMap _) \<Rightarrow> True | _ \<Rightarrow> False)"

lemma data_of_Inr:
  "data_of (Inr m) msg = (if has_data m then Returns (Inr (get_object m ''data''))
     else Panics ''interface conversion: interface {} is not map[string]interface {}'')"
  by (auto simp: data_of_def must_object_def has_data_def get_object_def split: option.splits any.splits)

lemma strVal_float: "map_of m k = Some (AFloat q) \<Longrightarrow> strVal m k = []"
  by (simp add: strVal_def)

lemma data_of_Inl: "data_of (Inl e) msg = Returns (Inl (Wrap (''paystack: '' @ msg) e))"
  by (simp add: data_of_def)

text \<open>
  A transfer that Paystack accepts either is reported with its status or crashes the request: it
  panics exactly if one of the two answers is positive and has no object as data. A panic after the
  second request leaves an accepted transfer behind, of which the caller learns neither a result nor an
  error. The provider's number of the transfer is never recorded: identifiers are JSON numbers, and only
  texts are read.
\<close>

theorem accepted_transfer_may_panic:
  assumes "paystack_post c n ''/transferrecipient'' (recipient_body req) = Inr recip" and "has_data recip"
    and "paystack_post c (Suc n) ''/transfer''
      (transfer_body req (strVal (get_object recip ''data'') ''recipient_code'')) = Inr xfer"
  shows "(if has_data xfer
      then \<exists>resp. paystack_Transfer c n req = Returns (Inr resp) \<and>
        tp_status resp = strVal (get_object xfer ''data'') ''status'' \<and>
        (\<forall>q. map_of (get_object xfer ''data'') ''id'' = Some (AFloat q) \<longrightarrow> tp_provider_ref resp = [])
      else \<exists>p. paystack_Transfer c n req = Panics p)"
  using assms by (auto simp: paystack_Transfer_def data_of_Inr strVal_float)

definition paystack_network :: "string \<Rightarrow> paystack_client" where
  "paystack_network answer = NewPaystack ''sk'' ''https://p'' (sample_transport
     [(''https://p/transferrecipient'', ''{\"status\":true,\"data\":{\"recipient_code\":\"R\"}}''),
      (''https://p/transfer'', answer)]) (\<lambda>_ b. b)"

definition sample_transfer_request :: transfer_request where
  "sample_transfer_request = \<lparr>tq_reference = ''T-1'', tq_account_number = ''0123456789'', tq_bank_code = ''044'',
     tq_account_name = ''Ada'', tq_amount_kobo = 500000, tq_narration = []\<rparr>"

lemma accepted_transfer_may_panic_witness:
  "(\<exists>p. paystack_Transfer (paystack_network ''{\"status\":true}'') 0 sample_transfer_request = Panics p) \<and>
   (\<exists>resp. paystack_Transfer (paystack_network ''{\"status\":true,\"data\":{\"status\":\"pending\",\"id\":7}}'') 0
      sample_transfer_request = Returns (Inr resp) \<and> tp_status resp = ''pending'' \<and> tp_provider_ref resp = [])"
proof -
  have dec: "decode_object ''paystack'' ''{\"status\":true,\"data\":{\"recipient_code\":\"R\"}}'' =
      Inr [(''status'', ABool True), (''data'', AMap [(''recipient_code'', AStr ''R'')])]"
    "decode_object ''paystack'' ''{\"status\":true}'' = Inr [(''status'', ABool True)]"
    "decode_object ''paystack'' ''{\"status\":true,\"data\":{\"status\":\"pending\",\"id\":7}}'' =
      Inr [(''status'', ABool True), (''data'', AMap [(''status'', AStr ''pending''), (''id'', AFloat 7)])]"
    by code_simp+
  note net = paystack_network_def NewPaystack_def sample_transport_def paystack_post_def paystack_do_def exchange_def
  have recip: "paystack_post (paystack_network a) 0 ''/transferrecipient'' (recipient_body r) =
      Inr [(''status'', ABool True), (''data'', AMap [(''recipient_code'', AStr ''R'')])]" for a r
    by (simp add: net dec(1))
  have none: "paystack_post (paystack_network ''{\"status\":true}'') (Suc 0) ''/transfer'' b = Inr [(''status'', ABool True)]" for b
    by (simp add: net dec(2))
  have some: "paystack_post (paystack_network ''{\"status\":true,\"data\":{\"status\":\"pending\",\"id\":7}}'') (Suc 0) ''/transfer'' b =
      Inr [(''status'', ABool True), (''data'', AMap [(''status'', AStr ''pending''), (''id'', AFloat 7)])]" for b
    by (simp add: net dec(3))
  show ?thesis
    using accepted_transfer_may_panic [OF recip _ none, of sample_transfer_request]
      accepted_transfer_may_panic [OF recip _ some, of sample_transfer_request]
    by (auto simp: has_data_def get_object_def strVal_def)
qed

text \<open>
  C0. OPay is asked for whole naira: of a bill of \<open>n\<close> kobo it gets \<open>n div 100\<close>, so that up to 99 kobo
  that the customer pays are not part of the order, unless the extras replace the amount.
\<close>

theorem opay_orders_whole_naira:
  assumes "0 \<le> bq_amount_kobo req" and "list_all (\<lambda>(k, v). k \<noteq> ''amount'') (bq_extras req)"
  shows "\<exists>naira. map_of (opay_bill_body req) ''amount'' = Some (AInt naira) \<and>
    naira * 100 \<le> bq_amount_kobo req \<and> bq_amount_kobo req < naira * 100 + 100"
proof -
  have "map_of (foldr (\<lambda>(k, v). AList.update k (AStr v)) xs m) ''amount'' = map_of m ''amount''"
    if "list_all (\<lambda>(k, v). k \<noteq> ''amount'') xs" for xs :: "(string \<times> string) list" and m
    using that by (induction xs) (auto simp: update_conv)
  from this [OF assms(2)] have "map_of (opay_bill_body req) ''amount'' = Some (AInt (bq_amount_kobo req sdiv 100))"
    by (simp add: opay_bill_body_def)
  moreover have "bq_amount_kobo req sdiv 100 = bq_amount_kobo req div 100"
    using assms(1) by (cases "bq_amount_kobo req = 0") (simp_all add: signed_divide_int_def)
  moreover have "x div 100 * 100 \<le> x \<and> x < x div 100 * 100 + 100" for x :: int by presburger
  ultimately show ?thesis by simp
qed

definition sample_bill :: bill_request where
  "sample_bill = \<lparr>bq_reference = ''B-1'', bq_service_type = ''airtime'', bq_service_code = ''MTN'', bq_customer = ''0801'',
     bq_amount_kobo = 10099, bq_phone_number = ''0801'', bq_extras = []\<rparr>"

lemma opay_orders_whole_naira_witness:
  "\<exists>naira. map_of (opay_bill_body sample_bill) ''amount'' = Some (AInt naira) \<and> naira = 100"
  using opay_orders_whole_naira [of sample_bill] by (auto simp: sample_bill_def)

end
