(* ===== verification/Flights.thy ===== *)
theory Flights
  imports Operators Json
begin

text \<open>
  The client of the flight aggregator, \<open>internal/services/travel/operators/amadeus.go\<close>: its token, the
  offers it remembers between a search and a booking, and its four operations. The aggregator is the
  transport of the client; times are milliseconds.
\<close>

section \<open>Offers\<close>

record am_segment =
  sg_departure_iata :: string
  sg_departure_at :: string
  sg_arrival_iata :: string
  sg_arrival_at :: string
  sg_carrier_code :: string
  sg_number :: string

record am_itinerary =
  ai_duration :: string
  ai_segments :: "am_segment list"

record am_offer =
  of_type :: string
  of_id :: string
  of_source :: string
  of_instant_ticketing :: bool
  of_non_homogeneous :: bool
  of_one_way :: bool
  of_last_ticketing_date :: string
  of_last_ticketing_date_time :: string
  of_bookable_seats :: int
  of_itineraries :: "am_itinerary list"
  of_currency :: string
  of_total :: string
  of_grand_total :: string
  of_cabins :: "string list list"

text \<open>The cabins of an offer: for each traveller, the cabin of each segment.\<close>

definition zero_segment :: am_segment where
  "zero_segment = \<lparr>sg_departure_iata = [], sg_departure_at = [], sg_arrival_iata = [], sg_arrival_at = [],
     sg_carrier_code = [], sg_number = []\<rparr>"

definition zero_offer :: am_offer where
  "zero_offer = \<lparr>of_type = [], of_id = [], of_source = [], of_instant_ticketing = False, of_non_homogeneous = False,
     of_one_way = False, of_last_ticketing_date = [], of_last_ticketing_date_time = [], of_bookable_seats = 0,
     of_itineraries = [], of_currency = [], of_total = [], of_grand_total = [], of_cabins = []\<rparr>"

text \<open>A struct inside a struct whose fields the record has itself.\<close>

definition d_inner :: "'r field list \<Rightarrow> 'r dec" where
  "d_inner fs = d_struct fs"

definition d_segment :: "am_segment dec" where
  "d_segment = d_struct [
     (''departure'', d_inner [fld ''iataCode'' sg_departure_iata sg_departure_iata_update d_string,
        fld ''at'' sg_departure_at sg_departure_at_update d_string]),
     (''arrival'', d_inner [fld ''iataCode'' sg_arrival_iata sg_arrival_iata_update d_string,
        fld ''at'' sg_arrival_at sg_arrival_at_update d_string]),
     fld ''carrierCode'' sg_carrier_code sg_carrier_code_update d_string,
     fld ''number'' sg_number sg_number_update d_string]"

definition d_offer :: "am_offer dec" where
  "d_offer = d_struct [
     fld ''type'' of_type of_type_update d_string,
     fld ''id'' of_id of_id_update d_string,
     fld ''source'' of_source of_source_update d_string,
     fld ''instantTicketingRequired'' of_instant_ticketing of_instant_ticketing_update d_bool,
     fld ''nonHomogeneous'' of_non_homogeneous of_non_homogeneous_update d_bool,
     fld ''oneWay'' of_one_way of_one_way_update d_bool,
     fld ''lastTicketingDate'' of_last_ticketing_date of_last_ticketing_date_update d_string,
     fld ''lastTicketingDateTime'' of_last_ticketing_date_time of_last_ticketing_date_time_update d_string,
     fld ''numberOfBookableSeats'' of_bookable_seats of_bookable_seats_update d_int,
     fld ''itineraries'' of_itineraries of_itineraries_update (d_list (d_struct [
       fld ''duration'' ai_duration ai_duration_update d_string,
       fld ''segments'' ai_segments ai_segments_update (d_list d_segment zero_segment)])
       \<lparr>ai_duration = [], ai_segments = []\<rparr>),
     (''price'', d_inner [fld ''currency'' of_currency of_currency_update d_string,
        fld ''total'' of_total of_total_update d_string,
        fld ''grandTotal'' of_grand_total of_grand_total_update d_string]),
     fld ''travelerPricings'' of_cabins of_cabins_update
       (d_list (d_struct [(''fareDetailsBySegment'', d_list (d_struct [(''cabin'', d_string)]) [])]) [])]"

text \<open>The offer as it is sent back, where \<open>omitempty\<close> drops zero values.\<close>

definition opt_text :: "string \<Rightarrow> string \<Rightarrow> (string \<times> any) list" where
  "opt_text k s = (if s = [] then [] else [(k, AStr s)])"

definition opt_flag :: "string \<Rightarrow> bool \<Rightarrow> (string \<times> any) list" where
  "opt_flag k b = (if b then [(k, ABool True)] else [])"

definition segment_any :: "am_segment \<Rightarrow> any" where
  "segment_any g = AMap
     [(''departure'', AMap [(''iataCode'', AStr (sg_departure_iata g)), (''at'', AStr (sg_departure_at g))]),
      (''arrival'', AMap [(''iataCode'', AStr (sg_arrival_iata g)), (''at'', AStr (sg_arrival_at g))]),
      (''carrierCode'', AStr (sg_carrier_code g)), (''number'', AStr (sg_number g))]"

definition offer_any :: "am_offer \<Rightarrow> any" where
  "offer_any f = AMap
     (opt_text ''type'' (of_type f) @ [(''id'', AStr (of_id f))] @ opt_text ''source'' (of_source f) @
      opt_flag ''instantTicketingRequired'' (of_instant_ticketing f) @ opt_flag ''nonHomogeneous'' (of_non_homogeneous f) @
      opt_flag ''oneWay'' (of_one_way f) @ opt_text ''lastTicketingDate'' (of_last_ticketing_date f) @
      opt_text ''lastTicketingDateTime'' (of_last_ticketing_date_time f) @
      (if of_bookable_seats f = 0 then [] else [(''numberOfBookableSeats'', AInt (of_bookable_seats f))]) @
      [(''itineraries'', ASlice (map (\<lambda>i. AMap [(''duration'', AStr (ai_duration i)),
          (''segments'', ASlice (map segment_any (ai_segments i)))]) (of_itineraries f))),
       (''price'', AMap [(''currency'', AStr (of_currency f)), (''total'', AStr (of_total f)),
          (''grandTotal'', AStr (of_grand_total f))])] @
      (if of_cabins f = [] then [] else [(''travelerPricings'', ASlice (map (\<lambda>cs.
          AMap [(''fareDetailsBySegment'', ASlice (map (\<lambda>c. AMap [(''cabin'', AStr c)]) cs))]) (of_cabins f)))]))"

section \<open>Helpers\<close>

definition amadeusClass :: "string \<Rightarrow> string" where
  "amadeusClass c = (if EqualFold c ''business'' then ''BUSINESS'' else ''ECONOMY'')"

definition defaultAdults :: "int \<Rightarrow> int" where
  "defaultAdults adults = (if adults < 1 then 1 else adults)"

definition splitPassengerName :: "string \<Rightarrow> string \<times> string" where
  "splitPassengerName fullName =
     (let parts = Fields fullName
      in if parts = [] then (''Passenger'', ''FlipBills'')
         else if length parts = 1 then (hd parts, ''Passenger'')
         else (join_with '' '' (butlast parts), last parts))"

definition normalizeNigeriaPhone :: "string \<Rightarrow> string" where
  "normalizeNigeriaPhone phone = TrimPrefix (TrimPrefix (TrimPrefix (TrimSpace phone) ''+'') ''234'') ''0''"

text \<open>\<open>strconv.ParseFloat\<close> with its error ignored.\<close>

definition float_or_zero :: "string \<Rightarrow> rat" where
  "float_or_zero s = (case ParseFloat s of Inl _ \<Rightarrow> 0 | Inr q \<Rightarrow> q)"

definition offer_price :: "am_offer \<Rightarrow> int" where
  "offer_price f =
     (let price = (if of_grand_total f = [] then of_total f else of_grand_total f)
      in kobo_of (float_or_zero (filter (\<lambda>c. c \<noteq> CHR '','') price)))"

definition text_at :: "(string \<times> string) list \<Rightarrow> string \<Rightarrow> string" where
  "text_at m k = (case map_of m k of None \<Rightarrow> [] | Some v \<Rightarrow> v)"

definition offer_cabin :: "am_offer \<Rightarrow> string \<Rightarrow> string" where
  "offer_cabin f fallbackCabin =
     (let cabin = (case of_cabins f of (c # cs) # ts \<Rightarrow> ToLower c | _ \<Rightarrow> ToLower fallbackCabin)
      in if cabin = [] then ''economy'' else cabin)"

definition mapAmadeusOffer ::
  "am_offer \<Rightarrow> (string \<times> string) list \<Rightarrow> string \<Rightarrow> flight_search_result res" where
  "mapAmadeusOffer f carriers fallbackCabin =
     (if of_id f = [] then Inl (ErrMsg ''missing offer ID'')
      else case of_itineraries f of
        [] \<Rightarrow> Inl (ErrMsg (''offer '' @ of_id f @ '' has no itinerary segments''))
      | it # its \<Rightarrow>
          if ai_segments it = [] then Inl (ErrMsg (''offer '' @ of_id f @ '' has no itinerary segments''))
          else let f1 = hd (ai_segments it); fn = last (ai_segments it); priceKobo = offer_price f;
                   airline = text_at carriers (sg_carrier_code f1)
               in if priceKobo \<le> 0 then Inl (ErrMsg (''offer '' @ of_id f @ '' has no price''))
                  else Inr \<lparr>fs_flight_number = sg_carrier_code f1 @ sg_number f1,
                    fs_airline = (if airline = [] then sg_carrier_code f1 else airline),
                    fs_origin = sg_departure_iata f1, fs_destination = sg_arrival_iata fn,
                    fs_departure_time = datetime_or_zero (sg_departure_at f1),
                    fs_arrival_time = datetime_or_zero (sg_arrival_at fn),
                    fs_duration = ai_duration it, fs_cabin_class = offer_cabin f fallbackCabin,
                    fs_price_kobo = priceKobo, fs_price_ngn = ngn_of priceKobo,
                    fs_seats_available = of_bookable_seats f, fs_gds_ref = of_id f,
                    fs_stops = int (length (ai_segments it)) - 1\<rparr>)"

section \<open>The client\<close>

record amadeus =
  am_client_id :: string
  am_client_secret :: string
  am_base_url :: string
  am_transport :: transport
  am_clock :: "nat \<Rightarrow> time"
  am_tick :: nat
  am_access_token :: string
  am_token_expiry :: time
  am_offers :: "string \<rightharpoonup> am_offer"
  am_normalized :: "string \<rightharpoonup> flight_search_result"

definition NewAmadeusOperator :: "string \<Rightarrow> string \<Rightarrow> string \<Rightarrow> transport \<Rightarrow> (nat \<Rightarrow> time) \<Rightarrow> amadeus" where
  "NewAmadeusOperator clientID clientSecret baseURL tr clock =
     \<lparr>am_client_id = clientID, am_client_secret = clientSecret, am_base_url = trim_slashes baseURL, am_transport = tr,
      am_clock = clock, am_tick = 0, am_access_token = [], am_token_expiry = zero_time,
      am_offers = Map.empty, am_normalized = Map.empty\<rparr>"

text \<open>Every answer and every reading of the clock takes a tick.\<close>

definition am_call :: "(amadeus \<Rightarrow> nat \<Rightarrow> 'a) \<Rightarrow> (amadeus, 'a) state" where
  "am_call f = State (\<lambda>a. (f a (am_tick a), a\<lparr>am_tick := Suc (am_tick a)\<rparr>))"

definition token_request :: "amadeus \<Rightarrow> http_request" where
  "token_request a = \<lparr>hq_method = ''POST'', hq_url = am_base_url a @ ''/v1/security/oauth2/token'',
     hq_headers = [(''Content-Type'', ''application/x-www-form-urlencoded''), (''Accept'', ''application/json'')],
     hq_body = Some (AStr (Encode [(''client_id'', am_client_id a), (''client_secret'', am_client_secret a),
       (''grant_type'', ''client_credentials'')]))\<rparr>"

record am_token =
  tk_access_token :: string
  tk_expires_in :: int

definition d_token :: "am_token dec" where
  "d_token = d_struct [
     fld ''access_token'' tk_access_token tk_access_token_update d_string,
     fld ''expires_in'' tk_expires_in tk_expires_in_update d_int]"

text \<open>The request for a token; a body that cannot be read is empty.\<close>

definition fetch_token :: "amadeus \<Rightarrow> nat \<Rightarrow> am_token res" where
  "fetch_token a n =
     (case tp_new_request (am_transport a) ''POST'' (hq_url (token_request a)) of
        Some e \<Rightarrow> Inl e
      | None \<Rightarrow> and_then (tp_do (am_transport a) n (token_request a)) (\<lambda>e. e) (\<lambda>resp.
          let rawBody = (case hs_body resp of None \<Rightarrow> [] | Some b \<Rightarrow> b)
          in if \<not> status_ok (hs_status resp)
             then Inl (ErrMsg (''Amadeus auth returned status '' @ show_int (hs_status resp) @ '': '' @ TrimSpace rawBody))
             else and_then (Unmarshal d_token \<lparr>tk_access_token = [], tk_expires_in = 0\<rparr> rawBody) (\<lambda>e. e) (\<lambda>r.
               if tk_access_token r = [] then Inl (ErrMsg ''Amadeus auth response missing access token'') else Inr r)))"

definition store_token :: "am_token \<Rightarrow> (amadeus, unit) go" where
  "store_token r = State (\<lambda>a.
     let expiresIn = (if tk_expires_in r \<le> 30 then 1800 else tk_expires_in r)
     in (Inr (), a\<lparr>am_access_token := tk_access_token r,
          am_token_expiry := am_clock a (am_tick a) + i64 ((expiresIn - 30) * 1000000000) sdiv 1000000,
          am_tick := Suc (am_tick a)\<rparr>))"

definition token_valid :: "(amadeus, bool) state" where
  "token_valid = State (\<lambda>a.
     if am_access_token a \<noteq> []
     then (am_clock a (am_tick a) < am_token_expiry a, a\<lparr>am_tick := Suc (am_tick a)\<rparr>) else (False, a))"

definition ensureToken :: "(amadeus, unit) go" where
  "ensureToken = do {
     valid \<leftarrow> token_valid;
     if valid then ok ()
     else do {
       missing \<leftarrow> State (\<lambda>a. (am_client_id a = [] \<or> am_client_secret a = [], a));
       if missing then fail (ErrMsg ''Amadeus credentials are not configured'')
       else or_return (am_call fetch_token) (\<lambda>e. e) store_token
     }
   }"

definition am_request :: "amadeus \<Rightarrow> string \<Rightarrow> string \<Rightarrow> any option \<Rightarrow> http_request" where
  "am_request a method endpoint payload = \<lparr>hq_method = method, hq_url = endpoint,
     hq_headers = (''Accept'', ''application/json'') #
       (if payload = None then [] else [(''Content-Type'', ''application/json'')]) @
       (if am_access_token a = [] then [] else [(''Authorization'', ''Bearer '' @ am_access_token a)]),
     hq_body = payload\<rparr>"

text \<open>\<open>doJSON\<close>, with \<open>None\<close> for a nil \<open>out\<close>; an empty body leaves \<open>out\<close> as it is.\<close>

definition am_answer :: "'o dec option \<Rightarrow> 'o \<Rightarrow> string \<Rightarrow> string \<Rightarrow> any option \<Rightarrow> amadeus \<Rightarrow> nat \<Rightarrow> 'o res" where
  "am_answer out z method endpoint payload a n =
     and_then (exchange (am_transport a) n (am_request a method endpoint payload) (\<lambda>e. e)
         (Wrap ''Amadeus request failed'') (\<lambda>e. e)) (\<lambda>e. e) (\<lambda>(status, rawBody).
     if \<not> status_ok status
     then Inl (ErrMsg (''Amadeus returned status '' @ show_int status @ '': '' @ TrimSpace rawBody))
     else (case out of
         None \<Rightarrow> Inr z
       | Some d \<Rightarrow> if rawBody = [] then Inr z
           else and_then (Unmarshal d z rawBody) (Wrap ''Amadeus response decode failed'') Inr))"

definition doJSON :: "'o dec option \<Rightarrow> 'o \<Rightarrow> string \<Rightarrow> (amadeus \<Rightarrow> string) \<Rightarrow> any option \<Rightarrow> (amadeus, 'o) go" where
  "doJSON out z method endpoint payload = am_call (\<lambda>a. am_answer out z method (endpoint a) payload a)"

text \<open>Answers with offers and the names of their carriers.\<close>

record am_offers_answer =
  aa_offers :: "am_offer list"
  aa_carriers :: "(string \<times> string) list"

definition zero_answer :: am_offers_answer where
  "zero_answer = \<lparr>aa_offers = [], aa_carriers = []\<rparr>"

definition d_dictionaries :: "am_offers_answer field" where
  "d_dictionaries = (''dictionaries'', d_inner [fld ''carriers'' aa_carriers aa_carriers_update (d_map d_string [])])"

definition d_search_answer :: "am_offers_answer dec" where
  "d_search_answer = d_struct
     [fld ''data'' aa_offers aa_offers_update (d_list d_offer zero_offer), d_dictionaries]"

definition d_pricing_answer :: "am_offers_answer dec" where
  "d_pricing_answer = d_struct
     [(''data'', d_inner [fld ''flightOffers'' aa_offers aa_offers_update (d_list d_offer zero_offer)]), d_dictionaries]"

section \<open>Operations\<close>

definition search_query :: "flight_search_request \<Rightarrow> string" where
  "search_query req = Encode
     [(''adults'', show_int (defaultAdults (fr_adults req))), (''currencyCode'', ''NGN''),
      (''departureDate'', fr_departure_date req), (''destinationLocationCode'', fr_destination req), (''max'', ''20''),
      (''originLocationCode'', fr_origin req), (''travelClass'', amadeusClass (fr_cabin_class req))]"

text \<open>Remembering an offer and what it was mapped to.\<close>

definition remember :: "string \<Rightarrow> am_offer \<Rightarrow> flight_search_result \<Rightarrow> amadeus \<Rightarrow> amadeus" where
  "remember g f r a = a\<lparr>am_offers := (am_offers a)(g \<mapsto> f), am_normalized := (am_normalized a)(g \<mapsto> r)\<rparr>"

text \<open>The loop over the offers of an answer; one that cannot be mapped is skipped.\<close>

fun map_offers ::
  "(string \<times> string) list \<Rightarrow> string \<Rightarrow> am_offer list \<Rightarrow> amadeus \<Rightarrow> flight_search_result list \<times> amadeus" where
  "map_offers carriers cabin [] a = ([], a)"
| "map_offers carriers cabin (f # fs) a =
     (case mapAmadeusOffer f carriers cabin of
        Inl _ \<Rightarrow> map_offers carriers cabin fs a
      | Inr r \<Rightarrow> (let (rs, a') = map_offers carriers cabin fs (remember (of_id f) f r a) in (r # rs, a')))"

definition am_Search :: "flight_search_request \<Rightarrow> (amadeus, flight_search_result list) go" where
  "am_Search req =
     or_return ensureToken (Wrap ''Amadeus auth failed'') (\<lambda>_.
     or_return (doJSON (Some d_search_answer) zero_answer ''GET''
         (\<lambda>a. am_base_url a @ ''/v2/shopping/flight-offers?'' @ search_query req) None) (\<lambda>e. e) (\<lambda>result. do {
       out \<leftarrow> State (map_offers (aa_carriers result) (fr_cabin_class req) (aa_offers result));
       if out = [] then fail (ErrMsg ''Amadeus returned no mappable flight offers'') else ok out
     }))"

definition offer_not_found :: "string \<Rightarrow> goerr" where
  "offer_not_found g = ErrMsg (''flight offer '' @ [CHR 0x22] @ g @ [CHR 0x22] @ '' not found; search again before booking'')"

definition find_offer :: "string \<Rightarrow> (amadeus, am_offer) go" where
  "find_offer g = State (\<lambda>a. (case am_offers a g of None \<Rightarrow> Inl (offer_not_found g) | Some f \<Rightarrow> Inr f, a))"

definition pricing_payload :: "am_offer \<Rightarrow> any" where
  "pricing_payload f = AMap [(''data'', AMap [(''type'', AStr ''flight-offers-pricing''),
     (''flightOffers'', ASlice [offer_any f])])]"

definition fallback_cabin :: "amadeus \<Rightarrow> string \<Rightarrow> string" where
  "fallback_cabin a g = (case am_normalized a g of None \<Rightarrow> [] | Some r \<Rightarrow> fs_cabin_class r)"

definition am_PriceOffer :: "string \<Rightarrow> (amadeus, flight_search_result) go" where
  "am_PriceOffer gdsRef =
     or_return ensureToken (Wrap ''Amadeus auth failed'') (\<lambda>_.
     or_return (find_offer gdsRef) (\<lambda>e. e) (\<lambda>rawOffer. do {
       cabin \<leftarrow> State (\<lambda>a. (fallback_cabin a gdsRef, a));
       or_return (doJSON (Some d_pricing_answer) zero_answer ''POST''
           (\<lambda>a. am_base_url a @ ''/v1/shopping/flight-offers/pricing'') (Some (pricing_payload rawOffer))) (\<lambda>e. e) (\<lambda>result.
         case aa_offers result of
           [] \<Rightarrow> fail (ErrMsg ''Amadeus pricing response did not include flight offer'')
         | priced # _ \<Rightarrow>
             (case mapAmadeusOffer priced (aa_carriers result) cabin of
                Inl e \<Rightarrow> fail e
              | Inr r \<Rightarrow> State (\<lambda>a. (Inr r, remember gdsRef priced r a))))
     }))"

definition booking_payload :: "am_offer \<Rightarrow> passenger_info \<Rightarrow> any" where
  "booking_payload f passenger =
     (let (firstName, lastName) = splitPassengerName (ps_full_name passenger)
      in AMap [(''data'', AMap [(''type'', AStr ''flight-order''), (''flightOffers'', ASlice [offer_any f]),
        (''travelers'', ASlice [AMap [(''id'', AStr ''1''), (''dateOfBirth'', AStr ''1990-01-01''),
          (''name'', AMap [(''firstName'', AStr firstName), (''lastName'', AStr lastName)]),
          (''contact'', AMap [(''emailAddress'', AStr (ps_email passenger)),
            (''phones'', ASlice [AMap [(''deviceType'', AStr ''MOBILE''), (''countryCallingCode'', AStr ''234''),
              (''number'', AStr (normalizeNigeriaPhone (ps_phone passenger)))]])])]])])])"

record am_order =
  ao_id :: string
  ao_records :: "string list"

definition d_order :: "am_order dec" where
  "d_order = d_struct [(''data'', d_inner [
     fld ''id'' ao_id ao_id_update d_string,
     fld ''associatedRecords'' ao_records ao_records_update (d_list (d_struct [(''reference'', d_string)]) [])])]"

definition order_reference :: "am_order \<Rightarrow> string res" where
  "order_reference o' =
     (if ao_id o' \<noteq> [] then Inr (ao_id o')
      else case find (\<lambda>r. TrimSpace r \<noteq> []) (ao_records o') of
        Some r \<Rightarrow> Inr r
      | None \<Rightarrow> Inl (ErrMsg ''Amadeus booking response missing order reference''))"

text \<open>The order that books an offer.\<close>

definition place_order :: "am_offer \<Rightarrow> passenger_info \<Rightarrow> (amadeus, string) go" where
  "place_order f passenger =
     or_return (doJSON (Some d_order) \<lparr>ao_id = [], ao_records = []\<rparr> ''POST''
         (\<lambda>a. am_base_url a @ ''/v1/booking/flight-orders'') (Some (booking_payload f passenger))) (\<lambda>e. e)
       (\<lambda>result. State_Monad.return (order_reference result))"

definition am_Book :: "string \<Rightarrow> passenger_info \<Rightarrow> (amadeus, string) go" where
  "am_Book gdsRef passenger =
     or_return ensureToken (Wrap ''Amadeus auth failed'') (\<lambda>_.
     or_return (find_offer gdsRef) (\<lambda>e. e) (\<lambda>offer. place_order offer passenger))"

definition am_Cancel :: "string \<Rightarrow> (amadeus, unit) go" where
  "am_Cancel ticketCode =
     or_return ensureToken (Wrap ''Amadeus auth failed'') (\<lambda>_.
     doJSON None () ''DELETE'' (\<lambda>a. am_base_url a @ ''/v1/booking/flight-orders/'' @ PathEscape ticketCode) None)"

section \<open>Remembered offers\<close>

text \<open>An offer is remembered together with what it was mapped to.\<close>

definition offers_ok :: "amadeus \<Rightarrow> bool" where
  "offers_ok a \<longleftrightarrow> (\<forall>g. am_offers a g = None \<longrightarrow> am_normalized a g = None) \<and>
     (\<forall>g f. am_offers a g = Some f \<longrightarrow>
        (\<exists>cs cabin r. am_normalized a g = Some r \<and> mapAmadeusOffer f cs cabin = Inr r))"

lemma mapAmadeusOffer_price:
  "mapAmadeusOffer f cs cabin = Inr r \<Longrightarrow>
     fs_price_kobo r = offer_price f \<and> 0 < offer_price f \<and> fs_gds_ref r = of_id f"
  by (auto simp: mapAmadeusOffer_def Let_def split: if_splits list.splits)

lemma remember_ok: "offers_ok a \<Longrightarrow> mapAmadeusOffer f cs cabin = Inr r \<Longrightarrow> offers_ok (remember g f r a)"
  by (auto simp: offers_ok_def remember_def)

lemma map_offers_ok: "offers_ok a \<Longrightarrow> offers_ok (snd (map_offers cs cabin fs a))"
proof (induction fs arbitrary: a)
  case (Cons f fs)
  show ?case
  proof (cases "mapAmadeusOffer f cs cabin")
    case (Inr r)
    from Cons.IH [OF remember_ok [OF Cons.prems Inr]] Inr show ?thesis by (simp add: case_prod_unfold Let_def)
  qed (use Cons in simp)
qed simp

text \<open>A predicate of what is remembered, which the other steps leave alone.\<close>

definition on_memory :: "(amadeus \<Rightarrow> bool) \<Rightarrow> bool" where
  "on_memory P \<longleftrightarrow> (\<forall>a n t e. P (a\<lparr>am_tick := n\<rparr>) = P a \<and>
     P (a\<lparr>am_access_token := t, am_token_expiry := e\<rparr>) = P a)"

lemma on_memory_ok [simp]: "on_memory offers_ok" "on_memory (\<lambda>a. am_offers a = x)"
  by (simp_all add: on_memory_def offers_ok_def)

lemma keeps_am_steps [keeps_intros]:
  assumes "on_memory P"
  shows "keeps P (am_call f)" "keeps P token_valid" "keeps P (store_token r)"
    "keeps P (find_offer g)" "keeps P (doJSON d z m e p)"
  using assms
  by (auto simp: keeps_def am_call_def token_valid_def store_token_def find_offer_def doJSON_def on_memory_def Let_def)

lemma keeps_ensureToken [keeps_intros]:
  assumes "on_memory P"
  shows "keeps P ensureToken"
proof -
  have "keeps P (State (\<lambda>a. (am_client_id a = [] \<or> am_client_secret a = [], a)))" by (simp add: keeps_def)
  with assms show ?thesis unfolding ensureToken_def by (intro keeps_intros)
qed

lemma keeps_am_Search [keeps_intros]: "keeps offers_ok (am_Search req)"
proof -
  have "keeps offers_ok (State (map_offers cs cabin fs))" for cs cabin fs by (simp add: keeps_def map_offers_ok)
  then show ?thesis unfolding am_Search_def by (intro keeps_intros on_memory_ok)
qed

lemma keeps_am_PriceOffer [keeps_intros]: "keeps offers_ok (am_PriceOffer g)"
proof -
  have read: "keeps offers_ok (State (\<lambda>a. (fallback_cabin a g, a)))" by (simp add: keeps_def)
  have "keeps offers_ok (case aa_offers result of
      [] \<Rightarrow> fail (ErrMsg ''Amadeus pricing response did not include flight offer'')
    | priced # _ \<Rightarrow> (case mapAmadeusOffer priced (aa_carriers result) cabin of
          Inl e \<Rightarrow> fail e
        | Inr r \<Rightarrow> State (\<lambda>a. (Inr r, remember g priced r a))))" for result cabin
    by (auto simp: keeps_def remember_ok split: list.splits sum.splits)
  with read show ?thesis unfolding am_PriceOffer_def by (intro keeps_intros on_memory_ok)
qed

lemma keeps_am_Book [keeps_intros]: "keeps offers_ok (am_Book g p)"
  unfolding am_Book_def place_order_def by (intro keeps_intros on_memory_ok)

lemma keeps_am_Cancel [keeps_intros]: "keeps offers_ok (am_Cancel t)"
  unfolding am_Cancel_def by (intro keeps_intros on_memory_ok)

datatype am_op = OpSearch flight_search_request | OpPrice string | OpBook string passenger_info | OpCancel string

fun am_step :: "am_op \<Rightarrow> amadeus \<Rightarrow> amadeus" where
  "am_step (OpSearch req) a = snd (run_state (am_Search req) a)"
| "am_step (OpPrice g) a = snd (run_state (am_PriceOffer g) a)"
| "am_step (OpBook g p) a = snd (run_state (am_Book g p) a)"
| "am_step (OpCancel t) a = snd (run_state (am_Cancel t) a)"

lemma am_step_ok: "offers_ok a \<Longrightarrow> offers_ok (am_step op a)"
  by (cases op) (auto intro!: keepsD [of offers_ok] keeps_intros)

section \<open>Properties of the client\<close>

text \<open>
  C31. After any sequence of searches, price checks, bookings and cancellations of any users, whatever the
  aggregator answers, each offer that can be booked has a price, and the price that is remembered for it
  is that of the offer that would be ordered.
\<close>

theorem bookable_offers_are_priced:
  "let a = fold am_step ops (NewAmadeusOperator clientID clientSecret baseURL tr clock)
   in case am_offers a g of
        None \<Rightarrow> am_normalized a g = None
      | Some f \<Rightarrow> 0 < offer_price f \<and> (\<exists>r. am_normalized a g = Some r \<and> fs_price_kobo r = offer_price f)"
proof -
  have "offers_ok (fold am_step ops a)" if "offers_ok a" for a
    using that by (induction ops arbitrary: a) (simp_all add: am_step_ok)
  moreover have "offers_ok (NewAmadeusOperator clientID clientSecret baseURL tr clock)"
    by (simp add: offers_ok_def NewAmadeusOperator_def)
  ultimately have "offers_ok (fold am_step ops (NewAmadeusOperator clientID clientSecret baseURL tr clock))" by blast
  then show ?thesis
    unfolding offers_ok_def Let_def
    by (cases "am_offers (fold am_step ops (NewAmadeusOperator clientID clientSecret baseURL tr clock)) g")
      (auto, (metis mapAmadeusOffer_price)+)
qed

text \<open>An answer decides what its offers' identifiers stand for, whatever they stood for before.\<close>

lemma map_offers_decides:
  assumes "map_offers cs cabin fs a = (rs, a')"
  shows "(\<forall>r \<in> set rs. \<exists>f r'. am_offers a' (fs_gds_ref r) = Some f \<and> r' \<in> set rs \<and>
      fs_gds_ref r' = fs_gds_ref r \<and> mapAmadeusOffer f cs cabin = Inr r') \<and>
    (\<forall>g. g \<notin> fs_gds_ref ` set rs \<longrightarrow> am_offers a' g = am_offers a g)"
  using assms
proof (induction fs arbitrary: a rs)
  case (Cons f fs)
  show ?case
  proof (cases "mapAmadeusOffer f cs cabin")
    case (Inr r)
    obtain rs1 where rs1: "map_offers cs cabin fs (remember (of_id f) f r a) = (rs1, a')" and rs: "rs = r # rs1"
      using Cons.prems Inr by (auto split: prod.splits)
    note IH = Cons.IH [OF rs1]
    have id: "fs_gds_ref r = of_id f" using mapAmadeusOffer_price [OF Inr] by simp
    have "\<exists>f' r'. am_offers a' (fs_gds_ref r) = Some f' \<and> r' \<in> set rs \<and> fs_gds_ref r' = fs_gds_ref r \<and>
        mapAmadeusOffer f' cs cabin = Inr r'"
    proof (cases "fs_gds_ref r \<in> fs_gds_ref ` set rs1")
      case True
      then obtain x where x: "x \<in> set rs1" "fs_gds_ref x = fs_gds_ref r" by force
      with IH obtain f' r' where "am_offers a' (fs_gds_ref x) = Some f'" "r' \<in> set rs1"
        "fs_gds_ref r' = fs_gds_ref x" "mapAmadeusOffer f' cs cabin = Inr r'" by blast
      with x rs show ?thesis by auto
    next
      case False
      with IH have "am_offers a' (fs_gds_ref r) = am_offers (remember (of_id f) f r a) (fs_gds_ref r)" by blast
      with Inr rs id show ?thesis by (auto simp: remember_def)
    qed
    moreover have "am_offers a' g = am_offers a g" if "g \<notin> fs_gds_ref ` set rs" for g
      using that IH rs id by (simp add: remember_def)
    ultimately show ?thesis using IH rs by (auto; blast)
  qed (use Cons in simp)
qed simp

lemma search_decides:
  assumes "run_state (am_Search req) a = (Inr out, a1)" and "r \<in> set out"
    and "run_state ensureToken a1 = (Inr (), a2)"
  shows "\<exists>f x. of_id f = fs_gds_ref r \<and> x \<in> set out \<and> fs_gds_ref x = fs_gds_ref r \<and>
    fs_price_kobo x = offer_price f \<and>
    (\<forall>passenger. run_state (am_Book (fs_gds_ref r) passenger) a1 = run_state (place_order f passenger) a2)"
proof -
  from assms(1) obtain v b1 where "run_state (or_return (doJSON (Some d_search_answer) zero_answer ''GET''
         (\<lambda>a. am_base_url a @ ''/v2/shopping/flight-offers?'' @ search_query req) None) (\<lambda>e. e) (\<lambda>result. do {
       out \<leftarrow> State (map_offers (aa_carriers result) (fr_cabin_class req) (aa_offers result));
       if out = [] then fail (ErrMsg ''Amadeus returned no mappable flight offers'') else ok out
     })) b1 = (Inr out, a1)"
    unfolding am_Search_def by (rule or_return_success)
  then obtain result :: am_offers_answer and b2 where "run_state (do {
       out \<leftarrow> State (map_offers (aa_carriers result) (fr_cabin_class req) (aa_offers result));
       if out = [] then fail (ErrMsg ''Amadeus returned no mappable flight offers'') else ok out
     }) b2 = (Inr out, a1)"
    by (rule or_return_success)
  then have "map_offers (aa_carriers result) (fr_cabin_class req) (aa_offers result) b2 = (out, a1)"
    by (auto split: prod.splits if_splits)
  from map_offers_decides [OF this] assms(2) obtain f r' where f: "am_offers a1 (fs_gds_ref r) = Some f"
    "r' \<in> set out" "fs_gds_ref r' = fs_gds_ref r"
    "mapAmadeusOffer f (aa_carriers result) (fr_cabin_class req) = Inr r'" by blast
  have "am_offers a2 = am_offers a1"
    using keeps_run [OF keeps_ensureToken assms(3), of "\<lambda>a. am_offers a = am_offers a1"] by simp
  with f(1) have "run_state (find_offer (fs_gds_ref r)) a2 = (Inr f, a2)" by (simp add: find_offer_def)
  then have "run_state (am_Book (fs_gds_ref r) passenger) a1 = run_state (place_order f passenger) a2" for passenger
    using assms(3) by (simp add: am_Book_def run_or_return)
  with f mapAmadeusOffer_price [OF f(4)] show ?thesis by (intro exI [of _ f] exI [of _ r']) auto
qed

text \<open>
  C32. The identifiers of offers are the aggregator's own, they are not kept apart by search or by user.
  When a traveller has searched and a second search, by anyone and for any route, returns an offer with the
  identifier of the one the traveller chose, then a booking under that identifier, which before ordered
  the offer of the traveller's own answer, now orders the offer of the second answer, at that one's price.
\<close>

theorem later_search_changes_booking:
  assumes "run_state (am_Search req1) a = (Inr out1, a1)" and "r1 \<in> set out1"
    and "run_state (am_Search req2) a1 = (Inr out2, a2)" and "r2 \<in> set out2"
    and "fs_gds_ref r1 = g" and "fs_gds_ref r2 = g"
    and "run_state ensureToken a1 = (Inr (), b1)" and "run_state ensureToken a2 = (Inr (), b2)"
  shows "\<exists>f1 f2 x1 x2. of_id f1 = g \<and> of_id f2 = g \<and>
    x1 \<in> set out1 \<and> fs_gds_ref x1 = g \<and> fs_price_kobo x1 = offer_price f1 \<and>
    x2 \<in> set out2 \<and> fs_gds_ref x2 = g \<and> fs_price_kobo x2 = offer_price f2 \<and>
    run_state (am_Book g passenger) a1 = run_state (place_order f1 passenger) b1 \<and>
    run_state (am_Book g passenger) a2 = run_state (place_order f2 passenger) b2"
  using search_decides [OF assms(1,2,7)] search_decides [OF assms(3,4,8)] assms(5,6) by metis

text \<open>Two users search on the same day; both answers number their offers from 1.\<close>

definition flight_body :: "string \<Rightarrow> string \<Rightarrow> string" where
  "flight_body no price = ''{\"data\":[{\"id\":\"1\",\"itineraries\":[{\"segments\":[{\"carrierCode\":\"P4\",\"number\":\"''
     @ no @ ''\"}]}],\"price\":{\"total\":\"'' @ price @ ''\"}}]}''"

definition flight_req :: "string \<Rightarrow> flight_search_request" where
  "flight_req dest = \<lparr>fr_origin = ''LOS'', fr_destination = dest, fr_departure_date = ''2025-06-01'', fr_cabin_class = [], fr_adults = 1\<rparr>"

definition sample_amadeus :: amadeus where
  "sample_amadeus = NewAmadeusOperator ''id'' ''secret'' ''https://a/''
     \<lparr>tp_new_request = (\<lambda>_ _. None), tp_do = (\<lambda>n _. Inr \<lparr>hs_status = 200, hs_body = Some
        (if n = 0 then ''{\"access_token\":\"t\",\"expires_in\":1799}''
         else if n = 2 then flight_body ''10'' ''45,000.00'' else flight_body ''20'' ''900,000.00'')\<rparr>)\<rparr>
     (\<lambda>n. 1700000000000)"

definition both_searched :: "flight_search_result list res \<times> amadeus" where
  "both_searched = run_state (am_Search (flight_req ''LHR'')) (snd (run_state (am_Search (flight_req ''ABV'')) sample_amadeus))"

definition sample_offer :: "string \<Rightarrow> string \<Rightarrow> am_offer" where
  "sample_offer no price = zero_offer\<lparr>of_id := ''1'', of_total := price, of_itineraries :=
     [\<lparr>ai_duration = [], ai_segments = [zero_segment\<lparr>sg_carrier_code := ''P4'', sg_number := no\<rparr>]\<rparr>]\<rparr>"

lemma sample_answers:
  "Unmarshal d_token \<lparr>tk_access_token = [], tk_expires_in = 0\<rparr> ''{\"access_token\":\"t\",\"expires_in\":1799}'' =
     Inr \<lparr>tk_access_token = ''t'', tk_expires_in = 1799\<rparr>"
  "Unmarshal d_search_answer zero_answer (flight_body ''10'' ''45,000.00'') =
     Inr \<lparr>aa_offers = [sample_offer ''10'' ''45,000.00''], aa_carriers = []\<rparr>"
  "Unmarshal d_search_answer zero_answer (flight_body ''20'' ''900,000.00'') =
     Inr \<lparr>aa_offers = [sample_offer ''20'' ''900,000.00''], aa_carriers = []\<rparr>"
  by code_simp+

lemma sample_mapped:
  "\<exists>r. mapAmadeusOffer (sample_offer ''10'' ''45,000.00'') [] [] = Inr r \<and> fs_price_kobo r = 4500000 \<and> fs_gds_ref r = ''1''"
  "\<exists>r. mapAmadeusOffer (sample_offer ''20'' ''900,000.00'') [] [] = Inr r \<and> fs_price_kobo r = 90000000 \<and> fs_gds_ref r = ''1''"
proof -
  have "offer_price (sample_offer ''10'' ''45,000.00'') = 4500000" "offer_price (sample_offer ''20'' ''900,000.00'') = 90000000"
    by code_simp+
  then show
    "\<exists>r. mapAmadeusOffer (sample_offer ''10'' ''45,000.00'') [] [] = Inr r \<and> fs_price_kobo r = 4500000 \<and> fs_gds_ref r = ''1''"
    "\<exists>r. mapAmadeusOffer (sample_offer ''20'' ''900,000.00'') [] [] = Inr r \<and> fs_price_kobo r = 90000000 \<and> fs_gds_ref r = ''1''"
    by (simp_all add: mapAmadeusOffer_def sample_offer_def Let_def)
qed

lemma flight_body_nonempty [simp]: "flight_body no price \<noteq> []"
  by (simp add: flight_body_def)

lemma sample_searches:
  "\<exists>r1 r2. fst (run_state (am_Search (flight_req ''ABV'')) sample_amadeus) = Inr [r1] \<and> fst both_searched = Inr [r2] \<and>
     fs_gds_ref r1 = ''1'' \<and> fs_price_kobo r1 = 4500000 \<and> fs_gds_ref r2 = ''1'' \<and> fs_price_kobo r2 = 90000000 \<and>
     fst (run_state ensureToken (snd (run_state (am_Search (flight_req ''ABV'')) sample_amadeus))) = Inr () \<and>
     fst (run_state ensureToken (snd both_searched)) = Inr ()"
proof -
  obtain r1 where r1: "mapAmadeusOffer (sample_offer ''10'' ''45,000.00'') [] [] = Inr r1" "fs_price_kobo r1 = 4500000" "fs_gds_ref r1 = ''1''"
    using sample_mapped(1) by blast
  obtain r2 where r2: "mapAmadeusOffer (sample_offer ''20'' ''900,000.00'') [] [] = Inr r2" "fs_price_kobo r2 = 90000000" "fs_gds_ref r2 = ''1''"
    using sample_mapped(2) by blast
  note step = am_Search_def ensureToken_def token_valid_def am_call_def store_token_def fetch_token_def doJSON_def
    am_answer_def exchange_def status_ok_def run_or_return Let_def NewAmadeusOperator_def remember_def
  let ?a1 = "snd (run_state (am_Search (flight_req ''ABV'')) sample_amadeus)"
  have one: "run_state (am_Search (flight_req ''ABV'')) sample_amadeus = (Inr [r1], (remember (of_id (sample_offer ''10'' ''45,000.00''))
      (sample_offer ''10'' ''45,000.00'') r1 sample_amadeus)\<lparr>am_access_token := ''t'',
        am_token_expiry := 1700001769000, am_tick := 3\<rparr>)"
    by (simp add: step sample_amadeus_def sample_answers r1 flight_req_def i64_def)
  have two: "fst both_searched = Inr [r2] \<and> am_access_token (snd both_searched) = ''t'' \<and>
      am_token_expiry (snd both_searched) = 1700001769000 \<and> am_clock (snd both_searched) = (\<lambda>n. 1700000000000)"
    unfolding both_searched_def one by (simp add: step sample_amadeus_def sample_answers r2 flight_req_def)
  then have "fst (run_state ensureToken (snd both_searched)) = Inr ()"
    by (simp add: ensureToken_def token_valid_def)
  moreover have "fst (run_state ensureToken ?a1) = Inr ()"
    unfolding one by (simp add: ensureToken_def token_valid_def sample_amadeus_def NewAmadeusOperator_def remember_def)
  ultimately show ?thesis using one two r1 r2 by auto
qed

lemma later_search_changes_booking_witness:
  "\<exists>r1 f1 f2. fst (run_state (am_Search (flight_req ''ABV'')) sample_amadeus) = Inr [r1] \<and> fs_gds_ref r1 = ''1'' \<and>
     offer_price f1 = fs_price_kobo r1 \<and> offer_price f1 = 4500000 \<and> offer_price f2 = 90000000 \<and>
     run_state (am_Book ''1'' \<lparr>ps_full_name = ''Ada B'', ps_email = [], ps_phone = ''0801''\<rparr>)
       (snd (run_state (am_Search (flight_req ''ABV'')) sample_amadeus)) =
     run_state (place_order f1 \<lparr>ps_full_name = ''Ada B'', ps_email = [], ps_phone = ''0801''\<rparr>)
       (snd (run_state ensureToken (snd (run_state (am_Search (flight_req ''ABV'')) sample_amadeus)))) \<and>
     run_state (am_Book ''1'' \<lparr>ps_full_name = ''Ada B'', ps_email = [], ps_phone = ''0801''\<rparr>) (snd both_searched) =
     run_state (place_order f2 \<lparr>ps_full_name = ''Ada B'', ps_email = [], ps_phone = ''0801''\<rparr>)
       (snd (run_state ensureToken (snd both_searched)))"
proof -
  let ?first = "run_state (am_Search (flight_req ''ABV'')) sample_amadeus"
  obtain r1 r2 where r: "fst ?first = Inr [r1]"
    "fs_gds_ref r1 = ''1''" "fs_price_kobo r1 = 4500000" "fst both_searched = Inr [r2]" "fs_gds_ref r2 = ''1''"
    "fs_price_kobo r2 = 90000000" and tok: "fst (run_state ensureToken (snd ?first)) = Inr ()"
      "fst (run_state ensureToken (snd both_searched)) = Inr ()"
    using sample_searches by blast
  have runs: "?first = (Inr [r1], snd ?first)"
    "run_state (am_Search (flight_req ''LHR'')) (snd ?first) = (Inr [r2], snd both_searched)"
    "run_state ensureToken (snd ?first) = (Inr (), snd (run_state ensureToken (snd ?first)))"
    "run_state ensureToken (snd both_searched) = (Inr (), snd (run_state ensureToken (snd both_searched)))"
    using r(1,4) tok by (simp_all add: both_searched_def prod_eq_iff)
  from later_search_changes_booking [OF runs(1) _ runs(2) _ r(2,5) runs(3,4),
      where passenger = "\<lparr>ps_full_name = ''Ada B'', ps_email = [], ps_phone = ''0801''\<rparr>"] r
  show ?thesis by auto
qed

text \<open>
  The ways to write a Nigerian number are sent alike: with the country code, with or without a plus
  sign, with a trunk zero, and bare.
\<close>

theorem phone_forms_agree:
  assumes "list_all is_digit ds" and "ds \<noteq> []" and "hd ds \<notin> {CHR ''0'', CHR ''2''}"
  shows "list_all (\<lambda>form. normalizeNigeriaPhone (form @ ds) = ds) [[], ''0'', ''234'', ''+234'', ''2340'', ''+2340'']"
proof -
  from assms(2) obtain d ds' where ds: "ds = d # ds'" by (cases ds) simp_all
  have sp: "\<not> is_space c" if "is_digit c \<or> c = CHR ''+''" for c
    using that by (auto simp: is_space_def is_digit_def in_range_def)
  have plus: "d \<noteq> CHR ''+''" "d \<noteq> CHR ''0''" "d \<noteq> CHR ''2''"
    using assms(1,3) ds by (auto simp: is_digit_def in_range_def)
  have strip: "normalizeNigeriaPhone (form @ ds) = ds"
    if "list_all (\<lambda>c. is_digit c \<or> c = CHR ''+'') form"
      and "TrimPrefix (TrimPrefix (TrimPrefix (form @ ds) ''+'') ''234'') ''0'' = ds" for form
  proof -
    have "TrimSpace (form @ ds) = form @ ds"
      using that(1) assms(1) sp by (intro TrimSpace_no_space) (auto simp: list_all_iff)
    with that(2) show ?thesis by (simp add: normalizeNigeriaPhone_def)
  qed
  have digits: "is_digit CHR ''0''" "is_digit CHR ''2''" "is_digit CHR ''3''" "is_digit CHR ''4''"
    by (simp_all add: is_digit_def in_range_def)
  have "normalizeNigeriaPhone ([] @ ds) = ds" "normalizeNigeriaPhone (''0'' @ ds) = ds"
    "normalizeNigeriaPhone (''234'' @ ds) = ds" "normalizeNigeriaPhone (''+234'' @ ds) = ds"
    "normalizeNigeriaPhone (''2340'' @ ds) = ds" "normalizeNigeriaPhone (''+2340'' @ ds) = ds"
    by (rule strip; simp add: digits ds plus plus [symmetric] TrimPrefix_def)+
  then show ?thesis by simp
qed

lemma phone_forms_agree_witness:
  "normalizeNigeriaPhone ''+2348031234567'' = ''8031234567'' \<and> normalizeNigeriaPhone ''08031234567'' = ''8031234567''"
  using phone_forms_agree [of "''8031234567''"] by (simp add: is_digit_def in_range_def)

end
