(* ===== verification/Polling.thy ===== *)
theory Polling
  imports Utilities
begin

text \<open>
  The ticker loop of \<open>confirmProviderDelivery\<close> (\<open>services/utilities/utility_service.go\<close>) with
  the loop kept as a loop: \<open>for { select { case <-ctx.Done(): ...; case <-ticker.C: ... } }\<close>
  runs until the context is done, so it is a partial function. The theory Utilities runs the same
  code with the number of ticker events as an argument; the property below gives that number from
  the deadline of the context (\<open>context.WithTimeout\<close> in \<open>reconciliation/engine.go\<close>), so the
  theorems over every number of polls are about every run of the loop.

  When both channels are ready, Go's \<open>select\<close> takes one at random: \<open>coin i\<close> says whether
  round \<open>i\<close> takes the context's. Before the deadline only the ticker is ready.
\<close>

section \<open>The loop\<close>

partial_function (option) ticker_loop ::
  "(nat \<Rightarrow> bool) \<Rightarrow> time \<Rightarrow> bill_provider \<Rightarrow> string \<Rightarrow> string \<Rightarrow> nat \<Rightarrow> world \<Rightarrow>
     (unified_bill_response res \<times> world) option" where
  "ticker_loop coin deadline provider reference externalRef i w =
     (if deadline \<le> time_at w (tick w) \<and> coin i
      then Some (Inl (Wrap ''bill delivery not confirmed through provider''
        (ErrMsg ''context deadline exceeded'')), w)
      else case run_state (check_delivery provider reference externalRef) w of (found, w') \<Rightarrow>
        (case found of
           Some st \<Rightarrow> Some (Inr st, w')
         | None \<Rightarrow> ticker_loop coin deadline provider reference externalRef (Suc i) w'))"

definition confirm_until ::
  "(nat \<Rightarrow> bool) \<Rightarrow> time \<Rightarrow> bill_provider \<Rightarrow> string \<Rightarrow> string \<Rightarrow> world \<Rightarrow>
     (unified_bill_response res \<times> world) option" where
  "confirm_until coin deadline provider reference externalRef w =
     (case run_state (check_delivery provider reference externalRef) w of (found, w') \<Rightarrow>
        (case found of
           Some st \<Rightarrow> Some (Inr st, w')
         | None \<Rightarrow> ticker_loop coin deadline provider reference externalRef 0 w'))"

section \<open>Every round makes progress\<close>

lemma check_status_tick:
  "run_state (check_status p r) w = (f, w') \<Longrightarrow> tick w' = Suc (tick w) \<and> time_at w' = time_at w"
  by (auto simp: check_status_def)

lemma check_delivery_tick:
  assumes "run_state (check_delivery p r x) w = (f, w')"
  shows "tick w < tick w' \<and> time_at w' = time_at w"
proof -
  from assms obtain g w1 where "run_state (check_status p r) w = (g, w1)"
    and "run_state (case g of Some st \<Rightarrow> State_Monad.return (Some st)
      | None \<Rightarrow> if x \<noteq> [] \<and> x \<noteq> r then check_status p x else State_Monad.return None) w1 = (f, w')"
    unfolding check_delivery_def by (rule bind_run)
  then show ?thesis
    by (auto dest!: check_status_tick split: option.splits if_splits)
qed

lemma poll_delivery_Suc_run:
  "run_state (poll_delivery (Suc n) p r x) w =
     (case run_state (check_delivery p r x) w of (found, w') \<Rightarrow>
        (case found of Some st \<Rightarrow> (Inr st, w') | None \<Rightarrow> run_state (poll_delivery n p r x) w'))"
  by (simp split: prod.split option.split)

lemma ticker_loop_polls:
  assumes "\<forall>t \<ge> t0. deadline \<le> time_at w t" and "coin (i + d)" and "t0 \<le> tick w + d"
  shows "\<exists>n \<le> d. ticker_loop coin deadline p r x i w = Some (run_state (poll_delivery n p r x) w)"
  using assms
proof (induction d arbitrary: i w)
  case 0
  then have "ticker_loop coin deadline p r x i w = Some (run_state (poll_delivery 0 p r x) w)"
    by (subst ticker_loop.simps) simp
  then show ?case by blast
next
  case (Suc d)
  show ?case
  proof (cases "deadline \<le> time_at w (tick w) \<and> coin i")
    case True
    then have "ticker_loop coin deadline p r x i w = Some (run_state (poll_delivery 0 p r x) w)"
      by (subst ticker_loop.simps) simp
    then show ?thesis by blast
  next
    case False
    obtain f w' where c: "run_state (check_delivery p r x) w = (f, w')" by fastforce
    note t = check_delivery_tick [OF c]
    show ?thesis
    proof (cases f)
      case None
      have "\<exists>n \<le> d. ticker_loop coin deadline p r x (Suc i) w' = Some (run_state (poll_delivery n p r x) w')"
        by (rule Suc.IH) (use Suc.prems t in auto)
      then obtain n where "n \<le> d"
        and "ticker_loop coin deadline p r x (Suc i) w' = Some (run_state (poll_delivery n p r x) w')"
        by blast
      with False c None
      have "ticker_loop coin deadline p r x i w = Some (run_state (poll_delivery (Suc n) p r x) w)"
        by (subst ticker_loop.simps, subst poll_delivery_Suc_run) auto
      with \<open>n \<le> d\<close> show ?thesis by (intro exI [of _ "Suc n"]) simp
    next
      case (Some st)
      with False c
      have "ticker_loop coin deadline p r x i w = Some (run_state (poll_delivery (Suc 0) p r x) w)"
        by (subst ticker_loop.simps, subst poll_delivery_Suc_run) auto
      then show ?thesis by (intro exI [of _ "Suc 0"]) simp
    qed
  qed
qed

text \<open>
  C17. The confirmation loop ends: whenever the clock has passed the context's deadline from the
  tick \<open>t0\<close> on and the select takes the context's case in some round \<open>d\<close> late enough to be
  past that tick, the loop returns, after at most \<open>d\<close> rounds of status checks, and its result
  and its effects are those of polling that many times. The aggregator may answer anything.
\<close>

theorem delivery_polling_ends:
  assumes "\<forall>t \<ge> t0. deadline \<le> time_at w t" and "coin d" and "t0 \<le> tick w + d"
  shows "\<exists>n \<le> d. confirm_until coin deadline p r x w = Some (run_state (confirmProviderDelivery n p r x) w)"
proof -
  obtain f w' where c: "run_state (check_delivery p r x) w = (f, w')" by fastforce
  show ?thesis
  proof (cases f)
    case None
    have "\<exists>n \<le> d. ticker_loop coin deadline p r x 0 w' = Some (run_state (poll_delivery n p r x) w')"
      by (rule ticker_loop_polls) (use assms check_delivery_tick [OF c] in auto)
    with c None show ?thesis by (simp add: confirm_until_def confirmProviderDelivery_def)
  next
    case (Some st)
    with c show ?thesis
      by (intro exI [of _ 0]) (simp add: confirm_until_def confirmProviderDelivery_def)
  qed
qed

lemma delivery_polling_ends_witness:
  "\<exists>n \<le> 5. confirm_until (\<lambda>_. True) 1700000000005 (sample_bills ''pending'') ''FB-1'' ''X'' empty_world =
     Some (run_state (confirmProviderDelivery n (sample_bills ''pending'') ''FB-1'' ''X'') empty_world)"
proof -
  have "\<forall>t \<ge> (5::nat). (1700000000005::int) \<le> time_at empty_world t"
    by (simp add: empty_world_def)
  from delivery_polling_ends [OF this, where coin = "\<lambda>_. True" and d = 5]
  show ?thesis by simp
qed

text \<open>
  The deadline is what ends it: without one, and with an aggregator that never reports success,
  the loop does not return.
\<close>

lemma ticker_loop_returns_early:
  assumes "ticker_loop coin deadline p r x i w = Some y" and "\<forall>t. \<not> deadline \<le> time_at w t"
  shows "\<exists>k z st. CheckBillStatus p k z = Inr st \<and> ub_status st = ''success''"
  using assms(2)
proof (induction rule: ticker_loop.raw_induct [OF _ assms(1), case_names body])
  case (body loop coin deadline p r x i w y)
  obtain f w' where c: "run_state (check_delivery p r x) w = (f, w')" by fastforce
  show ?case
  proof (cases f)
    case None
    with c body(2,3) have "loop coin deadline p r x (Suc i) w' = Some y" by simp
    then show ?thesis by (rule body(1)) (use body(3) check_delivery_tick [OF c] in simp)
  next
    case (Some st)
    with c show ?thesis by (blast dest: check_delivery_success)
  qed
qed

lemma ticker_loop_needs_deadline:
  assumes "\<forall>k z st. CheckBillStatus p k z = Inr st \<longrightarrow> ub_status st \<noteq> ''success''"
    and "\<forall>t. time_at w t < deadline"
  shows "ticker_loop coin deadline p r x i w = None"
proof (rule ccontr)
  assume "ticker_loop coin deadline p r x i w \<noteq> None"
  then obtain y where "ticker_loop coin deadline p r x i w = Some y" by blast
  then have "\<exists>k z st. CheckBillStatus p k z = Inr st \<and> ub_status st = ''success''"
    by (rule ticker_loop_returns_early) (use assms(2) in \<open>simp add: not_le\<close>)
  with assms(1) show False by blast
qed

end
