(* ===== verification/Http.thy ===== *)
theory Http
  imports Json Store
begin

text \<open>
  What the HTTP handlers share: the request and the context of a handler, the envelope of
  \<open>pkg/response/response.go\<close>, and \<open>ShouldBindJSON\<close>, which decodes the first JSON value of a body into
  a struct and checks the \<open>binding\<close> tags of its fields. Formats whose definition lies in the
  validator's package (\<open>email\<close>, \<open>e164\<close>, \<open>numeric\<close>) are parameters.
\<close>

section \<open>Requests\<close>

text \<open>
  The path is split at its slashes. \<open>rx_body\<close> is \<open>None\<close> if reading the body fails. Header names
  are in their canonical form.
\<close>

record web_request =
  rx_method :: string
  rx_path :: "string list"
  rx_headers :: "(string \<times> string) list"
  rx_query :: "(string \<times> string) list"
  rx_body :: "string option"
  rx_ip :: string

definition header :: "web_request \<Rightarrow> string \<Rightarrow> string" where
  "header req name = (case map_of (rx_headers req) name of None \<Rightarrow> [] | Some v \<Rightarrow> v)"

definition Query :: "web_request \<Rightarrow> string \<Rightarrow> string" where
  "Query req key = (case map_of (rx_query req) key of None \<Rightarrow> [] | Some v \<Rightarrow> v)"

definition DefaultQuery :: "web_request \<Rightarrow> string \<Rightarrow> string \<Rightarrow> string" where
  "DefaultQuery req key dflt = (case map_of (rx_query req) key of None \<Rightarrow> dflt | Some v \<Rightarrow> v)"

text \<open>
  The strings a middleware has set in the context: \<open>GetString\<close> reads an absent one as empty, where
  \<open>middleware.GetUserID\<close> asserts that it is there.
\<close>

type_synonym context_values = "(string \<times> string) list"

definition GetString :: "context_values \<Rightarrow> string \<Rightarrow> string" where
  "GetString c key = (case map_of c key of None \<Rightarrow> [] | Some v \<Rightarrow> v)"

definition user_id_key :: string where
  "user_id_key = ''userID''"

definition GetUserID :: "context_values \<Rightarrow> string option" where
  "GetUserID c = map_of c user_id_key"

text \<open>The value of \<open>strconv.Atoi\<close> when its error is dropped: the nearest integer of 64 bits, or 0.\<close>

definition Atoi_value :: "string \<Rightarrow> int" where
  "Atoi_value s =
     (let (sign, ds) = take_sign s
      in if all_digits ds then max (- (2 ^ 63)) (min (2 ^ 63 - 1) (sign * number ds)) else 0)"

section \<open>Replies\<close>

record 'd api_reply =
  ay_status :: int
  ay_success :: bool
  ay_message :: string
  ay_data :: "'d option"
  ay_error :: "goerr option"

definition OK :: "string \<Rightarrow> 'd option \<Rightarrow> 'd api_reply" where
  "OK msg d = \<lparr>ay_status = 200, ay_success = True, ay_message = msg, ay_data = d, ay_error = None\<rparr>"

definition Created :: "string \<Rightarrow> 'd option \<Rightarrow> 'd api_reply" where
  "Created msg d = \<lparr>ay_status = 201, ay_success = True, ay_message = msg, ay_data = d, ay_error = None\<rparr>"

definition failure :: "int \<Rightarrow> string \<Rightarrow> goerr option \<Rightarrow> 'd api_reply" where
  "failure status msg e = \<lparr>ay_status = status, ay_success = False, ay_message = msg, ay_data = None, ay_error = e\<rparr>"

definition BadRequest :: "string \<Rightarrow> goerr option \<Rightarrow> 'd api_reply" where
  "BadRequest msg e = failure 400 msg e"

definition Unauthorized :: "string \<Rightarrow> 'd api_reply" where
  "Unauthorized msg = failure 401 msg None"

definition Forbidden :: "string \<Rightarrow> 'd api_reply" where
  "Forbidden msg = failure 403 msg None"

definition NotFound :: "string \<Rightarrow> 'd api_reply" where
  "NotFound msg = failure 404 msg None"

definition InternalError :: "string \<Rightarrow> goerr option \<Rightarrow> 'd api_reply" where
  "InternalError msg e = failure 500 msg e"

definition UnprocessableEntity :: "string \<Rightarrow> goerr option \<Rightarrow> 'd api_reply" where
  "UnprocessableEntity msg e = failure 422 msg e"

definition TooManyRequests_reply :: "string \<Rightarrow> 'd api_reply" where
  "TooManyRequests_reply msg = failure 429 msg None"

lemmas reply_defs = OK_def Created_def BadRequest_def Unauthorized_def Forbidden_def NotFound_def
  InternalError_def UnprocessableEntity_def TooManyRequests_reply_def failure_def

section \<open>Binding\<close>

text \<open>The first value of the body; what follows it is not read.\<close>

definition decode_first :: "'a dec \<Rightarrow> 'a \<Rightarrow> string \<Rightarrow> 'a res" where
  "decode_first d z body =
     (case parse_value (2 * length body + 2) body of
        None \<Rightarrow> Inl (ErrMsg ''json: syntax error'')
      | Some (j, rest) \<Rightarrow>
          (case d j z of
             None \<Rightarrow> Inl (ErrMsg ''json: cannot unmarshal'')
           | Some x \<Rightarrow> Inr x))"

definition ShouldBindJSON :: "'a dec \<Rightarrow> 'a \<Rightarrow> ('a \<Rightarrow> bool) \<Rightarrow> web_request \<Rightarrow> 'a res" where
  "ShouldBindJSON d z valid req =
     (case rx_body req of
        None \<Rightarrow> Inl (ErrMsg ''could not read the body'')
      | Some body \<Rightarrow>
          (case decode_first d z body of
             Inl e \<Rightarrow> Inl e
           | Inr x \<Rightarrow> if valid x then Inr x else Inl (ErrMsg ''field validation failed'')))"

text \<open>\<open>min\<close>, \<open>max\<close> and \<open>len\<close> of a string count its characters, which UTF-8 encodes in one byte that does not continue another.\<close>

definition rune_count :: "string \<Rightarrow> nat" where
  "rune_count s = length (filter (\<lambda>c. let n = of_char c :: nat in \<not> (128 \<le> n \<and> n < 192)) s)"

record validators =
  vd_email :: "string \<Rightarrow> bool"
  vd_e164 :: "string \<Rightarrow> bool"
  vd_numeric :: "string \<Rightarrow> bool"

lemma ShouldBindJSON_valid: "ShouldBindJSON d z valid req = Inr x \<Longrightarrow> valid x"
  by (auto simp: ShouldBindJSON_def split: option.splits sum.splits if_splits)

section \<open>The shape of a handler\<close>

text \<open>
  Bind the request or answer for the error; call the service, and answer for its error or its value.
\<close>

definition bound :: "'a res \<Rightarrow> (goerr \<Rightarrow> 'r) \<Rightarrow> ('a \<Rightarrow> (world, 'r) state) \<Rightarrow> (world, 'r) state" where
  "bound r bad k = (case r of Inl e \<Rightarrow> State_Monad.return (bad e) | Inr x \<Rightarrow> k x)"

definition answer :: "'a program \<Rightarrow> (goerr \<Rightarrow> 'r) \<Rightarrow> ('a \<Rightarrow> 'r) \<Rightarrow> (world, 'r) state" where
  "answer m bad good = do {
     r \<leftarrow> m;
     State_Monad.return (case r of Inl e \<Rightarrow> bad e | Inr v \<Rightarrow> good v)
   }"

lemma keeps_bound [keeps_intros]: "(\<And>x. r = Inr x \<Longrightarrow> keeps P (k x)) \<Longrightarrow> keeps P (bound r bad k)"
  by (cases r) (auto simp: bound_def intro: keeps_intros)

lemma keeps_answer [keeps_intros]: "keeps P m \<Longrightarrow> keeps P (answer m b g)"
  unfolding answer_def by (intro keeps_intros)

lemma run_answer:
  "run_state (answer m b g) s = (case run_state m s of (r, s') \<Rightarrow> (case r of Inl e \<Rightarrow> b e | Inr v \<Rightarrow> g v, s'))"
  by (simp add: answer_def split: prod.split)

end
