(* ===== verification/Requests.thy ===== *)
theory Requests
  imports Http WalletService Utilities BankTransfers Loyalty Auth Dispatcher Travel
begin

text \<open>
  The request structs of the services as the handlers read them: for each its JSON fields, its zero
  value and the check of its \<open>binding\<close> tags. \<open>required\<close> refuses the zero value of a field; on a struct
  it checks nothing. \<open>omitempty\<close> skips the checks behind it for the zero value.
\<close>

definition required :: "string \<Rightarrow> bool" where
  "required s \<longleftrightarrow> s \<noteq> []"

definition max_runes :: "nat \<Rightarrow> string \<Rightarrow> bool" where
  "max_runes n s \<longleftrightarrow> rune_count s \<le> n"

section \<open>Wallet\<close>

definition d_fund_wallet_request :: "fund_wallet_request dec" where
  "d_fund_wallet_request = d_struct [
     fld ''amount'' fr_amount fr_amount_update d_int,
     fld ''payment_ref'' fr_payment_ref fr_payment_ref_update d_string,
     fld ''provider'' fr_provider fr_provider_update d_string]"

definition zero_fund_wallet_request :: fund_wallet_request where
  "zero_fund_wallet_request = \<lparr>fr_amount = 0, fr_payment_ref = [], fr_provider = []\<rparr>"

record initialize_funding_request =
  ir_amount :: int
  ir_provider :: string

definition d_initialize_funding_request :: "initialize_funding_request dec" where
  "d_initialize_funding_request = d_struct [
     fld ''amount'' ir_amount ir_amount_update d_int,
     fld ''provider'' ir_provider ir_provider_update d_string]"

definition zero_initialize_funding_request :: initialize_funding_request where
  "zero_initialize_funding_request = \<lparr>ir_amount = 0, ir_provider = []\<rparr>"

definition initialize_funding_bound :: "initialize_funding_request \<Rightarrow> bool" where
  "initialize_funding_bound r \<longleftrightarrow> 10000 \<le> ir_amount r \<and> required (ir_provider r)"

section \<open>Bill payments\<close>

definition networks :: "string list" where
  "networks = [''MTN'', ''GLO'', ''AIRTEL'', ''9MOBILE'']"

definition d_airtime_request :: "airtime_request dec" where
  "d_airtime_request = d_struct [
     fld ''phone'' ar_phone ar_phone_update d_string,
     fld ''amount'' ar_amount ar_amount_update d_int,
     fld ''network'' ar_network ar_network_update d_string,
     fld ''transaction_pin'' ar_pin ar_pin_update d_string,
     fld ''client_reference'' ar_client_reference ar_client_reference_update d_string]"

definition zero_airtime_request :: airtime_request where
  "zero_airtime_request = \<lparr>ar_phone = [], ar_amount = 0, ar_network = [], ar_pin = [], ar_client_reference = []\<rparr>"

definition airtime_bound :: "airtime_request \<Rightarrow> bool" where
  "airtime_bound r \<longleftrightarrow> required (ar_phone r) \<and> 50 \<le> ar_amount r \<and> ar_network r \<in> set networks \<and>
     max_runes 60 (ar_client_reference r)"

definition d_data_request :: "data_request dec" where
  "d_data_request = d_struct [
     fld ''phone'' dr_phone dr_phone_update d_string,
     fld ''plan_code'' dr_plan_code dr_plan_code_update d_string,
     fld ''biller_code'' dr_biller_code dr_biller_code_update d_string,
     fld ''network'' dr_network dr_network_update d_string,
     fld ''amount'' dr_amount dr_amount_update d_int,
     fld ''transaction_pin'' dr_pin dr_pin_update d_string,
     fld ''client_reference'' dr_client_reference dr_client_reference_update d_string]"

definition zero_data_request :: data_request where
  "zero_data_request = \<lparr>dr_phone = [], dr_plan_code = [], dr_biller_code = [], dr_network = [], dr_amount = 0,
     dr_pin = [], dr_client_reference = []\<rparr>"

definition data_bound :: "data_request \<Rightarrow> bool" where
  "data_bound r \<longleftrightarrow> required (dr_phone r) \<and> required (dr_plan_code r) \<and> required (dr_biller_code r) \<and>
     dr_network r \<in> set networks \<and> 1000 \<le> dr_amount r \<and> max_runes 60 (dr_client_reference r)"

definition d_electricity_request :: "electricity_request dec" where
  "d_electricity_request = d_struct [
     fld ''meter_number'' er_meter_number er_meter_number_update d_string,
     fld ''disco'' er_disco er_disco_update d_string,
     fld ''amount'' er_amount er_amount_update d_int,
     fld ''meter_type'' er_meter_type er_meter_type_update d_string,
     fld ''transaction_pin'' er_pin er_pin_update d_string,
     fld ''client_reference'' er_client_reference er_client_reference_update d_string]"

definition zero_electricity_request :: electricity_request where
  "zero_electricity_request = \<lparr>er_meter_number = [], er_disco = [], er_amount = 0, er_meter_type = [], er_pin = [],
     er_client_reference = []\<rparr>"

definition electricity_bound :: "electricity_request \<Rightarrow> bool" where
  "electricity_bound r \<longleftrightarrow> required (er_meter_number r) \<and> required (er_disco r) \<and> 10000 \<le> er_amount r \<and>
     er_meter_type r \<in> {''prepaid'', ''postpaid''} \<and> max_runes 60 (er_client_reference r)"

definition d_betting_fund_request :: "betting_fund_request dec" where
  "d_betting_fund_request = d_struct [
     fld ''customer_id'' bf_customer_id bf_customer_id_update d_string,
     fld ''platform'' bf_platform bf_platform_update d_string,
     fld ''amount'' bf_amount bf_amount_update d_int,
     fld ''risk_confirmed'' bf_risk_confirmed bf_risk_confirmed_update d_bool,
     fld ''biometric_verified'' bf_biometric_verified bf_biometric_verified_update d_bool,
     fld ''transaction_pin'' bf_pin bf_pin_update d_string,
     fld ''client_reference'' bf_client_reference bf_client_reference_update d_string]"

definition zero_betting_fund_request :: betting_fund_request where
  "zero_betting_fund_request = \<lparr>bf_customer_id = [], bf_platform = [], bf_amount = 0, bf_risk_confirmed = False,
     bf_biometric_verified = False, bf_pin = [], bf_client_reference = []\<rparr>"

text \<open>The amount of a top-up is \<open>required\<close> only: it is not zero, but may be negative.\<close>

definition betting_bound :: "betting_fund_request \<Rightarrow> bool" where
  "betting_bound r \<longleftrightarrow> required (bf_customer_id r) \<and> required (bf_platform r) \<and> bf_amount r \<noteq> 0 \<and>
     max_runes 60 (bf_client_reference r)"

section \<open>Transfers and points\<close>

definition d_bank_transfer_request :: "bank_transfer_request dec" where
  "d_bank_transfer_request = d_struct [
     fld ''bank_code'' bt_bank_code bt_bank_code_update d_string,
     fld ''account_number'' bt_account_number bt_account_number_update d_string,
     fld ''account_name'' bt_account_name bt_account_name_update d_string,
     fld ''amount_kobo'' bt_amount_kobo bt_amount_kobo_update d_int,
     fld ''narration'' bt_narration bt_narration_update d_string,
     fld ''pin'' bt_pin bt_pin_update d_string]"

definition zero_bank_transfer_request :: bank_transfer_request where
  "zero_bank_transfer_request = \<lparr>bt_bank_code = [], bt_account_number = [], bt_account_name = [], bt_amount_kobo = 0,
     bt_narration = [], bt_pin = []\<rparr>"

record redeem_request =
  ej_points :: int
  ej_narration :: string

definition d_redeem_request :: "redeem_request dec" where
  "d_redeem_request = d_struct [
     fld ''points'' ej_points ej_points_update d_int,
     fld ''narration'' ej_narration ej_narration_update d_string]"

definition zero_redeem_request :: redeem_request where
  "zero_redeem_request = \<lparr>ej_points = 0, ej_narration = []\<rparr>"

definition redeem_bound :: "redeem_request \<Rightarrow> bool" where
  "redeem_bound r \<longleftrightarrow> 100 \<le> ej_points r"

section \<open>Accounts of users\<close>

definition d_register_request :: "register_request dec" where
  "d_register_request = d_struct [
     fld ''phone'' rq_phone rq_phone_update d_string,
     fld ''email'' rq_email rq_email_update d_string,
     fld ''password'' rq_password rq_password_update d_string,
     fld ''first_name'' rq_first_name rq_first_name_update d_string,
     fld ''last_name'' rq_last_name rq_last_name_update d_string]"

definition zero_register_request :: register_request where
  "zero_register_request = \<lparr>rq_phone = [], rq_email = [], rq_password = [], rq_first_name = [], rq_last_name = []\<rparr>"

definition register_bound :: "validators \<Rightarrow> register_request \<Rightarrow> bool" where
  "register_bound vd r \<longleftrightarrow> required (rq_phone r) \<and> vd_e164 vd (rq_phone r) \<and> required (rq_email r) \<and>
     vd_email vd (rq_email r) \<and> required (rq_password r) \<and> 8 \<le> rune_count (rq_password r) \<and>
     required (rq_first_name r) \<and> required (rq_last_name r)"

definition d_login_request :: "login_request dec" where
  "d_login_request = d_struct [
     fld ''phone'' lq_phone lq_phone_update d_string,
     fld ''password'' lq_password lq_password_update d_string]"

definition zero_login_request :: login_request where
  "zero_login_request = \<lparr>lq_phone = [], lq_password = []\<rparr>"

definition login_bound :: "login_request \<Rightarrow> bool" where
  "login_bound r \<longleftrightarrow> required (lq_phone r) \<and> required (lq_password r)"

text \<open>A request of one string, such as an identity token or a refresh token.\<close>

record one_string =
  os_value :: string

definition d_one_string :: "string \<Rightarrow> one_string dec" where
  "d_one_string name = d_struct [fld name os_value os_value_update d_string]"

definition zero_one_string :: one_string where
  "zero_one_string = \<lparr>os_value = []\<rparr>"

definition one_string_bound :: "one_string \<Rightarrow> bool" where
  "one_string_bound r \<longleftrightarrow> required (os_value r)"

definition d_verify_phone_request :: "verify_phone_request dec" where
  "d_verify_phone_request = d_struct [
     fld ''phone'' yq_phone yq_phone_update d_string,
     fld ''otp'' yq_otp yq_otp_update d_string]"

definition zero_verify_phone_request :: verify_phone_request where
  "zero_verify_phone_request = \<lparr>yq_phone = [], yq_otp = []\<rparr>"

definition verify_phone_bound :: "verify_phone_request \<Rightarrow> bool" where
  "verify_phone_bound r \<longleftrightarrow> required (yq_phone r) \<and> required (yq_otp r) \<and> rune_count (yq_otp r) = 6"

record resend_request =
  sr_phone :: string
  sr_purpose :: string

definition d_resend_request :: "resend_request dec" where
  "d_resend_request = d_struct [
     fld ''phone'' sr_phone sr_phone_update d_string,
     fld ''purpose'' sr_purpose sr_purpose_update d_string]"

definition zero_resend_request :: resend_request where
  "zero_resend_request = \<lparr>sr_phone = [], sr_purpose = []\<rparr>"

definition purpose_of :: "string \<Rightarrow> otp_purpose option" where
  "purpose_of s =
     (if s = ''phone_verify'' then Some OTPPhoneVerify else if s = ''pin_reset'' then Some OTPPINReset
      else if s = ''tx_auth'' then Some OTPTxAuth else None)"

definition resend_bound :: "resend_request \<Rightarrow> bool" where
  "resend_bound r \<longleftrightarrow> required (sr_phone r) \<and> purpose_of (sr_purpose r) \<noteq> None"

text \<open>The handler of \<open>set-pin\<close> has a struct of its own, which asks for six characters, not digits.\<close>

record set_pin_body =
  sp_phone :: string
  sp_pin :: string
  sp_confirm_pin :: string

definition d_set_pin_body :: "set_pin_body dec" where
  "d_set_pin_body = d_struct [
     fld ''phone'' sp_phone sp_phone_update d_string,
     fld ''pin'' sp_pin sp_pin_update d_string,
     fld ''confirm_pin'' sp_confirm_pin sp_confirm_pin_update d_string]"

definition zero_set_pin_body :: set_pin_body where
  "zero_set_pin_body = \<lparr>sp_phone = [], sp_pin = [], sp_confirm_pin = []\<rparr>"

definition set_pin_bound :: "set_pin_body \<Rightarrow> bool" where
  "set_pin_bound r \<longleftrightarrow> required (sp_pin r) \<and> rune_count (sp_pin r) = 6 \<and>
     required (sp_confirm_pin r) \<and> rune_count (sp_confirm_pin r) = 6"

definition d_kyc_upgrade_request :: "kyc_upgrade_request dec" where
  "d_kyc_upgrade_request = d_struct [
     fld ''bvn'' kq_bvn kq_bvn_update d_string,
     fld ''nin'' kq_nin kq_nin_update d_string]"

definition zero_kyc_upgrade_request :: kyc_upgrade_request where
  "zero_kyc_upgrade_request = \<lparr>kq_bvn = [], kq_nin = []\<rparr>"

definition id_number :: "validators \<Rightarrow> string \<Rightarrow> bool" where
  "id_number vd s \<longleftrightarrow> s = [] \<or> rune_count s = 11 \<and> vd_numeric vd s"

definition kyc_upgrade_bound :: "validators \<Rightarrow> kyc_upgrade_request \<Rightarrow> bool" where
  "kyc_upgrade_bound vd r \<longleftrightarrow> id_number vd (kq_bvn r) \<and> id_number vd (kq_nin r)"

definition d_update_profile_request :: "update_profile_request dec" where
  "d_update_profile_request = d_struct [
     fld ''first_name'' uq_first_name uq_first_name_update d_string,
     fld ''last_name'' uq_last_name uq_last_name_update d_string,
     fld ''email'' uq_email uq_email_update d_string]"

definition zero_update_profile_request :: update_profile_request where
  "zero_update_profile_request = \<lparr>uq_first_name = [], uq_last_name = [], uq_email = []\<rparr>"

definition update_profile_bound :: "validators \<Rightarrow> update_profile_request \<Rightarrow> bool" where
  "update_profile_bound vd r \<longleftrightarrow> required (uq_first_name r) \<and> required (uq_last_name r) \<and> required (uq_email r) \<and>
     vd_email vd (uq_email r)"

section \<open>Travel\<close>

definition d_dispatch_event_request :: "dispatch_event_request dec" where
  "d_dispatch_event_request = d_struct [
     fld ''operator_code'' dq_operator_code dq_operator_code_update d_string,
     fld ''event_type'' dq_event_type dq_event_type_update d_string,
     fld ''vehicle_ref'' dq_vehicle_ref dq_vehicle_ref_update d_string,
     fld ''origin'' dq_origin dq_origin_update d_string,
     fld ''destination'' dq_destination dq_destination_update d_string,
     fld ''departure_time'' dq_departure_time dq_departure_time_update d_string,
     fld ''message'' dq_message dq_message_update d_string,
     fld ''api_key'' dq_api_key dq_api_key_update d_string]"

definition zero_dispatch_event_request :: dispatch_event_request where
  "zero_dispatch_event_request = \<lparr>dq_operator_code = [], dq_event_type = [], dq_vehicle_ref = [], dq_origin = [],
     dq_destination = [], dq_departure_time = [], dq_message = [], dq_api_key = []\<rparr>"

definition dispatch_event_bound :: "dispatch_event_request \<Rightarrow> bool" where
  "dispatch_event_bound r \<longleftrightarrow> required (dq_operator_code r) \<and>
     dq_event_type r \<in> {''vehicle_breakdown'', ''route_change'', ''double_booking'', ''schedule_change'', ''cancellation''} \<and>
     required (dq_vehicle_ref r) \<and> required (dq_origin r) \<and> required (dq_destination r) \<and>
     required (dq_departure_time r) \<and> required (dq_message r) \<and> required (dq_api_key r)"

definition d_reschedule_request :: "reschedule_request dec" where
  "d_reschedule_request = d_struct [
     fld ''new_vehicle_ref'' hq_new_vehicle_ref hq_new_vehicle_ref_update d_string,
     fld ''new_departure_time'' hq_new_departure_time hq_new_departure_time_update d_string,
     fld ''new_seat_number'' hq_new_seat_number hq_new_seat_number_update d_string]"

definition zero_reschedule_request :: reschedule_request where
  "zero_reschedule_request = \<lparr>hq_new_vehicle_ref = [], hq_new_departure_time = [], hq_new_seat_number = []\<rparr>"

definition reschedule_bound :: "reschedule_request \<Rightarrow> bool" where
  "reschedule_bound r \<longleftrightarrow> required (hq_new_vehicle_ref r) \<and> required (hq_new_departure_time r) \<and>
     required (hq_new_seat_number r)"

definition d_passenger_info :: "passenger_info dec" where
  "d_passenger_info = d_struct [
     fld ''full_name'' ps_full_name ps_full_name_update d_string,
     fld ''email'' ps_email ps_email_update d_string,
     fld ''phone'' ps_phone ps_phone_update d_string]"

definition zero_passenger_info :: passenger_info where
  "zero_passenger_info = \<lparr>ps_full_name = [], ps_email = [], ps_phone = []\<rparr>"

definition d_bus_book_request :: "bus_book_request dec" where
  "d_bus_book_request = d_struct [
     fld ''origin'' xb_origin xb_origin_update d_string,
     fld ''destination'' xb_destination xb_destination_update d_string,
     fld ''operator_code'' xb_operator_code xb_operator_code_update d_string,
     fld ''vehicle_ref'' xb_vehicle_ref xb_vehicle_ref_update d_string,
     fld ''seat_number'' xb_seat_number xb_seat_number_update d_string,
     fld ''departure_date'' xb_departure_date xb_departure_date_update d_string,
     fld ''passenger'' xb_passenger xb_passenger_update d_passenger_info]"

definition zero_bus_book_request :: bus_book_request where
  "zero_bus_book_request = \<lparr>xb_origin = [], xb_destination = [], xb_operator_code = [], xb_vehicle_ref = [],
     xb_seat_number = [], xb_departure_date = [], xb_passenger = zero_passenger_info\<rparr>"

definition bus_book_bound :: "bus_book_request \<Rightarrow> bool" where
  "bus_book_bound r \<longleftrightarrow> required (xb_origin r) \<and> required (xb_destination r) \<and> required (xb_operator_code r) \<and>
     required (xb_vehicle_ref r) \<and> required (xb_seat_number r) \<and> required (xb_departure_date r)"

definition d_flight_book_request :: "flight_book_request dec" where
  "d_flight_book_request = d_struct [
     fld ''gds_ref'' xf_gds_ref xf_gds_ref_update d_string,
     fld ''passenger'' xf_passenger xf_passenger_update d_passenger_info]"

definition zero_flight_book_request :: flight_book_request where
  "zero_flight_book_request = \<lparr>xf_gds_ref = [], xf_passenger = zero_passenger_info\<rparr>"

definition flight_book_bound :: "flight_book_request \<Rightarrow> bool" where
  "flight_book_bound r \<longleftrightarrow> required (xf_gds_ref r)"

end
