(* ===== verification/Api.thy ===== *)
theory Api
  imports Requests Webhooks Catalog VirtualAccounts RateLimit
begin

text \<open>
  The HTTP interface: the handlers of \<open>internal/handlers\<close>, and the routes that \<open>cmd/api/main.go\<close> mounts
  them on behind the rate limiter, CORS and, for the protected group, the authentication. All handlers
  run on the one world, so that the theorems here are about the composed program: what a client can
  reach, and what any sequence of requests does to the tables.
\<close>

section \<open>Answers\<close>

datatype payload =
    PBalance balance_response
  | PTransactions transaction_list_response
  | PTransaction transaction
  | PFunding "string \<times> string"
  | PCatalog vas_catalog
  | PPoints points_balance_response
  | PHistory points_history_response
  | PRedeemed redeem_response
  | PDispatched dispatch_event_response
  | PBooking travel_booking
  | PBookings "travel_booking list"
  | PBusTrips "bus_search_result list"
  | PFlights "flight_search_result list"
  | PBooked booking_response
  | PTokens token_pair
  | PTier kyc_tier
  | PUser user
  | PTransfer transfer_response
  | PBanks "bank_info list"
  | PAccount account_info
  | PVirtual virtual_account_response

text \<open>
  The envelope of \<open>pkg/response\<close>; the bare objects \<open>{"message", "data"}\<close> and \<open>{"error"}\<close> of the
  transfer and virtual account handlers; a webhook's reply; a status alone.
\<close>

datatype http_answer =
    Envelope "payload api_reply"
  | Plain int string payload
  | Refused int string
  | Hook reply
  | Status int

fun status_of :: "http_answer \<Rightarrow> int" where
  "status_of (Envelope r) = ay_status r"
| "status_of (Plain c _ _) = c"
| "status_of (Refused c _) = c"
| "status_of (Hook r) = rp_status r"
| "status_of (Status c) = c"

type_synonym handler = "(world, http_answer) state"

abbreviation invalid :: "goerr \<Rightarrow> http_answer" where
  "invalid e \<equiv> Envelope (BadRequest ''validation failed'' (Some e))"

abbreviation unprocessable :: "goerr \<Rightarrow> http_answer" where
  "unprocessable e \<equiv> Envelope (UnprocessableEntity (Error e) None)"

abbreviation internal :: "goerr \<Rightarrow> http_answer" where
  "internal e \<equiv> Envelope (InternalError (Error e) None)"

abbreviation denied :: "goerr \<Rightarrow> http_answer" where
  "denied e \<equiv> Envelope (Unauthorized (Error e))"

text \<open>The caller, whom \<open>Auth\<close> has put into the context; without it the handler panics, which \<open>gin.Recovery\<close> answers.\<close>

definition as_caller :: "context_values \<Rightarrow> (string \<Rightarrow> handler) \<Rightarrow> handler" where
  "as_caller c k = (case GetUserID c of None \<Rightarrow> State_Monad.return (Status 500) | Some u \<Rightarrow> k u)"

lemma keeps_as_caller [keeps_intros]: "(\<And>u. keeps P (k u)) \<Longrightarrow> keeps P (as_caller c k)"
  by (auto simp: as_caller_def intro: keeps_intros split: option.split)

text \<open>
  The services that \<open>main\<close> constructs. \<open>ap_locks\<close>, \<open>ap_scan_avg\<close> and \<open>ap_parse_uuid\<close> are what the
  database and \<open>uuid.Parse\<close> do.
\<close>

record 'r api =
  ap_auth :: auth_service
  ap_validators :: validators
  ap_vas :: vas_service
  ap_bills :: "flutterwave_client option"
  ap_scan_avg :: "int \<Rightarrow> int \<Rightarrow> int res"
  ap_parse_uuid :: "string \<rightharpoonup> uuid"
  ap_dispatcher :: dispatcher_service
  ap_travel :: travel_service
  ap_paystack :: payment_provider
  ap_locks :: bool
  ap_webhooks :: webhook_handler
  ap_redis :: "'r pipeline"

section \<open>Wallet handlers\<close>

definition wallet_InitializeFunding :: "web_request \<Rightarrow> context_values \<Rightarrow> handler" where
  "wallet_InitializeFunding req c =
     bound (ShouldBindJSON d_initialize_funding_request zero_initialize_funding_request initialize_funding_bound req)
       invalid (\<lambda>q.
     as_caller c (\<lambda>u. answer (InitializeFunding u (ir_amount q) (ir_provider q)) internal
       (\<lambda>v. Envelope (OK ''payment funding initialized successfully'' (Some (PFunding v))))))"

definition wallet_GetBalance :: "context_values \<Rightarrow> handler" where
  "wallet_GetBalance c =
     as_caller c (\<lambda>u. answer (WalletService.GetBalance u) internal
       (\<lambda>v. Envelope (OK ''wallet balance retrieved'' (Some (PBalance v)))))"

definition wallet_GetTransactions :: "web_request \<Rightarrow> context_values \<Rightarrow> handler" where
  "wallet_GetTransactions req c =
     as_caller c (\<lambda>u. answer
       (WalletService.GetTransactions u (Atoi_value (DefaultQuery req ''page'' ''1''))
         (Atoi_value (DefaultQuery req ''limit'' ''20'')))
       (\<lambda>_. Envelope (InternalError ''could not retrieve transactions'' None))
       (\<lambda>v. Envelope (OK ''transactions retrieved'' (Some (PTransactions v)))))"

definition wallet_FundWallet :: "web_request \<Rightarrow> context_values \<Rightarrow> handler" where
  "wallet_FundWallet req c =
     bound (ShouldBindJSON d_fund_wallet_request zero_fund_wallet_request fund_request_bound req) invalid (\<lambda>q.
     as_caller c (\<lambda>u. answer (FundWallet True u q) unprocessable
       (\<lambda>v. Envelope (OK ''wallet funded successfully'' (Some (PTransaction v))))))"

section \<open>Bill handlers\<close>

definition vas_BuyAirtime :: "'r api \<Rightarrow> web_request \<Rightarrow> context_values \<Rightarrow> handler" where
  "vas_BuyAirtime a req c =
     bound (ShouldBindJSON d_airtime_request zero_airtime_request airtime_bound req) invalid (\<lambda>q.
     as_caller c (\<lambda>u. answer (PurchaseAirtime (ap_vas a) u q) unprocessable
       (\<lambda>v. Envelope (OK ''airtime purchase successful'' (Some (PTransaction v))))))"

definition vas_GetCatalog :: "'r api \<Rightarrow> handler" where
  "vas_GetCatalog a = do {
     v \<leftarrow> call (GetCatalog (ap_bills a));
     State_Monad.return (Envelope (OK ''VAS catalog retrieved'' (Some (PCatalog v))))
   }"

definition vas_BuyData :: "'r api \<Rightarrow> web_request \<Rightarrow> context_values \<Rightarrow> handler" where
  "vas_BuyData a req c =
     bound (ShouldBindJSON d_data_request zero_data_request data_bound req) invalid (\<lambda>q.
     as_caller c (\<lambda>u. answer (PurchaseData (ap_vas a) u q) unprocessable
       (\<lambda>v. Envelope (OK ''data purchase successful'' (Some (PTransaction v))))))"

definition vas_PayElectricity :: "'r api \<Rightarrow> web_request \<Rightarrow> context_values \<Rightarrow> handler" where
  "vas_PayElectricity a req c =
     bound (ShouldBindJSON d_electricity_request zero_electricity_request electricity_bound req) invalid (\<lambda>q.
     as_caller c (\<lambda>u. answer (PayElectricity (ap_vas a) u q) unprocessable
       (\<lambda>v. Envelope (OK ''electricity payment successful'' (Some (PTransaction v))))))"

text \<open>A risk challenge has a message of its own.\<close>

definition vas_FundBetting :: "'r api \<Rightarrow> web_request \<Rightarrow> context_values \<Rightarrow> handler" where
  "vas_FundBetting a req c =
     bound (ShouldBindJSON d_betting_fund_request zero_betting_fund_request betting_bound req) invalid (\<lambda>q.
     as_caller c (\<lambda>u. answer (FundBettingWallet (ap_scan_avg a) (ap_vas a) u q)
       (\<lambda>e. if e = ErrMsg ''extra confirmation required for unusual betting top-up''
            then Envelope (UnprocessableEntity ''extra confirmation required'' (Some e)) else unprocessable e)
       (\<lambda>v. Envelope (OK ''betting wallet funded'' (Some (PTransaction v))))))"

definition vas_GetTransaction :: "string \<Rightarrow> context_values \<Rightarrow> handler" where
  "vas_GetTransaction reference c =
     (let ref = TrimSpace reference
      in if ref = [] then State_Monad.return (Envelope (BadRequest ''reference is required'' None))
         else as_caller c (\<lambda>u. answer (GetTransaction u ref)
           (\<lambda>_. Envelope (NotFound ''transaction not found''))
           (\<lambda>v. Envelope (OK ''transaction retrieved'' (Some (PTransaction v))))))"

section \<open>Transfer and virtual account handlers\<close>

text \<open>These read the context under keys that no middleware sets.\<close>

definition transfer_InitiateBankTransfer :: "'r api \<Rightarrow> web_request \<Rightarrow> context_values \<Rightarrow> handler" where
  "transfer_InitiateBankTransfer a req c =
     bound (ShouldBindJSON d_bank_transfer_request zero_bank_transfer_request transfer_request_bound req)
       (\<lambda>_. Refused 400 ''Invalid request parameters'') (\<lambda>q.
     answer (BankTransferHandler (ap_locks a) (ap_paystack a) (GetString c ''user_id'') (GetString c ''wallet_id'') q)
       (\<lambda>e. Refused 422 (Error e)) (\<lambda>v. Plain 200 ''Transfer initiated successfully'' (PTransfer v)))"

definition transfer_GetBanks :: "'r api \<Rightarrow> handler" where
  "transfer_GetBanks a =
     answer (GetSupportedBanks (ap_paystack a)) (\<lambda>_. Refused 500 ''Failed to fetch banks'')
       (\<lambda>v. Plain 200 ''Banks retrieved successfully'' (PBanks v))"

definition transfer_ResolveAccount :: "'r api \<Rightarrow> web_request \<Rightarrow> handler" where
  "transfer_ResolveAccount a req =
     (if Query req ''account_number'' = [] \<or> Query req ''bank_code'' = []
      then State_Monad.return (Refused 400 ''Missing account_number or bank_code'')
      else answer (ResolveAccount (ap_paystack a) (Query req ''account_number'') (Query req ''bank_code''))
        (\<lambda>_. Refused 404 ''Account could not be resolved'')
        (\<lambda>v. Plain 200 ''Account resolved successfully'' (PAccount v)))"

definition va_GetVirtualAccount :: "context_values \<Rightarrow> handler" where
  "va_GetVirtualAccount c =
     answer (GetUserVirtualAccount (GetString c ''user_id'')) (\<lambda>_. Refused 404 ''Virtual account not found'')
       (\<lambda>v. Plain 200 ''Virtual account retrieved successfully'' (PVirtual v))"

definition va_CreateVirtualAccount :: "'r api \<Rightarrow> context_values \<Rightarrow> handler" where
  "va_CreateVirtualAccount a c =
     answer (CreateVirtualAccount (ap_paystack a) (GetString c ''user_id'') (GetString c ''full_name'')
         (GetString c ''email'') (GetString c ''phone_number'') [])
       (\<lambda>_. Refused 422 ''Failed to create virtual account'')
       (\<lambda>v. Plain 201 ''Virtual account created successfully'' (PVirtual v))"

section \<open>Loyalty handlers\<close>

definition loyalty_GetBalance :: "'r api \<Rightarrow> context_values \<Rightarrow> handler" where
  "loyalty_GetBalance a c =
     as_caller c (\<lambda>u. answer (GetPointsBalance (ap_parse_uuid a) u) internal
       (\<lambda>v. Envelope (OK ''loyalty balance retrieved'' (Some (PPoints v)))))"

definition loyalty_GetHistory :: "'r api \<Rightarrow> web_request \<Rightarrow> context_values \<Rightarrow> handler" where
  "loyalty_GetHistory a req c =
     as_caller c (\<lambda>u. answer
       (GetHistory (ap_parse_uuid a) u (Atoi_value (DefaultQuery req ''page'' ''1''))
         (Atoi_value (DefaultQuery req ''limit'' ''20'')))
       (\<lambda>_. Envelope (InternalError ''could not retrieve points history'' None))
       (\<lambda>v. Envelope (OK ''points history retrieved'' (Some (PHistory v)))))"

definition loyalty_RedeemPoints :: "'r api \<Rightarrow> web_request \<Rightarrow> context_values \<Rightarrow> handler" where
  "loyalty_RedeemPoints a req c =
     bound (ShouldBindJSON d_redeem_request zero_redeem_request redeem_bound req) invalid (\<lambda>q.
     as_caller c (\<lambda>u. answer (RedeemPoints (ap_parse_uuid a) u (ej_points q) (ej_narration q)) unprocessable
       (\<lambda>v. Envelope (OK ''points redeemed successfully'' (Some (PRedeemed v))))))"

section \<open>Dispatcher and travel handlers\<close>

definition dispatcher_HandleEvent :: "'r api \<Rightarrow> web_request \<Rightarrow> handler" where
  "dispatcher_HandleEvent a req =
     bound (ShouldBindJSON d_dispatch_event_request zero_dispatch_event_request dispatch_event_bound req) invalid (\<lambda>q.
     answer (HandleDispatchEvent (ap_dispatcher a) q) unprocessable
       (\<lambda>v. Envelope (OK ''dispatch event processed'' (Some (PDispatched v)))))"

definition dispatcher_Reschedule :: "'r api \<Rightarrow> string \<Rightarrow> web_request \<Rightarrow> context_values \<Rightarrow> handler" where
  "dispatcher_Reschedule a bookingID req c =
     bound (ShouldBindJSON d_reschedule_request zero_reschedule_request reschedule_bound req) invalid (\<lambda>q.
     as_caller c (\<lambda>u. answer (RescheduleBooking (ap_dispatcher a) u bookingID q) unprocessable
       (\<lambda>v. Envelope (OK ''booking rescheduled successfully'' (Some (PBooking v))))))"

definition dispatcher_Refund :: "string \<Rightarrow> context_values \<Rightarrow> handler" where
  "dispatcher_Refund bookingID c =
     as_caller c (\<lambda>u. answer (RefundBooking u bookingID) unprocessable
       (\<lambda>v. Envelope (OK ''refund credited to your wallet'' (Some (PTransaction v)))))"

definition travel_SearchBus :: "'r api \<Rightarrow> web_request \<Rightarrow> handler" where
  "travel_SearchBus a req =
     (let q = \<lparr>br_origin = Query req ''origin'', br_destination = Query req ''destination'',
               br_departure_date = Query req ''departure_date''\<rparr>
      in if br_origin q = [] \<or> br_destination q = [] \<or> br_departure_date q = []
         then State_Monad.return (Envelope (BadRequest ''origin, destination, and departure_date are required'' None))
         else answer (SearchBus (ap_travel a) q) (\<lambda>e. Envelope (NotFound (Error e)))
           (\<lambda>v. Envelope (OK ''bus routes found'' (Some (PBusTrips v)))))"

definition travel_SearchFlights :: "'r api \<Rightarrow> web_request \<Rightarrow> handler" where
  "travel_SearchFlights a req =
     (let q = \<lparr>fr_origin = Query req ''origin'', fr_destination = Query req ''destination'',
               fr_departure_date = Query req ''departure_date'',
               fr_cabin_class = DefaultQuery req ''cabin_class'' ''economy'', fr_adults = 1\<rparr>
      in if fr_origin q = [] \<or> fr_destination q = [] \<or> fr_departure_date q = []
         then State_Monad.return (Envelope (BadRequest ''origin, destination, and departure_date are required'' None))
         else answer (SearchFlights (ap_travel a) q) (\<lambda>e. Envelope (NotFound (Error e)))
           (\<lambda>v. Envelope (OK ''flights found'' (Some (PFlights v)))))"

definition travel_BookBus :: "'r api \<Rightarrow> web_request \<Rightarrow> context_values \<Rightarrow> handler" where
  "travel_BookBus a req c =
     bound (ShouldBindJSON d_bus_book_request zero_bus_book_request bus_book_bound req) invalid (\<lambda>q.
     as_caller c (\<lambda>u. answer (BookBus (ap_travel a) u q) unprocessable
       (\<lambda>v. Envelope (Created ''bus ticket booked successfully'' (Some (PBooked v))))))"

definition travel_BookFlight :: "'r api \<Rightarrow> web_request \<Rightarrow> context_values \<Rightarrow> handler" where
  "travel_BookFlight a req c =
     bound (ShouldBindJSON d_flight_book_request zero_flight_book_request flight_book_bound req) invalid (\<lambda>q.
     as_caller c (\<lambda>u. answer (BookFlight (ap_travel a) u q) unprocessable
       (\<lambda>v. Envelope (Created ''flight booked successfully'' (Some (PBooked v))))))"

definition travel_GetMyBookings :: "context_values \<Rightarrow> handler" where
  "travel_GetMyBookings c =
     as_caller c (\<lambda>u. answer (GetMyBookings u) (\<lambda>_. Envelope (InternalError ''could not retrieve bookings'' None))
       (\<lambda>v. Envelope (OK ''bookings retrieved'' (Some (PBookings v)))))"

definition travel_GetBooking :: "string \<Rightarrow> handler" where
  "travel_GetBooking bookingID =
     answer (GetBooking bookingID) (\<lambda>_. Envelope (NotFound ''booking not found''))
       (\<lambda>v. Envelope (OK ''booking retrieved'' (Some (PBooking v))))"

section \<open>Handlers of the accounts of users\<close>

definition auth_Register :: "'r api \<Rightarrow> web_request \<Rightarrow> handler" where
  "auth_Register a req =
     bound (ShouldBindJSON d_register_request zero_register_request (register_bound (ap_validators a)) req) invalid (\<lambda>q.
     answer (Register (ap_auth a) q) unprocessable (\<lambda>msg. Envelope (Created msg None)))"

definition auth_Login :: "'r api \<Rightarrow> web_request \<Rightarrow> handler" where
  "auth_Login a req =
     bound (ShouldBindJSON d_login_request zero_login_request login_bound req) invalid (\<lambda>q.
     answer (Login (ap_auth a) q) denied (\<lambda>v. Envelope (OK ''login successful'' (Some (PTokens v)))))"

definition auth_GoogleLogin :: "'r api \<Rightarrow> web_request \<Rightarrow> handler" where
  "auth_GoogleLogin a req =
     bound (ShouldBindJSON (d_one_string ''id_token'') zero_one_string one_string_bound req) invalid (\<lambda>q.
     answer (GoogleLogin (ap_auth a) (os_value q)) denied
       (\<lambda>v. Envelope (OK ''google login successful'' (Some (PTokens v)))))"

definition auth_VerifyPhone :: "'r api \<Rightarrow> web_request \<Rightarrow> handler" where
  "auth_VerifyPhone a req =
     bound (ShouldBindJSON d_verify_phone_request zero_verify_phone_request verify_phone_bound req) invalid (\<lambda>q.
     answer (VerifyPhone (ap_auth a) q) unprocessable (\<lambda>_. Envelope (OK ''phone verified successfully'' None)))"

text \<open>Succeeds whatever the service answers, so that phone numbers cannot be probed.\<close>

definition auth_ResendOTP :: "'r api \<Rightarrow> web_request \<Rightarrow> handler" where
  "auth_ResendOTP a req =
     bound (ShouldBindJSON d_resend_request zero_resend_request resend_bound req) invalid (\<lambda>q.
     let done = Envelope (OK ''if that number is registered, a code has been sent'' None)
     in case purpose_of (sr_purpose q) of
          None \<Rightarrow> State_Monad.return done
        | Some p \<Rightarrow> answer (ResendOTP (ap_auth a) (sr_phone q) p) (\<lambda>_. done) (\<lambda>_. done))"

text \<open>The caller of the token, or the user of the phone number if there is no header or no caller.\<close>

definition set_pin_user :: "web_request \<Rightarrow> context_values \<Rightarrow> set_pin_body \<Rightarrow> (string \<Rightarrow> handler) \<Rightarrow> handler" where
  "set_pin_user req c body k =
     (let by_phone = (if sp_phone body \<noteq> []
          then do {
            found \<leftarrow> GetUserByPhone (sp_phone body);
            (case found of
               Inl _ \<Rightarrow> State_Monad.return (Envelope (UnprocessableEntity ''user not found'' None))
             | Inr u \<Rightarrow> k (u_id u))
          }
          else k [])
      in if header req ''Authorization'' \<noteq> []
         then as_caller c (\<lambda>u. if u = [] then by_phone else k u)
         else by_phone)"

definition auth_SetPIN :: "'r api \<Rightarrow> web_request \<Rightarrow> context_values \<Rightarrow> handler" where
  "auth_SetPIN a req c =
     bound (ShouldBindJSON d_set_pin_body zero_set_pin_body set_pin_bound req) invalid (\<lambda>body.
     set_pin_user req c body (\<lambda>userID.
       answer (SetPIN (ap_auth a) userID \<lparr>pq_pin = sp_pin body, pq_confirm_pin = sp_confirm_pin body\<rparr>) unprocessable
         (\<lambda>_. Envelope (OK ''transaction PIN set successfully'' None))))"

definition auth_UpgradeKYC :: "'r api \<Rightarrow> web_request \<Rightarrow> context_values \<Rightarrow> handler" where
  "auth_UpgradeKYC a req c =
     bound (ShouldBindJSON d_kyc_upgrade_request zero_kyc_upgrade_request (kyc_upgrade_bound (ap_validators a)) req)
       invalid (\<lambda>q.
     if kq_bvn q = [] \<and> kq_nin q = []
     then State_Monad.return (Envelope (BadRequest ''provide either bvn or nin'' None))
     else as_caller c (\<lambda>u. answer (UpgradeKYC u q) unprocessable
       (\<lambda>v. Envelope (OK ''KYC upgraded successfully'' (Some (PTier v))))))"

definition auth_RefreshToken :: "'r api \<Rightarrow> web_request \<Rightarrow> handler" where
  "auth_RefreshToken a req =
     bound (ShouldBindJSON (d_one_string ''refresh_token'') zero_one_string one_string_bound req)
       (\<lambda>e. Envelope (BadRequest ''refresh_token is required'' (Some e))) (\<lambda>q.
     answer (RefreshToken (ap_auth a) (os_value q)) denied
       (\<lambda>v. Envelope (OK ''token refreshed'' (Some (PTokens v)))))"

definition auth_GetProfile :: "context_values \<Rightarrow> handler" where
  "auth_GetProfile c =
     as_caller c (\<lambda>u. if u = [] then State_Monad.return (Envelope (Unauthorized ''authentication required''))
       else answer (GetProfile u) (\<lambda>_. Envelope (NotFound ''profile not found''))
         (\<lambda>v. Envelope (OK ''profile retrieved'' (Some (PUser v)))))"

definition auth_UpdateProfile :: "'r api \<Rightarrow> web_request \<Rightarrow> context_values \<Rightarrow> handler" where
  "auth_UpdateProfile a req c =
     as_caller c (\<lambda>u. if u = [] then State_Monad.return (Envelope (Unauthorized ''authentication required''))
       else bound (ShouldBindJSON d_update_profile_request zero_update_profile_request
           (update_profile_bound (ap_validators a)) req) invalid (\<lambda>q.
         answer (UpdateProfile u q) unprocessable
           (\<lambda>v. Envelope (OK ''profile updated successfully'' (Some (PUser v))))))"

section \<open>Routes\<close>

datatype segment = Lit string | Param string

fun match_path :: "segment list \<Rightarrow> string list \<Rightarrow> (string \<times> string) list option" where
  "match_path [] [] = Some []"
| "match_path (Lit s # ps) (x # xs) = (if s = x then match_path ps xs else None)"
| "match_path (Param n # ps) (x # xs) = (if x = [] then None else map_option (Cons (n, x)) (match_path ps xs))"
| "match_path _ _ = None"

type_synonym 'h routes = "(string \<times> segment list \<times> ((string \<times> string) list \<Rightarrow> 'h)) list"

text \<open>No two routes of the application match the same request, so that the first match is gin's.\<close>

fun find_route :: "'h routes \<Rightarrow> string \<Rightarrow> string list \<Rightarrow> 'h option" where
  "find_route [] method path = None"
| "find_route ((m, ps, h) # rs) method path =
     (if m = method then (case match_path ps path of Some vs \<Rightarrow> Some (h vs) | None \<Rightarrow> find_route rs method path)
      else find_route rs method path)"

definition param :: "(string \<times> string) list \<Rightarrow> string \<Rightarrow> string" where
  "param vs n = (case map_of vs n of None \<Rightarrow> [] | Some v \<Rightarrow> v)"

definition v1 :: "segment list \<Rightarrow> segment list" where
  "v1 ps = Lit ''api'' # Lit ''v1'' # ps"

text \<open>The webhook handlers look headers up by their names in lower case.\<close>

definition webhook_of :: "web_request \<Rightarrow> webhook_request" where
  "webhook_of req = \<lparr>wq_headers = map (\<lambda>(n, v). (ToLower n, v)) (rx_headers req), wq_body = rx_body req\<rparr>"

definition hook :: "(world, reply) state \<Rightarrow> handler" where
  "hook m = do { r \<leftarrow> m; State_Monad.return (Hook r) }"

definition public_routes :: "'r api \<Rightarrow> web_request \<Rightarrow> handler routes" where
  "public_routes a req = [
     (''GET'', [Lit ''health''], \<lambda>_. State_Monad.return (Status 200)),
     (''POST'', [Lit ''webhooks'', Lit ''flutterwave''], \<lambda>_. hook (Flutterwave (ap_webhooks a) (webhook_of req))),
     (''POST'', [Lit ''webhooks'', Lit ''monnify''], \<lambda>_. hook (Monnify (ap_webhooks a) (webhook_of req))),
     (''POST'', [Lit ''webhooks'', Lit ''dispatcher''], \<lambda>_. dispatcher_HandleEvent a req),
     (''POST'', v1 [Lit ''auth'', Lit ''register''], \<lambda>_. auth_Register a req),
     (''POST'', v1 [Lit ''auth'', Lit ''login''], \<lambda>_. auth_Login a req),
     (''POST'', v1 [Lit ''auth'', Lit ''google''], \<lambda>_. auth_GoogleLogin a req),
     (''POST'', v1 [Lit ''auth'', Lit ''verify-phone''], \<lambda>_. auth_VerifyPhone a req),
     (''POST'', v1 [Lit ''auth'', Lit ''resend-otp''], \<lambda>_. auth_ResendOTP a req),
     (''POST'', v1 [Lit ''auth'', Lit ''refresh''], \<lambda>_. auth_RefreshToken a req),
     (''GET'', v1 [Lit ''travel'', Lit ''bus'', Lit ''search''], \<lambda>_. travel_SearchBus a req),
     (''GET'', v1 [Lit ''travel'', Lit ''flight'', Lit ''search''], \<lambda>_. travel_SearchFlights a req)]"

definition protected_routes :: "'r api \<Rightarrow> web_request \<Rightarrow> (context_values \<Rightarrow> handler) routes" where
  "protected_routes a req = [
     (''POST'', v1 [Lit ''auth'', Lit ''kyc'', Lit ''upgrade''], \<lambda>_. auth_UpgradeKYC a req),
     (''POST'', v1 [Lit ''auth'', Lit ''set-pin''], \<lambda>_. auth_SetPIN a req),
     (''GET'', v1 [Lit ''user'', Lit ''profile''], \<lambda>_. auth_GetProfile),
     (''PATCH'', v1 [Lit ''user'', Lit ''profile''], \<lambda>_. auth_UpdateProfile a req),
     (''GET'', v1 [Lit ''wallet'', Lit ''balance''], \<lambda>_. wallet_GetBalance),
     (''GET'', v1 [Lit ''wallet'', Lit ''transactions''], \<lambda>_. wallet_GetTransactions req),
     (''POST'', v1 [Lit ''wallet'', Lit ''fund''], \<lambda>_. wallet_FundWallet req),
     (''POST'', v1 [Lit ''wallet'', Lit ''initialize-funding''], \<lambda>_. wallet_InitializeFunding req),
     (''GET'', v1 [Lit ''wallet'', Lit ''virtual-account''], \<lambda>_. va_GetVirtualAccount),
     (''POST'', v1 [Lit ''wallet'', Lit ''virtual-account''], \<lambda>_. va_CreateVirtualAccount a),
     (''POST'', v1 [Lit ''transfers'', Lit ''bank''], \<lambda>_. transfer_InitiateBankTransfer a req),
     (''GET'', v1 [Lit ''transfers'', Lit ''banks''], \<lambda>_ _. transfer_GetBanks a),
     (''GET'', v1 [Lit ''transfers'', Lit ''resolve-account''], \<lambda>_ _. transfer_ResolveAccount a req),
     (''GET'', v1 [Lit ''vas'', Lit ''catalog''], \<lambda>_ _. vas_GetCatalog a),
     (''GET'', v1 [Lit ''vas'', Lit ''transactions'', Param ''reference''], \<lambda>vs. vas_GetTransaction (param vs ''reference'')),
     (''POST'', v1 [Lit ''vas'', Lit ''airtime''], \<lambda>_. vas_BuyAirtime a req),
     (''POST'', v1 [Lit ''vas'', Lit ''data''], \<lambda>_. vas_BuyData a req),
     (''POST'', v1 [Lit ''vas'', Lit ''electricity''], \<lambda>_. vas_PayElectricity a req),
     (''POST'', v1 [Lit ''vas'', Lit ''betting''], \<lambda>_. vas_FundBetting a req),
     (''POST'', v1 [Lit ''travel'', Lit ''bus'', Lit ''book''], \<lambda>_. travel_BookBus a req),
     (''POST'', v1 [Lit ''travel'', Lit ''flight'', Lit ''book''], \<lambda>_. travel_BookFlight a req),
     (''GET'', v1 [Lit ''travel'', Lit ''bookings''], \<lambda>_. travel_GetMyBookings),
     (''GET'', v1 [Lit ''travel'', Lit ''bookings'', Param ''id''], \<lambda>vs _. travel_GetBooking (param vs ''id'')),
     (''POST'', v1 [Lit ''travel'', Lit ''bookings'', Param ''id'', Lit ''reschedule''],
        \<lambda>vs. dispatcher_Reschedule a (param vs ''id'') req),
     (''POST'', v1 [Lit ''travel'', Lit ''bookings'', Param ''id'', Lit ''refund''],
        \<lambda>vs. dispatcher_Refund (param vs ''id'')),
     (''GET'', v1 [Lit ''loyalty'', Lit ''balance''], \<lambda>_. loyalty_GetBalance a),
     (''GET'', v1 [Lit ''loyalty'', Lit ''history''], \<lambda>_. loyalty_GetHistory a req),
     (''POST'', v1 [Lit ''loyalty'', Lit ''redeem''], \<lambda>_. loyalty_RedeemPoints a req)]"

text \<open>\<open>middleware.Auth\<close> in front of a protected handler: it sets the user in the context.\<close>

definition authenticated :: "'r api \<Rightarrow> web_request \<Rightarrow> (context_values \<Rightarrow> handler) \<Rightarrow> handler" where
  "authenticated a req h = do {
     r \<leftarrow> Auth (as_jwt (ap_auth a)) (header req ''Authorization'');
     (case r of
        Inl e \<Rightarrow> State_Monad.return (Envelope (Unauthorized (Error e)))
      | Inr claims \<Rightarrow> h [(user_id_key, cl_user_id claims)])
   }"

text \<open>
  A request behind the rate limiter: CORS answers \<open>OPTIONS\<close> itself. A path that no route matches is
  answered 404 (or redirected, if only a slash at its end is wrong), without a handler.
\<close>

definition dispatch :: "'r api \<Rightarrow> web_request \<Rightarrow> handler" where
  "dispatch a req =
     (if rx_method req = ''OPTIONS'' then State_Monad.return (Status 204)
      else case find_route (public_routes a req) (rx_method req) (rx_path req) of
        Some h \<Rightarrow> h
      | None \<Rightarrow>
          (case find_route (protected_routes a req) (rx_method req) (rx_path req) of
             Some h \<Rightarrow> authenticated a req h
           | None \<Rightarrow> State_Monad.return (Status 404)))"

text \<open>The whole server, with the state of Redis: 100 requests in a window of a minute.\<close>

definition handle :: "'r api \<Rightarrow> web_request \<Rightarrow> 'r \<Rightarrow> (world, http_answer \<times> 'r) state" where
  "handle a req redis = do {
     now \<leftarrow> time_now;
     (case RateLimit (ap_redis a) 100 60000 (rx_ip req) None now redis of
        (TooManyRequests retry, redis') \<Rightarrow>
          State_Monad.return (Envelope (TooManyRequests_reply (''rate limit exceeded '' @ em_dash @ '' please slow down'')), redis')
      | (Next, redis') \<Rightarrow> do {
          r \<leftarrow> dispatch a req;
          State_Monad.return (r, redis')
        })
   }"

fun handle_all :: "'r api \<Rightarrow> web_request list \<Rightarrow> 'r \<Rightarrow> world \<Rightarrow> 'r \<times> world" where
  "handle_all a [] redis s = (redis, s)"
| "handle_all a (req # reqs) redis s =
     (case run_state (handle a req redis) s of ((_, redis'), s') \<Rightarrow> handle_all a reqs redis' s')"

end
