(* ===== verification/ApiBooks.thy ===== *)
theory ApiBooks
  imports Api
begin

text \<open>
  The wallets and their books behind the HTTP interface.
\<close>

section \<open>Operations beside the wallets\<close>

text \<open>
  \<open>money_side P\<close>: \<open>P\<close> looks at users, wallets and transactions only. Such a predicate is kept by every
  statement on the other tables.
\<close>

definition money_side :: "(world \<Rightarrow> bool) \<Rightarrow> bool" where
  "money_side P \<longleftrightarrow> (\<forall>s t. users t = users s \<and> wallets t = wallets s \<and> transactions t = transactions s \<longrightarrow> P t = P s)"

lemma money_sideD:
  "money_side P \<Longrightarrow> users t = users s \<Longrightarrow> wallets t = wallets s \<Longrightarrow> transactions t = transactions s \<Longrightarrow> P s \<Longrightarrow> P t"
proof -
  assume "money_side P"
  then have "users t = users s \<and> wallets t = wallets s \<and> transactions t = transactions s \<longrightarrow> P t = P s"
    unfolding money_side_def by (elim allE)
  then show "users t = users s \<Longrightarrow> wallets t = wallets s \<Longrightarrow> transactions t = transactions s \<Longrightarrow> P s \<Longrightarrow> P t"
    by simp
qed

lemma money_side_on_tables: "money_side P \<Longrightarrow> on_tables P"
  unfolding on_tables_def by (intro allI iffI; erule money_sideD [rotated -1]; simp)

lemma money_side_wallet_tables_ok: "money_side wallet_tables_ok"
  by (simp add: money_side_def wallet_tables_ok_def user_exists_def wallet_exists_def)

lemma keeps_beside:
  assumes "money_side P"
    and "\<And>t s s'. u t s = Some s' \<Longrightarrow> users s' = users s \<and> wallets s' = wallets s \<and> transactions s' = transactions s"
  shows "keeps P (exec u)"
proof (rule keeps_exec [OF money_side_on_tables [OF assms(1)]])
  fix t s s' assume "P s" and "u t s = Some s'"
  with assms(2) [of t s s'] show "P s'" by (intro money_sideD [OF assms(1), of s' s]) auto
qed

lemma keeps_case_prod [keeps_intros]:
  "(\<And>a b. keeps P (f a b)) \<Longrightarrow> keeps P (case x of (a, b) \<Rightarrow> f a b)"
  by (cases x) simp

lemmas beside_intros = keeps_intros keeps_beside money_side_on_tables

lemma keeps_statement_query:
  "on_tables P \<Longrightarrow> (\<And>s. snd (f s) = s) \<Longrightarrow> keeps P (statement f)"
  by (auto simp: keeps_def run_statement on_tables_step split: prod.splits)

section \<open>Every repository method beside the wallets\<close>

lemma keeps_beside_travel:
  assumes "money_side P"
  shows "keeps P (CreateBooking b)" "keeps P (UpdateBookingStatus i st)" "keeps P (ListByUser u)"
    "keeps P (FindBookingByID i)" "keeps P (CreateEvent ev)" "keeps P (CreateDisruption d)"
    "keeps P (FindAffectedBookings x1 x2 x3 x4 x5)" "keeps P (FindDisruptionByBooking i)"
    "keeps P (MarkNotified i)" "keeps P (ResolveDisruption i r nb tx)"
  unfolding CreateBooking_def UpdateBookingStatus_def ListByUser_def FindBookingByID_def CreateEvent_def
    CreateDisruption_def FindAffectedBookings_def FindDisruptionByBooking_def MarkNotified_def ResolveDisruption_def
  by (intro keeps_intros money_side_on_tables [OF assms] keeps_beside [OF assms];
      auto simp: insert_booking_def set_booking_status_def insert_disruption_def resolve_rows_def split: if_splits)+

lemma keeps_beside_otp:
  assumes "money_side P"
  shows "keeps P (CreateOTP otp)" "keeps P (MarkUsed i)"
  unfolding CreateOTP_def MarkUsed_def
  by (intro keeps_intros money_side_on_tables [OF assms] keeps_beside [OF assms];
      auto simp: insert_otp_def split: if_splits)+

lemma keeps_beside_loyalty:
  assumes "money_side P"
  shows "keeps P (GetOrCreate u)" "keeps P (RedeemPointsRepo u n narr)" "keeps P (ListLoyaltyTransactions u l f)"
  unfolding GetOrCreate_def RedeemPointsRepo_def append_movement_def ListLoyaltyTransactions_def Let_def
  by (intro keeps_intros money_side_on_tables [OF assms] keeps_beside [OF assms]
        keeps_statement_query [OF money_side_on_tables [OF assms]];
      auto simp: insert_loyalty_account_def update_loyalty_accounts_def insert_loyalty_transaction_def split: if_splits)+

lemma keeps_posts:
  assumes "money_side P" and "posts m"
  shows "keeps P m"
proof (rule keepsI)
  fix s assume "P s"
  from assms(2) obtain k es where "snd (run_state m s) = s\<lparr>tick := tick s + k, ledger_entries := es\<rparr>"
    unfolding posts_def by blast
  with \<open>P s\<close> show "P (snd (run_state m s))" by (auto intro: money_sideD [OF assms(1)])
qed

lemmas posts_ledger = posts_Credit posts_DebitAtomic

lemma keeps_beside_transfers:
  assumes "money_side P"
  shows "keeps P (BankTransferHandler locks p u w q)" "keeps P (GetSupportedBanks p)" "keeps P (ResolveAccount p x y)"
    "keeps P (GetUserVirtualAccount u)" "keeps P (CreateVirtualAccount p u f e ph b)"
  unfolding BankTransferHandler_def InitiateBankTransfer_def record_transfer_def instruct_provider_def
    GetSupportedBanks_def ResolveAccount_def GetUserVirtualAccount_def CreateVirtualAccount_def Let_def
  by (intro keeps_intros money_side_on_tables [OF assms] keeps_posts [OF assms] posts_ledger keeps_beside [OF assms];
      auto simp: insert_transfer_def update_transfers_def insert_virtual_account_def split: if_splits)+

section \<open>Every service keeps the wallet's tables\<close>

lemmas side_rules = money_side_wallet_tables_ok money_side_on_tables [OF money_side_wallet_tables_ok]
  keeps_beside_travel [OF money_side_wallet_tables_ok] keeps_beside_otp [OF money_side_wallet_tables_ok]
  keeps_beside_loyalty [OF money_side_wallet_tables_ok] keeps_beside_transfers [OF money_side_wallet_tables_ok]

lemma keeps_gather: "on_tables P \<Longrightarrow> keeps P (gather search ops all)"
  by (induction ops arbitrary: all) (auto intro!: keeps_intros)

lemma keeps_searches:
  assumes "on_tables P"
  shows "keeps P (SearchBus v q)" "keeps P (SearchFlights v r)"
  unfolding SearchBus_def SearchFlights_def Let_def by (intro keeps_intros keeps_gather assms)+

lemma keeps_ok_charge:
  assumes "keeps wallet_tables_ok mk" and "keeps wallet_tables_ok rel" and "keeps wallet_tables_ok conf"
    and "\<And>i t. keeps wallet_tables_ok (fin i t)"
  shows "keeps wallet_tables_ok (charge u w n mk rel conf e1 e2 fin)"
  unfolding charge_def purchase_def by (intro keeps_intros assms side_rules)

lemma keeps_ok_persist_booking: "keeps wallet_tables_ok (persist_booking v u c d qr dep)"
  unfolding persist_booking_def announce_booking_def Let_def by (intro keeps_intros side_rules)

lemma keeps_ticket_qr: "on_tables P \<Longrightarrow> keeps P (ticket_qr v tc n rt d sn on)"
  unfolding ticket_qr_def GenerateOfflineQRPayload_def Let_def by (intro keeps_intros)

lemma keeps_ok_bookings [keeps_intros]:
  "keeps wallet_tables_ok (BookBus v u q)" "keeps wallet_tables_ok (BookFlight v u r)"
  unfolding BookBus_def BookFlight_def pay_bus_def pay_flight_def findLiveBusOffer_def finish_bus_def finish_flight_def
    travel_tx_def Let_def
  by (intro keeps_intros keeps_ok_charge keeps_ok_persist_booking keeps_ticket_qr side_rules)+

lemma keeps_ok_disrupt_all: "keeps wallet_tables_ok (disrupt_all v q i bs n)"
  by (induction bs arbitrary: n)
    (auto simp: disrupt_def new_disruption_def intro!: keeps_intros side_rules)

lemma keeps_ok_dispatcher [keeps_intros]:
  "keeps wallet_tables_ok (HandleDispatchEvent v q)" "keeps wallet_tables_ok (RescheduleBooking v u i r)"
  "keeps wallet_tables_ok (RefundBooking u i)"
  unfolding HandleDispatchEvent_def RescheduleBooking_def RefundBooking_def new_event_def disrupted_booking_def
    replacement_def refund_tx_def Let_def
  by (intro keeps_intros keeps_ok_disrupt_all side_rules)+

lemma keeps_ok_points [keeps_intros]:
  "keeps wallet_tables_ok (RedeemPoints parse u n narr)" "keeps wallet_tables_ok (GetPointsBalance parse u)"
  "keeps wallet_tables_ok (GetHistory parse u a b)"
  unfolding RedeemPoints_def GetPointsBalance_def GetHistory_def credit_redemption_def Let_def
  by (intro keeps_intros side_rules)+

lemma keeps_ok_sendOTP: "keeps wallet_tables_ok (sendOTP a p e pu)"
  unfolding sendOTP_def by (intro keeps_intros side_rules)

lemma keeps_ok_provision: "keeps wallet_tables_ok (provision p e h f l)"
  unfolding provision_def new_user_def new_wallet_def by (intro keeps_intros side_rules)

lemma keeps_ok_UpgradeKYC [keeps_intros]: "keeps wallet_tables_ok (UpgradeKYC u kq)"
proof -
  have "keeps wallet_tables_ok store" if "upgrade_path u tier kq = Some (t, n, store)" for tier t n store
    using that by (auto simp: upgrade_path_def split: if_splits intro: keeps_ok_user_updates)
  then show ?thesis
    unfolding UpgradeKYC_def
    by (intro keeps_or_return) (auto split: option.split intro!: keeps_intros)
qed

lemma keeps_ok_auth [keeps_intros]:
  "keeps wallet_tables_ok (Register a rq)" "keeps wallet_tables_ok (Login a lq)" "keeps wallet_tables_ok (GoogleLogin a tok)"
  "keeps wallet_tables_ok (VerifyPhone a yq)" "keeps wallet_tables_ok (ResendOTP a ph pu)"
  "keeps wallet_tables_ok (SetPIN a u pq)" "keeps wallet_tables_ok (RefreshToken a tok)"
  "keeps wallet_tables_ok (UpdateProfile u uq)"
proof -
  note r = keeps_intros side_rules keeps_ok_sendOTP keeps_ok_provision
  show "keeps wallet_tables_ok (Register a rq)" unfolding Register_def by (intro r)
  show "keeps wallet_tables_ok (Login a lq)" unfolding Login_def by (intro r)
  show "keeps wallet_tables_ok (GoogleLogin a tok)" unfolding GoogleLogin_def Let_def by (intro r)
  show "keeps wallet_tables_ok (VerifyPhone a yq)" unfolding VerifyPhone_def by (intro r)
  show "keeps wallet_tables_ok (ResendOTP a ph pu)" unfolding ResendOTP_def by (intro r)
  show "keeps wallet_tables_ok (SetPIN a u pq)" unfolding SetPIN_def by (intro r)
  show "keeps wallet_tables_ok (RefreshToken a tok)" unfolding RefreshToken_def by (intro r)
  show "keeps wallet_tables_ok (UpdateProfile u uq)" unfolding UpdateProfile_def by (intro r)
qed

lemma keeps_ok_hooks [keeps_intros]:
  "keeps wallet_tables_ok (Flutterwave h q)" "keeps wallet_tables_ok (Monnify h q)"
  unfolding Flutterwave_def Monnify_def settle_reply_def Let_def by (intro keeps_intros side_rules)+

section \<open>Every request keeps the wallet's tables\<close>

lemma find_route_in:
  "find_route rs m p = Some h \<Longrightarrow> \<exists>ps f vs. (m, ps, f) \<in> set rs \<and> match_path ps p = Some vs \<and> h = f vs"
  by (induction rs m p rule: find_route.induct) (auto split: if_splits option.splits)

lemmas handler_defs = wallet_InitializeFunding_def wallet_GetBalance_def wallet_GetTransactions_def
  wallet_FundWallet_def vas_BuyAirtime_def vas_GetCatalog_def vas_BuyData_def vas_PayElectricity_def
  vas_FundBetting_def vas_GetTransaction_def transfer_InitiateBankTransfer_def transfer_GetBanks_def
  transfer_ResolveAccount_def va_GetVirtualAccount_def va_CreateVirtualAccount_def loyalty_GetBalance_def
  loyalty_GetHistory_def loyalty_RedeemPoints_def dispatcher_HandleEvent_def dispatcher_Reschedule_def
  dispatcher_Refund_def travel_SearchBus_def travel_SearchFlights_def travel_BookBus_def travel_BookFlight_def
  travel_GetMyBookings_def travel_GetBooking_def auth_Register_def auth_Login_def auth_GoogleLogin_def
  auth_VerifyPhone_def auth_ResendOTP_def set_pin_user_def auth_SetPIN_def auth_UpgradeKYC_def auth_RefreshToken_def
  auth_GetProfile_def auth_UpdateProfile_def hook_def

lemmas query_defs = WalletService.GetBalance_def WalletService.GetTransactions_def GetTransaction_def
  GetProfile_def GetUserByPhone_def GetMyBookings_def GetBooking_def

lemmas handler_rules = keeps_intros side_rules keeps_searches

lemma keeps_ok_public:
  "(m, ps, f) \<in> set (public_routes a req) \<Longrightarrow> keeps wallet_tables_ok (f vs)"
  unfolding public_routes_def
  by (auto simp: handler_defs query_defs Let_def intro!: handler_rules)

lemma keeps_ok_protected:
  "(m, ps, f) \<in> set (protected_routes a req) \<Longrightarrow> keeps wallet_tables_ok (f vs c)"
  unfolding protected_routes_def
  by (auto simp: handler_defs query_defs Let_def intro!: handler_rules)

lemma keeps_authenticated:
  assumes "on_tables P" and "\<And>c. keeps P (h c)"
  shows "keeps P (authenticated a req h)"
  unfolding authenticated_def Auth_def unauthorized_def
  by (intro keeps_intros assms; auto split: list.split intro!: keeps_intros assms)

lemma keeps_ok_dispatch: "keeps wallet_tables_ok (dispatch a req)"
  unfolding dispatch_def
proof (intro keeps_if keeps_return)
  show "keeps wallet_tables_ok
     (case find_route (public_routes a req) (rx_method req) (rx_path req) of Some h \<Rightarrow> h
      | None \<Rightarrow> (case find_route (protected_routes a req) (rx_method req) (rx_path req) of
          Some h \<Rightarrow> authenticated a req h | None \<Rightarrow> State_Monad.return (Status 404)))"
    by (auto split: option.split dest!: find_route_in
        intro!: keeps_return keeps_authenticated side_rules intro: keeps_ok_public keeps_ok_protected)
qed

lemma keeps_handle:
  assumes "on_tables P" and "keeps P (dispatch a req)"
  shows "keeps P (handle a req redis)"
  unfolding handle_def by (auto split: prod.split verdict.split intro!: keeps_intros assms)

text \<open>
  Whatever clients send: after any sequence of HTTP requests to any routes, under any failures of the
  database and any answers of the other systems, the wallet's tables are in order: no balance is
  negative, every wallet has a user and every user at most one wallet, every transaction has its
  user and its wallet, and no two transactions have the same reference.
\<close>

theorem requests_keep_tables_in_order:
  assumes "wallet_tables_ok s"
  shows "wallet_tables_ok (snd (handle_all a reqs redis s))"
  using assms
proof (induction reqs arbitrary: redis s)
  case (Cons req reqs)
  obtain r redis' s' where h: "run_state (handle a req redis) s = ((r, redis'), s')"
    by (metis surj_pair)
  have "keeps wallet_tables_ok (handle a req redis)"
    by (rule keeps_handle [OF side_rules(2) keeps_ok_dispatch])
  from keeps_run [OF this h Cons.prems] Cons.IH h show ?case by simp
qed simp

section \<open>Protected routes\<close>

lemma quiet_Auth: "quiet (Auth m hdr)"
  unfolding Auth_def unauthorized_def Validate_def
  by (intro quiet_if; auto split: list.split intro!: quiet_or_return quiet_bind)

lemma quiet_handle:
  assumes "quiet (dispatch a req)"
  shows "quiet (handle a req redis)"
  unfolding handle_def
  by (intro quiet_bind; auto split: prod.split verdict.split intro!: quiet_bind assms)

lemma authenticated_refused:
  assumes "\<forall>s'. \<not> succeeded (fst (run_state (Auth (as_jwt (ap_auth a)) (header req ''Authorization'')) s'))"
  shows "status_of (fst (run_state (authenticated a req h) s)) = 401 \<and>
    (\<exists>k. snd (run_state (authenticated a req h) s) = s\<lparr>tick := tick s + k\<rparr>)"
proof -
  let ?auth = "Auth (as_jwt (ap_auth a)) (header req ''Authorization'')"
  obtain e s2 where r: "run_state ?auth s = (Inl e, s2)"
    using spec [OF assms, of s] by (cases "run_state ?auth s") (auto simp: succeeded_def split: sum.splits)
  then have "\<exists>k. s2 = s\<lparr>tick := tick s + k\<rparr>" using quiet_run [OF quiet_Auth r] by metis
  with r show ?thesis by (simp add: authenticated_def run_bind_eq [OF r] Unauthorized_def failure_def)
qed

text \<open>
  C6. Without a token that \<open>Auth\<close> accepts, a request reaches no handler of a protected route: unless its
  path is public, it is answered 401 (or 404, 204 for \<open>OPTIONS\<close>, 429 by the rate limiter) and changes
  nothing in the database.
\<close>

theorem protected_routes_need_a_token:
  assumes "find_route (public_routes a req) (rx_method req) (rx_path req) = None"
    and "\<forall>s'. \<not> succeeded (fst (run_state (Auth (as_jwt (ap_auth a)) (header req ''Authorization'')) s'))"
  shows "status_of (fst (fst (run_state (handle a req redis) s))) \<in> {401, 404, 204, 429} \<and>
    (\<exists>k. snd (run_state (handle a req redis) s) = s\<lparr>tick := tick s + k\<rparr>)"
proof -
  note refused = authenticated_refused [OF assms(2)]
  have dispatched: "status_of (fst (run_state (dispatch a req) s1)) \<in> {401, 404, 204} \<and>
      (\<exists>k. snd (run_state (dispatch a req) s1) = s1\<lparr>tick := tick s1 + k\<rparr>)" for s1
    using assms(1) refused by (auto simp: dispatch_def split: option.split intro: exI [of _ 0])
  then have "quiet (dispatch a req)" by (simp add: quiet_def)
  from quiet_handle [OF this, of redis] have "\<exists>k. snd (run_state (handle a req redis) s) = s\<lparr>tick := tick s + k\<rparr>"
    by (simp add: quiet_def)
  moreover have "status_of (fst (fst (run_state (handle a req redis) s))) \<in> {401, 404, 204, 429}"
    using dispatched [of "step s"]
    by (auto simp: handle_def TooManyRequests_reply_def failure_def split: prod.split verdict.split)
  ultimately show ?thesis by blast
qed

section \<open>Requests without a token or a signature\<close>

text \<open>The only thing that may happen to the wallets: new ones are opened, with nothing in them.\<close>

definition opened_since :: "world \<Rightarrow> world \<Rightarrow> bool" where
  "opened_since s0 s \<longleftrightarrow> (\<exists>new. wallets s = wallets s0 @ new \<and> list_all (\<lambda>w. w_balance w = 0) new)"

lemma money_side_opened: "money_side (opened_since s0)"
  by (simp add: money_side_def opened_since_def)

lemmas opened_rules = keeps_intros money_side_on_tables [OF money_side_opened]
  keeps_beside_otp [OF money_side_opened] keeps_beside_travel [OF money_side_opened] keeps_searches
  keeps_gather

lemma keeps_opened_exec:
  assumes "\<And>t s s'. u t s = Some s' \<Longrightarrow> wallets s' = wallets s"
  shows "keeps (opened_since s0) (exec u)"
  by (rule keeps_exec [OF money_side_on_tables [OF money_side_opened]]) (simp add: assms opened_since_def)

lemma keeps_opened_CreateUser: "keeps (opened_since s0) (CreateUser u)"
  unfolding CreateUser_def by (rule keeps_opened_exec) (auto simp: insert_user_def split: if_splits)

lemma keeps_opened_CreateWallet: "w_balance w = 0 \<Longrightarrow> keeps (opened_since s0) (CreateWallet w)"
  unfolding CreateWallet_def
  by (rule keeps_exec [OF money_side_on_tables [OF money_side_opened]])
    (auto simp: insert_wallet_def opened_since_def split: if_splits)

lemma keeps_opened_new_wallet:
  assumes "\<And>w. w_balance w = 0 \<Longrightarrow> keeps (opened_since s0) (f w)"
  shows "keeps (opened_since s0) (do { w \<leftarrow> new_wallet u; f w })"
proof (rule keepsI)
  fix s assume "opened_since s0 s"
  then show "opened_since s0 (snd (run_state (do { w \<leftarrow> new_wallet u; f w }) s))"
    by (auto simp: new_wallet_def opened_since_def intro!: keepsD [OF assms, unfolded opened_since_def])
qed

lemma keeps_opened_provision: "keeps (opened_since s0) (provision p e h f l)"
  unfolding provision_def new_user_def
  by (intro opened_rules keeps_opened_CreateUser keeps_opened_new_wallet keeps_opened_CreateWallet)

lemma keeps_opened_sendOTP: "keeps (opened_since s0) (sendOTP a p e pu)"
  unfolding sendOTP_def by (intro opened_rules)

lemma keeps_opened_auth:
  "keeps (opened_since s0) (Register a rq)" "keeps (opened_since s0) (Login a lq)"
  "keeps (opened_since s0) (GoogleLogin a tok)" "keeps (opened_since s0) (VerifyPhone a yq)"
  "keeps (opened_since s0) (ResendOTP a ph pu)" "keeps (opened_since s0) (RefreshToken a tok)"
proof -
  note r = opened_rules keeps_opened_sendOTP keeps_opened_provision
  show "keeps (opened_since s0) (Register a rq)" unfolding Register_def by (intro r)
  show "keeps (opened_since s0) (Login a lq)" unfolding Login_def by (intro r)
  show "keeps (opened_since s0) (GoogleLogin a tok)" unfolding GoogleLogin_def Let_def by (intro r)
  show "keeps (opened_since s0) (VerifyPhone a yq)" unfolding VerifyPhone_def by (intro r)
  show "keeps (opened_since s0) (ResendOTP a ph pu)" unfolding ResendOTP_def by (intro r)
  show "keeps (opened_since s0) (RefreshToken a tok)" unfolding RefreshToken_def by (intro r)
qed

lemma keeps_opened_disrupt_all: "keeps (opened_since s0) (disrupt_all v q i bs n)"
  by (induction bs arbitrary: n) (auto simp: disrupt_def new_disruption_def intro!: opened_rules)

lemma keeps_opened_dispatcher: "keeps (opened_since s0) (HandleDispatchEvent v q)"
  unfolding HandleDispatchEvent_def new_event_def Let_def by (intro opened_rules keeps_opened_disrupt_all)

text \<open>A webhook without the signature is turned away before it is read.\<close>

lemma unsigned_hooks:
  assumes "wh_flutterwave_secret h \<noteq> []" and "wh_monnify_secret h \<noteq> []"
  shows "\<not> signed h (ToFlutterwave q) \<Longrightarrow> keeps P (Flutterwave h q)"
    and "\<not> signed h (ToMonnify q) \<Longrightarrow> keeps P (Monnify h q)"
  using assms
  by (auto simp: signed_def Flutterwave_def Monnify_def verifyMonnifySignature_def Let_def
      split: option.splits intro!: keeps_return)

lemma keeps_opened_public:
  assumes "wh_flutterwave_secret (ap_webhooks a) \<noteq> []" and "wh_monnify_secret (ap_webhooks a) \<noteq> []"
    and "\<not> signed (ap_webhooks a) (ToFlutterwave (webhook_of req))"
    and "\<not> signed (ap_webhooks a) (ToMonnify (webhook_of req))"
    and "(m, ps, f) \<in> set (public_routes a req)"
  shows "keeps (opened_since s0) (f vs)"
proof -
  have hooks: "keeps (opened_since s0) (Flutterwave (ap_webhooks a) (webhook_of req))"
    "keeps (opened_since s0) (Monnify (ap_webhooks a) (webhook_of req))"
    using unsigned_hooks assms(1-4) by blast+
  show ?thesis
    using assms(5) unfolding public_routes_def
    by (auto simp: handler_defs Let_def
        intro!: opened_rules keeps_opened_auth keeps_opened_dispatcher hooks)
qed

lemma keeps_opened_handle:
  assumes "wh_flutterwave_secret (ap_webhooks a) \<noteq> []" and "wh_monnify_secret (ap_webhooks a) \<noteq> []"
    and "\<not> signed (ap_webhooks a) (ToFlutterwave (webhook_of req))"
    and "\<not> signed (ap_webhooks a) (ToMonnify (webhook_of req))"
    and "\<forall>s'. \<not> succeeded (fst (run_state (Auth (as_jwt (ap_auth a)) (header req ''Authorization'')) s'))"
  shows "keeps (opened_since s0) (handle a req redis)"
proof (rule keeps_handle)
  show on: "on_tables (opened_since s0)" by (rule money_side_on_tables [OF money_side_opened])
  have "keeps (opened_since s0) (authenticated a req h)" for h
  proof (rule keepsI)
    fix s assume "opened_since s0 s"
    moreover obtain k where "snd (run_state (authenticated a req h) s) = s\<lparr>tick := tick s + k\<rparr>"
      using authenticated_refused [OF assms(5)] by blast
    ultimately show "opened_since s0 (snd (run_state (authenticated a req h) s))" by (simp add: opened_since_def)
  qed
  then show "keeps (opened_since s0) (dispatch a req)"
    unfolding dispatch_def
    by (auto split: option.split dest!: find_route_in intro!: keeps_return keeps_opened_public [OF assms(1-4)])
qed

text \<open>
  C5. Without a token that \<open>Auth\<close> accepts and without the signature of a payment gateway nobody moves money:
  when both webhook secrets are set, any sequence of such requests, to any routes and with any bodies,
  under any failures of the database, leaves every account as it was, balance, spending and limit, and all
  it can add are new accounts with nothing in them: the wallets hold the same sum as before.
\<close>

theorem unauthorised_requests_move_no_money:
  assumes "wh_flutterwave_secret (ap_webhooks a) \<noteq> []" and "wh_monnify_secret (ap_webhooks a) \<noteq> []"
    and "\<forall>req \<in> set reqs. \<not> signed (ap_webhooks a) (ToFlutterwave (webhook_of req)) \<and>
      \<not> signed (ap_webhooks a) (ToMonnify (webhook_of req)) \<and>
      (\<forall>s. \<not> succeeded (fst (run_state (Auth (as_jwt (ap_auth a)) (header req ''Authorization'')) s)))"
  shows "(\<forall>u acc. accounts s u = Some acc \<longrightarrow> accounts (snd (handle_all a reqs redis s)) u = Some acc) \<and>
    sum_list (map w_balance (wallets (snd (handle_all a reqs redis s)))) = sum_list (map w_balance (wallets s))"
proof -
  have "opened_since s (snd (handle_all a reqs redis t))" if "opened_since s t" for t
    using assms(3) that
  proof (induction reqs arbitrary: redis t)
    case (Cons req reqs)
    obtain r redis' t' where h: "run_state (handle a req redis) t = ((r, redis'), t')" by (metis surj_pair)
    have "keeps (opened_since s) (handle a req redis)"
      using assms(1,2) Cons.prems(1) by (intro keeps_opened_handle) auto
    from keeps_run [OF this h Cons.prems(2)] Cons.IH Cons.prems(1) h show ?case by simp
  qed simp
  then have "opened_since s (snd (handle_all a reqs redis s))" by (simp add: opened_since_def)
  then obtain new where new: "wallets (snd (handle_all a reqs redis s)) = wallets s @ new" "list_all (\<lambda>w. w_balance w = 0) new"
    by (auto simp: opened_since_def)
  from new(2) have "sum_list (map w_balance new) = 0" by (induction new) auto
  with new(1) show ?thesis by (auto simp: accounts_def wallet_of_def find_append split: option.splits)
qed

section \<open>A sample server\<close>

definition sample_api :: "(string \<Rightarrow> int \<times> int) api" where
  "sample_api = \<lparr>ap_auth = sample_auth, ap_validators = \<lparr>vd_email = (\<lambda>_. True), vd_e164 = (\<lambda>_. True), vd_numeric = (\<lambda>_. True)\<rparr>,
     ap_vas = sample_vas ''success'' None, ap_bills = None, ap_scan_avg = (\<lambda>n d. Inr (n div d)), ap_parse_uuid = Some,
     ap_dispatcher = sample_dispatcher, ap_travel = sample_travel, ap_paystack = sample_provider ''paystack'' True,
     ap_locks = True, ap_webhooks = sample_handler, ap_redis = sample_pipeline\<rparr>"

definition sample_request :: "string \<Rightarrow> string list \<Rightarrow> string \<Rightarrow> web_request" where
  "sample_request auth path body = \<lparr>rx_method = ''POST'', rx_path = path,
     rx_headers = [(''Authorization'', auth)], rx_query = [], rx_body = Some body, rx_ip = ''10.0.0.1''\<rparr>"

definition made_up_funding :: string where
  "made_up_funding = ''{\"amount\": 5000000, \"payment_ref\": \"made up\", \"provider\": \"flutterwave\"}''"

section \<open>Funding without paying\<close>

lemma run_authenticated:
  assumes "run_state (Auth (as_jwt (ap_auth a)) (header req ''Authorization'')) s = (Inr c, s1)"
  shows "run_state (authenticated a req h) s = run_state (h [(user_id_key, cl_user_id c)]) s1"
  using assms by (simp add: authenticated_def)

lemma dispatch_fund:
  assumes "rx_method req = ''POST''" and "rx_path req = [''api'', ''v1'', ''wallet'', ''fund'']"
  shows "dispatch a req = authenticated a req (wallet_FundWallet req)"
  using assms by (simp add: dispatch_def public_routes_def protected_routes_def v1_def)

text \<open>
  What a funding under the reference \<open>ref\<close> needs of the database: no failing statement, new UUIDs and a
  new reference, a wallet that can hold the sum, and a payment reference and a provider name that fit
  their columns.
\<close>

definition funding_ready :: "string \<Rightarrow> world \<Rightarrow> uuid \<Rightarrow> fund_wallet_request \<Rightarrow> bool" where
  "funding_ready ref s u q \<longleftrightarrow> reliable s \<and> fresh_uuids s \<and> \<not> funded_by (fr_payment_ref q) s \<and>
     length ref \<le> 100 \<and> ref \<notin> set (map t_reference (transactions s)) \<and>
     length (fr_payment_ref q) \<le> 200 \<and> length (fr_provider q) \<le> 50 \<and>
     (\<exists>acc. accounts s u = Some acc \<and> can_credit (fr_amount q) acc)"

text \<open>The reference that \<open>FundWallet\<close> makes: the fourth and fifth of its steps draw the parts.\<close>

definition next_funding_ref :: "world \<Rightarrow> string" where
  "next_funding_ref s = ''FUND-'' @ take 8 (uuid_at s (tick s + 3)) @ ''-'' @ show_int (time_at s (tick s + 4))"

lemma funding_ready_step: "funding_ready ref s u q \<Longrightarrow> funding_ready ref (step s) u q"
  by (auto simp: funding_ready_def fresh_uuids_def funded_by_def accounts_def wallet_of_def)

lemma fund_closure_succeeds:
  assumes ok: "wallet_tables_ok s" and "fund_request_bound q" and
    ready: "funding_ready (''FUND-'' @ take 8 (uuid_at s (Suc (tick s))) @ ''-'' @ show_int (time_at s (Suc (Suc (tick s))))) s u q"
  shows "\<exists>t s'. run_state (fund_closure u q) s = (Inr t, s') \<and> reliable s'"
proof -
  from ready obtain a where a: "accounts s u = Some a" and can: "can_credit (fr_amount q) a" and rel: "reliable s"
    by (auto simp: funding_ready_def)
  obtain w where w: "wallet_of u s = Some w" and aw: "a = account_of w" using a by (rule accounts_SomeE)
  let ?ref = "''FUND-'' @ take 8 (uuid_at s (Suc (tick s))) @ ''-'' @ show_int (time_at s (Suc (Suc (tick s))))"
  define s5 where "s5 = s\<lparr>tick := tick s + 6\<rparr>"
  define t where "t = \<lparr>t_id = uuid_at s (tick s + 3), t_user_id = w_user_id w, t_wallet_id = w_id w,
       t_reference = ?ref, t_external_ref = fr_payment_ref q, t_type = TxTypeCredit,
       t_category = CategoryWalletFund, t_amount = fr_amount q, t_commission = 0, t_fee = 0,
       t_balance_before = w_balance w, t_balance_after = i64 (w_balance w + fr_amount q), t_status = TxSuccess,
       t_provider = fr_provider q, t_narration = ''Wallet funded via '' @ fr_provider q, t_meta = [], t_reversed_tx_id = None,
       t_created_at = time_at s (tick s + 4), t_updated_at = time_at s (tick s + 5)\<rparr>"
  have ok5: "wallet_tables_ok s5" "reliable s5" "accounts s5 u = Some a"
    using ok rel a by (simp_all add: s5_def)
  define s6 where "s6 = s5\<lparr>tick := tick s5 + 1, wallets := set_rows (\<lambda>x. w_id x = ac_wallet a)
       (credit_row (fr_amount q) (time_at s5 (tick s5 + 1))) (wallets s5)\<rparr>"
  have c: "run_state (CreditBalance (w_id w) (fr_amount q)) s5 = (Inr (), s6)"
    using run_CreditBalance [OF ok5 can] by (simp add: s6_def aw)
  have ok6: "wallet_tables_ok s6" by (rule keeps_run [OF keeps_ok_CreditBalance c ok5(1)])
  have "insertable t s6"
  proof -
    have n: "10000 \<le> fr_amount q" using assms(2) by (simp add: fund_request_bound_def)
    have bal: "0 \<le> w_balance w" "in_i64 (w_balance w)" "in_i64 (w_balance w + fr_amount q)"
      using accounts_row_ok [OF ok a] can by (simp_all add: aw can_credit_def)
    then have "in_i64 (fr_amount q)" using n by (simp add: in_i64_def)
    moreover have "in_i64 0" by (simp add: in_i64_def)
    ultimately have "tx_row_ok t" using n bal ready i64_id [OF bal(3)]
      by (simp add: tx_row_ok_def t_def funding_ready_def)
    moreover have "user_exists (t_user_id t) s6" "wallet_exists (t_wallet_id t) s6"
    proof -
      have "w \<in> set (wallets s)" using wallet_ofD [OF w] by simp
      then show "wallet_exists (t_wallet_id t) s6"
        by (force simp: t_def s6_def s5_def wallet_exists_def set_rows_def credit_row_def)
      from \<open>w \<in> set (wallets s)\<close> ok show "user_exists (t_user_id t) s6"
        by (auto simp: t_def s6_def s5_def user_exists_def wallet_tables_ok_def list_all_iff)
    qed
    moreover have "transactions_unique (transactions s6 @ [t])"
      using ok6 ready
      by (auto simp: transactions_unique_def wallet_tables_ok_def t_def s6_def s5_def funding_ready_def fresh_uuids_def
          funded_by_def indexed_credit_def image_iff)
    ultimately show ?thesis by (simp add: insertable_def insert_transaction_def t_def)
  qed
  moreover have rel6: "reliable s6" using rel by (simp add: s6_def s5_def reliable_def)
  ultimately have i: "run_state (InsertTransaction t) s6 = (Inr (), s6\<lparr>tick := tick s6 + 1, transactions := transactions s6 @ [t]\<rparr>)"
    by (intro run_InsertTransaction)
  have "run_state (fund_closure u q) s = (Inr t, s6\<lparr>tick := tick s6 + 1, transactions := transactions s6 @ [t]\<rparr>)"
  proof -
    have f: "run_state (FindByUserID u) s = (Inr w, step s)"
      using w rel by (simp add: FindByUserID_def run_or_return run_query_row)
    have r: "run_state (funding_ref ''FUND-'') (step s) = (?ref, step (step (step s)))"
      by (simp add: funding_ref_def)
    have m: "run_state (funding_tx w ?ref (fr_payment_ref q) (fr_amount q) (i64 (w_balance w + fr_amount q)) TxSuccess
        (fr_provider q) (''Wallet funded via '' @ fr_provider q)) (step (step (step s))) = (t, s5)"
      by (simp add: funding_tx_def t_def s5_def step_def eval_nat_numeral)
    show ?thesis
      unfolding fund_closure_def run_or_return_Inr [OF f] run_bind_eq [OF r] run_bind_eq [OF m] run_or_return_Inr [OF c]
        run_or_return_Inr [OF i] by simp
  qed
  moreover have "reliable (s6\<lparr>tick := tick s6 + 1, transactions := transactions s6 @ [t]\<rparr>)"
    using rel6 by (simp add: reliable_def)
  ultimately show ?thesis by blast
qed

lemma FundWallet_succeeds:
  assumes ok: "wallet_tables_ok s" and ready: "funding_ready (next_funding_ref s) s u q" and "fund_request_bound q"
  shows "succeeded (fst (run_state (FundWallet b u q) s))"
proof -
  have rel: "reliable s" using ready by (simp add: funding_ready_def)
  have f: "run_state (FindCreditByExternalRef (fr_payment_ref q)) s = (Inl ErrNoRows, step s)"
    using ready by (auto simp: FindCreditByExternalRef_def run_query_row funding_ready_def funded_by_def find_None_iff
        split: option.splits dest: find_SomeD)
  have "funding_ready (''FUND-'' @ take 8 (uuid_at (step (step s)) (Suc (tick (step (step s))))) @ ''-'' @
      show_int (time_at (step (step s)) (Suc (Suc (tick (step (step s))))))) (step (step s)) u q"
    using funding_ready_step [OF funding_ready_step [OF ready]] by (simp add: next_funding_ref_def eval_nat_numeral)
  from fund_closure_succeeds [OF _ assms(3) this] ok
  obtain t s' where c: "run_state (fund_closure u q) (step (step s)) = (Inr t, s')" "reliable s'"
    by (auto simp: on_tables_step)
  have w: "run_state (WithinTx NoTx (\<lambda>txCtx. fund_closure u q)) (step s) = (Inr t, step s')"
    unfolding WithinTx_def by (rule run_local_tx_Inr [OF c(1)]) (simp_all add: rel c(2))
  show ?thesis
    unfolding FundWallet_def run_bind_eq [OF f] sum.case run_or_return_Inr [OF w]
    by (simp add: award_async_def spawn_def)
qed

text \<open>
  C7. \<open>POST /api/v1/wallet/fund\<close> credits the wallet of whoever calls it. Any user with a token, for any
  reference that was never used and any amount of 100 naira or more, is answered 200 and has the amount
  added to the balance: no payment is verified and no gateway is asked, whatever gateways there are, and
  all that is required is that the request parses and that the database can store the funding (no
  failing statement, new identifiers, a balance that stays in range).
\<close>

theorem fund_route_asks_for_no_payment:
  assumes "wallet_tables_ok s"
    and "rx_method req = ''POST''" and "rx_path req = [''api'', ''v1'', ''wallet'', ''fund'']"
    and "run_state (Auth (as_jwt (ap_auth a)) (header req ''Authorization'')) s = (Inr c, s1)"
    and "ShouldBindJSON d_fund_wallet_request zero_fund_wallet_request fund_request_bound req = Inr q"
    and "funding_ready (next_funding_ref s1) s1 (cl_user_id c) q"
  shows "\<exists>r s' acc. run_state (dispatch a req) s = (r, s') \<and> status_of r = 200 \<and>
    accounts s (cl_user_id c) = Some acc \<and> accounts s' = (accounts s)(cl_user_id c \<mapsto> credit (fr_amount q) acc)"
proof -
  obtain k where s1: "s1 = s\<lparr>tick := tick s + k\<rparr>" using quiet_run [OF quiet_Auth assms(4)] by metis
  have tables: "wallet_tables_ok s1" "accounts s1 = accounts s"
    using assms(1) by (simp_all add: s1)
  have bound: "fund_request_bound q"
    using assms(5) by (auto simp: ShouldBindJSON_def split: option.splits sum.splits if_splits)
  obtain t s2 where f: "run_state (FundWallet True (cl_user_id c) q) s1 = (Inr t, s2)"
    using FundWallet_succeeds [OF tables(1) assms(6) bound, of True]
    by (cases "run_state (FundWallet True (cl_user_id c) q) s1"; cases "fst (run_state (FundWallet True (cl_user_id c) q) s1)") auto
  have "run_state (dispatch a req) s =
      (Envelope (OK ''wallet funded successfully'' (Some (PTransaction t))), s2)"
    by (simp add: dispatch_fund [OF assms(2,3)] run_authenticated [OF assms(4)] wallet_FundWallet_def
        bound_def assms(5) as_caller_def GetUserID_def run_answer f)
  moreover have "status_of (Envelope (OK ''wallet funded successfully'' (Some (PTransaction t)))) = 200"
    by (simp add: reply_defs)
  moreover have "\<not> funded_by (fr_payment_ref q) s1" using assms(6) by (simp add: funding_ready_def)
  with FundWallet_cases [OF tables(1) f] tables(2) obtain acc where "accounts s (cl_user_id c) = Some acc"
    "accounts s2 = (accounts s)(cl_user_id c \<mapsto> credit (fr_amount q) acc)"
    by (auto simp: funded_by_def)
  ultimately show ?thesis by blast
qed

lemma funding_ready_sample:
  "funding_ready (next_funding_ref (sample_world\<lparr>tick := 1\<rparr>)) (sample_world\<lparr>tick := 1\<rparr>) ''ada''
     \<lparr>fr_amount = 5000000, fr_payment_ref = ''made up'', fr_provider = ''flutterwave''\<rparr>"
proof -
  let ?s = "sample_world\<lparr>tick := 1\<rparr>"
  have "tick sample_world = 0" by code_simp
  then have "reliable ?s" "fresh_uuids ?s"
    using sample_healthy fresh_uuids_later [of sample_world 1] by (simp_all add: healthy_def reliable_def)
  moreover have "\<not> funded_by ''made up'' ?s" "length (next_funding_ref ?s) \<le> 100"
    "next_funding_ref ?s \<notin> set (map t_reference (transactions ?s))"
    "case accounts ?s ''ada'' of None \<Rightarrow> False | Some acc \<Rightarrow> can_credit 5000000 acc" by code_simp+
  ultimately show ?thesis by (auto simp: funding_ready_def split: option.splits)
qed

lemma fund_route_asks_for_no_payment_witness:
  "map_option ac_balance (accounts (snd (run_state (dispatch sample_api
     (sample_request ''Bearer token.t'' [''api'', ''v1'', ''wallet'', ''fund''] made_up_funding)) sample_world)) ''ada'') =
   Some 5100000"
proof -
  let ?req = "sample_request ''Bearer token.t'' [''api'', ''v1'', ''wallet'', ''fund''] made_up_funding"
  let ?q = "\<lparr>fr_amount = 5000000, fr_payment_ref = ''made up'', fr_provider = ''flutterwave''\<rparr> :: fund_wallet_request"
  have "wallet_tables_ok sample_world" by code_simp
  moreover have "rx_method ?req = ''POST''" "rx_path ?req = [''api'', ''v1'', ''wallet'', ''fund'']"
    by (simp_all add: sample_request_def)
  moreover have auth: "run_state (Auth (as_jwt (ap_auth sample_api)) (header ?req ''Authorization'')) sample_world =
      (Inr (sample_claims ''t''), sample_world\<lparr>tick := 1\<rparr>)"
  proof -
    let ?run = "run_state (Auth (as_jwt (ap_auth sample_api)) (header ?req ''Authorization'')) sample_world"
    have "fst ?run = Inr (sample_claims ''t'')" "tick (snd ?run) = 1" by code_simp+
    moreover obtain k where "snd ?run = sample_world\<lparr>tick := k\<rparr>"
      using quiet_run [OF quiet_Auth prod.collapse [of ?run, symmetric]] by blast
    ultimately show ?thesis by (simp add: prod_eq_iff)
  qed
  moreover have "ShouldBindJSON d_fund_wallet_request zero_fund_wallet_request fund_request_bound ?req = Inr ?q"
    by code_simp
  moreover have "funding_ready (next_funding_ref (sample_world\<lparr>tick := 1\<rparr>)) (sample_world\<lparr>tick := 1\<rparr>) (cl_user_id (sample_claims ''t'')) ?q"
    using funding_ready_sample by (simp add: sample_claims_def)
  moreover have "map_option ac_balance (accounts sample_world ''ada'') = Some 100000" by code_simp
  ultimately show ?thesis
    using fund_route_asks_for_no_payment [of sample_world ?req sample_api "sample_claims ''t''" _ ?q]
    by (auto simp: sample_claims_def credit_def)
qed

section \<open>Routes that read the context under another name\<close>

text \<open>No row has the empty identifier.\<close>

definition rows_named :: "world \<Rightarrow> bool" where
  "rows_named s \<longleftrightarrow> (\<forall>e \<in> set (ledger_entries s). e_wallet_id e \<noteq> []) \<and> (\<forall>u \<in> set (users s). u_id u \<noteq> []) \<and>
     (\<forall>v \<in> set (virtual_accounts s). v_user_id v \<noteq> [])"

lemma DebitAtomic_nobody:
  assumes "rows_named s"
  shows "\<exists>e s'. run_state (DebitAtomic locks [] n ref t d) s = (Inl e, s') \<and> (\<exists>k. s' = s\<lparr>tick := tick s + k\<rparr>)"
proof -
  let ?m = "DebitAtomic locks [] n ref t d"
  have none: "filter (\<lambda>e. e_wallet_id e = []) (ledger_entries s) = []"
    using assms by (auto simp: rows_named_def filter_empty_conv)
  obtain r s' where run: "run_state ?m s = (r, s')" by fastforce
  have "\<exists>e. r = Inl e"
    using run none
    by (auto simp: DebitAtomic_def local_tx_def run_begin_tx run_commit_tx run_or_return locked_sum_def sum_entries_def
        run_statement run_exec insert_entry_def entry_row_ok_def ledger_balance_def
        split: if_splits sum.splits prod.splits option.splits)
  then obtain e where e: "r = Inl e" by blast
  have le: "ledger_entries s' = ledger_entries s"
    using local_tx_error_rolls_back [OF _ run [unfolded DebitAtomic_def e], of "\<lambda>x. ledger_entries x = ledger_entries s"]
    by (simp add: on_tables_def)
  obtain k where "s' = s\<lparr>tick := tick s + k, ledger_entries := ledger_entries s'\<rparr>"
    by (rule posts_run [OF posts_DebitAtomic run])
  then have "s' = s\<lparr>tick := tick s + k, ledger_entries := ledger_entries s\<rparr>" unfolding le .
  then have "\<exists>k. s' = s\<lparr>tick := tick s + k\<rparr>" by (intro exI [of _ k]) simp
  with run e show ?thesis by blast
qed

lemma BankTransferHandler_nobody:
  assumes "rows_named s"
  shows "\<exists>e k. run_state (BankTransferHandler locks p u [] q) s = (Inl e, s\<lparr>tick := tick s + k\<rparr>)"
proof (cases "transfer_request_bound q")
  case True
  let ?n = "i64 (bt_amount_kobo q + 5000)" and ?ref = "''TRF-'' @ uuid_at s (tick s)"
  have "rows_named (step s)" using assms by (simp add: rows_named_def step_def)
  from DebitAtomic_nobody [OF this, of locks ?n ?ref EntryTransferOut "''Bank transfer to '' @ bt_account_name q"]
  obtain e k where d: "run_state (DebitAtomic locks [] ?n ?ref EntryTransferOut (''Bank transfer to '' @ bt_account_name q))
      (step s) = (Inl e, (step s)\<lparr>tick := tick (step s) + k\<rparr>)" by blast
  then have "run_state (BankTransferHandler locks p u [] q) s =
      (Inl (Wrap ''transfer: insufficient funds or ledger error'' e), s\<lparr>tick := tick s + Suc k\<rparr>)"
    using True by (simp add: BankTransferHandler_def InitiateBankTransfer_def Let_def run_or_return step_def)
  then show ?thesis by blast
qed (auto simp: BankTransferHandler_def intro: exI [of _ 0])

lemma CreateVirtualAccount_nobody:
  assumes "rows_named s"
  shows "\<exists>e k. run_state (CreateVirtualAccount p [] f e0 ph b) s = (Inl e, s\<lparr>tick := tick s + k\<rparr>)"
proof -
  have none: "find (\<lambda>v. v_user_id v = [] \<and> v_is_active v) (virtual_accounts s) = None"
    using assms by (auto simp: rows_named_def find_None_iff)
  have refused: "insert_virtual_account v s' = None" if "v_user_id v = []" "users s' = users s" "virtual_accounts s' = virtual_accounts s"
    for v s' using assms that by (auto simp: insert_virtual_account_def rows_named_def user_exists_def)
  obtain e1 where g: "run_state (GetUserVirtualAccount []) s = (Inl e1, step s)"
    using none by (cases "sql_ok s (tick s)") (simp_all add: GetUserVirtualAccount_def run_or_return run_query_row step_def)
  show ?thesis
  proof (cases "pp_create_virtual_account p (tick (step s)) \<lparr>vq_user_id = [], vq_full_name = f, vq_email = e0,
      vq_phone_number = ph, vq_bvn = b\<rparr>")
    case (Inl e)
    with g show ?thesis
      by (simp add: CreateVirtualAccount_def run_or_return) (auto simp: step_def intro!: exI [of _ 2])
  next
    case (Inr resp)
    with g show ?thesis
      by (simp add: CreateVirtualAccount_def run_or_return run_exec refused) (auto simp: step_def intro!: exI [of _ 3])
  qed
qed

lemma dispatch_misnamed:
  assumes "rx_method req = ''POST''"
  shows "rx_path req = [''api'', ''v1'', ''transfers'', ''bank''] \<Longrightarrow>
      dispatch a req = authenticated a req (transfer_InitiateBankTransfer a req)"
    and "rx_path req = [''api'', ''v1'', ''wallet'', ''virtual-account''] \<Longrightarrow>
      dispatch a req = authenticated a req (va_CreateVirtualAccount a)"
  using assms by (simp_all add: dispatch_def public_routes_def protected_routes_def v1_def)

text \<open>
  C22. The middleware stores the caller as \<open>userID\<close>; the handlers of bank transfers and of virtual
  accounts ask for \<open>user_id\<close> and \<open>wallet_id\<close>, which nobody sets. So for every user, token and body
  these two routes fail: no transfer starts, no account is recorded, and the tables stay as they are.
\<close>

theorem misnamed_context_key_disables_routes:
  assumes "rows_named s" and "rx_method req = ''POST''"
    and "rx_path req \<in> {[''api'', ''v1'', ''transfers'', ''bank''], [''api'', ''v1'', ''wallet'', ''virtual-account'']}"
  shows "status_of (fst (run_state (dispatch a req) s)) \<in> {400, 401, 422} \<and>
    (\<exists>k. snd (run_state (dispatch a req) s) = s\<lparr>tick := tick s + k\<rparr>)"
proof -
  obtain r s1 where auth: "run_state (Auth (as_jwt (ap_auth a)) (header req ''Authorization'')) s = (r, s1)" by fastforce
  then obtain k where s1: "s1 = s\<lparr>tick := tick s + k\<rparr>" by (rule quiet_run [OF quiet_Auth])
  then have named: "rows_named s1" using assms(1) by (simp add: rows_named_def)
  let ?fine = "\<lambda>h. status_of (fst (run_state (authenticated a req h) s)) \<in> {400, 401, 422} \<and>
    (\<exists>k. snd (run_state (authenticated a req h) s) = s\<lparr>tick := tick s + k\<rparr>)"
  have "?fine (transfer_InitiateBankTransfer a req) \<and> ?fine (va_CreateVirtualAccount a)"
  proof (cases r)
    case (Inl e)
    with auth s1 show ?thesis by (auto simp: authenticated_def reply_defs)
  next
    case (Inr c)
    have nobody: "GetString [(user_id_key, u)] ''user_id'' = []" "GetString [(user_id_key, u)] ''wallet_id'' = []" for u
      by (simp_all add: GetString_def user_id_key_def)
    from Inr auth have run: "run_state (authenticated a req h) s = run_state (h [(user_id_key, cl_user_id c)]) s1" for h
      by (intro run_authenticated) simp
    have "?fine (transfer_InitiateBankTransfer a req)"
    proof (cases "ShouldBindJSON d_bank_transfer_request zero_bank_transfer_request transfer_request_bound req")
      case (Inr q)
      from BankTransferHandler_nobody [OF named, of "ap_locks a" "ap_paystack a" "[]" q] obtain e k' where
        "run_state (BankTransferHandler (ap_locks a) (ap_paystack a) [] [] q) s1 = (Inl e, s1\<lparr>tick := tick s1 + k'\<rparr>)"
        by blast
      with Inr s1 show ?thesis
        by (auto simp: run transfer_InitiateBankTransfer_def bound_def nobody run_answer intro: exI [of _ "k + k'"])
    qed (simp add: run transfer_InitiateBankTransfer_def bound_def s1, blast)
    moreover have "?fine (va_CreateVirtualAccount a)"
    proof -
      let ?s = "GetString [(user_id_key, cl_user_id c)]"
      from CreateVirtualAccount_nobody [OF named, of "ap_paystack a" "?s ''full_name''" "?s ''email''" "?s ''phone_number''" "[]"]
      obtain e k' where "run_state (CreateVirtualAccount (ap_paystack a) [] (?s ''full_name'') (?s ''email'')
          (?s ''phone_number'') []) s1 = (Inl e, s1\<lparr>tick := tick s1 + k'\<rparr>)" by blast
      with s1 show ?thesis
        by (auto simp: run va_CreateVirtualAccount_def nobody run_answer intro: exI [of _ "k + k'"])
    qed
    ultimately show ?thesis ..
  qed
  moreover have "dispatch a req = authenticated a req (transfer_InitiateBankTransfer a req) \<or>
      dispatch a req = authenticated a req (va_CreateVirtualAccount a)"
    using assms(3) dispatch_misnamed [OF assms(2), of a] by blast
  ultimately show ?thesis by (elim disjE) (simp_all only: simp_thms)
qed

definition whole_transfer :: string where
  "whole_transfer = ''{\"bank_code\": \"058\", \"account_number\": \"0123456789\", \"account_name\": \"Bola\", \"amount_kobo\": 10000, \"pin\": \"1234\"}''"

lemma misnamed_context_key_disables_routes_witness:
  "status_of (fst (run_state (dispatch sample_api
     (sample_request ''Bearer token.t'' [''api'', ''v1'', ''transfers'', ''bank''] whole_transfer)) sample_world)) \<in> {400, 401, 422}"
proof -
  have "rows_named sample_world" by code_simp
  from misnamed_context_key_disables_routes [OF this, of
      "sample_request ''Bearer token.t'' [''api'', ''v1'', ''transfers'', ''bank''] whole_transfer" sample_api]
  show ?thesis by (simp add: sample_request_def)
qed

section \<open>Reading\<close>

lemma keeps_read_public:
  "on_tables P \<Longrightarrow> (''GET'', ps, f) \<in> set (public_routes a req) \<Longrightarrow> keeps P (f vs)"
  unfolding public_routes_def
  by (auto simp: travel_SearchBus_def travel_SearchFlights_def Let_def intro!: keeps_intros keeps_searches)

lemma keeps_read_protected:
  assumes P: "money_side P" and r: "(''GET'', ps, f) \<in> set (protected_routes a req)"
  shows "keeps P (f vs c)"
  using r unfolding protected_routes_def
  by (auto simp: handler_defs query_defs GetPointsBalance_def GetHistory_def Let_def
      intro!: keeps_intros money_side_on_tables [OF P] keeps_beside_loyalty [OF P] keeps_beside_transfers [OF P]
        keeps_beside_travel [OF P])

text \<open>
  C0. Reading moves no money: no \<open>GET\<close> request, with any path, query or token, changes a wallet, a
  transaction or a user.
\<close>

theorem reading_moves_no_money:
  assumes "rx_method req = ''GET''"
  shows "let s' = snd (run_state (handle a req redis) s)
    in wallets s' = wallets s \<and> transactions s' = transactions s \<and> users s' = users s"
proof -
  define P where "P = (\<lambda>x :: world. users x = users s \<and> wallets x = wallets s \<and> transactions x = transactions s)"
  have P: "money_side P" by (simp add: money_side_def P_def)
  have "keeps P (dispatch a req)"
    using assms unfolding dispatch_def
    by (auto split: option.split dest!: find_route_in
        intro!: keeps_return keeps_authenticated money_side_on_tables [OF P]
        intro: keeps_read_public [OF money_side_on_tables [OF P]] keeps_read_protected [OF P])
  then have "keeps P (handle a req redis)" by (rule keeps_handle [OF money_side_on_tables [OF P]])
  then have "P (snd (run_state (handle a req redis) s))" by (rule keepsD) (simp add: P_def)
  then show ?thesis by (simp add: P_def Let_def)
qed

definition read_request :: web_request where
  "read_request = \<lparr>rx_method = ''GET'', rx_path = [''api'', ''v1'', ''loyalty'', ''balance''],
     rx_headers = [(''Authorization'', ''Bearer token.t'')], rx_query = [], rx_body = Some [], rx_ip = ''10.0.0.1''\<rparr>"

lemma reading_moves_no_money_witness:
  "wallets (snd (run_state (handle sample_api read_request (\<lambda>_. (0, 0))) sample_world)) = wallets sample_world"
  using reading_moves_no_money [of read_request sample_api "\<lambda>_. (0, 0)" sample_world]
  by (simp add: read_request_def Let_def)

section \<open>Concrete requests\<close>

lemma requests_keep_tables_in_order_witness:
  "wallet_tables_ok (snd (handle_all sample_api
     [sample_request ''Bearer token.t'' [''api'', ''v1'', ''wallet'', ''fund''] made_up_funding, read_request]
     (\<lambda>_. (0, 0)) sample_world))"
proof -
  have "wallet_tables_ok sample_world" by code_simp
  then show ?thesis by (rule requests_keep_tables_in_order)
qed

lemma unauthorised_requests_move_no_money_witness:
  "map_option ac_balance (accounts (snd (handle_all sample_api
     [sample_request ''Bearer forged'' [''api'', ''v1'', ''wallet'', ''fund''] made_up_funding,
      sample_request [] [''webhooks'', ''flutterwave''] made_up_funding] (\<lambda>_. (0, 0)) sample_world)) ''ada'') = Some 100000"
proof -
  let ?reqs = "[sample_request ''Bearer forged'' [''api'', ''v1'', ''wallet'', ''fund''] made_up_funding,
      sample_request [] [''webhooks'', ''flutterwave''] made_up_funding]"
  have h: "header (?reqs ! 0) ''Authorization'' = ''Bearer forged''" "header (?reqs ! 1) ''Authorization'' = []"
    "split_once CHR '' '' ''Bearer forged'' = [''Bearer'', ''forged'']" "ToLower ''Bearer'' = ''bearer''" by code_simp+
  have "\<not> succeeded (fst (run_state (Auth (as_jwt (ap_auth sample_api)) (header req ''Authorization'')) s))"
    if "req \<in> set ?reqs" for req s
    using that h by (auto simp: Auth_def unauthorized_def Validate_def run_or_return sample_api_def sample_auth_def sample_jwt_def)
  moreover have "list_all (\<lambda>req. \<not> signed (ap_webhooks sample_api) (ToFlutterwave (webhook_of req)) \<and>
      \<not> signed (ap_webhooks sample_api) (ToMonnify (webhook_of req))) ?reqs"
    "wh_flutterwave_secret (ap_webhooks sample_api) \<noteq> []" "wh_monnify_secret (ap_webhooks sample_api) \<noteq> []" by code_simp+
  ultimately have "\<forall>u acc. accounts sample_world u = Some acc \<longrightarrow>
      accounts (snd (handle_all sample_api ?reqs (\<lambda>_. (0, 0)) sample_world)) u = Some acc"
    using unauthorised_requests_move_no_money [of sample_api ?reqs sample_world "\<lambda>_. (0, 0)"]
    by (auto simp: list_all_iff)
  moreover have "map_option ac_balance (accounts sample_world ''ada'') = Some 100000" by code_simp
  ultimately show ?thesis by auto
qed

lemma protected_routes_need_a_token_witness:
  "\<exists>k. snd (run_state (handle sample_api
     (sample_request ''Bearer forged'' [''api'', ''v1'', ''wallet'', ''fund''] made_up_funding) (\<lambda>_. (0, 0))) sample_world) =
   sample_world\<lparr>tick := tick sample_world + k\<rparr>"
proof -
  let ?req = "sample_request ''Bearer forged'' [''api'', ''v1'', ''wallet'', ''fund''] made_up_funding"
  have "find_route (public_routes sample_api ?req) (rx_method ?req) (rx_path ?req) = None"
    by (simp add: public_routes_def sample_request_def v1_def)
  moreover have h: "header ?req ''Authorization'' = ''Bearer forged''" by code_simp
  moreover have "split_once CHR '' '' ''Bearer forged'' = [''Bearer'', ''forged'']" "ToLower ''Bearer'' = ''bearer''"
    by code_simp+
  ultimately show ?thesis
    using protected_routes_need_a_token [of sample_api ?req "\<lambda>_. (0, 0)" sample_world]
    by (simp add: Auth_def Validate_def run_or_return sample_api_def sample_auth_def sample_jwt_def)
qed

end
