(* ===== verification/Notifications.thy ===== *)
theory Notifications
  imports Auth Json "HOL-Library.Sublist"
begin

text \<open>
  \<open>internal/notifications\<close>: the texts that are sent to users by SMS (Termii) and by e-mail (Brevo) and
  the requests that send them, over a transport that may fail. Payloads are \<open>any\<close> values.
\<close>

section \<open>SMS\<close>

record sms_service =
  sm_api_key :: string
  sm_base_url :: string
  sm_transport :: transport

definition NewSMSService :: "string \<Rightarrow> string \<Rightarrow> transport \<Rightarrow> sms_service" where
  "NewSMSService apiKey baseURL tr = \<lparr>sm_api_key = apiKey, sm_base_url = baseURL, sm_transport = tr\<rparr>"

definition termii_send_request :: "sms_service \<Rightarrow> string \<Rightarrow> string \<Rightarrow> any" where
  "termii_send_request s phone message = AMap
     [(''to'', AStr phone), (''from'', AStr ''FlipBills''), (''sms'', AStr message), (''type'', AStr ''plain''),
      (''channel'', AStr ''dnd''), (''api_key'', AStr (sm_api_key s))]"

definition sms_request :: "sms_service \<Rightarrow> string \<Rightarrow> string \<Rightarrow> http_request" where
  "sms_request s phone message = \<lparr>hq_method = ''POST'', hq_url = sm_base_url s @ ''/api/sms/send'',
     hq_headers = [(''Content-Type'', ''application/json'')], hq_body = Some (termii_send_request s phone message)\<rparr>"

text \<open>The response's status is read, its body is not.\<close>

definition post_message :: "transport \<Rightarrow> nat \<Rightarrow> http_request \<Rightarrow> string \<Rightarrow> string \<Rightarrow> unit res" where
  "post_message tr n req failed gateway =
     (case tp_new_request tr (hq_method req) (hq_url req) of
        Some e \<Rightarrow> Inl e
      | None \<Rightarrow> and_then (tp_do tr n req) (Wrap failed) (\<lambda>resp.
          if 400 \<le> hs_status resp
          then Inl (ErrMsg (gateway @ '' returned status '' @ show_int (hs_status resp))) else Inr ()))"

definition sms_send :: "sms_service \<Rightarrow> nat \<Rightarrow> string \<Rightarrow> string \<Rightarrow> unit res" where
  "sms_send s n phone message =
     post_message (sm_transport s) n (sms_request s phone message) ''SMS delivery failed'' ''SMS gateway''"

definition otp_sms :: "string \<Rightarrow> string \<Rightarrow> string" where
  "otp_sms purpose otp =
     (if purpose = ''phone_verify'' then ''Your Flip Bills verification code is '' @ otp @
        ''. Valid for 10 minutes. Do not share this code.''
      else if purpose = ''pin_reset'' then ''Your Flip Bills PIN reset code is '' @ otp @
        ''. Valid for 10 minutes. If you did not request this, contact support.''
      else if purpose = ''tx_auth'' then ''Your Flip Bills transaction authorisation code is '' @ otp @
        ''. Valid for 5 minutes.''
      else ''Your Flip Bills code is '' @ otp @ ''. Valid for 10 minutes.'')"

definition SMS_SendOTP :: "sms_service \<Rightarrow> nat \<Rightarrow> string \<Rightarrow> string \<Rightarrow> string \<Rightarrow> unit res" where
  "SMS_SendOTP s n phone otp purpose = sms_send s n phone (otp_sms purpose otp)"

text \<open>\<open>fmt.Sprintf\<close> with the naira sign and \<open>%.2f\<close> of \<open>float64(amountKobo)/100\<close>.\<close>

definition naira_text :: "int \<Rightarrow> string" where
  "naira_text amountKobo = naira_sign @ show_fixed2 (ngn_of amountKobo)"

definition debit_text :: "string \<Rightarrow> int \<Rightarrow> string" where
  "debit_text narration amountKobo = ''Flip Bills: '' @ naira_text amountKobo @ '' debited for '' @ narration @
     ''. If this was not you, call 0800-FLIP-BILLS immediately.''"

definition SendTransactionalAlert :: "sms_service \<Rightarrow> nat \<Rightarrow> string \<Rightarrow> string \<Rightarrow> int \<Rightarrow> unit res" where
  "SendTransactionalAlert s n phone narration amountKobo = sms_send s n phone (debit_text narration amountKobo)"

definition success_text :: "string \<Rightarrow> int \<Rightarrow> string \<Rightarrow> string \<Rightarrow> string" where
  "success_text narration amountKobo reference tok =
     (let msg = ''Flip Bills: '' @ naira_text amountKobo @ '' payment successful for '' @ narration @ ''. Ref: '' @
        reference @ ''.''
      in if tok \<noteq> [] then msg @ '' Token: '' @ tok @ ''.'' else msg)"

definition SMS_SendVASSuccessAlert :: "sms_service \<Rightarrow> nat \<Rightarrow> string \<Rightarrow> string \<Rightarrow> int \<Rightarrow> string \<Rightarrow> string \<Rightarrow> unit res" where
  "SMS_SendVASSuccessAlert s n phone narration amountKobo reference tok =
     sms_send s n phone (success_text narration amountKobo reference tok)"

definition refund_text :: "string \<Rightarrow> int \<Rightarrow> string \<Rightarrow> string" where
  "refund_text narration amountKobo reference = ''Flip Bills: Your '' @ naira_text amountKobo @ '' payment for '' @
     narration @ '' could not be completed and has been refunded. Ref: '' @ reference @ ''.''"

definition SMS_SendVASRefundAlert :: "sms_service \<Rightarrow> nat \<Rightarrow> string \<Rightarrow> string \<Rightarrow> int \<Rightarrow> string \<Rightarrow> unit res" where
  "SMS_SendVASRefundAlert s n phone narration amountKobo reference =
     sms_send s n phone (refund_text narration amountKobo reference)"

definition line_break :: string where
  "line_break = [CHR 0x0A]"

definition booking_text :: "string \<Rightarrow> string \<Rightarrow> string \<Rightarrow> string" where
  "booking_text ticketCode route departure = ''Flip Bills Booking Confirmed!'' @ line_break @ ''Route: '' @ route @
     line_break @ ''Departure: '' @ departure @ line_break @ ''Ticket: '' @ ticketCode @ line_break @
     ''Show this SMS if app is offline.''"

definition SendBookingConfirmation :: "sms_service \<Rightarrow> nat \<Rightarrow> string \<Rightarrow> string \<Rightarrow> string \<Rightarrow> string \<Rightarrow> unit res" where
  "SendBookingConfirmation s n phone ticketCode route departure =
     sms_send s n phone (booking_text ticketCode route departure)"

definition disruption_text :: "string \<Rightarrow> string \<Rightarrow> string \<Rightarrow> string \<Rightarrow> string \<Rightarrow> string \<Rightarrow> string" where
  "disruption_text passengerName ticketCode route departure reason bookingID = ''Flip Bills Alert: Hi '' @
     passengerName @ '', your trip '' @ route @ '' ('' @ ticketCode @ '') on '' @ departure @
     '' has been disrupted. Reason: '' @ reason @
     ''. Open the app to reschedule or get an instant refund. Booking ref: '' @ bookingID"

definition SendDisruptionAlert ::
  "sms_service \<Rightarrow> nat \<Rightarrow> string \<Rightarrow> string \<Rightarrow> string \<Rightarrow> string \<Rightarrow> string \<Rightarrow> string \<Rightarrow> string \<Rightarrow> unit res" where
  "SendDisruptionAlert s n phone passengerName ticketCode route departure reason bookingID =
     sms_send s n phone (disruption_text passengerName ticketCode route departure reason bookingID)"

section \<open>E-mail\<close>

record email_service =
  em_api_key :: string
  em_sender_email :: string
  em_sender_name :: string
  em_transport :: transport

definition NewEmailService :: "string \<Rightarrow> string \<Rightarrow> string \<Rightarrow> transport \<Rightarrow> email_service" where
  "NewEmailService apiKey senderEmail senderName tr =
     \<lparr>em_api_key = apiKey, em_sender_email = senderEmail, em_sender_name = senderName, em_transport = tr\<rparr>"

definition brevo_send_request :: "email_service \<Rightarrow> string \<Rightarrow> string \<Rightarrow> string \<Rightarrow> any" where
  "brevo_send_request e toEmail subject htmlContent = AMap
     [(''sender'', AMap [(''name'', AStr (em_sender_name e)), (''email'', AStr (em_sender_email e))]),
      (''to'', ASlice [AMap [(''email'', AStr toEmail)]]), (''subject'', AStr subject),
      (''htmlContent'', AStr htmlContent)]"

definition email_request :: "email_service \<Rightarrow> string \<Rightarrow> string \<Rightarrow> string \<Rightarrow> http_request" where
  "email_request e toEmail subject htmlContent =
     \<lparr>hq_method = ''POST'', hq_url = ''https://api.brevo.com/v3/smtp/email'',
      hq_headers = [(''Content-Type'', ''application/json''), (''Accept'', ''application/json''),
        (''api-key'', em_api_key e)],
      hq_body = Some (brevo_send_request e toEmail subject htmlContent)\<rparr>"

definition email_send :: "email_service \<Rightarrow> nat \<Rightarrow> string \<Rightarrow> string \<Rightarrow> string \<Rightarrow> unit res" where
  "email_send e n toEmail subject htmlContent =
     post_message (em_transport e) n (email_request e toEmail subject htmlContent) ''email delivery failed''
       ''email gateway''"

definition otp_subject :: "string \<Rightarrow> string \<times> string" where
  "otp_subject purpose =
     (if purpose = ''phone_verify'' then (''Verify your Flip Bills account'', ''Your verification code is'')
      else if purpose = ''pin_reset'' then (''Reset your Flip Bills PIN'', ''Your PIN reset code is'')
      else if purpose = ''tx_auth''
      then (''Authorise your Flip Bills transaction'', ''Your transaction authorisation code is'')
      else (''Your Flip Bills code'', ''Your code is''))"

definition indented :: "nat \<Rightarrow> string \<Rightarrow> string" where
  "indented n s = line_break @ replicate n (CHR 0x09) @ s"

definition quoted_attribute :: "string \<Rightarrow> string \<Rightarrow> string" where
  "quoted_attribute name v = name @ ''='' @ [CHR 0x22] @ v @ [CHR 0x22]"

definition otp_html :: "string \<Rightarrow> string \<Rightarrow> string" where
  "otp_html intro otp =
     indented 2 (''<div '' @ quoted_attribute ''style'' ''font-family: sans-serif; max-width: 480px; margin: 0 auto;'' @ ''>'') @
     indented 3 (''<h2 '' @ quoted_attribute ''style'' ''color: #0B6E4F;'' @ ''>Flip Bills</h2>'') @
     indented 3 (''<p>'' @ intro @ '':</p>'') @
     indented 3 (''<p '' @ quoted_attribute ''style''
       ''font-size: 32px; font-weight: bold; letter-spacing: 4px; color: #0B6E4F;'' @ ''>'' @ otp @ ''</p>'') @
     indented 3 ''<p>This code expires in 10 minutes. Do not share it with anyone.</p>'' @
     indented 3 (''<p '' @ quoted_attribute ''style'' ''color: #888; font-size: 12px;'' @
       ''>If you did not request this, you can safely ignore this email.</p>'') @
     indented 2 ''</div>''"

definition Email_SendOTP :: "email_service \<Rightarrow> nat \<Rightarrow> string \<Rightarrow> string \<Rightarrow> string \<Rightarrow> unit res" where
  "Email_SendOTP e n email otp purpose =
     (case otp_subject purpose of (subject, intro) \<Rightarrow> email_send e n email subject (otp_html intro otp))"

section \<open>What is sent\<close>

text \<open>A message has been sent exactly if the gateway answered a status below 400 to that request.\<close>

definition accepted :: "transport \<Rightarrow> nat \<Rightarrow> http_request \<Rightarrow> bool" where
  "accepted tr n req \<longleftrightarrow> tp_new_request tr (hq_method req) (hq_url req) = None \<and>
     (\<exists>resp. tp_do tr n req = Inr resp \<and> hs_status resp < 400)"

lemma post_message_accepted: "post_message tr n req f g = Inr () \<longleftrightarrow> accepted tr n req"
  by (auto simp: post_message_def accepted_def and_then_def not_le split: option.splits sum.splits if_splits)

lemma naira_text_exact: "0 \<le> k \<Longrightarrow> k < 2 ^ 51 \<Longrightarrow> naira_text k = naira_sign @ show_kobo k"
  by (simp add: naira_text_def show_fixed2_def ngn_of_kobo)

text \<open>Every message contains what it is about as it is.\<close>

lemma sublist_texts:
  "sublist otp (otp_sms purpose otp)" "sublist otp (otp_html intro otp)"
  "0 \<le> k \<Longrightarrow> k < 2 ^ 51 \<Longrightarrow> sublist (naira_sign @ show_kobo k @ '' debited for '' @ narration) (debit_text narration k)"
  "0 \<le> k \<Longrightarrow> k < 2 ^ 51 \<Longrightarrow> sublist (naira_sign @ show_kobo k) (success_text narration k reference tok)"
  "0 \<le> k \<Longrightarrow> k < 2 ^ 51 \<Longrightarrow> sublist (naira_sign @ show_kobo k) (refund_text narration k reference)"
  unfolding otp_sms_def otp_html_def debit_text_def success_text_def refund_text_def indented_def Let_def
  by (auto simp: naira_text_exact sublist_def simp del: append.simps) (metis append.assoc)+

section \<open>One-time codes\<close>

definition code_message :: "sms_service \<Rightarrow> email_service \<Rightarrow> string \<Rightarrow> string \<Rightarrow> string \<Rightarrow> string \<Rightarrow> transport \<times> http_request" where
  "code_message sm em phone email purpose otp =
     (if email \<noteq> [] then (em_transport em, email_request em email (fst (otp_subject purpose))
        (otp_html (snd (otp_subject purpose)) otp))
      else (sm_transport sm, sms_request sm phone (otp_sms purpose otp)))"

lemma code_message_sent:
  "Email_SendOTP em n email otp p = Inr () \<Longrightarrow> email \<noteq> [] \<Longrightarrow>
     accepted (fst (code_message sm em phone email p otp)) n (snd (code_message sm em phone email p otp))"
  "SMS_SendOTP sm n phone otp p = Inr () \<Longrightarrow>
     accepted (fst (code_message sm em phone [] p otp)) n (snd (code_message sm em phone [] p otp))"
  by (auto simp: code_message_def Email_SendOTP_def SMS_SendOTP_def email_send_def sms_send_def post_message_accepted
      split: prod.splits)

text \<open>
  C35. A code that was sent can be used: if sending a code to a user succeeds, then the gateway has accepted
  a message to that user, an e-mail if the user has an address and an SMS otherwise, that contains a
  code of six digits, and the database holds a token of that phone and purpose, not used, with the
  bcrypt hash of that very code, that expires ten minutes after the moment the code was made, or five when
  the code is for a transaction (that moment is the request's reading of the clock, its fourth step).
\<close>

theorem sent_code_is_stored:
  assumes "as_send_email a = Email_SendOTP em" and "as_send_sms a = SMS_SendOTP sm"
    and "run_state (sendOTP a phone email purpose) s = (Inr (), s')"
  shows "\<exists>otp hash n n' b t. otp = otp_digits b \<and> as_bcrypt a n 12 otp = Inr hash \<and>
    t \<in> set (otp_tokens s') \<and>
    o_expires_at t = time_at s (tick s + 3) + (if purpose = OTPTxAuth then 5 else 10) * 60 * 1000 \<and>
    o_hash t = hash \<and> o_phone t = phone \<and> o_purpose t = purpose \<and> \<not> o_used t \<and>
    (let (tr, msg) = code_message sm em phone email (purpose_text purpose) otp in accepted tr n' msg) \<and>
    sublist otp (if email \<noteq> [] then otp_html (snd (otp_subject (purpose_text purpose))) otp
                 else otp_sms (purpose_text purpose) otp)"
proof -
  from assms(3) obtain b hash n i x c s2 s3 where hash: "as_bcrypt a n 12 (otp_digits b) = Inr hash"
    and create: "run_state (CreateOTP \<lparr>o_id = i, o_phone = phone, o_hash = hash, o_purpose = purpose,
      o_expires_at = x, o_used = False, o_created_at = c\<rparr>) s2 = (Inr (), s3)" (is "run_state (CreateOTP ?t) s2 = _")
    and x: "x = time_at s (tick s + 3) + otp_ttl purpose"
    and send: "run_state (if email \<noteq> [] then call (\<lambda>n. as_send_email a n email (otp_digits b) (purpose_text purpose))
       else call (\<lambda>n. as_send_sms a n phone (otp_digits b) (purpose_text purpose))) s3 = (Inr (), s')"
    by (auto simp: sendOTP_def GenerateOTP_def HashPassword_def step_def numeral_3_eq_3 elim!: or_return_success)
  define otp where otp: "otp = otp_digits b"
  have "?t\<lparr>o_used := False\<rparr> \<in> set (otp_tokens s3)" using CreateOTP_success(1) [OF create] by simp
  moreover have "otp_tokens s' = otp_tokens s3" using send by (auto split: if_splits)
  moreover have "let (tr, msg) = code_message sm em phone email (purpose_text purpose) otp in accepted tr (tick s3) msg"
    using send code_message_sent(1) [of em "tick s3" email otp "purpose_text purpose" sm phone]
      code_message_sent(2) [of sm "tick s3" phone otp "purpose_text purpose" em]
    by (cases "email = []") (auto simp: assms(1,2) case_prod_unfold otp)
  moreover have "sublist otp (if email \<noteq> [] then otp_html (snd (otp_subject (purpose_text purpose))) otp
      else otp_sms (purpose_text purpose) otp)"
    by (simp add: sublist_texts)
  moreover have "x = time_at s (tick s + 3) + (if purpose = OTPTxAuth then 5 else 10) * 60 * 1000"
    using x by (simp add: otp_ttl_def)
  ultimately show ?thesis
    using otp hash
    by (intro exI [of _ otp] exI [of _ hash] exI [of _ n] exI [of _ "tick s3"] exI [of _ b]
        exI [of _ "?t\<lparr>o_used := False\<rparr>"] conjI) simp_all
qed

definition sample_mail :: email_service where
  "sample_mail = NewEmailService ''key'' ''no-reply@flip.ng'' ''Flip'' \<lparr>tp_new_request = (\<lambda>_ _. None),
     tp_do = (\<lambda>_ _. Inr \<lparr>hs_status = 201, hs_body = None\<rparr>)\<rparr>"

definition sample_sms :: sms_service where
  "sample_sms = NewSMSService ''key'' ''https://api'' \<lparr>tp_new_request = (\<lambda>_ _. None),
     tp_do = (\<lambda>_ _. Inl (ErrMsg ''timeout''))\<rparr>"

lemma sent_code_is_stored_witness:
  "\<exists>otp n. sublist otp (otp_html ''Your verification code is'' otp) \<and>
     accepted (em_transport sample_mail) n (email_request sample_mail ''ada@x.ng'' ''Verify your Flip Bills account''
       (otp_html ''Your verification code is'' otp))"
proof -
  let ?a = "sample_auth\<lparr>as_send_email := Email_SendOTP sample_mail, as_send_sms := SMS_SendOTP sample_sms\<rparr>"
  have "fst (run_state (sendOTP ?a ''+2348010000001'' ''ada@x.ng'' OTPPhoneVerify) sample_world) = Inr ()"
    by code_simp
  then obtain s' where "run_state (sendOTP ?a ''+2348010000001'' ''ada@x.ng'' OTPPhoneVerify) sample_world = (Inr (), s')"
    by (metis prod.collapse)
  from sent_code_is_stored [OF _ _ this, of sample_mail sample_sms]
  show ?thesis by (auto simp: code_message_def otp_subject_def purpose_text_def)
qed

end
