(* ===== verification/SearchCache.thy ===== *)
theory SearchCache
  imports Travel
begin

text \<open>
  \<open>internal/repository/mongo/travel_cache_repo.go\<close>: the collections behind the search cache and the
  audit of operator payloads. The database is a state of its own with the two collections, the indexes
  that were created, and, as functions of a tick, what \<open>time.Now()\<close> reads and whether the next command
  is executed. Times are in milliseconds, as BSON keeps them.

  The cache is shown to implement a map whose entries expire, whatever MongoDB's TTL monitor removes.
\<close>

section \<open>Documents and collections\<close>

record search_cache_doc =
  sd_cache_key :: string
  sd_results :: "document list"
  sd_cached_at :: time
  sd_expires_at :: time

record operator_payload_doc =
  od_booking_id :: string
  od_operator_code :: string
  od_raw_request :: document
  od_raw_response :: document
  od_created_at :: time

text \<open>An index: its collection, its key, and its option.\<close>

datatype index_option = ExpireAfter int | Unique | NoOption

type_synonym index = "string \<times> string \<times> index_option"

record travel_cache =
  ch_search :: "search_cache_doc list"
  ch_payloads :: "operator_payload_doc list"
  ch_indexes :: "index list"
  ch_tick :: nat
  ch_down :: "nat \<Rightarrow> goerr option"
  ch_clock :: "nat \<Rightarrow> time"

type_synonym 'a mongo = "(travel_cache, 'a res) state"

definition ch_now :: "(travel_cache, time) state" where
  "ch_now = State (\<lambda>c. (ch_clock c (ch_tick c), c\<lparr>ch_tick := Suc (ch_tick c)\<rparr>))"

text \<open>One command: it is executed, or fails and changes nothing.\<close>

definition command :: "(travel_cache \<Rightarrow> 'a res \<times> travel_cache) \<Rightarrow> 'a mongo" where
  "command f = State (\<lambda>c. let c' = c\<lparr>ch_tick := Suc (ch_tick c)\<rparr>
     in case ch_down c (ch_tick c) of Some e \<Rightarrow> (Inl e, c') | None \<Rightarrow> f c')"

definition CreateOne :: "index \<Rightarrow> unit mongo" where
  "CreateOne ix = command (\<lambda>c. (Inr (), c\<lparr>ch_indexes := List.insert ix (ch_indexes c)\<rparr>))"

definition ttl_index :: index where
  "ttl_index = (''travel_search_cache'', ''expires_at'', ExpireAfter 0)"

text \<open>The errors of the three commands are ignored.\<close>

definition ensureIndexes :: "(travel_cache, unit) state" where
  "ensureIndexes = do {
     _ \<leftarrow> CreateOne ttl_index;
     _ \<leftarrow> CreateOne (''travel_search_cache'', ''cache_key'', Unique);
     _ \<leftarrow> CreateOne (''operator_payloads'', ''booking_id'', NoOption);
     State_Monad.return ()
   }"

section \<open>Commands\<close>

definition no_documents :: goerr where
  "no_documents = ErrMsg ''mongo: no documents in result''"

text \<open>\<open>read\<close> is what the driver makes of a stored document when it is decoded into a map.\<close>

definition GetSearchCache :: "(document \<Rightarrow> document) \<Rightarrow> string \<Rightarrow> search_cache_doc mongo" where
  "GetSearchCache read key = do {
     now \<leftarrow> ch_now;
     command (\<lambda>c. (case find (\<lambda>d. sd_cache_key d = key \<and> now < sd_expires_at d) (ch_search c) of
        None \<Rightarrow> Inl no_documents
      | Some d \<Rightarrow> Inr (d\<lparr>sd_results := map read (sd_results d)\<rparr>), c))
   }"

fun upsert :: "string \<Rightarrow> search_cache_doc \<Rightarrow> search_cache_doc list \<Rightarrow> search_cache_doc list" where
  "upsert key doc [] = [doc]"
| "upsert key doc (d # ds) = (if sd_cache_key d = key then doc # ds else d # upsert key doc ds)"

definition ten_minutes :: time where
  "ten_minutes = 10 * 60 * 1000"

definition SetSearchCache :: "string \<Rightarrow> document list \<Rightarrow> unit mongo" where
  "SetSearchCache key results = do {
     cached \<leftarrow> ch_now;
     later \<leftarrow> ch_now;
     let doc = \<lparr>sd_cache_key = key, sd_results = results, sd_cached_at = cached, sd_expires_at = later + ten_minutes\<rparr>;
     command (\<lambda>c. (Inr (), c\<lparr>ch_search := upsert key doc (ch_search c)\<rparr>))
   }"

definition SaveOperatorPayload :: "operator_payload_doc \<Rightarrow> unit mongo" where
  "SaveOperatorPayload doc = do {
     now \<leftarrow> ch_now;
     command (\<lambda>c. (Inr (), c\<lparr>ch_payloads := ch_payloads c @ [doc\<lparr>od_created_at := now\<rparr>]\<rparr>))
   }"

text \<open>
  The TTL monitor: if the index exists, it removes documents that have expired, \<open>victims\<close> of them.
\<close>

definition sweep :: "(search_cache_doc \<Rightarrow> bool) \<Rightarrow> (travel_cache, unit) state" where
  "sweep victims = do {
     now \<leftarrow> ch_now;
     State (\<lambda>c. ((), if ttl_index \<in> set (ch_indexes c)
       then c\<lparr>ch_search := filter (\<lambda>d. \<not> (victims d \<and> sd_expires_at d \<le> now)) (ch_search c)\<rparr> else c))
   }"

section \<open>A map whose entries expire\<close>

datatype cache_op =
    Fetch string
  | Store_results string "document list"
  | Save_payload operator_payload_doc
  | Sweep "search_cache_doc \<Rightarrow> bool"

fun cache_step :: "cache_op \<Rightarrow> (travel_cache, unit) state" where
  "cache_step (Fetch key) = do { _ \<leftarrow> GetSearchCache id key; State_Monad.return () }"
| "cache_step (Store_results key results) = do { _ \<leftarrow> SetSearchCache key results; State_Monad.return () }"
| "cache_step (Save_payload doc) = do { _ \<leftarrow> SaveOperatorPayload doc; State_Monad.return () }"
| "cache_step (Sweep victims) = sweep victims"

fun run_cache :: "cache_op list \<Rightarrow> travel_cache \<Rightarrow> travel_cache" where
  "run_cache [] c = c"
| "run_cache (op # ops) c = run_cache ops (snd (run_state (cache_step op) c))"

type_synonym shelf = "string \<rightharpoonup> document list \<times> time"

definition on_shelf :: "shelf \<Rightarrow> time \<Rightarrow> string \<Rightarrow> document list option" where
  "on_shelf m now key = (case m key of Some (rs, e) \<Rightarrow> if now < e then Some rs else None | None \<Rightarrow> None)"

text \<open>The specification: only a store that is executed changes the map, and nothing is ever removed.\<close>

fun shelf_step :: "cache_op \<Rightarrow> (nat \<Rightarrow> goerr option) \<Rightarrow> (nat \<Rightarrow> time) \<Rightarrow> nat \<times> shelf \<Rightarrow> nat \<times> shelf" where
  "shelf_step (Store_results key rs) down clock (n, m) =
     (n + 3, if down (n + 2) = None then m(key \<mapsto> (rs, clock (n + 1) + ten_minutes)) else m)"
| "shelf_step (Fetch key) down clock (n, m) = (n + 2, m)"
| "shelf_step (Save_payload doc) down clock (n, m) = (n + 2, m)"
| "shelf_step (Sweep victims) down clock (n, m) = (n + 1, m)"

fun run_shelf :: "cache_op list \<Rightarrow> (nat \<Rightarrow> goerr option) \<Rightarrow> (nat \<Rightarrow> time) \<Rightarrow> nat \<times> shelf \<Rightarrow> nat \<times> shelf" where
  "run_shelf [] down clock nm = nm"
| "run_shelf (op # ops) down clock nm = run_shelf ops down clock (shelf_step op down clock nm)"

definition shelf_of :: "search_cache_doc list \<Rightarrow> shelf" where
  "shelf_of ds = map_of (map (\<lambda>d. (sd_cache_key d, (sd_results d, sd_expires_at d))) ds)"

text \<open>
  The simulation: keys are distinct, clocks and failures are those of the specification, and what the
  collection has lost has expired by now.
\<close>

definition shelved :: "travel_cache \<Rightarrow> nat \<times> shelf \<Rightarrow> bool" where
  "shelved c nm \<longleftrightarrow> distinct (map sd_cache_key (ch_search c)) \<and> ch_tick c = fst nm \<and>
     (\<forall>key now. ch_clock c (ch_tick c) \<le> now \<longrightarrow> on_shelf (shelf_of (ch_search c)) now key = on_shelf (snd nm) now key)"

lemma shelf_of_simps [simp]:
  "shelf_of [] = Map.empty"
  "shelf_of (d # ds) = (shelf_of ds)(sd_cache_key d \<mapsto> (sd_results d, sd_expires_at d))"
  by (simp_all add: shelf_of_def)

lemma shelf_of_None: "shelf_of ds key = None \<longleftrightarrow> key \<notin> sd_cache_key ` set ds"
  by (induction ds) auto

lemma shelf_of_upsert:
  "sd_cache_key doc = key \<Longrightarrow> distinct (map sd_cache_key ds) \<Longrightarrow>
     shelf_of (upsert key doc ds) = (shelf_of ds)(key \<mapsto> (sd_results doc, sd_expires_at doc))"
  by (induction ds) (auto simp: fun_upd_twist)

lemma upsert_keys: "sd_cache_key doc = key \<Longrightarrow> sd_cache_key ` set (upsert key doc ds) = insert key (sd_cache_key ` set ds)"
  by (induction ds) auto

lemma upsert_distinct:
  "sd_cache_key doc = key \<Longrightarrow> distinct (map sd_cache_key ds) \<Longrightarrow> distinct (map sd_cache_key (upsert key doc ds))"
  by (induction ds) (auto simp: upsert_keys)

lemma on_shelf_filter:
  assumes "distinct (map sd_cache_key ds)" and "t \<le> now"
  shows "on_shelf (shelf_of (filter (\<lambda>d. v d \<longrightarrow> \<not> sd_expires_at d \<le> t) ds)) now key = on_shelf (shelf_of ds) now key"
  using assms(1)
proof (induction ds)
  case (Cons d ds)
  let ?f = "filter (\<lambda>d. v d \<longrightarrow> \<not> sd_expires_at d \<le> t)"
  have "sd_cache_key d \<notin> sd_cache_key ` set ds" using Cons.prems by simp
  then have "shelf_of ds (sd_cache_key d) = None" "shelf_of (?f ds) (sd_cache_key d) = None"
    by (auto simp: shelf_of_None)
  with Cons assms(2) show ?case by (simp add: on_shelf_def)
qed simp

lemma on_shelf_upd: "on_shelf (m(key \<mapsto> x)) now k = (if k = key then on_shelf (\<lambda>_. Some x) now k else on_shelf m now k)"
  by (simp add: on_shelf_def)

lemma find_on_shelf:
  "distinct (map sd_cache_key ds) \<Longrightarrow>
     map_option sd_results (find (\<lambda>d. sd_cache_key d = key \<and> now < sd_expires_at d) ds) = on_shelf (shelf_of ds) now key"
proof (induction ds)
  case (Cons d ds)
  have new: "sd_cache_key d \<notin> sd_cache_key ` set ds" using Cons.prems by simp
  have none: "shelf_of ds (sd_cache_key d) = None" using new by (simp add: shelf_of_None)
  have "find (\<lambda>e. sd_cache_key e = sd_cache_key d \<and> now < sd_expires_at e) ds = None"
    unfolding find_None_iff
  proof
    assume "\<exists>x. x \<in> set ds \<and> sd_cache_key x = sd_cache_key d \<and> now < sd_expires_at x"
    then obtain x where "x \<in> set ds" "sd_cache_key d = sd_cache_key x" by auto
    then have "sd_cache_key d \<in> sd_cache_key ` set ds" by (rule rev_image_eqI)
    with new show False ..
  qed
  note none = none this
  from Cons show ?case
    by (cases "sd_cache_key d = key") (auto simp: on_shelf_def none)
qed (simp add: on_shelf_def)

lemma step_keeps_clocks:
  "ch_clock (snd (run_state (cache_step op) c)) = ch_clock c" "ch_down (snd (run_state (cache_step op) c)) = ch_down c"
  by (cases op; simp add: GetSearchCache_def SetSearchCache_def SaveOperatorPayload_def sweep_def ch_now_def
      command_def Let_def split: option.splits prod.splits)+

lemma step_shelved:
  assumes "shelved c nm" and "mono (ch_clock c)"
  shows "shelved (snd (run_state (cache_step op) c)) (shelf_step op (ch_down c) (ch_clock c) nm)"
proof -
  obtain n m where nm: "nm = (n, m)" by (cases nm)
  have t: "ch_tick c = n" and d: "distinct (map sd_cache_key (ch_search c))" and
    o: "\<And>key now. ch_clock c n \<le> now \<Longrightarrow> on_shelf (shelf_of (ch_search c)) now key = on_shelf m now key"
    using assms(1) by (auto simp: shelved_def nm)
  have le: "ch_clock c n \<le> ch_clock c (n + k)" for k using assms(2) by (simp add: monoD)
  have later: "ch_clock c (n + k) \<le> now \<Longrightarrow> on_shelf (shelf_of (ch_search c)) now key = on_shelf m now key" for k now key
    by (rule o [OF order_trans [OF le]])
  show ?thesis
  proof (cases op)
    case (Fetch key)
    with t d later [of 2] show ?thesis
      by (simp add: nm shelved_def GetSearchCache_def ch_now_def command_def Let_def split: option.splits)
  next
    case (Store_results key rs)
    with t d later [of 3] show ?thesis
      by (simp add: nm shelved_def SetSearchCache_def ch_now_def command_def Let_def shelf_of_upsert upsert_distinct
          on_shelf_upd numeral_3_eq_3 split: option.splits)
  next
    case (Save_payload doc)
    with t d later [of 2] show ?thesis
      by (simp add: nm shelved_def SaveOperatorPayload_def ch_now_def command_def Let_def split: option.splits)
  next
    case (Sweep v)
    with t d later [of 1] order_trans [OF le [of 1]] show ?thesis
      by (simp add: nm shelved_def sweep_def ch_now_def distinct_map_filter on_shelf_filter)
  qed
qed

lemma run_shelved:
  assumes "shelved c nm" and "mono (ch_clock c)"
  shows "shelved (run_cache ops c) (run_shelf ops (ch_down c) (ch_clock c) nm)"
  using assms
proof (induction ops arbitrary: c nm)
  case (Cons op ops)
  from Cons.IH [OF step_shelved [OF Cons.prems, of op]] Cons.prems(2) show ?case by (simp add: step_keeps_clocks)
qed simp

lemma run_keeps_clocks: "ch_clock (run_cache ops c) = ch_clock c" "ch_down (run_cache ops c) = ch_down c"
  by (induction ops arbitrary: c) (simp_all add: step_keeps_clocks)

text \<open>
  C37. The search cache implements a map whose entries expire: after any sequence of lookups, stores and
  audit entries, some of which fail, with the TTL monitor removing any expired documents at any time or
  none, and with a clock that does not run backwards, a lookup that is executed finds exactly the results of the last executed store of its key, if
  that store was less than ten minutes ago, and nothing otherwise.
\<close>

theorem search_cache_refines_expiring_map:
  assumes "ch_search c = []" and "mono (ch_clock c)"
  shows "let c' = run_cache ops c; (n, m) = run_shelf ops (ch_down c) (ch_clock c) (ch_tick c, Map.empty)
    in map_sum id sd_results (fst (run_state (GetSearchCache read key) c')) =
       (case ch_down c (n + 1) of
          Some e \<Rightarrow> Inl e
        | None \<Rightarrow> (case on_shelf m (ch_clock c n) key of None \<Rightarrow> Inl no_documents | Some rs \<Rightarrow> Inr (map read rs)))"
proof -
  obtain n m where nm: "run_shelf ops (ch_down c) (ch_clock c) (ch_tick c, Map.empty) = (n, m)" by force
  have "shelved c (ch_tick c, Map.empty)" using assms(1) by (simp add: shelved_def)
  from run_shelved [OF this assms(2), of ops] have s: "shelved (run_cache ops c) (n, m)" by (simp add: nm)
  then have t: "ch_tick (run_cache ops c) = n" and d: "distinct (map sd_cache_key (ch_search (run_cache ops c)))"
    and "on_shelf (shelf_of (ch_search (run_cache ops c))) (ch_clock c n) key = on_shelf m (ch_clock c n) key"
    by (simp_all add: shelved_def run_keeps_clocks)
  with find_on_shelf [OF d, of key "ch_clock c n"] show ?thesis
    by (auto simp: nm GetSearchCache_def ch_now_def command_def run_keeps_clocks split: option.splits)
qed

text \<open>A store, a lookup in time, and the sweep and lookup after eleven minutes.\<close>

definition empty_cache :: travel_cache where
  "empty_cache = \<lparr>ch_search = [], ch_payloads = [], ch_indexes = [ttl_index], ch_tick = 0, ch_down = (\<lambda>_. None),
     ch_clock = (\<lambda>n. if n < 6 then 1000 else 661001)\<rparr>"

lemma search_cache_refines_expiring_map_witness:
  "fst (run_state (GetSearchCache id ''k'') (run_cache [Store_results ''k'' [[(''a'', BInt64 1)]]] empty_cache)) =
     Inr \<lparr>sd_cache_key = ''k'', sd_results = [[(''a'', BInt64 1)]], sd_cached_at = 1000, sd_expires_at = 601000\<rparr> \<and>
   map_sum id sd_results (fst (run_state (GetSearchCache id ''k'')
     (run_cache [Store_results ''k'' [[(''a'', BInt64 1)]], Fetch ''k'', Fetch ''k'', Sweep (\<lambda>_. True)] empty_cache))) =
     Inl no_documents"
proof -
  have m: "mono (ch_clock empty_cache)" by (auto simp: mono_def empty_cache_def)
  have "ch_search empty_cache = []" by (simp add: empty_cache_def)
  from search_cache_refines_expiring_map [OF this m, of "[Store_results ''k'' [[(''a'', BInt64 1)]], Fetch ''k'', Fetch ''k'', Sweep (\<lambda>_. True)]" id "''k''"]
  show ?thesis
    by (simp add: empty_cache_def on_shelf_def ten_minutes_def GetSearchCache_def SetSearchCache_def ch_now_def command_def Let_def)
qed

end
