(* ===== verification/Wiring.thy ===== *)
theory Wiring
  imports ApiBooks BillClients Notifications Config
begin

text \<open>
  \<open>main\<close> of \<open>cmd/api/main.go\<close>: the services with what the configuration gives them. The fields of
  \<open>lib\<close> that are not set here stand for the libraries (cryptography, Redis, the driver of MongoDB) and for
  the clients of Paystack and Amadeus, which have theories of their own.
  Durations of the configuration are in nanoseconds, those of the services in milliseconds.
\<close>

section \<open>The services\<close>

definition ms_of_ns :: "int \<Rightarrow> int" where
  "ms_of_ns d = d div 10 ^ 6"

definition wire_auth :: "config \<Rightarrow> transport \<Rightarrow> auth_service \<Rightarrow> auth_service" where
  "wire_auth cfg tr a =
     a\<lparr>as_jwt := (as_jwt a)\<lparr>jm_secret := jc_secret (cf_jwt cfg), jm_access_ttl := ms_of_ns (jc_access_ttl (cf_jwt cfg)),
         jm_refresh_ttl := ms_of_ns (jc_refresh_ttl (cf_jwt cfg))\<rparr>,
       as_send_email := Email_SendOTP (NewEmailService (ec_api_key (cf_brevo cfg)) (ec_sender_email (cf_brevo cfg))
         (ec_sender_name (cf_brevo cfg)) tr),
       as_send_sms := SMS_SendOTP (NewSMSService (tc_termii_api_key (cf_sms cfg)) (tc_termii_base_url (cf_sms cfg)) tr)\<rparr>"

text \<open>The fallback aggregator is there if both of its credentials are.\<close>

definition monnify_fallback :: "config \<Rightarrow> transport \<Rightarrow> bill_provider option" where
  "monnify_fallback cfg tr =
     (if pc_monnify_api_key (cf_pay cfg) \<noteq> [] \<and> pc_monnify_secret (cf_pay cfg) \<noteq> []
      then Some (monnify_provider \<lparr>mc_api_key = pc_monnify_api_key (cf_pay cfg),
        mc_secret_key = pc_monnify_secret (cf_pay cfg), mc_base_url = pc_monnify_base_url (cf_pay cfg), mc_transport = tr\<rparr>)
      else None)"

definition wire_bills :: "config \<Rightarrow> transport \<Rightarrow> flutterwave_client option \<Rightarrow> flutterwave_client" where
  "wire_bills cfg tr lib =
     (case lib of
        Some c \<Rightarrow> NewFlutterwaveClient (pc_flutterwave_key (cf_pay cfg)) (pc_flutterwave_base_url (cf_pay cfg)) tr
          (fw_marshal_bill c) (fw_marshal_status c)
      | None \<Rightarrow> NewFlutterwaveClient (pc_flutterwave_key (cf_pay cfg)) (pc_flutterwave_base_url (cf_pay cfg)) tr
          (\<lambda>_. []) (\<lambda>_. []))"

definition operatorKeys :: "config \<Rightarrow> string \<rightharpoonup> string" where
  "operatorKeys cfg = [''GIGM'' \<mapsto> vc_gigm_dispatcher_key (cf_travel cfg), ''ABC'' \<mapsto> vc_abc_dispatcher_key (cf_travel cfg)]"

text \<open>\<open>day\<close> is \<open>Format("Mon 02 Jan 2006, 03:04 PM")\<close>.\<close>

definition wire_dispatcher :: "config \<Rightarrow> transport \<Rightarrow> (time \<Rightarrow> string) \<Rightarrow> dispatcher_service \<Rightarrow> dispatcher_service" where
  "wire_dispatcher cfg tr day v =
     (let sms = NewSMSService (tc_termii_api_key (cf_sms cfg)) (tc_termii_base_url (cf_sms cfg)) tr
      in v\<lparr>dv_operator_keys := operatorKeys cfg,
           dv_sms_disruption := (\<lambda>n b reason. SendDisruptionAlert sms n (b_passenger_phone b) (b_passenger_name b)
             (b_ticket_code b) (route (b_origin b) (b_destination b)) (day (b_departure_time b)) reason (b_id b)),
           dv_sms_confirmation := (\<lambda>n phone b. SendBookingConfirmation sms n phone (b_ticket_code b)
             (route (b_origin b) (b_destination b)) (day (b_departure_time b)))\<rparr>)"

definition wire_travel :: "config \<Rightarrow> transport \<Rightarrow> (nat \<Rightarrow> time) \<Rightarrow> (time \<Rightarrow> string) \<Rightarrow> travel_service \<Rightarrow> travel_service" where
  "wire_travel cfg tr clock day v =
     (let sms = NewSMSService (tc_termii_api_key (cf_sms cfg)) (tc_termii_base_url (cf_sms cfg)) tr
      in v\<lparr>tv_bus_operators := buildBusOperators clock,
           tv_sms := (\<lambda>n phone code where departure. SendBookingConfirmation sms n phone code where (day departure)),
           tv_loyalty := True, tv_qr_secret := vc_offline_qr_secret (cf_travel cfg)\<rparr>)"

definition wire :: "config \<Rightarrow> transport \<Rightarrow> (nat \<Rightarrow> time) \<Rightarrow> (time \<Rightarrow> string) \<Rightarrow> 'r api \<Rightarrow> 'r api" where
  "wire cfg tr clock day lib =
     (let bills = wire_bills cfg tr (ap_bills lib)
      in lib\<lparr>ap_auth := wire_auth cfg tr (ap_auth lib),
             ap_vas := (ap_vas lib)\<lparr>vs_bills := Some (flutterwave_provider bills),
               vs_fallback_bills := monnify_fallback cfg tr, vs_sms := True\<rparr>,
             ap_bills := Some bills,
             ap_dispatcher := wire_dispatcher cfg tr day (ap_dispatcher lib),
             ap_travel := wire_travel cfg tr clock day (ap_travel lib),
             ap_webhooks := (ap_webhooks lib)\<lparr>wh_loyalty := True,
               wh_flutterwave_secret := pc_flutterwave_webhook_secret (cf_pay cfg),
               wh_monnify_secret := pc_monnify_secret (cf_pay cfg)\<rparr>\<rparr>)"

section \<open>What the environment decides\<close>

lemma load_payment_simps [simp]:
  "pc_flutterwave_webhook_secret (load_payment env) = env ''FLUTTERWAVE_WEBHOOK_SECRET''"
  "pc_monnify_secret (load_payment env) = env ''MONNIFY_SECRET_KEY''"
  "pc_monnify_api_key (load_payment env) = env ''MONNIFY_API_KEY''"
  by (simp_all add: load_payment_def getEnv_def)

lemma Flutterwave_no_secret:
  "wh_flutterwave_secret h = [] \<Longrightarrow> wq_body req' = wq_body req \<Longrightarrow> Flutterwave h req' = Flutterwave h req"
  by (cases "wq_body req") (simp_all add: Flutterwave_def Let_def)

lemma Monnify_no_secret:
  "wh_monnify_secret h = [] \<Longrightarrow> wq_body req' = wq_body req \<Longrightarrow> Monnify h req' = Monnify h req"
  by (cases "wq_body req") (simp_all add: Monnify_def verifyMonnifySignature_def Let_def)

lemma webhook_of_body [simp]: "wq_body (webhook_of req) = rx_body req"
  by (simp add: webhook_of_def)

text \<open>The variable that holds the secret of a gateway's webhooks.\<close>

definition secret_variable :: "string \<Rightarrow> string" where
  "secret_variable gateway = (if gateway = ''flutterwave'' then ''FLUTTERWAVE_WEBHOOK_SECRET'' else ''MONNIFY_SECRET_KEY'')"

text \<open>
  The secrets of the webhooks have empty defaults, and an empty secret switches the check off: a
  server that was started without the secret of a gateway answers and settles every request to its
  webhook alike, whatever signature it carries, or none. So anybody can report a funding as paid.
\<close>

theorem unset_secret_opens_webhook:
  assumes "Load env = Inr cfg" and "gateway \<in> {''flutterwave'', ''monnify''}" and "env (secret_variable gateway) = []"
    and "rx_method req = ''POST''" and "rx_path req = [''webhooks'', gateway]"
  shows "dispatch (wire cfg tr clock day lib) (req\<lparr>rx_headers := hs\<rparr>) = dispatch (wire cfg tr clock day lib) req"
proof -
  let ?a = "wire cfg tr clock day lib"
  have pay: "cf_pay cfg = load_payment env" using Load_secrets(2) [OF assms(1)] by simp
  show ?thesis
  proof (cases "gateway = ''flutterwave''")
    case True
    have "wh_flutterwave_secret (ap_webhooks ?a) = []"
      using True assms(3) by (simp add: wire_def Let_def pay secret_variable_def)
    then have "Flutterwave (ap_webhooks ?a) (webhook_of (req\<lparr>rx_headers := hs\<rparr>)) = Flutterwave (ap_webhooks ?a) (webhook_of req)"
      by (rule Flutterwave_no_secret) simp
    with True assms(4,5) show ?thesis by (simp add: dispatch_def public_routes_def)
  next
    case False
    with assms(2) have m: "gateway = ''monnify''" by simp
    have "wh_monnify_secret (ap_webhooks ?a) = []"
      using m assms(3) by (simp add: wire_def Let_def pay secret_variable_def)
    then have "Monnify (ap_webhooks ?a) (webhook_of (req\<lparr>rx_headers := hs\<rparr>)) = Monnify (ap_webhooks ?a) (webhook_of req)"
      by (rule Monnify_no_secret) simp
    with m assms(4,5) show ?thesis by (simp add: dispatch_def public_routes_def)
  qed
qed

text \<open>An environment with the two variables the program insists on, and nothing else.\<close>

definition least_environment :: environment where
  "least_environment name = (if name \<in> {''JWT_SECRET'', ''OFFLINE_QR_SECRET''} then ''secret'' else [])"

lemma unset_secret_opens_webhook_witness:
  "\<exists>cfg. Load least_environment = Inr cfg \<and>
     dispatch (wire cfg (sample_transport []) (\<lambda>_. 0) (\<lambda>_. []) sample_api)
       ((sample_request [] [''webhooks'', ''monnify''] made_up_funding)\<lparr>rx_headers := [(''Monnify-Signature'', ''forged'')]\<rparr>) =
     dispatch (wire cfg (sample_transport []) (\<lambda>_. 0) (\<lambda>_. []) sample_api)
       (sample_request [] [''webhooks'', ''monnify''] made_up_funding)"
proof -
  obtain cfg where l: "Load least_environment = Inr cfg" using Load_secrets(1) [of least_environment] by (auto simp: least_environment_def)
  show ?thesis
    by (rule exI [of _ cfg], rule conjI [OF l], rule unset_secret_opens_webhook [OF l, of "''monnify''"])
      (simp_all add: least_environment_def secret_variable_def sample_request_def)
qed

end
