(* ===== verification/Spec2Isabelle.thy ===== *)
theory Spec2Isabelle
  imports WalletService Utilities UserRepo Ledger BankTransfers VirtualAccounts Loyalty Encoding Auth RateLimit Dispatcher Travel Webhooks Catalog PaymentClients Flights Polling ApiBooks Notifications Config SearchCache Wiring
begin

text \<open>
  A verification library for the Flip Bills backend (Go): wallets, bill payments, bank transfers,
  loyalty points, travel bookings and accounts of users, on one PostgreSQL database, behind one HTTP
  server.

  \<^bold>\<open>How the program is modelled.\<close> Every method is a program of the library's state monad over
  the record \<open>world\<close> (theory Store): the tables of \<open>migrations/\<close> as lists of rows, the
  started goroutines as a list of jobs, and three functions of a tick counter that say whether the
  next statement is executed, what \<open>time.Now()\<close> reads and which UUID is drawn. A theorem about all
  worlds is a theorem about all schedules of failing statements, clocks and identifiers. A method
  that returns \<open>(T, error)\<close> has the result type \<open>goerr + 'a\<close>, and \<open>or_return\<close> is Go's early
  return. The constraints of the schema are part of the statements. What answers over the network
  (bill aggregators, payment providers, Amadeus, the SMS and e-mail gateways, Redis, MongoDB) is an
  arbitrary function of the tick and of the request; what the clients make of the bytes of an answer
  is modelled. Cryptography (bcrypt, JWT, HMAC, SHA-256) and the formats of the validator package are
  arguments of the definitions.

  \<^bold>\<open>Theories, in the order of the imports.\<close>
  \<^item> Prelude: errors, \<open>int64\<close>, the early return, the calculus \<open>keeps\<close> of preserved predicates,
    rows of tables. GoStrings: what is used of Go's \<open>strings\<close>, \<open>strconv\<close> and \<open>fmt\<close>.
    Float64: \<open>float64\<close> with its rounding, \<open>ParseFloat\<close>, \<open>%.2f\<close>. Dates: the layouts of \<open>time.Parse\<close>
    that the code uses. Encoding: base64 and hex, with their round trip. Json: the JSON parser, the
    decoding into structs (\<open>d_struct\<close>, \<open>fld\<close>) and the HTTP exchange of the clients. Contracts: the
    locales of the interfaces (a purse of accounts, an operation that is safe to retry) with what
    follows from their laws.
  \<^item> Models: \<open>internal/models\<close>. Store: the world, statements, transactions, quiet calls.
  \<^item> WalletRepo, UserRepo (with the OTP repository), TravelRepo (with the dispatcher repository):
    \<open>internal/repository/postgres\<close>. WalletRepo also relates the wallet table to a map of accounts
    and interprets the purse on it.
  \<^item> WalletService, Reconciliation, Utilities, Polling: \<open>services/wallet\<close>, \<open>services/reconciliation\<close>,
    \<open>services/utilities\<close> (the payment flow, references, delivery polling with its ticker, the betting
    guard). BillClients, Catalog: \<open>flutterwave_client.go\<close>, \<open>monnify_client.go\<close>, \<open>catalog.go\<close>.
  \<^item> Ledger, BankTransfers, Providers, VirtualAccounts: \<open>internal/ledger\<close>, \<open>services/transfer\<close>,
    \<open>internal/providers\<close> (router and circuit breakers), \<open>services/virtualaccount\<close>.
    PaymentClients: \<open>providers/paystack\<close>, \<open>providers/opay\<close>, with Go's panics as values.
  \<^item> Loyalty: \<open>loyalty_repo.go\<close>, \<open>services/loyalty\<close>.
  \<^item> Auth, RateLimit: \<open>services/auth\<close>, \<open>pkg/jwt\<close>, \<open>pkg/crypto/hash.go\<close>, \<open>internal/middleware\<close>.
    Notifications: \<open>internal/notifications\<close>, every text and request of the SMS and e-mail services.
  \<^item> Tickets: \<open>pkg/crypto/qr.go\<close>. Dispatcher: \<open>services/dispatcher\<close>.
  \<^item> Operators, Travel: \<open>services/travel\<close>, with the sandbox bus operator of
    \<open>operators/travu_adapter.go\<close>. Flights: \<open>operators/amadeus.go\<close>, a state of its own with the token
    and the remembered offers.
  \<^item> Webhooks: \<open>handlers/webhooks\<close>. Http, Requests, Api: the request and reply of a handler
    (\<open>pkg/response\<close>), the request structs with their JSON and their binding tags, all handlers of
    \<open>internal/handlers\<close> and the routes of \<open>cmd/api/main.go\<close> with the rate limiter, CORS and the
    authentication in front; \<open>handle\<close> is the whole server on one request. ApiBooks: what holds of the
    server for every request and every sequence of requests.
  \<^item> SearchCache: \<open>repository/mongo/travel_cache_repo.go\<close>, a state of its own with two collections.
  \<^item> Config: \<open>internal/config\<close>, with \<open>Atoi\<close>, \<open>ParseBool\<close> and \<open>ParseDuration\<close>. Wiring: what \<open>main\<close> gives
    the services of the configuration.

  \<^bold>\<open>What the lemmas show.\<close> Each repository method has lemmas for its success and its failure under
  any schedule, and equations for a database without failures. The schema is an invariant
  (\<open>wallet_tables_ok\<close>, \<open>ledger_ok\<close>, \<open>loyalty_ok\<close>, \<open>auth_ok\<close>) that every operation keeps, and, through
  the handlers and routes, every request. On top of these stand the properties: what a payment, a
  funding, a transfer, a redemption or a refund may do to the accounts, under failures and without;
  idempotence of references and webhooks; what reaches a handler without a token; the circuit breaker
  as a refinement of an abstract circuit, the search cache as one of a map that expires; round trips of tokens and tickets; what the clients ask of
  the aggregators and make of their answers. Where the code does not do what it means to, a property
  states what it does instead.

  \<^bold>\<open>Bounds and fuel.\<close> Payments poll for the delivery a given number of times; Polling shows that the
  loop of the code, whose context has a deadline, ends and polls that often. The JSON parser gets one
  unit of fuel for each of \<open>2 * length + 2\<close> calls, more than the nesting of a text can need. Every other
  recursion is structural or has a measure. 64-bit arithmetic of Go wraps around (\<open>i64\<close>), \<open>BIGINT\<close>
  columns refuse what is out of range. Amounts that pass through \<open>float64\<close> are rounded as the hardware
  rounds them (\<open>float64\<close>), so that the properties on webhooks and payment links are about the numbers
  that really arise.

  \<^bold>\<open>Not modelled.\<close> Logging; opening connections, the timeouts and the shutdown of the server in
  \<open>main\<close>; the message queue, which no service uses; gin's redirects of paths with a wrong slash at the
  end.

  \<^bold>\<open>Limits of the model.\<close> Requests run one after the other; the one interleaving that is modelled is
  that of the two halves of a webhook settlement (WalletService). White space is that of ASCII
  (\<open>TrimSpace\<close>), and the lengths of \<open>VARCHAR\<close> columns are counted in bytes, so that a text with other
  characters can be refused earlier than by PostgreSQL. Identifiers in paths and tokens are taken to be
  well-formed: PostgreSQL answers an error to a malformed UUID where the model finds no row, and the code
  treats both alike. \<open>float_or_zero\<close> reads a number out of the range of \<open>float64\<close> as zero where Go has an
  infinity. A payment provider that panics (PaymentClients) is a panic of that theory only; the handlers
  of transfers and virtual accounts take a provider that answers. The cache of searches is an arbitrary
  function in Travel, and the clients of Paystack and Amadeus are arbitrary ones in Wiring.
\<close>

end
